(* ===== verification/Prelude.thy ===== *)
theory Prelude
  imports Main "HOL-Library.Word" "HOL-Library.Multiset" "HOL-Library.AList"
    "HOL-Library.List_Lexorder" "HOL-Library.Char_ord"
begin

text \<open>
  Shared vocabulary of the development: how a Go map, a Go map iteration, a Go slice header and
  the result of a call that may panic are represented, and the facts about lists, association
  lists and multisets that several components use.

  A Go map is an association list with distinct keys. Its iteration order is unspecified, so every
  definition that ranges over a map takes the order as an argument \<open>it\<close>, a function that returns
  the entries in the order in which they are visited; \<open>iterates it\<close> is what the language promises
  of it (each entry is visited exactly once).
\<close>

named_theorems go_defs \<open>definitions that are unfolded to run an operation\<close>
named_theorems inv_intro \<open>preservation lemmas of the components' invariants\<close>

subsection \<open>Iteration over maps\<close>

definition iterates :: "('a list \<Rightarrow> 'a list) \<Rightarrow> bool" where
  "iterates it \<longleftrightarrow> (\<forall>xs. mset (it xs) = mset xs)"

lemma iterates_id [simp, intro]: "iterates (\<lambda>xs. xs)"
  by (simp add: iterates_def)

lemma iterates_rev [simp, intro]: "iterates rev"
  by (simp add: iterates_def)

lemma iterates_mset: "iterates it \<Longrightarrow> mset (it xs) = mset xs"
  by (simp add: iterates_def)

lemma iterates_set: "iterates it \<Longrightarrow> set (it xs) = set xs"
  by (metis iterates_mset set_mset_mset)

lemma iterates_length: "iterates it \<Longrightarrow> length (it xs) = length xs"
  by (metis iterates_mset size_mset)

lemma iterates_distinct: "iterates it \<Longrightarrow> distinct (it xs) = distinct xs"
  by (metis iterates_mset mset_eq_imp_distinct_iff)

lemma iterates_nil [simp]: "iterates it \<Longrightarrow> it [] = []"
  using iterates_length [of it "[]"] by simp

lemma iterates_single: "iterates it \<Longrightarrow> it [x] = [x]"
  by (metis iterates_mset mset_single_iff)

lemma iterates_map_mset: "iterates it \<Longrightarrow> mset (map f (it xs)) = mset (map f xs)"
  by (simp add: iterates_mset)

subsection \<open>Association lists as maps\<close>

lemma map_of_update [simp]: "map_of (AList.update k v al) = (map_of al)(k \<mapsto> v)"
  by (simp add: update_conv')

lemma map_of_delete [simp]: "map_of (AList.delete k al) = (map_of al)(k := None)"
  by (simp add: delete_conv')

lemma distinct_delete_keys [simp]:
  "distinct (map fst al) \<Longrightarrow> distinct (map fst (AList.delete k al))"
  by (rule distinct_delete)

lemma distinct_update_keys [simp]:
  "distinct (map fst al) \<Longrightarrow> distinct (map fst (AList.update k v al))"
  by (rule distinct_update)

lemma mset_update_fresh:
  "k \<notin> fst ` set al \<Longrightarrow> mset (AList.update k v al) = add_mset (k, v) (mset al)"
  by (induction al) (auto split: if_splits)

lemma mset_delete:
  "distinct (map fst al) \<Longrightarrow> map_of al k = Some v
     \<Longrightarrow> add_mset (k, v) (mset (AList.delete k al)) = mset al"
proof (induction al)
  case (Cons p al)
  show ?case
  proof (cases "fst p = k")
    case True
    with Cons.prems have p: "p = (k, v)" by (cases p) auto
    have "AList.delete k al = al"
      using Cons.prems(1) True by (auto intro!: delete_idem)
    with p show ?thesis by (simp add: AList.delete_eq)
  next
    case False
    with Cons show ?thesis by (cases p) (auto simp: AList.delete_eq)
  qed
qed simp

lemma map_of_distinct_mset:
  "distinct (map fst al) \<Longrightarrow> mset al = mset bl \<Longrightarrow> map_of al = map_of bl"
proof -
  assume d: "distinct (map fst al)" and m: "mset al = mset bl"
  then have "distinct (map fst bl)"
    by (metis mset_eq_imp_distinct_iff mset_map)
  moreover have "set al = set bl"
    using m by (metis set_mset_mset)
  ultimately show ?thesis
    using d by (metis map_of_inject_set)
qed

subsection \<open>Outcomes of calls\<close>

text \<open>
  A call that may panic returns the state it leaves behind together with an outcome: \<open>Ret\<close> the
  value returned, or \<open>Panic\<close> the argument of \<open>panic\<close>.
\<close>

datatype 'a outcome = Ret 'a | Panic string

primrec panicked :: "'a outcome \<Rightarrow> bool" where
  "panicked (Ret _) = False"
| "panicked (Panic _) = True"

subsection \<open>Lists\<close>

lemma sort_idem [simp]: "sort (sort (xs :: 'a :: linorder list)) = sort xs"
  by (simp add: sorted_sort_id)

lemma sort_eq_nil [simp]: "sort xs = [] \<longleftrightarrow> xs = []"
  by (metis set_empty set_sort)

lemma nth_update_keeps: "f x = f (xs ! a) \<Longrightarrow> f (xs[a := x] ! b) = f (xs ! b)"
  by (cases "a = b"; cases "a < length xs") (simp_all add: list_update_beyond)

lemma distinct_map_filter_fst:
  "distinct (map fst xs) \<Longrightarrow> distinct (map fst (filter P xs))"
  by (induction xs) auto

end
