(* ===== verification/Instance_Cache.thy ===== *)
theory Instance_Cache
  imports Prelude
begin

text \<open>
  Package sd (file sd/instancer.go) and sd/internal/instance/cache.go: the cache that every
  instancer keeps its current set of instances in, and the registry of channels it pushes updates
  to.

  A Go slice of strings is shared between the holders of its header, so instances are modelled
  with an explicit store: \<open>heap\<close> lists the backing arrays allocated so far, a slice is the address
  of one of them, and \<open>None\<close> is the nil slice. \<open>sort_Strings\<close> sorts in place, as sort.Strings does.
  A send on a channel is an element of the trace that an operation returns; \<open>Update\<close> and \<open>Register\<close>
  return once each of their sends has been received. Errors are compared as reflect.DeepEqual
  compares them, so the type \<open>'e\<close> stands for the deep value of an error.
\<close>

type_synonym heap = "string list list"
type_synonym slice = "nat option"
type_synonym chan = nat

record 'e event =
  Instances :: slice
  Err :: "'e option"

definition deref :: "heap \<Rightarrow> slice \<Rightarrow> string list option" where
  "deref h s = map_option (\<lambda>a. h ! a) s"

definition sort_Strings :: "heap \<Rightarrow> slice \<Rightarrow> heap" where
  "sort_Strings h s = (case s of None \<Rightarrow> h | Some a \<Rightarrow> h[a := sort (h ! a)])"

definition DeepEqual :: "heap \<Rightarrow> 'e event \<Rightarrow> 'e event \<Rightarrow> bool" where
  "DeepEqual h e f \<longleftrightarrow> deref h (Instances e) = deref h (Instances f) \<and> Err e = Err f"

definition copyEvent :: "heap \<Rightarrow> 'e event \<Rightarrow> heap \<times> 'e event" where
  "copyEvent h e = (case Instances e of
       None \<Rightarrow> (h, e)
     | Some a \<Rightarrow> (h @ [h ! a], e\<lparr>Instances := Some (length h)\<rparr>))"

subsection \<open>The registry\<close>

type_synonym registry = "chan list"

definition registry_register :: "registry \<Rightarrow> chan \<Rightarrow> registry" where
  "registry_register r c = (if c \<in> set r then r else r @ [c])"

definition registry_deregister :: "registry \<Rightarrow> chan \<Rightarrow> registry" where
  "registry_deregister r c = removeAll c r"

fun broadcast_to :: "chan list \<Rightarrow> heap \<Rightarrow> 'e event \<Rightarrow> heap \<times> (chan \<times> 'e event) list" where
  "broadcast_to [] h e = (h, [])"
| "broadcast_to (c # cs) h e =
     (let (h1, eventCopy) = copyEvent h e; (h2, sends) = broadcast_to cs h1 e
      in (h2, (c, eventCopy) # sends))"

definition registry_broadcast ::
  "(chan list \<Rightarrow> chan list) \<Rightarrow> registry \<Rightarrow> heap \<Rightarrow> 'e event \<Rightarrow> heap \<times> (chan \<times> 'e event) list" where
  "registry_broadcast it r h e = broadcast_to (it r) h e"

subsection \<open>The cache\<close>

record 'e Cache =
  state :: "'e event"
  reg :: registry

definition NewCache :: "'e Cache" where
  "NewCache = \<lparr>state = \<lparr>Instances = None, Err = None\<rparr>, reg = []\<rparr>"

definition Cache_Update ::
  "(chan list \<Rightarrow> chan list) \<Rightarrow> heap \<Rightarrow> 'e Cache \<Rightarrow> 'e event
     \<Rightarrow> heap \<times> 'e Cache \<times> (chan \<times> 'e event) list" where
  "Cache_Update it h c event =
     (let h1 = sort_Strings h (Instances event) in
      if DeepEqual h1 (state c) event then (h1, c, [])
      else
        let c1 = c\<lparr>state := event\<rparr>;
            (h2, sends) = registry_broadcast it (reg c1) h1 event
        in (h2, c1, sends))"

definition Cache_State :: "heap \<Rightarrow> 'e Cache \<Rightarrow> heap \<times> 'e event" where
  "Cache_State h c = copyEvent h (state c)"

definition Cache_Stop :: "'e Cache \<Rightarrow> 'e Cache" where
  "Cache_Stop c = c"

definition Cache_Register ::
  "heap \<Rightarrow> 'e Cache \<Rightarrow> chan \<Rightarrow> heap \<times> 'e Cache \<times> (chan \<times> 'e event) list" where
  "Cache_Register h c ch =
     (let c1 = c\<lparr>reg := registry_register (reg c) ch\<rparr>;
          (h1, eventCopy) = copyEvent h (state c1)
      in (h1, c1, [(ch, eventCopy)]))"

definition Cache_Deregister :: "'e Cache \<Rightarrow> chan \<Rightarrow> 'e Cache" where
  "Cache_Deregister c ch = c\<lparr>reg := registry_deregister (reg c) ch\<rparr>"

text \<open>An instancer with a fixed list pushes its own slice, not a copy, to every channel.\<close>

definition FixedInstancer_Register :: "slice \<Rightarrow> chan \<Rightarrow> (chan \<times> 'e event) list" where
  "FixedInstancer_Register d ch = [(ch, \<lparr>Instances = d, Err = None\<rparr>)]"

subsection \<open>Values of events\<close>

type_synonym 'e evalue = "string list option \<times> 'e option"

definition evalue :: "heap \<Rightarrow> 'e event \<Rightarrow> 'e evalue" where
  "evalue h e = (deref h (Instances e), Err e)"

definition valid :: "heap \<Rightarrow> slice \<Rightarrow> bool" where
  "valid h s \<longleftrightarrow> (\<forall>a. s = Some a \<longrightarrow> a < length h)"

definition addrs :: "slice \<Rightarrow> nat set" where
  "addrs s = set_option s"

definition sorted_value :: "'e evalue \<Rightarrow> 'e evalue" where
  "sorted_value v = (map_option sort (fst v), snd v)"

lemma deref_simps [simp]: "deref h None = None" "deref h (Some a) = Some (h ! a)"
  by (simp_all add: deref_def)

lemma valid_simps [simp]: "valid h None" "valid h (Some a) \<longleftrightarrow> a < length h"
  by (auto simp: valid_def)

lemma addrs_simps [simp]: "addrs None = {}" "addrs (Some a) = {a}"
  by (simp_all add: addrs_def)

lemma length_sort_Strings [simp]: "length (sort_Strings h s) = length h"
  by (simp add: sort_Strings_def split: option.splits)

lemma deref_sort_Strings_same: "valid h s \<Longrightarrow> deref (sort_Strings h s) s = map_option sort (deref h s)"
  by (cases s) (simp_all add: sort_Strings_def)

lemma deref_sort_Strings_other: "addrs s \<inter> addrs t = {} \<Longrightarrow> deref (sort_Strings h s) t = deref h t"
  by (cases s; cases t) (auto simp: sort_Strings_def)

lemma deref_append [simp]: "valid h s \<Longrightarrow> deref (h @ k) s = deref h s"
  by (cases s) (simp_all add: nth_append)

lemma evalue_append [simp]: "valid h (Instances e) \<Longrightarrow> evalue (h @ k) e = evalue h e"
  by (simp add: evalue_def)

lemma DeepEqual_evalue: "DeepEqual h e f \<longleftrightarrow> evalue h e = evalue h f"
  by (auto simp: DeepEqual_def evalue_def)

text \<open>A copy has the value of the original and, unless it is nil, a new backing array.\<close>

lemma copyEvent_props:
  assumes "copyEvent h e = (h', e')" and "valid h (Instances e)"
  obtains k where "h' = h @ k" and "evalue h' e' = evalue h e" and "valid h' (Instances e')"
    and "addrs (Instances e') \<subseteq> {length h..<length h'}"
proof (cases "Instances e")
  case None
  with assms show ?thesis
    using that [of "[]"] by (auto simp: copyEvent_def)
next
  case (Some a)
  with assms show ?thesis
    using that [of "[h ! a]"] by (auto simp: copyEvent_def evalue_def nth_append)
qed

text \<open>
  What a broadcast does: the store only grows, each channel of the list is sent to once and in
  order, every value sent is the event's, and no two receivers share a backing array.
\<close>

definition fresh_sends :: "nat \<Rightarrow> heap \<Rightarrow> (chan \<times> 'e event) list \<Rightarrow> bool" where
  "fresh_sends n h sends \<longleftrightarrow>
     (\<forall>p \<in> set sends. valid h (Instances (snd p)) \<and> addrs (Instances (snd p)) \<subseteq> {n..<length h}) \<and>
     (\<forall>i < length sends. \<forall>j < length sends. i \<noteq> j \<longrightarrow>
        addrs (Instances (snd (sends ! i))) \<inter> addrs (Instances (snd (sends ! j))) = {})"

lemma fresh_sends_Nil [simp]: "fresh_sends n h []"
  by (simp add: fresh_sends_def)

lemma fresh_sends_Cons:
  assumes "fresh_sends m h sends" and "n \<le> m" and "m \<le> length h"
    and "addrs (Instances e) \<subseteq> {n..<m}"
  shows "fresh_sends n h ((c, e) # sends)"
proof -
  have sep: "addrs (Instances e) \<inter> addrs (Instances (snd (sends ! j))) = {}"
    if "j < length sends" for j
  proof -
    have "sends ! j \<in> set sends" using that by simp
    then have "addrs (Instances (snd (sends ! j))) \<subseteq> {m..<length h}"
      using assms(1) by (auto simp: fresh_sends_def)
    then show ?thesis using assms(4) by force
  qed
  have val: "valid h (Instances e)"
    using assms(3,4) by (cases "Instances e") auto
  show ?thesis
    unfolding fresh_sends_def
  proof (intro conjI allI impI)
    show "\<forall>p \<in> set ((c, e) # sends).
        valid h (Instances (snd p)) \<and> addrs (Instances (snd p)) \<subseteq> {n..<length h}"
      using assms val by (fastforce simp: fresh_sends_def)
  next
    fix i j assume "i < length ((c, e) # sends)" "j < length ((c, e) # sends)" "i \<noteq> j"
    then show "addrs (Instances (snd (((c, e) # sends) ! i)))
        \<inter> addrs (Instances (snd (((c, e) # sends) ! j))) = {}"
      using sep assms(1)
      by (cases i; cases j) (auto simp: fresh_sends_def Int_commute)
  qed
qed

lemma broadcast_to_props:
  assumes "valid h (Instances e)" and "broadcast_to cs h e = (h', sends)"
  shows "\<exists>k. h' = h @ k" and "map fst sends = cs"
    and "\<forall>p \<in> set sends. evalue h' (snd p) = evalue h e" and "fresh_sends (length h) h' sends"
proof -
  have "(\<exists>k. h' = h @ k) \<and> map fst sends = cs \<and> (\<forall>p \<in> set sends. evalue h' (snd p) = evalue h e)
      \<and> fresh_sends (length h) h' sends"
    using assms
  proof (induction cs arbitrary: h h' sends)
    case (Cons c cs)
    obtain h1 e1 where cp: "copyEvent h e = (h1, e1)" by (cases "copyEvent h e")
    obtain h2 s2 where b: "broadcast_to cs h1 e = (h2, s2)" by (cases "broadcast_to cs h1 e")
    from copyEvent_props [OF cp Cons.prems(1)] obtain k
      where h1: "h1 = h @ k" and v1: "evalue h1 e1 = evalue h e" and val1: "valid h1 (Instances e1)"
        and a1: "addrs (Instances e1) \<subseteq> {length h..<length h1}" .
    have ve: "valid h1 (Instances e)" using Cons.prems(1) by (cases "Instances e") (auto simp: h1)
    from Cons.IH [OF ve b]
    obtain l where h2: "h2 = h1 @ l" and fs: "map fst s2 = cs"
      and v2: "\<forall>p \<in> set s2. evalue h2 (snd p) = evalue h1 e" and fr: "fresh_sends (length h1) h2 s2"
      by auto
    have eq: "h' = h2" "sends = (c, e1) # s2" using Cons.prems(2) by (simp_all add: cp b)
    have "evalue h2 e1 = evalue h e" using v1 val1 by (simp add: h2)
    moreover have "evalue h1 e = evalue h e" using Cons.prems(1) by (simp add: h1)
    moreover have "fresh_sends (length h) h2 ((c, e1) # s2)"
      using fr a1 by (rule_tac fresh_sends_Cons [of "length h1"]) (auto simp: h1 h2)
    ultimately show ?case using fs v2 by (auto simp: eq h1 h2)
  qed simp
  then show "\<exists>k. h' = h @ k" "map fst sends = cs"
    "\<forall>p \<in> set sends. evalue h' (snd p) = evalue h e" "fresh_sends (length h) h' sends"
    by blast+
qed

subsection \<open>Operations of the cache on values\<close>

lemma addrs_disjoint_valid:
  "valid h s \<Longrightarrow> (\<forall>a \<in> addrs t. length h \<le> a) \<Longrightarrow> addrs s \<inter> addrs t = {}"
  by (cases s; cases t) auto

text \<open>
  \<open>Update\<close> with an event whose slice is not the one in the cache: the state's value becomes the
  event's with its instances sorted. If that is the value the cache already had, nothing is sent
  and the old slice is kept; otherwise every registered channel gets it, each in an array of its own.
\<close>

lemma Cache_Update_props:
  assumes "Cache_Update it h c e = (h', c', sends)" and "iterates it"
    and "valid h (Instances e)" and "valid h (Instances (state c))"
    and "addrs (Instances (state c)) \<inter> addrs (Instances e) = {}"
  shows "reg c' = reg c"
    and "evalue h' (state c') = sorted_value (evalue h e)"
    and "state c' = e \<or> state c' = state c"
    and "\<exists>k. h' = sort_Strings h (Instances e) @ k"
    and "fresh_sends (length h) h' sends"
    and "\<forall>p \<in> set sends. evalue h' (snd p) = sorted_value (evalue h e)"
    and "sends = [] \<and> evalue h (state c) = sorted_value (evalue h e) \<and> c' = c
         \<or> mset (map fst sends) = mset (reg c) \<and> evalue h (state c) \<noteq> sorted_value (evalue h e)"
proof -
  let ?h1 = "sort_Strings h (Instances e)"
  have v1: "evalue ?h1 e = sorted_value (evalue h e)"
    using assms(3) by (simp add: evalue_def sorted_value_def deref_sort_Strings_same)
  have vc: "evalue ?h1 (state c) = evalue h (state c)"
    using assms(5) by (simp add: evalue_def deref_sort_Strings_other Int_commute)
  have ve: "valid ?h1 (Instances e)" using assms(3) by (cases "Instances e") auto
  have all: "reg c' = reg c \<and> evalue h' (state c') = sorted_value (evalue h e)
      \<and> (state c' = e \<or> state c' = state c) \<and> (\<exists>k. h' = ?h1 @ k) \<and> fresh_sends (length h) h' sends
      \<and> (\<forall>p \<in> set sends. evalue h' (snd p) = sorted_value (evalue h e))
      \<and> (sends = [] \<and> evalue h (state c) = sorted_value (evalue h e) \<and> c' = c
         \<or> mset (map fst sends) = mset (reg c) \<and> evalue h (state c) \<noteq> sorted_value (evalue h e))"
  proof (cases "DeepEqual ?h1 (state c) e")
    case True
    then have "h' = ?h1" "c' = c" "sends = []"
      using assms(1) by (simp_all add: Cache_Update_def Let_def)
    with True show ?thesis using v1 vc by (simp add: DeepEqual_evalue)
  next
    case False
    obtain h2 s2 where b: "broadcast_to (it (reg c)) ?h1 e = (h2, s2)"
      by (cases "broadcast_to (it (reg c)) ?h1 e")
    have eq: "h' = h2" "c' = c\<lparr>state := e\<rparr>" "sends = s2"
      using assms(1) False b
      by (simp_all add: Cache_Update_def Let_def registry_broadcast_def)
    note bp = broadcast_to_props [OF ve b]
    from bp(1) obtain k where k: "h2 = ?h1 @ k" by blast
    have "evalue h2 e = sorted_value (evalue h e)" using v1 ve by (simp add: k)
    moreover have "mset (map fst s2) = mset (reg c)"
      using bp(2) iterates_mset [OF assms(2)] by simp
    moreover have "evalue h (state c) \<noteq> sorted_value (evalue h e)"
      using False v1 vc by (simp add: DeepEqual_evalue)
    ultimately show ?thesis
      using bp(3,4) v1 by (simp add: eq k)
  qed
  then show "reg c' = reg c" "evalue h' (state c') = sorted_value (evalue h e)"
    "state c' = e \<or> state c' = state c" "\<exists>k. h' = ?h1 @ k" "fresh_sends (length h) h' sends"
    "\<forall>p \<in> set sends. evalue h' (snd p) = sorted_value (evalue h e)"
    "sends = [] \<and> evalue h (state c) = sorted_value (evalue h e) \<and> c' = c
     \<or> mset (map fst sends) = mset (reg c) \<and> evalue h (state c) \<noteq> sorted_value (evalue h e)"
    by blast+
qed

lemma Cache_Register_props:
  assumes "Cache_Register h c ch = (h', c', sends)" and "valid h (Instances (state c))"
  obtains k e where "h' = h @ k" and "c' = c\<lparr>reg := registry_register (reg c) ch\<rparr>"
    and "sends = [(ch, e)]" and "evalue h' e = evalue h (state c)" and "valid h' (Instances e)"
    and "addrs (Instances e) \<subseteq> {length h..<length h'}"
proof -
  obtain h1 e where cp: "copyEvent h (state c) = (h1, e)" by (cases "copyEvent h (state c)")
  have eq: "h' = h1" "c' = c\<lparr>reg := registry_register (reg c) ch\<rparr>" "sends = [(ch, e)]"
    using assms(1) cp by (simp_all add: Cache_Register_def Let_def)
  from copyEvent_props [OF cp assms(2)] show thesis
    using that eq by metis
qed

subsection \<open>The cache with its observers\<close>

text \<open>
  \<open>owned\<close> are the arrays handed to observers, which they may overwrite at any time (the comment
  on \<open>copyEvent\<close>); \<open>got\<close> is the value each channel received last. An instancer publishes an event
  in an array that nobody else holds, as all the instancers of package sd do.
\<close>

definition alloc :: "heap \<Rightarrow> string list option \<Rightarrow> heap \<times> slice" where
  "alloc h v = (case v of None \<Rightarrow> (h, None) | Some xs \<Rightarrow> (h @ [xs], Some (length h)))"

record 'e observed =
  store :: heap
  cache :: "'e Cache"
  owned :: "nat set"
  got :: "chan \<Rightarrow> 'e evalue option"

definition owned_by :: "(chan \<times> 'e event) list \<Rightarrow> nat set" where
  "owned_by sends = (\<Union>p \<in> set sends. addrs (Instances (snd p)))"

definition received :: "heap \<Rightarrow> (chan \<times> 'e event) list \<Rightarrow> (chan \<Rightarrow> 'e evalue option)
    \<Rightarrow> chan \<Rightarrow> 'e evalue option" where
  "received h sends g = fold (\<lambda>p f. f(fst p \<mapsto> evalue h (snd p))) sends g"

inductive observed_step :: "'e observed \<Rightarrow> 'e observed \<Rightarrow> bool" where
  publish: "iterates it \<Longrightarrow> alloc (store s) v = (h1, sl) \<Longrightarrow>
     Cache_Update it h1 (cache s) \<lparr>Instances = sl, Err = err\<rparr> = (h2, c2, sends) \<Longrightarrow>
     observed_step s (s\<lparr>store := h2, cache := c2, owned := owned s \<union> owned_by sends,
       got := received h2 sends (got s)\<rparr>)"
| register: "Cache_Register (store s) (cache s) ch = (h2, c2, sends) \<Longrightarrow>
     observed_step s (s\<lparr>store := h2, cache := c2, owned := owned s \<union> owned_by sends,
       got := received h2 sends (got s)\<rparr>)"
| deregister: "observed_step s (s\<lparr>cache := Cache_Deregister (cache s) ch\<rparr>)"
| ask: "Cache_State (store s) (cache s) = (h2, e) \<Longrightarrow>
     observed_step s (s\<lparr>store := h2, owned := owned s \<union> addrs (Instances e)\<rparr>)"
| overwrite: "a \<in> owned s \<Longrightarrow> observed_step s (s\<lparr>store := (store s)[a := xs]\<rparr>)"

definition observed_init :: "'e observed" where
  "observed_init = \<lparr>store = [], cache = NewCache, owned = {}, got = (\<lambda>_. None)\<rparr>"

inductive observed_reach :: "'e observed \<Rightarrow> bool" where
  init: "observed_reach observed_init"
| step: "observed_reach s \<Longrightarrow> observed_step s t \<Longrightarrow> observed_reach t"

definition current :: "'e observed \<Rightarrow> 'e evalue" where
  "current s = evalue (store s) (state (cache s))"

definition observed_inv :: "'e observed \<Rightarrow> bool" where
  "observed_inv s \<longleftrightarrow>
     valid (store s) (Instances (state (cache s)))
     \<and> addrs (Instances (state (cache s))) \<inter> owned s = {}
     \<and> owned s \<subseteq> {..<length (store s)}
     \<and> distinct (reg (cache s))
     \<and> sorted_value (current s) = current s
     \<and> (\<forall>ch \<in> set (reg (cache s)). got s ch = Some (current s))"

lemma received_props:
  assumes "\<forall>p \<in> set sends. evalue h (snd p) = v"
  shows "received h sends g ch = (if ch \<in> fst ` set sends then Some v else g ch)"
  using assms
proof (induction sends arbitrary: g)
  case (Cons p sends)
  then show ?case by (auto simp: received_def)
qed (simp add: received_def)

lemma fresh_sends_owned: "fresh_sends n h sends \<Longrightarrow> owned_by sends \<subseteq> {n..<length h}"
  unfolding fresh_sends_def owned_by_def by blast

lemma evalue_sort_list [simp]: "sorted_value (sorted_value v) = sorted_value v"
  by (cases v) (simp add: sorted_value_def option.map_comp comp_def)

lemma addrs_valid: "valid h s \<longleftrightarrow> addrs s \<subseteq> {..<length h}"
  by (cases s) auto

lemma range_disjoint: "A \<subseteq> {..<n} \<Longrightarrow> B \<subseteq> {n..<m} \<Longrightarrow> A \<inter> B = {}" for n m :: nat
  by fastforce

lemma alloc_props:
  assumes "alloc h v = (h1, sl)"
  shows "\<exists>k. h1 = h @ k" and "valid h1 sl" and "deref h1 sl = v" and "addrs sl \<subseteq> {length h..<length h1}"
  using assms by (auto simp: alloc_def split: option.splits)

lemma valid_append: "valid h s \<Longrightarrow> valid (h @ k) s"
  by (cases s) auto

lemma evalue_update_other: "a \<notin> addrs (Instances e) \<Longrightarrow> evalue (h[a := xs]) e = evalue h e"
  by (cases "Instances e") (auto simp: evalue_def)

subsection \<open>The invariant\<close>

lemma observed_inv_init: "observed_inv observed_init"
  by (simp add: observed_inv_def observed_init_def NewCache_def current_def evalue_def sorted_value_def)

lemma observed_inv_publish:
  assumes inv: "observed_inv s" and it: "iterates it" and al: "alloc (store s) v = (h1, sl)"
    and up: "Cache_Update it h1 (cache s) \<lparr>Instances = sl, Err = err\<rparr> = (h2, c2, sends)"
  shows "observed_inv (s\<lparr>store := h2, cache := c2, owned := owned s \<union> owned_by sends,
    got := received h2 sends (got s)\<rparr>)" (is "observed_inv ?t")
proof -
  let ?e = "\<lparr>Instances = sl, Err = err\<rparr>"
  from alloc_props [OF al] obtain k where h1: "h1 = store s @ k" and vsl: "valid h1 sl"
    and asl: "addrs sl \<subseteq> {length (store s)..<length h1}" by auto
  have vst: "valid h1 (Instances (state (cache s)))"
    using inv unfolding h1 by (intro valid_append) (simp add: observed_inv_def)
  have sep: "addrs (Instances (state (cache s))) \<inter> addrs (Instances ?e) = {}"
    using inv asl range_disjoint [OF _ asl] by (simp add: observed_inv_def addrs_valid)
  note u = Cache_Update_props [OF up it _ vst sep]
  have u: "reg c2 = reg (cache s)" "evalue h2 (state c2) = sorted_value (evalue h1 ?e)"
    "state c2 = ?e \<or> state c2 = state (cache s)" "\<exists>k. h2 = sort_Strings h1 sl @ k"
    "fresh_sends (length h1) h2 sends"
    "\<forall>p \<in> set sends. evalue h2 (snd p) = sorted_value (evalue h1 ?e)"
    "sends = [] \<and> evalue h1 (state (cache s)) = sorted_value (evalue h1 ?e) \<and> c2 = cache s
     \<or> mset (map fst sends) = mset (reg (cache s))"
    using u vsl by auto
  from u(4) have len: "length h1 \<le> length h2" by auto
  have ow: "owned_by sends \<subseteq> {length h1..<length h2}" using fresh_sends_owned [OF u(5)] .
  have st: "addrs (Instances (state c2)) \<subseteq> {..<length h1}"
    using u(3) vst vsl by (auto simp: addrs_valid)
  have own: "owned s \<subseteq> {..<length (store s)}" using inv by (simp add: observed_inv_def)
  have disj: "addrs (Instances (state c2)) \<inter> owned s = {}"
    using u(3) inv range_disjoint [OF own asl] by (auto simp: observed_inv_def)
  have gots: "received h2 sends (got s) ch = Some (current ?t)" if "ch \<in> set (reg c2)" for ch
  proof -
    have cur: "current ?t = sorted_value (evalue h1 ?e)" using u(2) by (simp add: current_def)
    show ?thesis
    proof (cases "sends = []")
      case False
      with u(7) have "set (map fst sends) = set (reg (cache s))"
        by (metis set_mset_mset)
      with that show ?thesis
        using received_props [OF u(6), of "got s" ch] cur u(1) by auto
    next
      case True
      show ?thesis
      proof (cases "reg (cache s)")
        case Nil
        then show ?thesis using that u(1) by simp
      next
        case (Cons c cs)
        with True u(7) have same: "evalue h1 (state (cache s)) = sorted_value (evalue h1 ?e)"
          by auto
        have "evalue h1 (state (cache s)) = current s"
          using inv by (simp add: current_def h1 observed_inv_def)
        then show ?thesis
          using inv that u(1) True same cur by (simp add: observed_inv_def received_def)
      qed
    qed
  qed
  have "valid h2 (Instances (state c2))" using st len by (auto simp: addrs_valid)
  moreover have "addrs (Instances (state c2)) \<inter> (owned s \<union> owned_by sends) = {}"
    using disj st ow by fastforce
  moreover have "owned s \<union> owned_by sends \<subseteq> {..<length h2}"
    using own ow len h1 by auto
  moreover have "sorted_value (current ?t) = current ?t" using u(2) by (simp add: current_def)
  ultimately show ?thesis
    using gots inv u(1) by (simp add: observed_inv_def)
qed

lemma observed_inv_register:
  assumes inv: "observed_inv s" and re: "Cache_Register (store s) (cache s) ch = (h2, c2, sends)"
  shows "observed_inv (s\<lparr>store := h2, cache := c2, owned := owned s \<union> owned_by sends,
    got := received h2 sends (got s)\<rparr>)" (is "observed_inv ?t")
proof -
  have v: "valid (store s) (Instances (state (cache s)))" using inv by (simp add: observed_inv_def)
  from Cache_Register_props [OF re v] obtain k e where r: "h2 = store s @ k"
    "c2 = (cache s)\<lparr>reg := registry_register (reg (cache s)) ch\<rparr>" "sends = [(ch, e)]"
    "evalue h2 e = evalue (store s) (state (cache s))"
    "addrs (Instances e) \<subseteq> {length (store s)..<length h2}" by metis
  have cur: "current ?t = current s" using v by (simp add: current_def r)
  have "evalue h2 e = current s" using r(4) by (simp add: current_def)
  then have "\<forall>x \<in> set (reg c2). received h2 sends (got s) x = Some (current s)"
    using inv by (auto simp: r received_def registry_register_def observed_inv_def)
  moreover have "distinct (reg c2)"
    using inv by (simp add: r registry_register_def observed_inv_def)
  moreover have "addrs (Instances (state (cache s))) \<inter> owned_by sends = {}"
    using range_disjoint [OF _ r(5)] v by (simp add: r(3) owned_by_def addrs_valid)
  moreover have "owned_by sends \<subseteq> {..<length h2}" using r(5) by (auto simp: r(3) owned_by_def)
  ultimately show ?thesis
    using inv v valid_append [OF v] cur by (auto simp: observed_inv_def r(1,2))
qed

lemma observed_inv_step: "observed_step s t \<Longrightarrow> observed_inv s \<Longrightarrow> observed_inv t"
proof (induction rule: observed_step.induct)
  case (publish it s v h1 sl err h2 c2 sends)
  then show ?case by (blast intro: observed_inv_publish)
next
  case (register s ch h2 c2 sends)
  then show ?case by (blast intro: observed_inv_register)
next
  case (deregister s ch)
  then show ?case
    by (auto simp: observed_inv_def current_def Cache_Deregister_def registry_deregister_def
        distinct_removeAll)
next
  case (ask s h2 e)
  then have v: "valid (store s) (Instances (state (cache s)))" by (simp add: observed_inv_def)
  from ask copyEvent_props [OF _ v, of h2 e] obtain k where
    k: "h2 = store s @ k" "addrs (Instances e) \<subseteq> {length (store s)..<length h2}"
    by (metis Cache_State_def)
  then show ?case
    using ask(2) v valid_append [OF v] range_disjoint [OF _ k(2)]
    by (auto simp: observed_inv_def current_def addrs_valid Int_Un_distrib)
next
  case (overwrite a s xs)
  then have "a \<notin> addrs (Instances (state (cache s)))" by (auto simp: observed_inv_def)
  with overwrite show ?case
    by (auto simp: observed_inv_def current_def evalue_update_other addrs_valid)
qed

lemma observed_reach_inv: "observed_reach s \<Longrightarrow> observed_inv s"
  by (induction rule: observed_reach.induct) (blast intro: observed_inv_init observed_inv_step)+

subsection \<open>The interface of an event source\<close>

text \<open>
  What the rest of package sd relies on in an Instancer: a registered channel is told the current
  set at once, every later change is pushed to every registered channel exactly once, and nothing
  else is sent. \<open>in_sync\<close> is what an observer gains from it: the last event it received is current.
\<close>

datatype 'v source_op = Publish 'v | Listen chan | Unlisten chan

definition last_for :: "chan \<Rightarrow> (chan \<times> 'v) list \<Rightarrow> 'v option" where
  "last_for ch out = map_of (rev out) ch"

lemma last_for_append: "last_for ch (o1 @ o2) = (case last_for ch o2 of None \<Rightarrow> last_for ch o1 | Some v \<Rightarrow> Some v)"
  by (simp add: last_for_def map_add_def split: option.splits)

lemma last_for_Nil [simp]: "last_for ch [] = None"
  by (simp add: last_for_def)

lemma last_for_None: "last_for ch out = None \<longleftrightarrow> ch \<notin> set (map fst out)"
  by (simp add: last_for_def map_of_eq_None_iff)

lemma last_for_SomeD: "last_for ch out = Some w \<Longrightarrow> (ch, w) \<in> set out"
  by (auto simp: last_for_def dest: map_of_SomeD)

locale event_source =
  fixes inv :: "'s \<Rightarrow> bool" and value_of :: "'s \<Rightarrow> 'v" and listens :: "'s \<Rightarrow> chan set"
    and publish :: "'v \<Rightarrow> 's \<Rightarrow> 's \<times> (chan \<times> 'v) list"
    and listen :: "chan \<Rightarrow> 's \<Rightarrow> 's \<times> (chan \<times> 'v) list"
    and unlisten :: "chan \<Rightarrow> 's \<Rightarrow> 's"
    and norm :: "'v \<Rightarrow> 'v"
  assumes publish_law: "inv s \<Longrightarrow> publish v s = (s', out) \<Longrightarrow>
      inv s' \<and> listens s' = listens s \<and> value_of s' = norm v \<and>
      (out = [] \<and> value_of s = norm v \<or>
       distinct (map fst out) \<and> set (map fst out) = listens s \<and> snd ` set out \<subseteq> {norm v})"
    and listen_law: "inv s \<Longrightarrow> listen ch s = (s', out) \<Longrightarrow>
      inv s' \<and> value_of s' = value_of s \<and> listens s' = insert ch (listens s) \<and> out = [(ch, value_of s)]"
    and unlisten_law: "inv s \<Longrightarrow>
      inv (unlisten ch s) \<and> value_of (unlisten ch s) = value_of s \<and> listens (unlisten ch s) = listens s - {ch}"
begin

fun do_op :: "'v source_op \<Rightarrow> 's \<Rightarrow> 's \<times> (chan \<times> 'v) list" where
  "do_op (Publish v) s = publish v s"
| "do_op (Listen ch) s = listen ch s"
| "do_op (Unlisten ch) s = (unlisten ch s, [])"

fun do_ops :: "'v source_op list \<Rightarrow> 's \<Rightarrow> 's \<times> (chan \<times> 'v) list" where
  "do_ops [] s = (s, [])"
| "do_ops (x # xs) s = (let (s1, o1) = do_op x s; (s2, o2) = do_ops xs s1 in (s2, o1 @ o2))"

lemma do_op_step:
  assumes "inv s" and "do_op x s = (s', out)"
  shows "inv s'"
    and "ch \<in> listens s' \<Longrightarrow> last_for ch out = Some (value_of s')
         \<or> last_for ch out = None \<and> ch \<in> listens s \<and> value_of s = value_of s'"
proof -
  have "inv s' \<and> (ch \<in> listens s' \<longrightarrow> last_for ch out = Some (value_of s')
      \<or> last_for ch out = None \<and> ch \<in> listens s \<and> value_of s = value_of s')"
  proof (cases x)
    case (Publish v)
    with assms have p: "publish v s = (s', out)" by simp
    note l = publish_law [OF assms(1) p]
    show ?thesis
    proof (cases "ch \<in> set (map fst out)")
      case True
      then obtain w where w: "last_for ch out = Some w"
        by (cases "last_for ch out") (simp_all add: last_for_None del: set_map)
      then have "(ch, w) \<in> set out" by (rule last_for_SomeD)
      moreover have "out \<noteq> []" using True by auto
      ultimately have "w = norm v" using l by force
      then show ?thesis using l w by simp
    next
      case False
      then have n: "last_for ch out = None" by (simp add: last_for_None del: set_map)
      then show ?thesis using l False by auto
    qed
  next
    case (Listen c)
    with assms listen_law [OF assms(1), of c s' out] show ?thesis
      by (auto simp: last_for_def)
  next
    case (Unlisten c)
    with assms unlisten_law [OF assms(1), of c] show ?thesis
      by (auto simp: last_for_def)
  qed
  then show "inv s'" and "ch \<in> listens s' \<Longrightarrow> last_for ch out = Some (value_of s')
      \<or> last_for ch out = None \<and> ch \<in> listens s \<and> value_of s = value_of s'" by blast+
qed

lemma do_ops_in_sync:
  "inv s \<Longrightarrow> do_ops xs s = (s', out) \<Longrightarrow> ch \<in> listens s' \<Longrightarrow>
     last_for ch out = Some (value_of s') \<or> last_for ch out = None \<and> ch \<in> listens s \<and> value_of s = value_of s'"
proof (induction xs arbitrary: s out)
  case (Cons x xs)
  obtain s1 o1 where a: "do_op x s = (s1, o1)" by (cases "do_op x s")
  obtain s2 o2 where b: "do_ops xs s1 = (s2, o2)" by (cases "do_ops xs s1")
  have eq: "s' = s2" "out = o1 @ o2" using Cons.prems(2) by (simp_all add: a b)
  have "inv s1" using do_op_step(1) [OF Cons.prems(1) a] .
  from Cons.IH [OF this, of o2] b eq Cons.prems(3)
  have "last_for ch o2 = Some (value_of s2)
      \<or> last_for ch o2 = None \<and> ch \<in> listens s1 \<and> value_of s1 = value_of s2" by simp
  then consider "last_for ch o2 = Some (value_of s2)"
    | "last_for ch o2 = None" "ch \<in> listens s1" "value_of s1 = value_of s2" by auto
  then show ?case
  proof cases
    case 1
    then show ?thesis by (simp add: eq last_for_append)
  next
    case 2
    then show ?thesis
      using do_op_step(2) [OF Cons.prems(1) a 2(2)] by (simp add: eq last_for_append)
  qed
qed simp

lemma in_sync:
  "inv s \<Longrightarrow> do_ops xs s = (s', out) \<Longrightarrow> ch \<in> listens s' \<Longrightarrow> ch \<notin> listens s
     \<Longrightarrow> last_for ch out = Some (value_of s')"
  using do_ops_in_sync by blast

end

text \<open>
  The cache provides the interface: its state here carries the iteration order of the registry, and
  the values published and received are those of the events.
\<close>

type_synonym 'e source = "(chan list \<Rightarrow> chan list) \<times> heap \<times> 'e Cache"

definition source_inv :: "'e source \<Rightarrow> bool" where
  "source_inv s = (case s of (it, h, c) \<Rightarrow>
     iterates it \<and> distinct (reg c) \<and> valid h (Instances (state c)))"

definition source_value :: "'e source \<Rightarrow> 'e evalue" where
  "source_value s = (case s of (it, h, c) \<Rightarrow> evalue h (state c))"

definition source_listens :: "'e source \<Rightarrow> chan set" where
  "source_listens s = (case s of (it, h, c) \<Rightarrow> set (reg c))"

definition sent_values :: "heap \<Rightarrow> (chan \<times> 'e event) list \<Rightarrow> (chan \<times> 'e evalue) list" where
  "sent_values h sends = map (map_prod id (evalue h)) sends"

definition source_publish :: "'e evalue \<Rightarrow> 'e source \<Rightarrow> 'e source \<times> (chan \<times> 'e evalue) list" where
  "source_publish v s = (case s of (it, h, c) \<Rightarrow>
     let (h1, sl) = alloc h (fst v);
         (h2, c2, sends) = Cache_Update it h1 c \<lparr>Instances = sl, Err = snd v\<rparr>
     in ((it, h2, c2), sent_values h2 sends))"

definition source_listen :: "chan \<Rightarrow> 'e source \<Rightarrow> 'e source \<times> (chan \<times> 'e evalue) list" where
  "source_listen ch s = (case s of (it, h, c) \<Rightarrow>
     let (h2, c2, sends) = Cache_Register h c ch in ((it, h2, c2), sent_values h2 sends))"

definition source_unlisten :: "chan \<Rightarrow> 'e source \<Rightarrow> 'e source" where
  "source_unlisten ch s = (case s of (it, h, c) \<Rightarrow> (it, h, Cache_Deregister c ch))"

lemma source_publish_law:
  fixes s :: "'e source"
  assumes "source_inv s" and "source_publish v s = (s', out)"
  shows "source_inv s' \<and> source_listens s' = source_listens s \<and> source_value s' = sorted_value v \<and>
      (out = [] \<and> source_value s = sorted_value v \<or>
       distinct (map fst out) \<and> set (map fst out) = source_listens s \<and> snd ` set out \<subseteq> {sorted_value v})"
proof -
  obtain it h c where s: "s = (it, h, c)" by (cases s)
  obtain h1 sl where al: "alloc h (fst v) = (h1, sl)" by (cases "alloc h (fst v)")
  obtain h2 c2 sends where up: "Cache_Update it h1 c \<lparr>Instances = sl, Err = snd v\<rparr> = (h2, c2, sends)"
    by (cases "Cache_Update it h1 c \<lparr>Instances = sl, Err = snd v\<rparr>")
  from assms have i: "iterates it" "distinct (reg c)" "valid h (Instances (state c))"
    and eq: "s' = (it, h2, c2)" "out = sent_values h2 sends"
    by (auto simp: source_inv_def source_publish_def s al up)
  note a = alloc_props [OF al]
  from a(1) obtain k where h1: "h1 = h @ k" by blast
  have v1: "valid h1 (Instances (state c))" using valid_append [OF i(3)] by (simp add: h1)
  have sep: "addrs (Instances (state c)) \<inter> addrs (Instances \<lparr>Instances = sl, Err = snd v\<rparr>) = {}"
    using range_disjoint [OF _ a(4)] i(3) by (simp add: addrs_valid)
  have ev: "evalue h1 \<lparr>Instances = sl, Err = snd v\<rparr> = v" using a(3) by (simp add: evalue_def)
  have u: "reg c2 = reg c" "evalue h2 (state c2) = sorted_value v"
    "state c2 = \<lparr>Instances = sl, Err = snd v\<rparr> \<or> state c2 = state c"
    "\<exists>k. h2 = sort_Strings h1 sl @ k" "\<forall>p \<in> set sends. evalue h2 (snd p) = sorted_value v"
    "sends = [] \<and> evalue h1 (state c) = sorted_value v \<and> c2 = c \<or> mset (map fst sends) = mset (reg c)"
    using Cache_Update_props [OF up i(1) _ v1 sep] a(2) ev by auto
  have v2: "valid h2 (Instances (state c2))"
    using u(3,4) v1 a(2) by (auto simp: addrs_valid)
  have cur: "evalue h1 (state c) = evalue h (state c)" using i(3) by (simp add: h1)
  have fo: "map fst out = map fst sends" by (simp add: eq sent_values_def comp_def)
  have so: "snd ` set out \<subseteq> {sorted_value v}" using u(5) by (auto simp: eq sent_values_def)
  have "distinct (map fst out) \<and> set (map fst out) = set (reg c)"
    if "mset (map fst sends) = mset (reg c)"
    using that i(2) unfolding fo by (metis mset_eq_imp_distinct_iff mset_eq_setD)
  moreover have "out = []" if "sends = []" using that by (simp add: eq sent_values_def)
  ultimately show ?thesis
    using u i v2 cur so by (auto simp: source_inv_def source_listens_def source_value_def eq s)
qed

lemma source_listen_law:
  fixes s :: "'e source"
  assumes "source_inv s" and "source_listen ch s = (s', out)"
  shows "source_inv s' \<and> source_value s' = source_value s
      \<and> source_listens s' = insert ch (source_listens s) \<and> out = [(ch, source_value s)]"
proof -
  obtain it h c where s: "s = (it, h, c)" by (cases s)
  from assms have i: "iterates it" "distinct (reg c)" "valid h (Instances (state c))"
    by (auto simp: source_inv_def s)
  obtain h2 c2 sends where re: "Cache_Register h c ch = (h2, c2, sends)"
    by (cases "Cache_Register h c ch")
  from Cache_Register_props [OF re i(3)] obtain k e where r: "h2 = h @ k"
    "c2 = c\<lparr>reg := registry_register (reg c) ch\<rparr>" "sends = [(ch, e)]"
    "evalue h2 e = evalue h (state c)" by metis
  show ?thesis
    using assms(2) i re r valid_append [OF i(3)]
    by (auto simp: source_listen_def s source_inv_def source_value_def source_listens_def
        sent_values_def registry_register_def split: if_splits)
qed

lemma source_unlisten_law:
  "source_inv s \<Longrightarrow> source_inv (source_unlisten ch s) \<and> source_value (source_unlisten ch s) = source_value s
     \<and> source_listens (source_unlisten ch s) = source_listens s - {ch}"
  by (cases s) (auto simp: source_inv_def source_unlisten_def source_value_def source_listens_def
      Cache_Deregister_def registry_deregister_def distinct_removeAll)

interpretation cache_source: event_source source_inv source_value source_listens source_publish
  source_listen source_unlisten sorted_value
  by unfold_locales (rule source_publish_law source_listen_law source_unlisten_law; assumption)+

subsection \<open>Properties\<close>

text \<open>C1: In every reachable state of the instance cache and its observers, whatever the observers
  write into the slices they were given, each registered channel has last received exactly the
  current set of instances or the current error.\<close>

theorem observers_in_sync:
  assumes "observed_reach s" and "ch \<in> set (reg (cache s))"
  shows "got s ch = Some (current s)"
  using observed_reach_inv [OF assms(1)] assms(2) by (simp add: observed_inv_def)

lemma observed_example:
  "observed_reach ((observed_init :: nat observed)\<lparr>cache := NewCache\<lparr>reg := [7]\<rparr>,
     got := [7 \<mapsto> (None, None)]\<rparr>)" (is "observed_reach ?t")
proof -
  have "Cache_Register (store (observed_init :: nat observed)) (cache observed_init) 7
      = ([], NewCache\<lparr>reg := [7]\<rparr>, [(7, \<lparr>Instances = None, Err = None\<rparr>)])"
    by (simp add: Cache_Register_def observed_init_def NewCache_def copyEvent_def
        registry_register_def)
  note observed_reach.step [OF observed_reach.init observed_step.register [OF this]]
  moreover have "received [] [(7, \<lparr>Instances = None, Err = None\<rparr>)] (got (observed_init :: nat observed))
      = [7 \<mapsto> (None, None)]"
    by (simp add: received_def evalue_def observed_init_def fun_eq_iff)
  ultimately show ?thesis
    by (simp add: observed_init_def owned_by_def)
qed

theorem observers_in_sync_witness:
  "got ((observed_init :: nat observed)\<lparr>cache := NewCache\<lparr>reg := [7]\<rparr>,
     got := [7 \<mapsto> (None, None)]\<rparr>) 7
   = Some (current ((observed_init :: nat observed)\<lparr>cache := NewCache\<lparr>reg := [7]\<rparr>,
     got := [7 \<mapsto> (None, None)]\<rparr>))"
  by (rule observers_in_sync [OF observed_example]) simp

text \<open>C26: The cache's own copy is isolated: an observer that overwrites any slice it ever received
  (as sort.Strings in an endpoint cache does) leaves the current instances as they are, and they
  stay sorted.\<close>

theorem cache_isolated:
  assumes "observed_reach s" and "a \<in> owned s"
  shows "current (s\<lparr>store := (store s)[a := xs]\<rparr>) = current s \<and> sorted_value (current s) = current s"
proof -
  have "a \<notin> addrs (Instances (state (cache s)))"
    using observed_reach_inv [OF assms(1)] assms(2) by (auto simp: observed_inv_def)
  then show ?thesis
    using observed_reach_inv [OF assms(1)]
    by (simp add: observed_inv_def current_def evalue_update_other)
qed

lemma observed_example2:
  "\<exists>s :: nat observed. observed_reach s \<and> 1 \<in> owned s \<and> current s = (Some [''a'', ''b''], None)"
proof -
  let ?e = "\<lparr>Instances = Some 0, Err = None\<rparr> :: nat event"
  have u: "Cache_Update (\<lambda>xs. xs) [[''b'', ''a'']] (cache (observed_init :: nat observed)) ?e
      = ([[''a'', ''b'']], \<lparr>state = ?e, reg = []\<rparr>, [])"
    by (simp add: Cache_Update_def observed_init_def NewCache_def sort_Strings_def
        DeepEqual_def registry_broadcast_def)
  have al: "alloc (store (observed_init :: nat observed)) (Some [''b'', ''a'']) = ([[''b'', ''a'']], Some 0)"
    by (simp add: alloc_def observed_init_def)
  let ?s = "(observed_init :: nat observed)\<lparr>store := [[''a'', ''b'']], cache := \<lparr>state = ?e, reg = []\<rparr>\<rparr>"
  have s: "observed_reach ?s"
    using observed_reach.step [OF observed_reach.init observed_step.publish [OF iterates_id al u]]
    by (simp add: observed_init_def owned_by_def received_def)
  have a: "Cache_State (store ?s) (cache ?s) = ([[''a'', ''b''], [''a'', ''b'']], ?e\<lparr>Instances := Some 1\<rparr>)"
    by (simp add: Cache_State_def copyEvent_def)
  show ?thesis
    using observed_reach.step [OF s observed_step.ask [OF a]]
    by (intro exI conjI, assumption) (simp_all add: current_def evalue_def)
qed

theorem cache_isolated_witness:
  "\<exists>s :: nat observed. 1 \<in> owned s \<and>
     current (s\<lparr>store := (store s)[1 := [''z'']]\<rparr>) = (Some [''a'', ''b''], None)"
  using observed_example2 cache_isolated by metis

text \<open>\<open>Update\<close> broadcasts exactly when the sorted event differs from the cached one: then every
  registered channel is sent to exactly once, each event sent carries the sorted instances in a
  newly allocated array that no other receiver shares, and the cache holds the sorted event; when
  they are equal nothing is sent and the cache keeps its value.\<close>

theorem Cache_Update_correct:
  assumes "Cache_Update it h c e = (h', c', sends)" and "iterates it"
    and "valid h (Instances e)" and "valid h (Instances (state c))"
    and "addrs (Instances (state c)) \<inter> addrs (Instances e) = {}"
  shows "evalue h' (state c') = sorted_value (evalue h e) \<and> reg c' = reg c \<and>
    (if evalue h (state c) = sorted_value (evalue h e) then sends = []
     else mset (map fst sends) = mset (reg c) \<and> fresh_sends (length h) h' sends
       \<and> (\<forall>p \<in> set sends. evalue h' (snd p) = sorted_value (evalue h e)))"
  using Cache_Update_props [OF assms] by auto

theorem Cache_Update_correct_witness:
  "evalue [[''x''], [''a'', ''b''], [''a'', ''b'']] \<lparr>Instances = Some 1, Err = (None :: nat option)\<rparr>
     = (Some [''a'', ''b''], None)"
  using Cache_Update_correct [of "\<lambda>xs. xs" "[[''x''], [''b'', ''a'']]"
      "\<lparr>state = \<lparr>Instances = Some 0, Err = None\<rparr>, reg = [3]\<rparr>"
      "\<lparr>Instances = Some 1, Err = (None :: nat option)\<rparr>" "[[''x''], [''a'', ''b''], [''a'', ''b'']]"
      "\<lparr>state = \<lparr>Instances = Some 1, Err = None\<rparr>, reg = [3]\<rparr>"
      "[(3, \<lparr>Instances = Some 2, Err = None\<rparr>)]"]
  by (simp add: Cache_Update_def sort_Strings_def DeepEqual_def registry_broadcast_def
      copyEvent_def evalue_def sorted_value_def Let_def)

end
