(* ===== verification/Endpoint_Cache.thy ===== *)
theory Endpoint_Cache
  imports Instance_Cache
begin

text \<open>
  Package sd, files sd/endpoint_cache.go, sd/endpointer.go and sd/factory.go: the cache that turns
  the current set of instances into endpoints, and the endpointer that feeds it the events of an
  instancer.

  A factory is client code, so it is a parameter: a function of everything that happened before the
  call (the trace) and of the instance. The trace records the calls of the factory with their
  results and the calls of \<open>Close\<close>. Events are the values of the previous theory (the slice a
  channel receives is a private copy, which \<open>updateCache\<close> may sort in place); the two locked
  sections of \<open>Endpoints\<close> are separate definitions, because other operations may run between them.
  Times are nanoseconds. Log output is not modelled.
\<close>

datatype ('ep, 'cl, 'e) sd_action =
    FactoryCall string "'e + 'ep \<times> 'cl option"
  | CloseCall 'cl

type_synonym ('ep, 'cl, 'e) sd_trace = "('ep, 'cl, 'e) sd_action list"
type_synonym ('ep, 'cl, 'e) Factory = "('ep, 'cl, 'e) sd_trace \<Rightarrow> string \<Rightarrow> 'e + 'ep \<times> 'cl option"

record endpointerOptions =
  invalidateOnError :: bool
  invalidateTimeout :: int

record ('ep, 'cl) endpointCloser =
  Endpoint :: 'ep
  Closer :: "'cl option"

record ('ep, 'cl, 'e) endpointCache =
  options :: endpointerOptions
  factory :: "('ep, 'cl, 'e) Factory"
  ecache :: "(string \<times> ('ep, 'cl) endpointCloser) list"
  ec_err :: "'e option"
  endpoints :: "'ep list"
  invalidateDeadline :: int
  trace :: "('ep, 'cl, 'e) sd_trace"

definition newEndpointCache ::
  "('ep, 'cl, 'e) Factory \<Rightarrow> endpointerOptions \<Rightarrow> ('ep, 'cl, 'e) endpointCache" where
  "newEndpointCache f opts = \<lparr>options = opts, factory = f, ecache = [], ec_err = None, endpoints = [],
     invalidateDeadline = 0, trace = []\<rparr>"

text \<open>The first loop of \<open>updateCache\<close>: \<open>old\<close> is c.cache, \<open>new\<close> the local variable cache.\<close>

fun produce :: "('ep, 'cl, 'e) Factory \<Rightarrow> string list
    \<Rightarrow> (string \<times> ('ep, 'cl) endpointCloser) list \<Rightarrow> (string \<times> ('ep, 'cl) endpointCloser) list
    \<Rightarrow> ('ep, 'cl, 'e) sd_trace
    \<Rightarrow> (string \<times> ('ep, 'cl) endpointCloser) list \<times> (string \<times> ('ep, 'cl) endpointCloser) list
        \<times> ('ep, 'cl, 'e) sd_trace" where
  "produce f [] old new tr = (old, new, tr)"
| "produce f (i # is) old new tr =
     (case map_of old i of
        Some sc \<Rightarrow> produce f is (AList.delete i old) (AList.update i sc new) tr
      | None \<Rightarrow>
          (let r = f tr i; tr1 = tr @ [FactoryCall i r] in
           case r of
             Inl e \<Rightarrow> produce f is old new tr1
           | Inr (service, closer) \<Rightarrow>
               produce f is old
                 (AList.update i \<lparr>Endpoint = service, Closer = closer\<rparr> new) tr1))"

definition close_all :: "(string \<times> ('ep, 'cl) endpointCloser) list \<Rightarrow> ('ep, 'cl, 'e) sd_trace" where
  "close_all old = List.map_filter (\<lambda>(i, sc). map_option CloseCall (Closer sc)) old"

definition populate :: "(string \<times> ('ep, 'cl) endpointCloser) list \<Rightarrow> string list \<Rightarrow> 'ep list" where
  "populate c instances = List.map_filter (\<lambda>i. map_option Endpoint (map_of c i)) instances"

type_synonym ('ep, 'cl) ec_order =
  "(string \<times> ('ep, 'cl) endpointCloser) list \<Rightarrow> (string \<times> ('ep, 'cl) endpointCloser) list"

definition updateCache :: "('ep, 'cl) ec_order
    \<Rightarrow> ('ep, 'cl, 'e) endpointCache \<Rightarrow> string list \<Rightarrow> ('ep, 'cl, 'e) endpointCache" where
  "updateCache it c instances0 =
     (let instances = sort instances0;
          (old, new, tr) = produce (factory c) instances (ecache c) [] (trace c)
      in c\<lparr>endpoints := populate new instances, ecache := new, trace := tr @ close_all (it old)\<rparr>)"

definition endpointCache_Update :: "('ep, 'cl) ec_order
    \<Rightarrow> int \<Rightarrow> 'e evalue \<Rightarrow> ('ep, 'cl, 'e) endpointCache \<Rightarrow> ('ep, 'cl, 'e) endpointCache" where
  "endpointCache_Update it now event c =
     (case snd event of
        None \<Rightarrow> (updateCache it c (case fst event of None \<Rightarrow> [] | Some xs \<Rightarrow> xs))\<lparr>ec_err := None\<rparr>
      | Some e \<Rightarrow>
          if \<not> invalidateOnError (options c) then c
          else if ec_err c \<noteq> None then c
          else c\<lparr>ec_err := Some e, invalidateDeadline := now + invalidateTimeout (options c)\<rparr>)"

text \<open>
  \<open>Endpoints\<close>: under the read lock it answers when it may (\<open>Some\<close>); otherwise it takes the write
  lock and checks again, at a later time and perhaps in another state.
\<close>

definition Endpoints_rlocked :: "int \<Rightarrow> ('ep, 'cl, 'e) endpointCache \<Rightarrow> ('ep list \<times> 'e option) option" where
  "Endpoints_rlocked now c =
     (if ec_err c = None \<or> now < invalidateDeadline c then Some (endpoints c, None) else None)"

definition Endpoints_locked :: "('ep, 'cl) ec_order \<Rightarrow> int
    \<Rightarrow> ('ep, 'cl, 'e) endpointCache \<Rightarrow> ('ep, 'cl, 'e) endpointCache \<times> 'ep list \<times> 'e option" where
  "Endpoints_locked it now c =
     (if ec_err c = None \<or> now < invalidateDeadline c then (c, endpoints c, None)
      else let c1 = updateCache it c [] in (c1, [], ec_err c1))"

definition endpointCache_Endpoints :: "('ep, 'cl) ec_order \<Rightarrow> int
    \<Rightarrow> ('ep, 'cl, 'e) endpointCache \<Rightarrow> ('ep, 'cl, 'e) endpointCache \<times> 'ep list \<times> 'e option" where
  "endpointCache_Endpoints it now c =
     (case Endpoints_rlocked now c of Some r \<Rightarrow> (c, r) | None \<Rightarrow> Endpoints_locked it now c)"

subsection \<open>The endpointers\<close>

definition FixedEndpointer_Endpoints :: "'ep list \<Rightarrow> 'ep list \<times> 'e option" where
  "FixedEndpointer_Endpoints s = (s, None)"

definition InvalidateOnError :: "int \<Rightarrow> endpointerOptions \<Rightarrow> endpointerOptions" where
  "InvalidateOnError timeout opts = opts\<lparr>invalidateOnError := True, invalidateTimeout := timeout\<rparr>"

record ('ep, 'cl, 'e) DefaultEndpointer =
  de_cache :: "('ep, 'cl, 'e) endpointCache"
  de_ch :: chan

definition NewEndpointer :: "('ep, 'cl, 'e) Factory \<Rightarrow> (endpointerOptions \<Rightarrow> endpointerOptions) list
    \<Rightarrow> chan \<Rightarrow> 'e source \<Rightarrow> ('ep, 'cl, 'e) DefaultEndpointer \<times> 'e source \<times> (chan \<times> 'e evalue) list" where
  "NewEndpointer f opts ch src =
     (let o1 = fold (\<lambda>opt. opt) opts \<lparr>invalidateOnError = False, invalidateTimeout = 0\<rparr>;
          se = \<lparr>de_cache = newEndpointCache f o1, de_ch = ch\<rparr>;
          (src1, sends) = source_listen (de_ch se) src
      in (se, src1, sends))"

fun DefaultEndpointer_receive :: "('ep, 'cl) ec_order \<Rightarrow> (int \<times> 'e evalue) list
    \<Rightarrow> ('ep, 'cl, 'e) DefaultEndpointer \<Rightarrow> ('ep, 'cl, 'e) DefaultEndpointer" where
  "DefaultEndpointer_receive it [] de = de"
| "DefaultEndpointer_receive it ((now, event) # evs) de =
     DefaultEndpointer_receive it evs (de\<lparr>de_cache := endpointCache_Update it now event (de_cache de)\<rparr>)"

definition DefaultEndpointer_Close :: "('ep, 'cl, 'e) DefaultEndpointer \<Rightarrow> 'e source \<Rightarrow> 'e source" where
  "DefaultEndpointer_Close de src = source_unlisten (de_ch de) src"

definition DefaultEndpointer_Endpoints :: "('ep, 'cl) ec_order \<Rightarrow> int \<Rightarrow> ('ep, 'cl, 'e) DefaultEndpointer
    \<Rightarrow> ('ep, 'cl, 'e) DefaultEndpointer \<times> 'ep list \<times> 'e option" where
  "DefaultEndpointer_Endpoints it now de =
     (let (c, r) = endpointCache_Endpoints it now (de_cache de) in (de\<lparr>de_cache := c\<rparr>, r))"

subsection \<open>Accounting of closers\<close>

text \<open>The closers a trace obtained from the factory, those it closed, and those of a cache.\<close>

definition created :: "('ep, 'cl, 'e) sd_trace \<Rightarrow> 'cl multiset" where
  "created tr = mset (List.map_filter (\<lambda>a. case a of FactoryCall _ (Inr (_, cl)) \<Rightarrow> cl | _ \<Rightarrow> None) tr)"

definition closed :: "('ep, 'cl, 'e) sd_trace \<Rightarrow> 'cl multiset" where
  "closed tr = mset (List.map_filter (\<lambda>a. case a of CloseCall cl \<Rightarrow> Some cl | _ \<Rightarrow> None) tr)"

definition held :: "(string \<times> ('ep, 'cl) endpointCloser) list \<Rightarrow> 'cl multiset" where
  "held c = mset (List.map_filter (\<lambda>p. Closer (snd p)) c)"

definition closer_of :: "('ep, 'cl) endpointCloser \<Rightarrow> 'cl multiset" where
  "closer_of sc = (case Closer sc of None \<Rightarrow> {#} | Some k \<Rightarrow> {#k#})"

lemma created_simps [simp]:
  "created [] = {#}" "created (a @ b) = created a + created b"
  "created [FactoryCall i (Inl e)] = {#}"
  "created [FactoryCall i (Inr (s, cl))] = closer_of \<lparr>Endpoint = s, Closer = cl\<rparr>"
  by (auto simp: created_def closer_of_def List.map_filter_def split: option.splits)

lemma closed_simps [simp]:
  "closed [] = {#}" "closed (a @ b) = closed a + closed b" "closed [FactoryCall i r] = {#}"
  by (simp_all add: closed_def List.map_filter_def)

lemma held_simps [simp]:
  "held [] = {#}" "held (p # c) = closer_of (snd p) + held c"
  by (auto simp: held_def closer_of_def List.map_filter_def split: option.splits)

lemma created_close_all [simp]: "created (close_all c) = {#}"
  by (induction c) (auto simp: created_def close_all_def List.map_filter_def)

lemma closed_close_all [simp]: "closed (close_all c) = held c"
  by (induction c) (auto simp: closed_def close_all_def held_def closer_of_def List.map_filter_def)

lemma held_mset:
  fixes c d :: "(string \<times> ('ep, 'cl) endpointCloser) list"
  shows "mset c = mset d \<Longrightarrow> held c = held d"
proof -
  have e: "held c = image_mset the (filter_mset (\<lambda>x. x \<noteq> None) (image_mset (\<lambda>p. Closer (snd p)) (mset c)))"
    for c :: "(string \<times> ('ep, 'cl) endpointCloser) list"
    by (induction c) (auto simp: closer_of_def split: option.splits)
  assume "mset c = mset d"
  then show ?thesis by (simp only: e)
qed

lemma held_iterates [simp]: "iterates it \<Longrightarrow> held (it c) = held c"
  by (rule held_mset) (rule iterates_mset)

lemma held_update_fresh:
  "i \<notin> fst ` set c \<Longrightarrow> held (AList.update i sc c) = closer_of sc + held c"
  using held_mset [of "AList.update i sc c" "(i, sc) # c"] mset_update_fresh [of i c sc] by simp

lemma held_delete:
  "distinct (map fst c) \<Longrightarrow> map_of c i = Some sc
     \<Longrightarrow> closer_of sc + held (AList.delete i c) = held c"
  using held_mset [of "(i, sc) # AList.delete i c" c] mset_delete [of c i sc] by simp


subsection \<open>The loop of updateCache\<close>

lemma held_update_le: "held (AList.update i sc c) \<subseteq># closer_of sc + held c"
proof (induction c)
  case (Cons p c)
  show ?case
  proof (cases "fst p = i")
    case True
    then show ?thesis
      by (cases p) (auto intro: subset_mset.add_left_mono)
  next
    case False
    then have "held (AList.update i sc (p # c)) = closer_of (snd p) + held (AList.update i sc c)"
      by (cases p) simp
    with Cons.IH show ?thesis
      by (simp add: add.left_commute subset_mset.add_left_mono)
  qed
qed simp

lemma produce_ConsE:
  assumes "produce f (i # is) old new tr = (old', new', tr')"
  obtains (persist) sc where "map_of old i = Some sc"
      "produce f is (AList.delete i old) (AList.update i sc new) tr = (old', new', tr')"
    | (failed) e where "map_of old i = None" "f tr i = Inl e"
      "produce f is old new (tr @ [FactoryCall i (Inl e)]) = (old', new', tr')"
    | (made) s cl where "map_of old i = None" "f tr i = Inr (s, cl)"
      "produce f is old (AList.update i \<lparr>Endpoint = s, Closer = cl\<rparr> new)
         (tr @ [FactoryCall i (Inr (s, cl))]) = (old', new', tr')"
  using assms by (auto simp: Let_def split: option.splits sum.splits)

lemma produce_distinct:
  "produce f is old new tr = (old', new', tr') \<Longrightarrow> distinct (map fst old) \<Longrightarrow> distinct (map fst new)
     \<Longrightarrow> distinct (map fst old') \<and> distinct (map fst new')"
proof (induction "is" arbitrary: old new tr)
  case (Cons i "is")
  from Cons.prems(1) show ?case
    by (cases rule: produce_ConsE) (use Cons.IH Cons.prems(2,3) in simp_all)
qed simp

lemma produce_old:
  "produce f is old new tr = (old', new', tr') \<Longrightarrow> map_of old' = map_of old |` (- set is)"
proof (induction "is" arbitrary: old new tr)
  case (Cons i "is")
  have n: "map_of old |` (- set is) = map_of old |` (- insert i (set is))" if "map_of old i = None"
    using that by (auto simp: restrict_map_def)
  from Cons.prems(1) show ?case
  proof (cases rule: produce_ConsE)
    case (persist sc)
    from Cons.IH [OF persist(2)] show ?thesis by (auto simp: restrict_map_def fun_eq_iff)
  qed (use Cons.IH n in simp_all)
qed (simp add: restrict_map_def)

lemma produce_new_keys:
  "produce f is old new tr = (old', new', tr') \<Longrightarrow> fst ` set new' \<subseteq> fst ` set new \<union> set is"
proof (induction "is" arbitrary: old new tr)
  case (Cons i "is")
  from Cons.prems(1) show ?case
  proof (cases rule: produce_ConsE)
    case (persist sc)
    from Cons.IH [OF persist(2)] show ?thesis by (simp add: dom_update)
  next
    case (failed e)
    from Cons.IH [OF failed(3)] show ?thesis by auto
  next
    case (made s cl)
    from Cons.IH [OF made(3)] show ?thesis by (simp add: dom_update)
  qed
qed simp

lemma produce_closed:
  "produce f is old new tr = (old', new', tr') \<Longrightarrow> closed tr' = closed tr"
proof (induction "is" arbitrary: old new tr)
  case (Cons i "is")
  from Cons.prems(1) show ?case
    by (cases rule: produce_ConsE) (drule Cons.IH, simp)+
qed simp

text \<open>No closer appears from nowhere; with distinct instances none is lost either.\<close>

lemma produce_created_le:
  "produce f is old new tr = (old', new', tr') \<Longrightarrow> distinct (map fst old)
     \<Longrightarrow> held old' + held new' + created tr \<subseteq># held old + held new + created tr'"
proof (induction "is" arbitrary: old new tr)
  case (Cons i "is")
  from Cons.prems(1) show ?case
  proof (cases rule: produce_ConsE)
    case (persist sc)
    have "held old' + held new' + created tr
        \<subseteq># held (AList.delete i old) + held (AList.update i sc new) + created tr'"
      using Cons.IH [OF persist(2)] Cons.prems(2) by simp
    also have "\<dots> \<subseteq># held (AList.delete i old) + (closer_of sc + held new) + created tr'"
      by (intro subset_mset.add_mono held_update_le subset_mset.order_refl)
    also have "held (AList.delete i old) + (closer_of sc + held new) = held old + held new"
      using held_delete [OF Cons.prems(2) persist(1)]
      by (simp add: add.assoc [symmetric] add.commute)
    finally show ?thesis .
  next
    case (made s cl)
    let ?sc = "\<lparr>Endpoint = s, Closer = cl\<rparr>"
    have "held old' + held new' + created tr + closer_of ?sc
        \<subseteq># held old + held (AList.update i ?sc new) + created tr'"
      using Cons.IH [OF made(3)] Cons.prems(2) by (simp add: add.assoc)
    also have "\<dots> \<subseteq># held old + (closer_of ?sc + held new) + created tr'"
      by (intro subset_mset.add_mono held_update_le subset_mset.order_refl)
    finally have "held old' + held new' + created tr + closer_of ?sc
        \<subseteq># held old + held new + created tr' + closer_of ?sc" by (simp add: ac_simps)
    then show ?thesis by simp
  qed (use Cons.IH Cons.prems(2) in fastforce)
qed simp

lemma produce_created:
  "produce f is old new tr = (old', new', tr') \<Longrightarrow> distinct (map fst old) \<Longrightarrow> distinct is
     \<Longrightarrow> set is \<inter> fst ` set new = {}
     \<Longrightarrow> held old' + held new' + created tr = held old + held new + created tr'"
proof (induction "is" arbitrary: old new tr)
  case (Cons i "is")
  have fresh: "i \<notin> fst ` set new" and rest: "set is \<inter> fst ` set (AList.update i sc new) = {}" for sc
    using Cons.prems(3,4) by (auto simp: dom_update)
  from Cons.prems(1) show ?case
  proof (cases rule: produce_ConsE)
    case (persist sc)
    have "held old' + held new' + created tr
        = held (AList.delete i old) + held (AList.update i sc new) + created tr'"
      using Cons.IH [OF persist(2) _ _ rest] Cons.prems(2,3) by simp
    also have "\<dots> = held old + held new + created tr'"
      using held_delete [OF Cons.prems(2) persist(1)] held_update_fresh [OF fresh, of sc]
      by (metis add.assoc add.commute)
    finally show ?thesis .
  next
    case (made s cl)
    let ?sc = "\<lparr>Endpoint = s, Closer = cl\<rparr>"
    have "held old' + held new' + (created tr + closer_of ?sc)
        = held old + (closer_of ?sc + held new) + created tr'"
      using Cons.IH [OF made(3) Cons.prems(2) _ rest] Cons.prems(3) held_update_fresh [OF fresh, of ?sc]
      by simp
    then show ?thesis by (simp add: ac_simps)
  qed (use Cons.IH Cons.prems(2,3,4) in fastforce)
qed simp

subsection \<open>What an update makes of each instance\<close>

primrec call_instance :: "('ep, 'cl, 'e) sd_action \<Rightarrow> string" where
  "call_instance (FactoryCall i r) = i"
| "call_instance (CloseCall cl) = []"

primrec call_result :: "('ep, 'cl, 'e) sd_action \<Rightarrow> ('ep, 'cl) endpointCloser option" where
  "call_result (FactoryCall i r) =
     (case r of Inl e \<Rightarrow> None | Inr (s, cl) \<Rightarrow> Some \<lparr>Endpoint = s, Closer = cl\<rparr>)"
| "call_result (CloseCall cl) = None"

definition results :: "('ep, 'cl, 'e) sd_trace \<Rightarrow> string \<Rightarrow> ('ep, 'cl) endpointCloser option" where
  "results calls i = (case find (\<lambda>a. call_instance a = i) calls of None \<Rightarrow> None | Some a \<Rightarrow> call_result a)"

lemma produce_results:
  "produce f is old new tr = (old', new', tr') \<Longrightarrow> distinct is \<Longrightarrow> set is \<inter> fst ` set new = {}
     \<Longrightarrow> \<exists>calls. tr' = tr @ calls \<and> map call_instance calls = filter (\<lambda>i. map_of old i = None) is
       \<and> (\<forall>i. map_of new' i = (if i \<in> set is then
              (case map_of old i of Some sc \<Rightarrow> Some sc | None \<Rightarrow> results calls i) else map_of new i))"
proof (induction "is" arbitrary: old new tr)
  case (Cons i "is")
  have fresh: "i \<notin> fst ` set new" "i \<notin> set is" "distinct is" and rest: "set is \<inter> fst ` set new = {}"
    "set is \<inter> fst ` set (AList.update i sc new) = {}" for sc
    using Cons.prems(2,3) by (auto simp: dom_update)
  have mi: "map_of new i = None" using fresh(1) by (simp add: map_of_eq_None_iff)
  from Cons.prems(1) show ?case
  proof (cases rule: produce_ConsE)
    case (persist sc)
    have f: "filter (\<lambda>j. map_of (AList.delete i old) j = None) is = filter (\<lambda>j. map_of old j = None) is"
      using fresh(2) by (auto intro: filter_cong)
    from Cons.IH [OF persist(2) fresh(3) rest(2)] obtain calls where c: "tr' = tr @ calls"
      "map call_instance calls = filter (\<lambda>j. map_of old j = None) is"
      "\<forall>j. map_of new' j = (if j \<in> set is then
          (case map_of (AList.delete i old) j of Some sc \<Rightarrow> Some sc | None \<Rightarrow> results calls j)
          else map_of (AList.update i sc new) j)"
      unfolding f by blast
    then show ?thesis using persist(1) fresh(2) by (intro exI [of _ calls]) auto
  next
    case (failed e)
    from Cons.IH [OF failed(3) fresh(3) rest(1)] obtain calls where c:
      "tr' = (tr @ [FactoryCall i (Inl e)]) @ calls"
      "map call_instance calls = filter (\<lambda>j. map_of old j = None) is"
      "\<forall>j. map_of new' j = (if j \<in> set is then
          (case map_of old j of Some sc \<Rightarrow> Some sc | None \<Rightarrow> results calls j) else map_of new j)"
      by blast
    then show ?thesis using failed(1) fresh(2) mi
      by (intro exI [of _ "FactoryCall i (Inl e) # calls"]) (auto simp: results_def split: option.splits)
  next
    case (made s cl)
    from Cons.IH [OF made(3) fresh(3) rest(2)] obtain calls where c:
      "tr' = (tr @ [FactoryCall i (Inr (s, cl))]) @ calls"
      "map call_instance calls = filter (\<lambda>j. map_of old j = None) is"
      "\<forall>j. map_of new' j = (if j \<in> set is then
          (case map_of old j of Some sc \<Rightarrow> Some sc | None \<Rightarrow> results calls j)
          else map_of (AList.update i \<lparr>Endpoint = s, Closer = cl\<rparr> new) j)"
      by blast
    then show ?thesis using made(1) fresh(2)
      by (intro exI [of _ "FactoryCall i (Inr (s, cl)) # calls"]) (auto simp: results_def split: option.splits)
  qed
qed simp

subsection \<open>The invariant\<close>

text \<open>
  \<open>ec_inv\<close> holds in every state whatever the events: the cache is a map, no closer is closed twice
  or closed while it is held. \<open>ec_tight\<close> adds that no closer is lost.
\<close>

definition ec_inv :: "('ep, 'cl, 'e) endpointCache \<Rightarrow> bool" where
  "ec_inv c \<longleftrightarrow> distinct (map fst (ecache c)) \<and>
     closed (trace c) + held (ecache c) \<subseteq># created (trace c) \<and>
     (\<exists>is. sorted is \<and> fst ` set (ecache c) \<subseteq> set is \<and> endpoints c = populate (ecache c) is)"

definition ec_tight :: "('ep, 'cl, 'e) endpointCache \<Rightarrow> bool" where
  "ec_tight c \<longleftrightarrow> ec_inv c \<and> closed (trace c) + held (ecache c) = created (trace c)"

lemma ec_inv_new [intro]: "ec_inv (newEndpointCache f opts)"
  by (auto simp: ec_inv_def newEndpointCache_def populate_def List.map_filter_def intro: exI [of _ "[]"])

lemma ec_tight_new [intro]: "ec_tight (newEndpointCache f opts)"
  by (simp add: ec_tight_def ec_inv_new) (simp add: newEndpointCache_def)

lemma updateCache_inv:
  assumes "ec_inv c" and "iterates it"
  shows "ec_inv (updateCache it c is)"
proof -
  obtain old new tr where p: "produce (factory c) (sort is) (ecache c) [] (trace c) = (old, new, tr)"
    by (cases "produce (factory c) (sort is) (ecache c) [] (trace c)")
  have d: "distinct (map fst (ecache c))" using assms(1) by (simp add: ec_inv_def)
  have "held old + held new + created (trace c) + closed (trace c) + held (ecache c)
      \<subseteq># held (ecache c) + created tr + (closed (trace c) + held (ecache c))"
    using produce_created_le [OF p d] by (simp add: ac_simps)
  also have "\<dots> \<subseteq># held (ecache c) + created tr + created (trace c)"
    using assms(1) by (intro subset_mset.add_mono subset_mset.order_refl) (simp add: ec_inv_def)
  finally have "closed (trace c) + held old + held new \<subseteq># created tr"
    by (simp add: ac_simps)
  then show ?thesis
    using produce_distinct [OF p d] produce_closed [OF p] produce_new_keys [OF p] assms(2)
    unfolding ec_inv_def by (auto simp: updateCache_def p intro!: exI [of _ "sort is"])
qed

lemma updateCache_tight:
  assumes "ec_tight c" and "iterates it" and "distinct is"
  shows "ec_tight (updateCache it c is)"
proof -
  obtain old new tr where p: "produce (factory c) (sort is) (ecache c) [] (trace c) = (old, new, tr)"
    by (cases "produce (factory c) (sort is) (ecache c) [] (trace c)")
  have d: "distinct (map fst (ecache c))" using assms(1) by (simp add: ec_tight_def ec_inv_def)
  have "held old + held new + created (trace c) = held (ecache c) + created tr"
    using produce_created [OF p d] assms(3) by simp
  then have "closed (trace c) + held old + held new + created (trace c)
      = (closed (trace c) + held (ecache c)) + created tr"
    by (simp add: add.assoc)
  also have "closed (trace c) + held (ecache c) = created (trace c)"
    using assms(1) by (simp add: ec_tight_def)
  finally have "closed (trace c) + held old + held new = created tr" by (simp add: add.assoc)
  then have "closed (trace (updateCache it c is)) + held (ecache (updateCache it c is))
      = created (trace (updateCache it c is))"
    using assms(2) produce_closed [OF p] by (simp add: updateCache_def p)
  moreover have "ec_inv (updateCache it c is)"
    using assms(1,2) by (auto simp: ec_tight_def intro: updateCache_inv)
  ultimately show ?thesis by (simp add: ec_tight_def)
qed

subsection \<open>Runs\<close>

text \<open>
  The sections that hold the write lock, in any order: a call of \<open>Update\<close>, and the second half of a
  call of \<open>Endpoints\<close>, whose first half only reads.
\<close>

datatype 'e ec_op = EcUpdate int "'e evalue" | EcEndpoints int

fun ec_do :: "('ep, 'cl) ec_order \<Rightarrow> 'e ec_op \<Rightarrow> ('ep, 'cl, 'e) endpointCache \<Rightarrow> ('ep, 'cl, 'e) endpointCache" where
  "ec_do it (EcUpdate now event) c = endpointCache_Update it now event c"
| "ec_do it (EcEndpoints now) c = fst (Endpoints_locked it now c)"

primrec distinct_event :: "'e ec_op \<Rightarrow> bool" where
  "distinct_event (EcUpdate now event) \<longleftrightarrow> (case fst event of None \<Rightarrow> True | Some xs \<Rightarrow> distinct xs)"
| "distinct_event (EcEndpoints now) \<longleftrightarrow> True"

lemma ec_inv_fields [simp]:
  "ec_inv (c\<lparr>ec_err := e\<rparr>) = ec_inv c" "ec_inv (c\<lparr>ec_err := e, invalidateDeadline := d\<rparr>) = ec_inv c"
  "ec_tight (c\<lparr>ec_err := e\<rparr>) = ec_tight c" "ec_tight (c\<lparr>ec_err := e, invalidateDeadline := d\<rparr>) = ec_tight c"
  by (simp_all add: ec_tight_def ec_inv_def)

lemma ec_do_inv: "ec_inv c \<Longrightarrow> iterates it \<Longrightarrow> ec_inv (ec_do it op c)"
  by (cases op) (auto simp: endpointCache_Update_def Endpoints_locked_def Let_def updateCache_inv
      split: option.splits)

lemma ec_do_tight: "ec_tight c \<Longrightarrow> iterates it \<Longrightarrow> distinct_event op \<Longrightarrow> ec_tight (ec_do it op c)"
  by (cases op) (auto simp: endpointCache_Update_def Endpoints_locked_def Let_def updateCache_tight
      split: option.splits)

lemma fold_ec_inv: "ec_inv c \<Longrightarrow> iterates it \<Longrightarrow> ec_inv (fold (ec_do it) ops c)"
  by (induction ops arbitrary: c) (simp_all add: ec_do_inv)

lemma fold_ec_tight:
  "ec_tight c \<Longrightarrow> iterates it \<Longrightarrow> \<forall>op \<in> set ops. distinct_event op \<Longrightarrow> ec_tight (fold (ec_do it) ops c)"
  by (induction ops arbitrary: c) (simp_all add: ec_do_tight)

subsection \<open>The state machine of errors\<close>

datatype 'e health = Healthy | Failing 'e int

definition health :: "('ep, 'cl, 'e) endpointCache \<Rightarrow> 'e health" where
  "health c = (case ec_err c of None \<Rightarrow> Healthy | Some e \<Rightarrow> Failing e (invalidateDeadline c))"

primrec after_event :: "endpointerOptions \<Rightarrow> int \<Rightarrow> 'e option \<Rightarrow> 'e health \<Rightarrow> 'e health" where
  "after_event opts now e (Failing e0 d) = (if e = None then Healthy else Failing e0 d)"
| "after_event opts now e Healthy = (case e of None \<Rightarrow> Healthy
     | Some x \<Rightarrow> if invalidateOnError opts then Failing x (now + invalidateTimeout opts) else Healthy)"

primrec answer :: "int \<Rightarrow> 'e health \<Rightarrow> 'ep list \<Rightarrow> 'ep list \<times> 'e option" where
  "answer now Healthy eps = (eps, None)"
| "answer now (Failing e d) eps = (if now < d then (eps, None) else ([], Some e))"

lemma updateCache_fields [simp]:
  "ec_err (updateCache it c is) = ec_err c" "invalidateDeadline (updateCache it c is) = invalidateDeadline c"
  "options (updateCache it c is) = options c" "factory (updateCache it c is) = factory c"
  by (simp_all add: updateCache_def Let_def split: prod.splits)

lemma health_Update: "health (endpointCache_Update it now event c) = after_event (options c) now (snd event) (health c)"
  by (cases "snd event"; cases "ec_err c") (simp_all add: endpointCache_Update_def health_def)

lemma Endpoints_answer:
  "endpointCache_Endpoints it now c = (c', r) \<Longrightarrow> r = answer now (health c) (endpoints c) \<and> health c' = health c"
  by (auto simp: endpointCache_Endpoints_def Endpoints_rlocked_def Endpoints_locked_def Let_def health_def
      split: if_splits option.splits)

lemma updateCache_Nil:
  assumes "iterates it"
  shows "ecache (updateCache it c []) = []" and "endpoints (updateCache it c []) = []"
    and "closed (trace (updateCache it c [])) = closed (trace c) + held (ecache c)"
    and "created (trace (updateCache it c [])) = created (trace c)"
  using assms by (simp_all add: updateCache_def populate_def List.map_filter_def)

subsection \<open>The interface of an endpointer\<close>

text \<open>
  What a balancer relies on: while the endpointer yields a list, asking it again yields the same
  list (\<open>yields s xs\<close>), and while it fails, asking it again gives the same error.
\<close>

locale endpointer =
  fixes Endpoints :: "'s \<Rightarrow> 's \<times> 'ep list \<times> 'e option"
    and yields :: "'s \<Rightarrow> 'ep list \<Rightarrow> bool"
    and fails :: "'s \<Rightarrow> 'e \<Rightarrow> bool"
  assumes yields_law: "yields s xs \<Longrightarrow> snd (Endpoints s) = (xs, None) \<and> yields (fst (Endpoints s)) xs"
    and fails_law: "fails s e \<Longrightarrow> snd (snd (Endpoints s)) = Some e \<and> fails (fst (Endpoints s)) e"

definition FixedEndpointer_call :: "'ep list \<Rightarrow> 'ep list \<times> 'ep list \<times> 'e option" where
  "FixedEndpointer_call s = (s, FixedEndpointer_Endpoints s)"

interpretation fixed: endpointer FixedEndpointer_call "\<lambda>s xs. s = xs" "\<lambda>s e. False"
  by unfold_locales (auto simp: FixedEndpointer_call_def FixedEndpointer_Endpoints_def)

text \<open>The endpoint cache with its clock and its map order; time passes by \<open>dt\<close> at each call.\<close>

type_synonym ('ep, 'cl, 'e) clocked = "('ep, 'cl) ec_order \<times> nat \<times> int \<times> ('ep, 'cl, 'e) endpointCache"

definition clocked_call :: "('ep, 'cl, 'e) clocked \<Rightarrow> ('ep, 'cl, 'e) clocked \<times> 'ep list \<times> 'e option" where
  "clocked_call s = (case s of (it, dt, now, c) \<Rightarrow>
     let (c1, r) = endpointCache_Endpoints it now c in ((it, dt, now + int dt, c1), r))"

definition clocked_yields :: "('ep, 'cl, 'e) clocked \<Rightarrow> 'ep list \<Rightarrow> bool" where
  "clocked_yields s xs \<longleftrightarrow> (case s of (it, dt, now, c) \<Rightarrow> ec_err c = None \<and> endpoints c = xs)"

definition clocked_fails :: "('ep, 'cl, 'e) clocked \<Rightarrow> 'e \<Rightarrow> bool" where
  "clocked_fails s e \<longleftrightarrow> (case s of (it, dt, now, c) \<Rightarrow> ec_err c = Some e \<and> invalidateDeadline c \<le> now)"

interpretation cached: endpointer clocked_call clocked_yields clocked_fails
  by unfold_locales (auto simp: clocked_call_def clocked_yields_def clocked_fails_def Let_def
      endpointCache_Endpoints_def Endpoints_rlocked_def Endpoints_locked_def split: prod.splits)

subsection \<open>An endpointer subscribed to an event source\<close>

definition inbox :: "chan \<Rightarrow> int list \<Rightarrow> (chan \<times> 'e evalue) list \<Rightarrow> (int \<times> 'e evalue) list" where
  "inbox ch at out = zip at (map snd (filter (\<lambda>p. fst p = ch) out))"

lemma receive_append:
  "DefaultEndpointer_receive it (xs @ ys) de = DefaultEndpointer_receive it ys (DefaultEndpointer_receive it xs de)"
  by (induction xs arbitrary: de) auto

lemma receive_fold:
  "de_cache (DefaultEndpointer_receive it evs de)
     = fold (ec_do it) (map (\<lambda>(now, v). EcUpdate now v) evs) (de_cache de)"
  by (induction evs arbitrary: de) auto

lemma last_inbox:
  "last_for ch out = Some v \<Longrightarrow> length at = length (filter (\<lambda>p. fst p = ch) out)
     \<Longrightarrow> \<exists>evs now. inbox ch at out = evs @ [(now, v)]"
proof -
  assume l: "last_for ch out = Some v" and n: "length at = length (filter (\<lambda>p. fst p = ch) out)"
  have "\<exists>vs. map snd (filter (\<lambda>p. fst p = ch) out) = vs @ [v]"
    using l by (induction out rule: rev_induct) (auto simp: last_for_def split: if_splits)
  then obtain vs where vs: "map snd (filter (\<lambda>p. fst p = ch) out) = vs @ [v]" ..
  then have "length at = Suc (length vs)" using n by (metis length_append_singleton length_map)
  then obtain us t where ts: "at = us @ [t]" "length us = length vs"
    by (metis append_butlast_last_id length_0_conv length_butlast nat.simps(3) diff_Suc_1)
  then show ?thesis by (auto simp: inbox_def vs)
qed

text \<open>A factory that never fails makes an endpoint for every instance.\<close>

lemma produce_complete:
  assumes "\<And>tr i. \<exists>p. f tr i = Inr p"
  shows "produce f is old new tr = (old', new', tr') \<Longrightarrow> set is \<union> fst ` set new \<subseteq> fst ` set new'"
proof (induction "is" arbitrary: old new tr)
  case (Cons i "is")
  from Cons.prems show ?case
  proof (cases rule: produce_ConsE)
    case (persist sc)
    from Cons.IH [OF persist(2)] show ?thesis by (simp add: dom_update)
  next
    case (failed e)
    with assms show ?thesis by (metis sum.distinct(1))
  next
    case (made s cl)
    from Cons.IH [OF made(3)] show ?thesis by (simp add: dom_update)
  qed
qed simp

lemma populate_full:
  "set is \<subseteq> fst ` set c \<Longrightarrow> populate c is = map (\<lambda>i. Endpoint (the (map_of c i))) is"
  by (induction "is") (auto simp: populate_def List.map_filter_def map_of_eq_None_iff
      dest: weak_map_of_SomeI split: option.splits)

lemma updateCache_complete:
  assumes "\<And>tr i. \<exists>p. factory c tr i = Inr p"
  shows "fst ` set (ecache (updateCache it c is)) = set is"
    and "endpoints (updateCache it c is)
      = map (\<lambda>i. Endpoint (the (map_of (ecache (updateCache it c is)) i))) (sort is)"
proof -
  obtain old new tr where p: "produce (factory c) (sort is) (ecache c) [] (trace c) = (old, new, tr)"
    by (cases "produce (factory c) (sort is) (ecache c) [] (trace c)")
  have k: "fst ` set new = set is"
    using produce_complete [OF assms p] produce_new_keys [OF p] by simp
  then show "fst ` set (ecache (updateCache it c is)) = set is" by (simp add: updateCache_def p)
  show "endpoints (updateCache it c is)
      = map (\<lambda>i. Endpoint (the (map_of (ecache (updateCache it c is)) i))) (sort is)"
    using k populate_full [of "sort is" new] by (simp add: updateCache_def p)
qed

lemma ec_do_factory [simp]: "factory (fold (ec_do it) ops c) = factory c"
proof (induction ops arbitrary: c)
  case (Cons op ops)
  have "factory (ec_do it op c) = factory c"
    by (cases op) (auto simp: endpointCache_Update_def Endpoints_locked_def Let_def split: option.splits)
  with Cons show ?case by simp
qed simp

lemma endpointer_receives:
  assumes "last_for ch out = Some (Some xs, None)"
    and "length ts = length (filter (\<lambda>p. fst p = ch) out)"
    and "\<And>tr i. \<exists>p. factory (de_cache de) tr i = Inr p"
    and "c = de_cache (DefaultEndpointer_receive it (inbox ch ts out) de)"
  shows "ec_err c = None \<and> fst ` set (ecache c) = set xs
    \<and> endpoints c = map (\<lambda>i. Endpoint (the (map_of (ecache c) i))) (sort xs)"
proof -
  from last_inbox [OF assms(1,2)] obtain evs now where
    e: "inbox ch ts out = evs @ [(now, (Some xs, None))]" by blast
  let ?d = "fold (ec_do it) (map (\<lambda>(now, v). EcUpdate now v) evs) (de_cache de)"
  have c: "c = (updateCache it ?d xs)\<lparr>ec_err := None\<rparr>"
    by (simp add: assms(4) e receive_append receive_fold endpointCache_Update_def)
  have "factory ?d = factory (de_cache de)" by simp
  with updateCache_complete [of ?d it xs] assms(3) show ?thesis by (simp add: c)
qed

subsection \<open>Properties\<close>

text \<open>C2: Whatever events with distinct instances reach an endpoint cache and whenever \<open>Endpoints\<close>
  is called, no closer is lost: those obtained from the factory are those closed and those still
  held, each exactly once.\<close>

theorem endpoint_cache_no_leak:
  assumes "iterates it" and "\<forall>op \<in> set ops. distinct_event op"
    and "c = fold (ec_do it) ops (newEndpointCache f opts)"
  shows "created (trace c) = closed (trace c) + held (ecache c)"
  using fold_ec_tight [OF ec_tight_new assms(1,2), of f opts] assms(3) by (simp add: ec_tight_def)

theorem endpoint_cache_no_leak_witness:
  "created (trace (fold (ec_do (\<lambda>xs. xs)) [EcUpdate 0 (Some [''a'', ''b''], None), EcUpdate 1 (Some [''b''], None)]
      (newEndpointCache (\<lambda>tr i. Inr (i, Some i) :: nat + _) \<lparr>invalidateOnError = False, invalidateTimeout = 0\<rparr>)))
   = {#''a''#} + {#''b''#}"
proof -
  let ?ops = "[EcUpdate 0 (Some [''a'', ''b''], None), EcUpdate 1 (Some [''b''], None)] :: nat ec_op list"
  let ?c0 = "newEndpointCache (\<lambda>tr i. Inr (i, Some i) :: nat + _) \<lparr>invalidateOnError = False, invalidateTimeout = 0\<rparr>"
  have "closed (trace (fold (ec_do (\<lambda>xs. xs)) ?ops ?c0)) = {#''a''#}"
    "held (ecache (fold (ec_do (\<lambda>xs. xs)) ?ops ?c0)) = {#''b''#}"
    by (simp_all add: newEndpointCache_def endpointCache_Update_def updateCache_def Let_def
        close_all_def closed_def held_def List.map_filter_def)
  then show ?thesis
    using endpoint_cache_no_leak [where ops = ?ops and c = "fold (ec_do (\<lambda>xs. xs)) ?ops ?c0",
        OF iterates_id _ refl] by (simp del: fold_simps add: add_mset_commute)
qed

text \<open>Whatever the events, even with repeated instances, and whatever the factory, a closer is
  never closed more often than it was obtained, nor closed while it is still held.\<close>

theorem endpoint_cache_no_double_close:
  assumes "iterates it" and "c = fold (ec_do it) ops (newEndpointCache f opts)"
  shows "closed (trace c) + held (ecache c) \<subseteq># created (trace c)"
  using fold_ec_inv [OF ec_inv_new assms(1), of ops f opts] assms(2) by (simp add: ec_inv_def)

theorem endpoint_cache_no_double_close_witness:
  "closed (trace (fold (ec_do (\<lambda>xs. xs)) [EcUpdate 0 (Some [''a'', ''a''], None)]
      (newEndpointCache (\<lambda>tr i. Inr (i, Some i) :: nat + _) \<lparr>invalidateOnError = False, invalidateTimeout = 0\<rparr>)))
    + {#''a''#} \<subseteq># {#''a'', ''a''#}"
  using endpoint_cache_no_double_close [of "\<lambda>xs. xs", OF iterates_id refl,
      of "[EcUpdate 0 (Some [''a'', ''a''], None)]" "\<lambda>tr i. Inr (i, Some i) :: nat + _"
      "\<lparr>invalidateOnError = False, invalidateTimeout = 0\<rparr>"]
  by (simp add: newEndpointCache_def endpointCache_Update_def updateCache_def Let_def
        close_all_def closed_def created_def held_def List.map_filter_def)

text \<open>C25: An update with distinct instances calls the factory once, in order, for exactly the
  instances the cache did not have, keeps the endpoints of those it had, drops the others and closes
  them, publishes the endpoints in the order of the sorted instances and clears the error.\<close>

theorem endpointCache_Update_correct:
  assumes "ec_inv c" and "iterates it" and "distinct xs"
    and "c' = endpointCache_Update it now (Some xs, None) c"
  shows "\<exists>calls closes. trace c' = trace c @ calls @ closes
    \<and> map call_instance calls = filter (\<lambda>i. map_of (ecache c) i = None) (sort xs)
    \<and> (\<exists>old. closes = close_all old \<and> map_of old = map_of (ecache c) |` (- set xs))
    \<and> (\<forall>i. map_of (ecache c') i = (if i \<in> set xs then
          (case map_of (ecache c) i of Some sc \<Rightarrow> Some sc | None \<Rightarrow> results calls i) else None))
    \<and> endpoints c' = populate (ecache c') (sort xs) \<and> ec_err c' = None"
proof -
  obtain old new tr where p: "produce (factory c) (sort xs) (ecache c) [] (trace c) = (old, new, tr)"
    by (cases "produce (factory c) (sort xs) (ecache c) [] (trace c)")
  from produce_results [OF p] assms(3) obtain calls where c: "tr = trace c @ calls"
    "map call_instance calls = filter (\<lambda>i. map_of (ecache c) i = None) (sort xs)"
    "\<forall>i. map_of new i = (if i \<in> set xs then
          (case map_of (ecache c) i of Some sc \<Rightarrow> Some sc | None \<Rightarrow> results calls i) else None)"
    by auto
  have d: "distinct (map fst old)" "distinct (map fst (ecache c))"
    using produce_distinct [OF p] assms(1) by (simp_all add: ec_inv_def)
  have "map_of (it old) = map_of (ecache c) |` (- set xs)"
    using produce_old [OF p] map_of_distinct_mset [OF d(1), of "it old"] iterates_mset [OF assms(2)]
    by simp
  with c show ?thesis
    by (intro exI [of _ calls] exI [of _ "close_all (it old)"])
      (auto simp: assms(4) endpointCache_Update_def updateCache_def p)
qed

theorem endpointCache_Update_correct_witness:
  "\<exists>c' :: (string, string, nat) endpointCache. endpoints c' = [''a'', ''b''] \<and> ec_err c' = None"
proof -
  let ?c = "newEndpointCache (\<lambda>tr i. Inr (i, Some i) :: nat + _) \<lparr>invalidateOnError = False, invalidateTimeout = 0\<rparr>"
  let ?d = "endpointCache_Update (\<lambda>xs. xs) 5 (Some [''b'', ''a''], None) ?c"
  have "endpoints ?d = populate (ecache ?d) (sort [''b'', ''a'']) \<and> ec_err ?d = None"
    using endpointCache_Update_correct [of ?c "\<lambda>xs. xs" "[''b'', ''a'']", OF ec_inv_new iterates_id _ refl]
    by fastforce
  then show ?thesis
    by (intro exI [of _ ?d]) (simp add: newEndpointCache_def endpointCache_Update_def updateCache_def
        populate_def List.map_filter_def)
qed

text \<open>The error handling refines a two-state machine: a cache is healthy, or failing with the
  first error and a deadline; an update moves the machine and \<open>Endpoints\<close> answers from its state
  and leaves it alone.\<close>

theorem endpoint_cache_health:
  "health (newEndpointCache f opts) = Healthy
   \<and> health (endpointCache_Update it now event c) = after_event (options c) now (snd event) (health c)
   \<and> snd (endpointCache_Endpoints it t c) = answer t (health c) (endpoints c)
   \<and> health (fst (endpointCache_Endpoints it t c)) = health c"
proof -
  obtain c' r where "endpointCache_Endpoints it t c = (c', r)" by (cases "endpointCache_Endpoints it t c")
  from Endpoints_answer [OF this] this show ?thesis
    by (simp add: health_Update) (simp add: health_def newEndpointCache_def)
qed

definition no_recovery :: "int \<Rightarrow> 'e ec_op \<Rightarrow> bool" where
  "no_recovery deadline op =
     (case op of EcUpdate now event \<Rightarrow> snd event \<noteq> None | EcEndpoints now \<Rightarrow> now < deadline)"

lemma no_recovery_stable:
  "ec_err c = Some e \<Longrightarrow> \<forall>op \<in> set ops. no_recovery (invalidateDeadline c) op \<Longrightarrow> fold (ec_do it) ops c = c"
proof (induction ops)
  case (Cons op ops)
  have "ec_do it op c = c"
    using Cons.prems by (cases op) (auto simp: no_recovery_def endpointCache_Update_def Endpoints_locked_def)
  with Cons show ?case by simp
qed simp

text \<open>C8: With InvalidateOnError, when an error arrives and no good update follows, \<open>Endpoints\<close>
  keeps answering with the last endpoints until the timeout has passed since the first error; from
  then on it returns that first error, and everything it held has been closed.\<close>

theorem endpoint_cache_expiry:
  assumes "iterates it" and "ec_err c = None" and "invalidateOnError (options c)"
    and "deadline = t0 + invalidateTimeout (options c)"
    and "\<forall>op \<in> set ops. no_recovery deadline op"
    and "c1 = fold (ec_do it) ops (endpointCache_Update it t0 (v, Some e) c)"
    and "endpointCache_Endpoints it t c1 = (c2, r)"
  shows "if t < deadline then r = (endpoints c, None) \<and> ecache c2 = ecache c
    else r = ([], Some e) \<and> ecache c2 = [] \<and> closed (trace c2) = closed (trace c) + held (ecache c)"
proof -
  let ?c = "c\<lparr>ec_err := Some e, invalidateDeadline := deadline\<rparr>"
  have "endpointCache_Update it t0 (v, Some e) c = ?c"
    using assms(2-4) by (simp add: endpointCache_Update_def)
  then have c1: "c1 = ?c" using no_recovery_stable [of ?c e ops it] assms(5,6) by simp
  have u: "updateCache it ?c [] = (updateCache it c [])\<lparr>ec_err := Some e, invalidateDeadline := deadline\<rparr>"
    by (simp add: updateCache_def)
  show ?thesis
    using assms(7) updateCache_Nil [OF assms(1), of c]
    by (auto simp: c1 u endpointCache_Endpoints_def Endpoints_rlocked_def Endpoints_locked_def Let_def)
qed

theorem endpoint_cache_expiry_witness:
  "snd (endpointCache_Endpoints (\<lambda>xs. xs) 20 (fold (ec_do (\<lambda>xs. xs)) [EcUpdate 7 (None, Some 9)]
      (endpointCache_Update (\<lambda>xs. xs) 5 (None, Some 8)
        (newEndpointCache (\<lambda>tr i. Inr (i, Some i) :: nat + _) \<lparr>invalidateOnError = True, invalidateTimeout = 10\<rparr>))))
   = ([], Some 8)"
proof -
  let ?it = "\<lambda>xs. xs" and ?ops = "[EcUpdate 7 (None, Some 9)]"
    and ?c = "newEndpointCache (\<lambda>tr i. Inr (i, Some i) :: nat + _) \<lparr>invalidateOnError = True, invalidateTimeout = 10\<rparr>"
  obtain c2 r where q: "endpointCache_Endpoints ?it 20 (fold (ec_do ?it) ?ops
      (endpointCache_Update ?it 5 (None, Some 8) ?c)) = (c2, r)"
    by (rule prod.exhaust)
  have h: "\<forall>op \<in> set ?ops. no_recovery 15 op" "ec_err ?c = None" "invalidateOnError (options ?c)"
    "15 = 5 + invalidateTimeout (options ?c)"
    by (simp_all add: newEndpointCache_def no_recovery_def)
  from endpoint_cache_expiry [OF iterates_id h(2-4,1) refl q] have "r = ([], Some 8)" by simp
  then show ?thesis by (simp only: q snd_conv)
qed

text \<open>C3: An endpointer that subscribed to an instance cache and has received what was sent to it is
  in sync: if the instancer is not failing and the factory does not fail, it holds an endpoint for
  exactly the current instances, in their order, however they were published before.\<close>

theorem endpointer_in_sync:
  assumes "source_inv src" and "ch \<notin> source_listens src" and "iterates it"
    and "\<And>tr i. \<exists>p. f tr i = Inr p"
    and "NewEndpointer f opts ch src = (de, src1, sends1)"
    and "cache_source.do_ops ops src1 = (src2, sends2)" and "ch \<in> source_listens src2"
    and "length ts = length (filter (\<lambda>p. fst p = ch) (sends1 @ sends2))"
    and "source_value src2 = (Some xs, None)"
    and "c = de_cache (DefaultEndpointer_receive it (inbox ch ts (sends1 @ sends2)) de)"
  shows "ec_err c = None \<and> fst ` set (ecache c) = set xs
    \<and> endpoints c = map (\<lambda>i. Endpoint (the (map_of (ecache c) i))) (sort xs)"
proof -
  have l: "source_listen ch src = (src1, sends1)" and fa: "factory (de_cache de) = f"
    using assms(5) by (auto simp: NewEndpointer_def newEndpointCache_def split: prod.splits)
  have "cache_source.do_ops (Listen ch # ops) src = (src2, sends1 @ sends2)"
    by (simp add: l assms(6))
  from cache_source.in_sync [OF assms(1) this assms(7,2)]
  have "last_for ch (sends1 @ sends2) = Some (Some xs, None)" by (simp add: assms(9))
  from endpointer_receives [OF this assms(8) _ assms(10)] assms(4) show ?thesis by (simp add: fa)
qed

theorem endpointer_in_sync_witness:
  "\<exists>c :: (string, string, nat) endpointCache. ec_err c = None \<and> fst ` set (ecache c) = {''a'', ''b''}"
proof -
  let ?f = "\<lambda>tr i. Inr (i, Some i) :: nat + string \<times> string option"
  let ?src = "(\<lambda>xs. xs, [], NewCache) :: nat source"
  obtain de src1 sends1 where n: "NewEndpointer ?f [] 3 ?src = (de, src1, sends1)"
    by (rule prod_cases3)
  have n1: "src1 = (\<lambda>xs. xs, [], NewCache\<lparr>reg := [3]\<rparr>)" "sends1 = [(3, (None, None))]"
    using n by (auto simp: NewEndpointer_def source_listen_def Cache_Register_def NewCache_def
        registry_register_def copyEvent_def sent_values_def evalue_def split: prod.splits)
  have o: "cache_source.do_ops [Publish (Some [''b'', ''a''], None)] src1
      = ((\<lambda>xs. xs, [[''a'', ''b''], [''a'', ''b'']], \<lparr>state = \<lparr>Instances = Some 0, Err = None\<rparr>, reg = [3]\<rparr>),
         [(3, (Some [''a'', ''b''], None))])"
    by (simp add: n1 source_publish_def alloc_def Cache_Update_def NewCache_def sort_Strings_def
        DeepEqual_def registry_broadcast_def copyEvent_def sent_values_def evalue_def)
  have i: "source_inv ?src" "3 \<notin> source_listens ?src"
    by (simp_all add: source_inv_def source_listens_def NewCache_def)
  have ok: "\<exists>p. ?f tr i = Inr p" for tr i by simp
  let ?c = "de_cache (DefaultEndpointer_receive (\<lambda>xs. xs)
      (inbox 3 [1, 2] (sends1 @ [(3, (Some [''a'', ''b''], None))])) de)"
  note r = endpointer_in_sync [OF i iterates_id ok n o, of "[1, 2]" "[''a'', ''b'']" ?c]
  have "ec_err ?c = None \<and> fst ` set (ecache ?c) = set [''a'', ''b'']"
    using r by (simp add: source_listens_def source_value_def evalue_def n1(2))
  then show ?thesis by (intro exI [of _ ?c]) simp
qed

text \<open>An update that names an instance twice makes two endpoints for it but remembers one: the
  instance is listed twice and the first closer is never closed, not even when the instance goes away.\<close>

theorem duplicate_instance_leaks:
  assumes "iterates it" and "\<And>tr. f tr i = Inr (s, Some k)"
    and "c1 = endpointCache_Update it t (Some [i, i], None) (newEndpointCache f opts)"
    and "c2 = endpointCache_Update it t' (Some [], None) c1"
  shows "endpoints c1 = [s, s] \<and> created (trace c1) = {#k, k#} \<and> held (ecache c1) = {#k#}
    \<and> closed (trace c2) = {#k#} \<and> held (ecache c2) = {#}"
proof -
  have c1: "c1 = (newEndpointCache f opts)\<lparr>ecache := [(i, \<lparr>Endpoint = s, Closer = Some k\<rparr>)],
      endpoints := [s, s], trace := [FactoryCall i (Inr (s, Some k)), FactoryCall i (Inr (s, Some k))]\<rparr>"
    using assms(1,2)
    by (simp add: assms(3) endpointCache_Update_def newEndpointCache_def updateCache_def populate_def
        List.map_filter_def close_all_def Let_def)
  show ?thesis
    using updateCache_Nil [OF assms(1), of c1]
    by (simp add: assms(4) c1 endpointCache_Update_def closer_of_def)
      (simp add: created_def closed_def List.map_filter_def)
qed

theorem duplicate_instance_leaks_witness:
  "\<exists>c1 :: (nat, nat, nat) endpointCache. endpoints c1 = [4, 4] \<and> held (ecache c1) = {#5#}"
  using duplicate_instance_leaks [of "\<lambda>xs. xs" "\<lambda>tr i. Inr (4, Some 5)" "''a''" 4 5, OF iterates_id _ refl refl]
  by auto

end
