(* ===== verification/Balancer.thy ===== *)
theory Balancer
  imports Endpoint_Cache
begin

text \<open>
  Package sd/lb, files balancer.go, round_robin.go and random.go: the balancers, which pick one of
  the endpoints that an endpointer yields. The endpointer is a parameter (its call \<open>Ep\<close>), used
  through the interface \<open>endpointer\<close>; the counter of the round robin keeps its 64 bits. The
  generator of math/rand is a parameter \<open>intn\<close> of which only the documented range is used.
\<close>

datatype 'e lb_error = ErrNoEndpoints | EndpointerError 'e

type_synonym ('s, 'ep, 'e) endpoints_call = "'s \<Rightarrow> 's \<times> 'ep list \<times> 'e option"

record 's roundRobin =
  rr_s :: 's
  rr_c :: "64 word"

definition NewRoundRobin :: "'s \<Rightarrow> 's roundRobin" where
  "NewRoundRobin s = \<lparr>rr_s = s, rr_c = 0\<rparr>"

definition roundRobin_Endpoint ::
  "('s, 'ep, 'e) endpoints_call \<Rightarrow> 's roundRobin \<Rightarrow> 's roundRobin \<times> ('e lb_error + 'ep)" where
  "roundRobin_Endpoint Ep rr =
     (let (s1, eps, er) = Ep (rr_s rr); rr1 = rr\<lparr>rr_s := s1\<rparr> in
      case er of
        Some e \<Rightarrow> (rr1, Inl (EndpointerError e))
      | None \<Rightarrow>
          if length eps \<le> 0 then (rr1, Inl ErrNoEndpoints)
          else
            let c1 = rr_c rr1 + 1; old = c1 - 1; idx = old mod of_nat (length eps)
            in (rr1\<lparr>rr_c := c1\<rparr>, Inr (eps ! unat idx)))"

record ('s, 'r) random =
  rnd_s :: 's
  rnd_r :: 'r

definition NewRandom :: "('seed \<Rightarrow> 'r) \<Rightarrow> 's \<Rightarrow> 'seed \<Rightarrow> ('s, 'r) random" where
  "NewRandom new_rand s seed = \<lparr>rnd_s = s, rnd_r = new_rand seed\<rparr>"

definition random_Endpoint :: "('s, 'ep, 'e) endpoints_call \<Rightarrow> ('r \<Rightarrow> nat \<Rightarrow> 'r \<times> nat)
    \<Rightarrow> ('s, 'r) random \<Rightarrow> ('s, 'r) random \<times> ('e lb_error + 'ep)" where
  "random_Endpoint Ep intn r =
     (let (s1, eps, er) = Ep (rnd_s r); r1 = r\<lparr>rnd_s := s1\<rparr> in
      case er of
        Some e \<Rightarrow> (r1, Inl (EndpointerError e))
      | None \<Rightarrow>
          if length eps \<le> 0 then (r1, Inl ErrNoEndpoints)
          else let (g, n) = intn (rnd_r r1) (length eps) in (r1\<lparr>rnd_r := g\<rparr>, Inr (eps ! n)))"

text \<open>A run of calls, with the results in order.\<close>

fun calls :: "('b \<Rightarrow> 'b \<times> 'x) \<Rightarrow> nat \<Rightarrow> 'b \<Rightarrow> 'b \<times> 'x list" where
  "calls f 0 b = (b, [])"
| "calls f (Suc n) b = (let (b1, x) = f b; (b2, xs) = calls f n b1 in (b2, x # xs))"

subsection \<open>Arithmetic of the counter\<close>

lemma rr_index:
  fixes c :: "64 word"
  assumes "0 < n" and "n < 2 ^ 64"
  shows "unat (c mod of_nat n) = unat c mod n"
proof -
  have "unat (of_nat n :: 64 word) = n" using assms(2) by (simp add: unat_of_nat)
  then show ?thesis by (simp add: unat_mod_distrib)
qed

lemma mset_index_window:
  "length xs = n \<Longrightarrow> 0 < n \<Longrightarrow> mset (map (\<lambda>i. xs ! ((a + i) mod n)) [0..<n]) = mset xs"
proof -
  assume n: "length xs = n" "0 < n"
  have b: "bij_betw (\<lambda>i. (a + i) mod n) {..<n} {..<n}"
  proof (rule bij_betw_imageI)
    show inj: "inj_on (\<lambda>i. (a + i) mod n) {..<n}"
    proof (rule inj_onI)
      fix x y assume xy: "x \<in> {..<n}" "y \<in> {..<n}" "(a + x) mod n = (a + y) mod n"
      then have "x mod n = y mod n" unfolding nat_mod_eq_iff by auto
      then show "x = y" using xy by simp
    qed
    then show "(\<lambda>i. (a + i) mod n) ` {..<n} = {..<n}"
      using n(2) by (intro endo_inj_surj) auto
  qed
  have "mset (map (\<lambda>i. xs ! ((a + i) mod n)) [0..<n])
      = image_mset (\<lambda>i. xs ! i) (image_mset (\<lambda>i. (a + i) mod n) (mset_set {..<n}))"
    by (simp add: lessThan_atLeast0 image_mset.compositionality comp_def)
  also have "image_mset (\<lambda>i. (a + i) mod n) (mset_set {..<n}) = mset_set {..<n}"
    using image_mset_mset_set [OF bij_betw_imp_inj_on [OF b]] bij_betw_imp_surj_on [OF b] by simp
  also have "image_mset (\<lambda>i. xs ! i) (mset_set {..<n}) = mset xs"
    using n(1) by (metis map_nth mset_map mset_upt atLeast0LessThan)
  finally show ?thesis .
qed

subsection \<open>Balancers over an endpointer\<close>

context endpointer begin

lemma rr_yields_step:
  assumes "yields (rr_s b) xs" and "xs \<noteq> []" and "length xs < 2 ^ 64"
  shows "\<exists>s. roundRobin_Endpoint Endpoints b
      = (\<lparr>rr_s = s, rr_c = rr_c b + 1\<rparr>, Inr (xs ! (unat (rr_c b) mod length xs))) \<and> yields s xs"
  using yields_law [OF assms(1)] assms(2,3)
  by (cases "Endpoints (rr_s b)"; cases b)
    (auto simp: roundRobin_Endpoint_def Let_def rr_index)

lemma rr_yields_calls:
  assumes "yields (rr_s b) xs" and "xs \<noteq> []" and "length xs < 2 ^ 64"
  shows "snd (calls (roundRobin_Endpoint Endpoints) n b)
    = map (\<lambda>i. Inr (xs ! (unat (rr_c b + of_nat i) mod length xs))) [0..<n]"
  using assms(1)
proof (induction n arbitrary: b)
  case (Suc n)
  from rr_yields_step [OF Suc.prems assms(2,3)] obtain s where
    s: "roundRobin_Endpoint Endpoints b
      = (\<lparr>rr_s = s, rr_c = rr_c b + 1\<rparr>, Inr (xs ! (unat (rr_c b) mod length xs)))" "yields s xs" by blast
  have "snd (calls (roundRobin_Endpoint Endpoints) n \<lparr>rr_s = s, rr_c = rr_c b + 1\<rparr>)
      = map (\<lambda>i. Inr (xs ! (unat (rr_c b + of_nat (Suc i)) mod length xs))) [0..<n]"
    using Suc.IH [of "\<lparr>rr_s = s, rr_c = rr_c b + 1\<rparr>"] s(2) by (simp add: add.assoc)
  then show ?case by (simp add: s(1) Let_def split_beta map_upt_Suc del: upt_Suc)
qed simp

lemma rr_fails_calls:
  "fails (rr_s b) e \<Longrightarrow> snd (calls (roundRobin_Endpoint Endpoints) n b) = replicate n (Inl (EndpointerError e))
     \<and> rr_c (fst (calls (roundRobin_Endpoint Endpoints) n b)) = rr_c b"
proof (induction n arbitrary: b)
  case (Suc n)
  obtain s eps er where c: "Endpoints (rr_s b) = (s, eps, er)" by (rule prod_cases3)
  with fails_law [OF Suc.prems] have "er = Some e" "fails s e" by auto
  with Suc.IH [of "b\<lparr>rr_s := s\<rparr>"] c show ?case
    by (simp add: roundRobin_Endpoint_def Let_def split_beta)
qed simp

lemma rr_empty_calls:
  "yields (rr_s b) [] \<Longrightarrow> snd (calls (roundRobin_Endpoint Endpoints) n b) = replicate n (Inl ErrNoEndpoints)
     \<and> rr_c (fst (calls (roundRobin_Endpoint Endpoints) n b)) = rr_c b"
proof (induction n arbitrary: b)
  case (Suc n)
  obtain s eps er where c: "Endpoints (rr_s b) = (s, eps, er)" by (rule prod_cases3)
  with yields_law [OF Suc.prems] have "er = None" "eps = []" "yields s []" by auto
  with Suc.IH [of "b\<lparr>rr_s := s\<rparr>"] c show ?case
    by (simp add: roundRobin_Endpoint_def Let_def split_beta)
qed simp

text \<open>Each round of as many calls as there are endpoints uses each endpoint once.\<close>

lemma rr_round:
  assumes "yields (rr_s b) xs" and "xs \<noteq> []" and "unat (rr_c b) + length xs \<le> 2 ^ 64"
    and "length xs < 2 ^ 64"
  shows "mset (snd (calls (roundRobin_Endpoint Endpoints) (length xs) b)) = image_mset Inr (mset xs)"
proof -
  have "unat (rr_c b + of_nat i) = unat (rr_c b) + i" if "i < length xs" for i
  proof -
    have "unat (rr_c b) + i < 2 ^ 64" using that assms(3) by linarith
    then show ?thesis by (simp add: unat_word_ariths unat_of_nat)
  qed
  then have "snd (calls (roundRobin_Endpoint Endpoints) (length xs) b)
      = map Inr (map (\<lambda>i. xs ! ((unat (rr_c b) + i) mod length xs)) [0..<length xs])"
    using rr_yields_calls [OF assms(1,2,4), of "length xs"] by simp
  then show ?thesis
    using mset_index_window [of xs "length xs" "unat (rr_c b)"] assms(2) by (simp only: mset_map) simp
qed

lemma random_member:
  assumes "yields (rnd_s b) xs" and "xs \<noteq> []" and "\<And>g n. 0 < n \<Longrightarrow> snd (intn g n) < n"
  shows "\<exists>ep \<in> set xs. snd (random_Endpoint Endpoints intn b) = Inr ep"
proof -
  obtain s eps er where c: "Endpoints (rnd_s b) = (s, eps, er)" by (rule prod_cases3)
  obtain g n where g: "intn (rnd_r b) (length xs) = (g, n)" by (cases "intn (rnd_r b) (length xs)")
  have "n < length xs" using assms(2) assms(3) [of "length xs" "rnd_r b"] g by simp
  with c g yields_law [OF assms(1)] show ?thesis
    by (auto simp: random_Endpoint_def Let_def)
qed

end

subsection \<open>Properties\<close>

text \<open>Over an endpoint cache that is not failing, a round robin hands out the endpoints in
  order, starting at its counter modulo their number, and counts one per call; the counter wraps
  around after 2^64 calls.\<close>

theorem round_robin_sequence:
  assumes "clocked_yields (rr_s b) xs" and "xs \<noteq> []" and "length xs < 2 ^ 63"
  shows "snd (calls (roundRobin_Endpoint clocked_call) n b)
    = map (\<lambda>i. Inr (xs ! (unat (rr_c b + of_nat i) mod length xs))) [0..<n]"
  using cached.rr_yields_calls [OF assms(1,2)] assms(3) by simp

text \<open>Round robin is fair: in any round of as many calls as there are endpoints, short of the
  wrap-around of the counter, each endpoint of the cache is handed out exactly once.\<close>

theorem round_robin_fair:
  assumes "clocked_yields (rr_s b) xs" and "xs \<noteq> []" and "length xs < 2 ^ 63"
    and "unat (rr_c b) + length xs \<le> 2 ^ 64"
  shows "mset (snd (calls (roundRobin_Endpoint clocked_call) (length xs) b)) = image_mset Inr (mset xs)"
  using cached.rr_round [OF assms(1,2,4)] assms(3) by simp

text \<open>When the endpointer fails, a round robin returns that error, and when there are no
  endpoints it returns \<open>ErrNoEndpoints\<close>, at every call; neither moves the counter.\<close>

theorem round_robin_errors:
  "(clocked_fails (rr_s b) e \<longrightarrow>
     snd (calls (roundRobin_Endpoint clocked_call) n b) = replicate n (Inl (EndpointerError e))
     \<and> rr_c (fst (calls (roundRobin_Endpoint clocked_call) n b)) = rr_c b) \<and>
   (clocked_yields (rr_s b) [] \<longrightarrow>
     snd (calls (roundRobin_Endpoint clocked_call) n b) = replicate n (Inl ErrNoEndpoints)
     \<and> rr_c (fst (calls (roundRobin_Endpoint clocked_call) n b)) = rr_c b)"
  by (intro conjI impI) (simp_all add: cached.rr_fails_calls cached.rr_empty_calls)

text \<open>A random balancer over a cache that yields endpoints returns one of them, given a
  generator whose \<open>Intn\<close> stays in its documented range.\<close>

theorem random_balancer_member:
  assumes "clocked_yields (rnd_s b) xs" and "xs \<noteq> []" and "\<And>g n. 0 < n \<Longrightarrow> snd (intn g n) < n"
  shows "\<exists>ep \<in> set xs. snd (random_Endpoint clocked_call intn b) = Inr ep"
  using cached.random_member [OF assms] .

subsection \<open>Concrete runs\<close>

definition two_endpoints :: "(string, string, nat) clocked" where
  "two_endpoints = (\<lambda>xs. xs, 1, 0,
     endpointCache_Update (\<lambda>xs. xs) 0 (Some [''a'', ''b''], None)
       (newEndpointCache (\<lambda>tr i. Inr (i, Some i)) \<lparr>invalidateOnError = True, invalidateTimeout = 2\<rparr>))"

definition failing_endpoints :: "(string, string, nat) clocked" where
  "failing_endpoints = (\<lambda>xs. xs, 1, 2,
     endpointCache_Update (\<lambda>xs. xs) 0 (None, Some 7)
       (newEndpointCache (\<lambda>tr i. Inr (i, Some i)) \<lparr>invalidateOnError = True, invalidateTimeout = 2\<rparr>))"

lemma two_endpoints_yields: "clocked_yields two_endpoints [''a'', ''b'']"
  by (simp add: clocked_yields_def two_endpoints_def endpointCache_Update_def newEndpointCache_def
      updateCache_def populate_def List.map_filter_def Let_def)

lemma failing_endpoints_fails: "clocked_fails failing_endpoints 7"
  by (simp add: clocked_fails_def failing_endpoints_def endpointCache_Update_def newEndpointCache_def)

theorem round_robin_sequence_witness:
  "snd (calls (roundRobin_Endpoint clocked_call) 3 \<lparr>rr_s = two_endpoints, rr_c = - 1\<rparr>)
   = [Inr ''b'', Inr ''a'', Inr ''b'']"
  using round_robin_sequence [of "\<lparr>rr_s = two_endpoints, rr_c = - 1\<rparr>" "[''a'', ''b'']" 3]
  by (simp add: two_endpoints_yields upt_rec unsigned_minus_1_eq_mask mask_eq_exp_minus_1)
    (simp flip: numeral_2_eq_2)

theorem round_robin_fair_witness:
  "mset (snd (calls (roundRobin_Endpoint clocked_call) (length [''a'', ''b'']) (NewRoundRobin two_endpoints)))
   = {#Inr ''a'', Inr ''b''#}"
  using round_robin_fair [of "NewRoundRobin two_endpoints" "[''a'', ''b'']"]
  by (simp add: two_endpoints_yields NewRoundRobin_def del: calls.simps)

theorem round_robin_errors_witness:
  "snd (calls (roundRobin_Endpoint clocked_call) 2 (NewRoundRobin failing_endpoints))
   = [Inl (EndpointerError 7), Inl (EndpointerError 7)]"
  using round_robin_errors [of "NewRoundRobin failing_endpoints" 7 2]
  by (simp add: failing_endpoints_fails NewRoundRobin_def numeral_2_eq_2)

theorem random_balancer_member_witness:
  "\<exists>ep \<in> {''a'', ''b''}. snd (random_Endpoint clocked_call (\<lambda>g n. (Suc g, g mod n))
     (NewRandom (\<lambda>seed. seed) two_endpoints 5)) = Inr ep"
  using random_balancer_member [of "NewRandom (\<lambda>seed. seed) two_endpoints 5" "[''a'', ''b'']"
      "\<lambda>g n. (Suc g, g mod n)"]
  by (simp add: two_endpoints_yields NewRandom_def)

end
