(* ===== verification/Retry.thy ===== *)
theory Retry
  imports Balancer Go_Strings
begin

text \<open>
  Package sd/lb, file retry.go: an endpoint that sends a request to the endpoints of a balancer until
  one answers, the callback gives up or the deadline passes.

  Each round of the loop starts one goroutine and waits. What ends the wait is the world's choice:
  \<open>deadline i w\<close> is the error of the context if it is done before the attempt of round \<open>i\<close> answers.
  Otherwise the wait ends with what the goroutine sends, the result of the balancer and of the
  endpoint it picked (both parameters, run on the world \<open>'w\<close>). The loop may run forever, so it is a
  partial function: \<open>None\<close> is a call that never returns. When the deadline
  ends the wait the goroutine of that round still runs, so its effect on the world is kept.
\<close>

datatype ('e) retry_failure = RetryError "'e list" 'e | ContextError 'e

definition RetryError_Error :: "('e \<Rightarrow> string) \<Rightarrow> 'e list \<Rightarrow> 'e \<Rightarrow> string" where
  "RetryError_Error Error RawErrors Final =
     (let suffix =
        if length RawErrors > 1 then
          '' (previously: '' @ strings_Join (map Error (butlast RawErrors)) ''; '' @ '')''
        else []
      in Error Final @ suffix)"

type_synonym 'e Callback = "int \<Rightarrow> 'e \<Rightarrow> bool \<times> 'e option"

definition maxRetries :: "int \<Rightarrow> 'e Callback" where
  "maxRetries limit = (\<lambda>n err. (n < limit, None))"

definition alwaysRetry :: "'e Callback" where
  "alwaysRetry = (\<lambda>n err. (True, None))"

text \<open>The goroutine of a round: what it sends, on \<open>responses\<close> (\<open>Inr\<close>) or on \<open>errs\<close> (\<open>Inl\<close>).\<close>

definition attempt :: "('w \<Rightarrow> 'w \<times> ('e + 'ep)) \<Rightarrow> ('ep \<Rightarrow> 'w \<Rightarrow> 'w \<times> ('e + 'r)) \<Rightarrow> 'w \<Rightarrow> 'w \<times> ('e + 'r)" where
  "attempt b call w =
     (case b w of
        (w1, Inl err) \<Rightarrow> (w1, Inl err)
      | (w1, Inr e) \<Rightarrow> call e w1)"

text \<open>The loop, with the attempts made so far counted by \<open>i\<close> and their errors in \<open>raw\<close>.\<close>

partial_function (option) retry_loop ::
  "'e Callback \<Rightarrow> (int \<Rightarrow> 'w \<Rightarrow> 'e option) \<Rightarrow> ('w \<Rightarrow> 'w \<times> ('e + 'r)) \<Rightarrow> int \<Rightarrow> 'e list \<Rightarrow> 'w
     \<Rightarrow> ('w \<times> ('e retry_failure + 'r)) option" where
  "retry_loop cb deadline once i raw w =
     (case deadline i w of
        Some ctxErr \<Rightarrow> Some (fst (once w), Inl (ContextError ctxErr))
      | None \<Rightarrow>
          (case once w of
             (w1, Inr response) \<Rightarrow> Some (w1, Inr response)
           | (w1, Inl err) \<Rightarrow>
               let raw1 = raw @ [err];
                   (keepTrying, replacement) = cb i err;
                   err1 = (case replacement of None \<Rightarrow> err | Some e \<Rightarrow> e)
               in if \<not> keepTrying then Some (w1, Inl (RetryError raw1 err1))
                  else retry_loop cb deadline once (i + 1) raw1 w1))"

definition RetryWithCallback ::
  "(int \<Rightarrow> 'w \<Rightarrow> 'e option) \<Rightarrow> ('w \<Rightarrow> 'w \<times> ('e + 'ep)) option \<Rightarrow> 'e Callback option
     \<Rightarrow> (('ep \<Rightarrow> 'w \<Rightarrow> 'w \<times> ('e + 'r)) \<Rightarrow> 'w \<Rightarrow> ('w \<times> ('e retry_failure + 'r)) option) outcome" where
  "RetryWithCallback deadline b cb =
     (let cb1 = (case cb of None \<Rightarrow> alwaysRetry | Some f \<Rightarrow> f) in
      case b of
        None \<Rightarrow> Panic ''nil Balancer''
      | Some bal \<Rightarrow> Ret (\<lambda>call w. retry_loop cb1 deadline (attempt bal call) 1 [] w))"

definition Retry :: "int \<Rightarrow> (int \<Rightarrow> 'w \<Rightarrow> 'e option) \<Rightarrow> ('w \<Rightarrow> 'w \<times> ('e + 'ep)) option
     \<Rightarrow> (('ep \<Rightarrow> 'w \<Rightarrow> 'w \<times> ('e + 'r)) \<Rightarrow> 'w \<Rightarrow> ('w \<times> ('e retry_failure + 'r)) option) outcome" where
  "Retry limit deadline b = RetryWithCallback deadline b (Some (maxRetries limit))"

subsection \<open>Attempts in a row\<close>

text \<open>The worlds and errors of \<open>n\<close> attempts in a row that all fail before the deadline.\<close>

fun failures :: "(int \<Rightarrow> 'w \<Rightarrow> 'e option) \<Rightarrow> ('w \<Rightarrow> 'w \<times> ('e + 'r)) \<Rightarrow> int \<Rightarrow> nat \<Rightarrow> 'w \<Rightarrow> ('w \<times> 'e list) option" where
  "failures deadline once i 0 w = Some (w, [])"
| "failures deadline once i (Suc n) w =
     (case (deadline i w, once w) of
        (None, (w1, Inl e)) \<Rightarrow>
          (case failures deadline once (i + 1) n w1 of None \<Rightarrow> None | Some (w2, es) \<Rightarrow> Some (w2, e # es))
      | _ \<Rightarrow> None)"

lemma failures_length: "failures d t i n w = Some (w', es) \<Longrightarrow> length es = n"
  by (induction d t i n w arbitrary: es w' rule: failures.induct)
    (auto split: option.splits sum.splits prod.splits)

lemma failures_SucE:
  assumes "failures d t i (Suc n) w = Some (w', es)"
  obtains e w1 es1 where "d i w = None" "t w = (w1, Inl e)"
    "failures d t (i + 1) n w1 = Some (w', es1)" "es = e # es1"
  using assms by (auto split: option.splits sum.splits prod.splits)

text \<open>Failed attempts that the callback lets pass move the loop along.\<close>

lemma retry_loop_failures:
  assumes "failures d t i n w = Some (w', es)"
    and "\<And>j e. i \<le> j \<Longrightarrow> j < i + int n \<Longrightarrow> fst (cb j e)"
  shows "retry_loop cb d t i raw w = retry_loop cb d t (i + int n) (raw @ es) w'"
  using assms
proof (induction n arbitrary: i w es raw)
  case (Suc n)
  from Suc.prems(1) obtain e w1 es1 where e: "d i w = None" "t w = (w1, Inl e)"
    "failures d t (i + 1) n w1 = Some (w', es1)" "es = e # es1" by (rule failures_SucE)
  obtain rep where "cb i e = (True, rep)" using Suc.prems(2) [of i e] by (cases "cb i e") auto
  then have "retry_loop cb d t i raw w = retry_loop cb d t (i + 1) (raw @ [e]) w1"
    by (subst retry_loop.simps) (simp add: e(1,2))
  also have "\<dots> = retry_loop cb d t (i + 1 + int n) ((raw @ [e]) @ es1) w'"
    by (rule Suc.IH [OF e(3)]) (use Suc.prems(2) in auto)
  finally show ?case by (simp add: e(4) add.assoc)
qed simp

lemma retry_loop_response:
  "d i w = None \<Longrightarrow> t w = (w1, Inr r) \<Longrightarrow> retry_loop cb d t i raw w = Some (w1, Inr r)"
  by (subst retry_loop.simps) simp

lemma retry_loop_deadline:
  "d i w = Some e \<Longrightarrow> retry_loop cb d t i raw w = Some (fst (t w), Inl (ContextError e))"
  by (subst retry_loop.simps) simp

lemma retry_loop_stop:
  "d i w = None \<Longrightarrow> t w = (w1, Inl e) \<Longrightarrow> cb i e = (False, rep) \<Longrightarrow>
    retry_loop cb d t i raw w
      = Some (w1, Inl (RetryError (raw @ [e]) (case rep of None \<Rightarrow> e | Some x \<Rightarrow> x)))"
  by (subst retry_loop.simps) simp

text \<open>Either all of the first \<open>n\<close> attempts fail, or some attempt before ends the wait otherwise.\<close>

lemma first_success:
  "(\<exists>w' es. failures d t i n w = Some (w', es)) \<or>
   (\<exists>k < n. \<exists>w' es. failures d t i k w = Some (w', es) \<and>
      ((\<exists>e. d (i + int k) w' = Some e) \<or> d (i + int k) w' = None \<and> (\<exists>w'' r. t w' = (w'', Inr r))))"
proof (induction n arbitrary: i w)
  case (Suc n)
  show ?case
  proof (cases "d i w")
    case None
    obtain w1 o1 where t: "t w = (w1, o1)" by (cases "t w")
    show ?thesis
    proof (cases o1)
      case (Inl e)
      from Suc.IH [of "i + 1" w1] consider
        (all) w' es where "failures d t (i + 1) n w1 = Some (w', es)"
        | (some) k w' es where "k < n" "failures d t (i + 1) k w1 = Some (w', es)"
          "(\<exists>e. d (i + 1 + int k) w' = Some e) \<or> d (i + 1 + int k) w' = None \<and> (\<exists>w'' r. t w' = (w'', Inr r))"
        by blast
      then show ?thesis
      proof cases
        case all
        then show ?thesis by (simp add: None t Inl)
      next
        case some
        then show ?thesis
          by (intro disjI2 exI [of _ "Suc k"]) (simp add: None t Inl add.assoc)
      qed
    next
      case (Inr r)
      then show ?thesis using None t by (intro disjI2 exI [of _ 0]) simp
    qed
  next
    case (Some e)
    then show ?thesis by (intro disjI2 exI [of _ 0]) simp
  qed
qed simp

lemma failures_snocE:
  assumes "failures d t i (Suc n) w = Some (w', es)"
  obtains e w1 es1 where "failures d t i n w = Some (w1, es1)" "d (i + int n) w1 = None"
    "t w1 = (w', Inl e)" "es = es1 @ [e]"
proof -
  have "\<exists>e w1 es1. failures d t i n w = Some (w1, es1) \<and> d (i + int n) w1 = None
      \<and> t w1 = (w', Inl e) \<and> es = es1 @ [e]"
    using assms
  proof (induction n arbitrary: i w es)
    case 0
    then show ?case by (auto split: option.splits sum.splits prod.splits)
  next
    case (Suc n)
    from Suc.prems obtain e w1 es1 where e: "d i w = None" "t w = (w1, Inl e)"
      "failures d t (i + 1) (Suc n) w1 = Some (w', es1)" "es = e # es1" by (rule failures_SucE)
    from Suc.IH [OF e(3)] obtain e2 w2 es2 where "failures d t (i + 1) n w1 = Some (w2, es2)"
      "d (i + 1 + int n) w2 = None" "t w2 = (w', Inl e2)" "es1 = es2 @ [e2]" by blast
    with e show ?case
      by (intro exI [of _ e2] exI [of _ w2] exI [of _ "e # es2"]) (simp add: add.assoc)
  qed
  with that show thesis by blast
qed

lemma return_not_all_fail:
  assumes "retry_loop cb d t i raw w = Some y"
  shows "cb = alwaysRetry \<longrightarrow> (\<exists>n. failures d t i n w = None)"
proof (rule retry_loop.raw_induct [where P = "\<lambda>cb d t i raw w y. cb = alwaysRetry \<longrightarrow>
      (\<exists>n. failures d t i n w = None)", OF _ assms], intro impI)
  fix loop cb d t i raw w y
  assume IH: "\<And>cb d t i raw w y. loop cb d t i raw w = Some y \<Longrightarrow> cb = alwaysRetry \<longrightarrow>
      (\<exists>n. failures d t i n w = None)"
    and run: "(case d i w of Some ctxErr \<Rightarrow> Some (fst (t w), Inl (ContextError ctxErr))
      | None \<Rightarrow> (case t w of (w1, Inr response) \<Rightarrow> Some (w1, Inr response)
           | (w1, Inl err) \<Rightarrow>
               let raw1 = raw @ [err];
                   (keepTrying, replacement) = cb i err;
                   err1 = (case replacement of None \<Rightarrow> err | Some e \<Rightarrow> e)
               in if \<not> keepTrying then Some (w1, Inl (RetryError raw1 err1))
                  else loop cb d t (i + 1) raw1 w1)) = Some y"
    and cb: "cb = alwaysRetry"
  show "\<exists>n. failures d t i n w = None"
  proof (rule ccontr)
    assume n: "\<nexists>n. failures d t i n w = None"
    then have "\<exists>x. failures d t i (Suc 0) w = Some x" by (simp del: failures.simps)
    then obtain w1 e where e: "d i w = None" "t w = (w1, Inl e)"
      by (auto split: option.splits sum.splits prod.splits)
    have "loop cb d t (i + 1) (raw @ [e]) w1 = Some y"
      using run e by (simp add: cb alwaysRetry_def)
    from IH [OF this] cb obtain m where m: "failures d t (i + 1) m w1 = None" by blast
    then have "failures d t i (Suc m) w = None" using e by simp
    with n show False by blast
  qed
qed

lemma returns_if_some_ends:
  assumes "failures d t i n w = None"
  shows "\<exists>y. retry_loop alwaysRetry d t i raw w = Some y"
proof -
  from first_success [of d t i n w] assms obtain k w' es where
    k: "failures d t i k w = Some (w', es)"
    "(\<exists>e. d (i + int k) w' = Some e) \<or> d (i + int k) w' = None \<and> (\<exists>w'' r. t w' = (w'', Inr r))"
    by auto
  have "retry_loop alwaysRetry d t i raw w = retry_loop alwaysRetry d t (i + int k) (raw @ es) w'"
    by (rule retry_loop_failures [OF k(1)]) (simp add: alwaysRetry_def)
  with k(2) show ?thesis by (auto simp: retry_loop_deadline retry_loop_response)
qed

lemma failures_prefix:
  "failures d t i m w = Some (w', es) \<Longrightarrow> n \<le> m \<Longrightarrow> \<exists>w1 es1. failures d t i n w = Some (w1, es1)"
proof (induction m arbitrary: w' es)
  case (Suc m)
  from Suc.prems(1) obtain e w1 es1 where "failures d t i m w = Some (w1, es1)" by (rule failures_snocE)
  with Suc show ?case by (cases "n = Suc m") auto
qed simp

text \<open>Failed attempts through a balancer that always yields an endpoint are calls of endpoints.\<close>

lemma failures_calls:
  assumes "\<And>ep b. call ep b = (b, ans ep)"
    and "failures (\<lambda>_ _. None) (attempt bal call) i n w = Some (w', es)"
    and "Inr ep \<in> set (snd (calls bal n w))"
  shows "\<exists>e. ans ep = Inl e"
  using assms(2,3)
proof (induction n arbitrary: i w es)
  case (Suc n)
  from Suc.prems(1) obtain e w1 es1 where e: "attempt bal call w = (w1, Inl e)"
    "failures (\<lambda>_ _. None) (attempt bal call) (i + 1) n w1 = Some (w', es1)"
    by (rule failures_SucE)
  obtain w0 x where b: "bal w = (w0, x)" by (cases "bal w")
  have w1: "w1 = w0" using e(1) by (auto simp: attempt_def b assms(1) split: sum.splits)
  show ?case
  proof (cases "x = Inr ep")
    case True
    then show ?thesis using e(1) by (auto simp: attempt_def b assms(1))
  next
    case False
    then have "Inr ep \<in> set (snd (calls bal n w0))"
      using Suc.prems(2) by (auto simp: b Let_def split_beta)
    with Suc.IH [OF e(2)] w1 show ?thesis by simp
  qed
qed simp

text \<open>What a call with a limit returns.\<close>

lemma Retry_result:
  assumes "Retry limit d (Some b) = Ret f" and "n = nat (max 1 limit)"
  shows "(\<exists>w' es. failures d (attempt b call) 1 n w = Some (w', es) \<and> length es = n
            \<and> f call w = Some (w', Inl (RetryError es (last es))))
    \<or> (\<exists>k < n. \<exists>w' es. failures d (attempt b call) 1 k w = Some (w', es) \<and>
         ((\<exists>e. d (1 + int k) w' = Some e
             \<and> f call w = Some (fst (attempt b call w'), Inl (ContextError e)))
          \<or> (\<exists>w'' r. d (1 + int k) w' = None \<and> attempt b call w' = (w'', Inr r)
             \<and> f call w = Some (w'', Inr r))))"
proof -
  let ?t = "attempt b call" and ?cb = "maxRetries limit"
  have f: "f call w = retry_loop ?cb d ?t 1 [] w"
    using assms(1) by (auto simp: Retry_def RetryWithCallback_def)
  have go: "retry_loop ?cb d ?t 1 [] w = retry_loop ?cb d ?t (1 + int k) es w'"
    if "failures d ?t 1 k w = Some (w', es)" "k < n" for k w' es
    using retry_loop_failures [OF that(1), of ?cb "[]"] that(2) assms(2) by (auto simp: maxRetries_def)
  from first_success [of d ?t 1 n w] consider
    (all) w' es where "failures d ?t 1 n w = Some (w', es)"
    | (some) k w' es where "k < n" "failures d ?t 1 k w = Some (w', es)"
      "(\<exists>e. d (1 + int k) w' = Some e) \<or> d (1 + int k) w' = None \<and> (\<exists>w'' r. ?t w' = (w'', Inr r))"
    by blast
  then show ?thesis
  proof cases
    case all
    have "0 < n" using assms(2) by simp
    then obtain m where m: "n = Suc m" using gr0_implies_Suc by blast
    from all [unfolded m] obtain e w1 es1 where e: "failures d ?t 1 m w = Some (w1, es1)"
      "d (1 + int m) w1 = None" "?t w1 = (w', Inl e)" "es = es1 @ [e]" by (rule failures_snocE)
    have "?cb (1 + int m) e = (False, None)" using assms(2) m by (simp add: maxRetries_def)
    from retry_loop_stop [where cb = ?cb and raw = es1 and d = d and i = "1 + int m" and w = w1 and t = ?t and e = e, OF e(2,3) this] go [OF e(1)] m
    have "f call w = Some (w', Inl (RetryError es (last es)))" by (simp add: f e(4))
    with all show ?thesis by (simp add: failures_length)
  next
    case some
    with go [OF some(2,1)] show ?thesis
      by (intro disjI2 exI [of _ k]) (auto simp: f retry_loop_deadline retry_loop_response)
  qed
qed

subsection \<open>Properties\<close>

text \<open>C19: \<open>Retry\<close> with a positive or any other limit always returns: either its first \<open>max 1 limit\<close>
  attempts all fail and it returns a \<open>RetryError\<close> of exactly their errors, the last one final; or
  an earlier attempt ends it, with the response it got or with the error of the context.\<close>

theorem Retry_bounded:
  assumes "Retry limit d (Some b) = Ret f" and "n = nat (max 1 limit)"
  shows "(\<exists>w' es. failures d (attempt b call) 1 n w = Some (w', es) \<and> length es = n
            \<and> f call w = Some (w', Inl (RetryError es (last es))))
    \<or> (\<exists>k < n. \<exists>w' es. failures d (attempt b call) 1 k w = Some (w', es) \<and>
         ((\<exists>e. d (1 + int k) w' = Some e
             \<and> f call w = Some (fst (attempt b call w'), Inl (ContextError e)))
          \<or> (\<exists>w'' r. d (1 + int k) w' = None \<and> attempt b call w' = (w'', Inr r)
             \<and> f call w = Some (w'', Inr r))))"
  by (rule Retry_result [OF assms])

text \<open>Without a callback an endpoint retries for ever: the call returns exactly when some attempt
  answers or the deadline passes before one of them fails.\<close>

theorem RetryWithCallback_returns_iff:
  assumes "RetryWithCallback d (Some b) None = Ret f"
  shows "(\<exists>y. f call w = Some y) \<longleftrightarrow> (\<exists>n. failures d (attempt b call) 1 n w = None)"
proof -
  have "f call w = retry_loop alwaysRetry d (attempt b call) 1 [] w"
    using assms by (auto simp: RetryWithCallback_def)
  then show ?thesis
    using return_not_all_fail returns_if_some_ends by metis
qed

text \<open>Retry over a round robin fails over: if at least one endpoint of the cache answers, the limit
  is at least the number of endpoints and the deadline does not pass, the request is answered.\<close>

theorem Retry_round_robin_failover:
  assumes "clocked_yields (rr_s w) xs" and "good \<in> set xs" and "ans good = Inr r"
    and "length xs < 2 ^ 63" and "unat (rr_c w) + length xs \<le> 2 ^ 64"
    and "int (length xs) \<le> limit"
    and "Retry limit (\<lambda>_ _. None) (Some (roundRobin_Endpoint clocked_call)) = Ret f"
  shows "\<exists>w' r'. f (\<lambda>ep b. (b, ans ep)) w = Some (w', Inr r')"
proof -
  let ?b = "roundRobin_Endpoint clocked_call" and ?call = "\<lambda>ep b. (b, ans ep)" and ?n = "length xs"
  let ?d = "\<lambda>_ _. None"
  have ne: "xs \<noteq> []" using assms(2) by auto
  have "length xs < 2 ^ 64" using assms(4) by simp
  from arg_cong [where f = set_mset, OF cached.rr_round [OF assms(1) ne assms(5) this]]
  have "set (snd (calls ?b ?n w)) = Inr ` set xs" by simp
  then have "Inr good \<in> set (snd (calls ?b ?n w))" using assms(2) by simp
  then have no: "failures ?d (attempt ?b ?call) 1 ?n w \<noteq> Some (w', es)" for w' es
    using failures_calls [of ?call ans ?b 1 ?n w w' es good] assms(3) by auto
  let ?m = "nat (max 1 limit)"
  have "?n \<le> ?m" using assms(6) by linarith
  have "failures ?d (attempt ?b ?call) 1 ?m w \<noteq> Some (w', es)" for w' es
  proof
    assume "failures ?d (attempt ?b ?call) 1 ?m w = Some (w', es)"
    from failures_prefix [OF this \<open>?n \<le> ?m\<close>] no show False by blast
  qed
  with Retry_result [OF assms(7) refl, of ?call w] show ?thesis by auto
qed

subsection \<open>Concrete runs\<close>

theorem Retry_bounded_witness:
  "\<exists>f. Retry 2 (\<lambda>_ _. None) (Some (\<lambda>w. (w, Inr ()))) = Ret f \<and>
     f (\<lambda>_ w. (Suc w, Inl w :: nat + string)) 5 = Some (7, Inl (RetryError [5, 6] 6))"
proof -
  let ?b = "\<lambda>w :: nat. (w, Inr () :: nat + unit)" and ?call = "\<lambda>_ w. (Suc w, Inl w :: nat + string)"
  obtain f where f: "Retry 2 (\<lambda>_ _. None) (Some ?b)
      = Ret (f :: (unit \<Rightarrow> nat \<Rightarrow> nat \<times> (nat + string)) \<Rightarrow> _)"
    by (simp add: Retry_def RetryWithCallback_def)
  have a: "attempt ?b ?call w = (Suc w, Inl w)" for w by (simp add: attempt_def)
  from Retry_bounded [OF f refl, of ?call 5] have "f ?call 5 = Some (7, Inl (RetryError [5, 6] 6))"
    by (auto simp: a numeral_2_eq_2)
  with f show ?thesis by blast
qed

theorem RetryWithCallback_returns_iff_witness:
  "\<exists>f. RetryWithCallback (\<lambda>_ _. None) (Some (\<lambda>w. (w, Inr ()))) None = Ret f \<and>
     f (\<lambda>_ w. (Suc w, Inl w :: nat + string)) (5 :: nat) = None"
proof -
  let ?b = "\<lambda>w :: nat. (w, Inr () :: nat + unit)" and ?call = "\<lambda>_ w. (Suc w, Inl w :: nat + string)"
  obtain f where f: "RetryWithCallback (\<lambda>_ _. None) (Some ?b) None
      = Ret (f :: (unit \<Rightarrow> nat \<Rightarrow> nat \<times> (nat + string)) \<Rightarrow> _)"
    by (simp add: RetryWithCallback_def)
  have a: "attempt ?b ?call w = (Suc w, Inl w)" for w by (simp add: attempt_def)
  have "failures (\<lambda>_ _. None) (attempt ?b ?call) i n w \<noteq> None" for i n w
    by (induction n arbitrary: i w) (auto simp: a split: option.splits)
  with RetryWithCallback_returns_iff [OF f, of ?call 5] have "\<nexists>y. f ?call 5 = Some y" by blast
  then have "f ?call 5 = None" by (cases "f ?call 5") blast+
  with f show ?thesis by blast
qed

theorem Retry_round_robin_failover_witness:
  "\<exists>f w' r'. Retry 2 (\<lambda>_ _. None) (Some (roundRobin_Endpoint clocked_call)) = Ret f \<and>
     f (\<lambda>ep b. (b, if ep = ''b'' then Inr ep else Inl ErrNoEndpoints)) (NewRoundRobin two_endpoints)
       = Some (w', Inr r')"
proof -
  obtain f where f: "Retry 2 (\<lambda>_ _. None) (Some (roundRobin_Endpoint clocked_call))
      = Ret (f :: (string \<Rightarrow> (string, string, nat) clocked roundRobin
          \<Rightarrow> (string, string, nat) clocked roundRobin \<times> (nat lb_error + string)) \<Rightarrow> _)"
    by (simp add: Retry_def RetryWithCallback_def)
  from Retry_round_robin_failover [OF _ _ _ _ _ _ f, of "NewRoundRobin two_endpoints" "[''a'', ''b'']"
      "''b''" "\<lambda>ep. if ep = ''b'' then Inr ep else Inl ErrNoEndpoints" "''b''"]
  have "\<exists>w' r'. f (\<lambda>ep b. (b, if ep = ''b'' then Inr ep else Inl ErrNoEndpoints))
      (NewRoundRobin two_endpoints) = Some (w', Inr r')"
    by (simp add: two_endpoints_yields NewRoundRobin_def)
  with f show ?thesis by blast
qed

end
