(* ===== verification/Conn_Manager.thy ===== *)
theory Conn_Manager
  imports Prelude Float64
begin

text \<open>
  Package util/conn, file manager.go: a goroutine that owns a connection, hands it to its clients,
  and replaces it after an error with an exponential backoff.

  Each case of the select in \<open>loop\<close> is a definition \<open>on_...\<close>; the relation \<open>loop_step\<close> lets any
  enabled case run, together with the steps of the goroutines that dial: \<open>m_dialing\<close> counts those
  that are inside \<open>dial\<close>, \<open>m_sending\<close> holds the results of those that wait for room in \<open>connc\<close>,
  whose capacity is one. \<open>m_reconnectc\<close> is the duration of the armed timer. Durations are
  nanoseconds; \<open>Exponential\<close> computes in 64-bit integers and in doubles as the code does, with the
  random number as an argument. Log output is not modelled.
\<close>

datatype 'c conn_event = Dialed "'c option" | Closed 'c | Armed int

record 'c manager =
  m_conn :: "'c option"
  m_connc :: "'c option list"
  m_reconnectc :: "int option"
  m_backoff :: int
  m_dialing :: nat
  m_sending :: "'c option list"
  m_trace :: "'c conn_event list"

definition Second :: int where "Second = 1000000000"
definition Minute :: int where "Minute = 60 * Second"
definition Nanosecond :: int where "Nanosecond = 1"

definition wrap_int64 :: "int \<Rightarrow> int" where
  "wrap_int64 x = (x + 2 ^ 63) mod 2 ^ 64 - 2 ^ 63"

definition Exponential :: "(float64 \<Rightarrow> int) \<Rightarrow> rat \<Rightarrow> int \<Rightarrow> int" where
  "Exponential impl rnd d0 =
     (let d = wrap_int64 (d0 * 2);
          jitter = f64_add (F64 rnd) (F64 (1 / 2));
          d1 = f64_to_int64 impl (f64_mul (f64_of_int d) jitter)
      in if d1 > Minute then Minute else d1)"

definition dial :: "'c option \<times> string option \<Rightarrow> 'c option" where
  "dial r = (case r of (conn, err) \<Rightarrow> if err \<noteq> None then None else conn)"

text \<open>The start of \<open>loop\<close>, given what the first call of the dialer returned.\<close>

definition loop_start :: "'c option \<times> string option \<Rightarrow> 'c manager" where
  "loop_start r =
     \<lparr>m_conn = dial r, m_connc = [dial r], m_reconnectc = None, m_backoff = Second,
      m_dialing = 0, m_sending = [], m_trace = [Dialed (dial r)]\<rparr>"

text \<open>\<open>NewManager\<close> starts the loop in a goroutine, with the dialer it is given (\<open>NewDefaultManager\<close>: \<open>net.Dial\<close>).\<close>

definition NewManager :: "(string \<Rightarrow> string \<Rightarrow> 'c option \<times> string option) \<Rightarrow> string \<Rightarrow> string \<Rightarrow> 'c manager" where
  "NewManager dialer network address = loop_start (dialer network address)"

definition on_reconnectc :: "'c manager \<Rightarrow> 'c manager" where
  "on_reconnectc m = m\<lparr>m_reconnectc := None, m_dialing := m_dialing m + 1\<rparr>"

definition on_connc :: "(float64 \<Rightarrow> int) \<Rightarrow> rat \<Rightarrow> 'c option \<Rightarrow> 'c manager \<Rightarrow> 'c manager" where
  "on_connc impl rnd conn m =
     (if conn = None then
        let b = Exponential impl rnd (m_backoff m) in
        m\<lparr>m_connc := [], m_conn := conn, m_backoff := b, m_reconnectc := Some b,
          m_trace := m_trace m @ [Armed b]\<rparr>
      else m\<lparr>m_connc := [], m_conn := conn, m_backoff := Second, m_reconnectc := None\<rparr>)"

definition Manager_Take :: "'c manager \<Rightarrow> 'c manager \<times> 'c option" where
  "Manager_Take m = (m, m_conn m)"

definition Manager_Put :: "string option \<Rightarrow> 'c manager \<Rightarrow> 'c manager" where
  "Manager_Put err m =
     (case (err, m_conn m) of
        (Some e, Some c) \<Rightarrow>
          m\<lparr>m_conn := None, m_reconnectc := Some Nanosecond,
            m_trace := m_trace m @ [Closed c, Armed Nanosecond]\<rparr>
      | _ \<Rightarrow> m)"

text \<open>
  \<open>Write\<close>: between its \<open>Take\<close> and its \<open>Put\<close> the loop may do other things, which \<open>mid\<close> stands for.
\<close>

definition Manager_Write :: "('c \<Rightarrow> 'b \<Rightarrow> int \<times> string option) \<Rightarrow> ('c manager \<Rightarrow> 'c manager)
    \<Rightarrow> 'c manager \<Rightarrow> 'b \<Rightarrow> 'c manager \<times> int \<times> string option" where
  "Manager_Write write mid m b =
     (case Manager_Take m of
        (m1, None) \<Rightarrow> (m1, 0, Some ''connection unavailable'')
      | (m1, Some conn) \<Rightarrow>
          let (n, err) = write conn b in (Manager_Put err (mid m1), n, err))"

subsection \<open>The loop as a step relation\<close>

definition is_random :: "rat \<Rightarrow> bool" where
  "is_random rnd \<longleftrightarrow> 0 \<le> rnd \<and> rnd < 1"

text \<open>The steps of the loop and of the goroutines that dial, and those in which clients take part.\<close>

inductive loop_own :: "'c manager \<Rightarrow> 'c manager \<Rightarrow> bool" where
  timer: "m_reconnectc m \<noteq> None \<Longrightarrow> loop_own m (on_reconnectc m)"
| dialed: "0 < m_dialing m \<Longrightarrow> loop_own m
     (m\<lparr>m_dialing := m_dialing m - 1, m_sending := m_sending m @ [dial r],
        m_trace := m_trace m @ [Dialed (dial r)]\<rparr>)"
| sent: "m_connc m = [] \<Longrightarrow> m_sending m = xs @ r # ys \<Longrightarrow>
     loop_own m (m\<lparr>m_connc := [r], m_sending := xs @ ys\<rparr>)"
| connected: "m_connc m = [r] \<Longrightarrow> is_random rnd \<Longrightarrow> loop_own m (on_connc impl rnd r m)"

inductive loop_step :: "'c manager \<Rightarrow> 'c manager \<Rightarrow> bool" where
  own: "loop_own m m' \<Longrightarrow> loop_step m m'"
| take_conn: "loop_step m (fst (Manager_Take m))"
| put_error: "loop_step m (Manager_Put err m)"

definition loop_reach :: "'c manager \<Rightarrow> 'c manager \<Rightarrow> bool" where
  "loop_reach = rtranclp loop_step"

subsection \<open>The backoff\<close>

lemma wrap_int64_id: "- (2 ^ 63) \<le> x \<Longrightarrow> x < 2 ^ 63 \<Longrightarrow> wrap_int64 x = x"
  by (simp add: wrap_int64_def)

lemma representable_of_int: "0 < n \<Longrightarrow> n < 2 ^ 53 \<Longrightarrow> representable (of_int n)"
  by (rule representable_int)

lemma jitter_ge_half:
  assumes "is_random rnd"
  obtains r where "f64_add (F64 rnd) (F64 (1 / 2)) = F64 r" and "1 / 2 \<le> r" and "r \<le> 2"
proof -
  have q: "1 / 2 \<le> rnd + 1 / 2" "rnd + 1 / 2 \<le> 2" using assms by (simp_all add: is_random_def)
  then have "rnd + 1 / 2 \<le> 2 ^ 53" by simp
  from f64_round_lower [OF representable_half q(1) this] obtain r where
    r: "f64_round (rnd + 1 / 2) = F64 r" "1 / 2 \<le> r" .
  have "r \<le> 2"
  proof -
    have "round_pos (rnd + 1 / 2) \<le> round_pos 2"
      using q by (intro round_pos_mono) simp_all
    also have "round_pos 2 = 2"
      using round_pos_exact [OF representable_int [of 2]] by simp
    finally have "round_pos (rnd + 1 / 2) \<le> 2" .
    then show ?thesis using r q by (auto simp: f64_round_def Let_def split: if_splits)
  qed
  with r that show thesis by (simp add: f64_add_def f64_finite_def)
qed

text \<open>The next delay is at least the current one and at most a minute.\<close>

lemma Exponential_bounds:
  assumes "is_random rnd" and "0 < d" and "d \<le> Minute"
  shows "d \<le> Exponential impl rnd d" and "Exponential impl rnd d \<le> Minute"
proof -
  obtain j where j: "f64_add (F64 rnd) (F64 (1 / 2)) = F64 j" "1 / 2 \<le> j" "j \<le> 2"
    using jitter_ge_half [OF assms(1)] .
  have d: "0 < d" "d \<le> 60000000000" using assms(2,3) by (simp_all add: Second_def Minute_def)
  have w: "wrap_int64 (d * 2) = 2 * d" using d by (simp add: wrap_int64_id)
  have i: "f64_of_int (2 * d) = F64 (of_int (2 * d))" using d by (intro f64_of_int_exact) simp_all
  have dr: "(0 :: rat) < of_int d" "(of_int d :: rat) \<le> of_int 60000000000"
    using d by (simp, simp only: of_int_le_iff)
  have m: "f64_mul (F64 (of_int (2 * d))) (F64 j) = f64_round (of_int (2 * d) * j)"
    using d dr j by (simp add: f64_mul_def f64_finite_def)
  have lo: "of_int d \<le> of_int (2 * d) * j"
    using mult_left_mono [of "1 / 2" j "of_int (2 * d)"] dr j(2) by simp
  have "of_int (2 * d) * j \<le> of_int (2 * d) * 2"
    using dr j(3) by (intro mult_left_mono) simp_all
  also have "\<dots> \<le> 2 ^ 53" using dr(2) by simp
  finally have hi: "of_int (2 * d) * j \<le> 2 ^ 53" .
  have rep: "representable (of_int d)" using d by (intro representable_int) simp_all
  from f64_round_lower [OF rep lo hi] obtain r where
    r: "f64_round (of_int (2 * d) * j) = F64 r" "of_int d \<le> r" "r \<le> 2 ^ 53" .
  have fl: "d \<le> \<lfloor>r\<rfloor>" using r(2) by (simp add: le_floor_iff)
  have "\<lfloor>r\<rfloor> \<le> \<lfloor>2 ^ 53 :: rat\<rfloor>" using r(3) by (rule floor_mono)
  then have fh: "\<lfloor>r\<rfloor> < 2 ^ 63" by simp
  have t: "rat_trunc r = \<lfloor>r\<rfloor>" using r(2) dr by (simp add: rat_trunc_def)
  have "f64_finite (F64 r)" "- (2 ^ 63) \<le> \<lfloor>r\<rfloor>" using fl d by (simp_all add: f64_finite_def) linarith
  with fh have e: "f64_to_int64 impl (F64 r) = \<lfloor>r\<rfloor>"
    by (simp only: f64_to_int64_def t f64_val.simps Let_def simp_thms if_True)
  have x: "Exponential impl rnd d = (if \<lfloor>r\<rfloor> > Minute then Minute else \<lfloor>r\<rfloor>)"
    using m r(1) by (simp add: Exponential_def w i j e Let_def)
  show "d \<le> Exponential impl rnd d" using x fl assms(3) by simp
  show "Exponential impl rnd d \<le> Minute" using x by simp
qed

subsection \<open>The invariant after the first connection\<close>

text \<open>
  The loop keeps exactly one of: a connection, an armed timer, a dialing goroutine, a result on its
  way to \<open>connc\<close> or in it. Every connection that was dialed is still there or was closed once.
\<close>

definition pending :: "'c manager \<Rightarrow> nat" where
  "pending m = (if m_reconnectc m = None then 0 else 1) + m_dialing m + length (m_sending m)
     + length (m_connc m)"

definition conns :: "'c option list \<Rightarrow> 'c multiset" where
  "conns xs = mset (List.map_filter id xs)"

definition dialed_conns :: "'c conn_event list \<Rightarrow> 'c multiset" where
  "dialed_conns tr = mset (List.map_filter (\<lambda>e. case e of Dialed c \<Rightarrow> c | _ \<Rightarrow> None) tr)"

definition closed_conns :: "'c conn_event list \<Rightarrow> 'c multiset" where
  "closed_conns tr = mset (List.map_filter (\<lambda>e. case e of Closed c \<Rightarrow> Some c | _ \<Rightarrow> None) tr)"

definition held_conns :: "'c manager \<Rightarrow> 'c multiset" where
  "held_conns m = conns [m_conn m] + conns (m_connc m) + conns (m_sending m)"

definition manager_inv :: "'c manager \<Rightarrow> bool" where
  "manager_inv m \<longleftrightarrow>
     (case m_conn m of None \<Rightarrow> pending m = 1 | Some c \<Rightarrow> pending m = 0) \<and>
     Second \<le> m_backoff m \<and> m_backoff m \<le> Minute \<and>
     (\<forall>b. Armed b \<in> set (m_trace m) \<longrightarrow> b = Nanosecond \<or> Second \<le> b \<and> b \<le> Minute) \<and>
     dialed_conns (m_trace m) = closed_conns (m_trace m) + held_conns m"

lemma conns_simps [simp]:
  "conns [] = {#}" "conns (None # xs) = conns xs" "conns (Some c # xs) = add_mset c (conns xs)"
  "conns (xs @ ys) = conns xs + conns ys"
  by (simp_all add: conns_def List.map_filter_def)

lemma event_conns_simps [simp]:
  "dialed_conns [] = {#}" "dialed_conns (tr @ tr') = dialed_conns tr + dialed_conns tr'"
  "dialed_conns (Dialed c # tr) = conns [c] + dialed_conns tr"
  "dialed_conns (Closed x # tr) = dialed_conns tr" "dialed_conns (Armed d # tr) = dialed_conns tr"
  "closed_conns [] = {#}" "closed_conns (tr @ tr') = closed_conns tr + closed_conns tr'"
  "closed_conns (Dialed c # tr) = closed_conns tr"
  "closed_conns (Closed x # tr) = add_mset x (closed_conns tr)"
  "closed_conns (Armed d # tr) = closed_conns tr"
  by (cases c; simp add: dialed_conns_def closed_conns_def List.map_filter_def)+

lemma Exponential_backoff:
  "is_random rnd \<Longrightarrow> Second \<le> b \<Longrightarrow> b \<le> Minute
     \<Longrightarrow> Second \<le> Exponential impl rnd b \<and> Exponential impl rnd b \<le> Minute"
  using Exponential_bounds [of rnd b impl] by (simp add: Second_def)

lemma on_connc_inv:
  assumes "manager_inv m" and "m_connc m = [r]" and "is_random rnd"
  shows "manager_inv (on_connc impl rnd r m)"
proof -
  have c: "m_conn m = None" "m_reconnectc m = None" "m_dialing m = 0" "m_sending m = []"
    using assms(1,2) by (auto simp: manager_inv_def pending_def split: option.splits if_splits)
  have "Second \<le> (1000000000 :: int)" "(1000000000 :: int) \<le> Minute" by (simp_all add: Second_def Minute_def)
  then show ?thesis
    using assms(1,2) c Exponential_backoff [OF assms(3), of "m_backoff m" impl]
    by (cases r) (auto simp: on_connc_def manager_inv_def pending_def held_conns_def Let_def Second_def)
qed

lemma loop_own_inv: "loop_own m m' \<Longrightarrow> manager_inv m \<Longrightarrow> manager_inv m'"
proof (induction rule: loop_own.induct)
  case (timer m)
  then show ?case
    by (auto simp: manager_inv_def on_reconnectc_def pending_def held_conns_def split: option.splits)
next
  case (dialed m r)
  then show ?case
    by (auto simp: manager_inv_def pending_def held_conns_def split: option.splits if_splits)
next
  case (sent m xs r ys)
  then show ?case
    by (cases r) (auto simp: manager_inv_def pending_def held_conns_def split: option.splits if_splits)
next
  case (connected m r rnd impl)
  then show ?case by (blast intro: on_connc_inv)
qed

lemma Manager_Put_inv: "manager_inv m \<Longrightarrow> manager_inv (Manager_Put err m)"
  by (auto simp: Manager_Put_def manager_inv_def pending_def held_conns_def split: option.splits if_splits)

lemma loop_step_inv: "loop_step m m' \<Longrightarrow> manager_inv m \<Longrightarrow> manager_inv m'"
  by (induction rule: loop_step.induct) (auto simp: Manager_Take_def intro: loop_own_inv Manager_Put_inv)

lemma loop_reach_inv: "loop_reach m m' \<Longrightarrow> manager_inv m \<Longrightarrow> manager_inv m'"
  unfolding loop_reach_def by (induction rule: rtranclp_induct) (blast intro: loop_step_inv)+


subsection \<open>All reachable states\<close>

text \<open>What holds from the start on, even when an error is put before the result of the first dial has been received.\<close>

definition loop_inv :: "'c manager \<Rightarrow> bool" where
  "loop_inv m \<longleftrightarrow> (m_conn m = None \<longrightarrow> 0 < pending m) \<and> length (m_connc m) \<le> 1 \<and>
     Second \<le> m_backoff m \<and> m_backoff m \<le> Minute \<and>
     (\<forall>b. Armed b \<in> set (m_trace m) \<longrightarrow> b = Nanosecond \<or> Second \<le> b \<and> b \<le> Minute)"

lemma loop_own_loop_inv: "loop_own m m' \<Longrightarrow> loop_inv m \<Longrightarrow> loop_inv m'"
proof (induction rule: loop_own.induct)
  case (connected m r rnd impl)
  have "Second \<le> Second" "Second \<le> Minute" by (simp_all add: Second_def Minute_def)
  with connected Exponential_backoff [OF connected(2), of "m_backoff m" impl] show ?case
    by (auto simp: loop_inv_def on_connc_def pending_def Let_def)
qed (auto simp: loop_inv_def on_reconnectc_def pending_def)

lemma loop_step_loop_inv: "loop_step m m' \<Longrightarrow> loop_inv m \<Longrightarrow> loop_inv m'"
proof (induction rule: loop_step.induct)
  case (put_error m err)
  then show ?case by (auto simp: Manager_Put_def loop_inv_def pending_def split: option.splits)
qed (auto simp: Manager_Take_def intro: loop_own_loop_inv)

lemma reach_loop_inv: "loop_reach (loop_start r) m \<Longrightarrow> loop_inv m"
  unfolding loop_reach_def
proof (induction rule: rtranclp_induct)
  case base
  show ?case by (simp add: loop_inv_def loop_start_def pending_def Second_def Minute_def)
qed (blast intro: loop_step_loop_inv)



subsection \<open>Ways back to a connection\<close>

abbreviation own_reach :: "'c manager \<Rightarrow> 'c manager \<Rightarrow> bool" where
  "own_reach \<equiv> loop_own\<^sup>*\<^sup>*"

lemma own_reach_loop_reach: "own_reach m m' \<Longrightarrow> loop_reach m m'"
  unfolding loop_reach_def by (induction rule: rtranclp_induct) (auto intro: own rtranclp.rtrancl_into_rtrancl)

text \<open>Receiving what is in \<open>connc\<close> and in the hands of the goroutines; nothing is closed by that.\<close>

definition closed_in :: "'c manager \<Rightarrow> 'c set" where
  "closed_in m = {c. Closed c \<in> set (m_trace m)}"

definition drained :: "'c manager \<Rightarrow> 'c manager \<Rightarrow> bool" where
  "drained m m' \<longleftrightarrow> own_reach m m' \<and> m_connc m' = [] \<and> m_sending m' = [] \<and> closed_in m' = closed_in m
     \<and> (m_conn m' = None \<longrightarrow> 0 < pending m')"

lemma drain_connc:
  assumes "m_connc m = [r]"
  shows "own_reach m (on_connc (\<lambda>_. 0) 0 r m)" and "m_connc (on_connc (\<lambda>_. 0) 0 r m) = []"
    and "m_sending (on_connc (\<lambda>_. 0) 0 r m) = m_sending m" and "closed_in (on_connc (\<lambda>_. 0) 0 r m) = closed_in m"
    and "m_conn (on_connc (\<lambda>_. 0) 0 r m) = r" and "r = None \<Longrightarrow> m_reconnectc (on_connc (\<lambda>_. 0) 0 r m) \<noteq> None"
  using connected [OF assms, of 0 "\<lambda>_. 0"] by (auto simp: is_random_def on_connc_def Let_def closed_in_def)

lemma pending_timer: "m_reconnectc m \<noteq> None \<Longrightarrow> 0 < pending m"
  by (auto simp: pending_def)

lemma drain_sending:
  "m_connc m = [] \<Longrightarrow> (m_conn m = None \<Longrightarrow> 0 < pending m) \<Longrightarrow> \<exists>m'. drained m m'"
proof (induction "length (m_sending m)" arbitrary: m)
  case 0
  then show ?case by (intro exI [of _ m]) (auto simp: drained_def)
next
  case (Suc n)
  then obtain x xs where x: "m_sending m = x # xs" by (cases "m_sending m") auto
  let ?m1 = "m\<lparr>m_connc := [x], m_sending := xs\<rparr>"
  let ?m2 = "on_connc (\<lambda>_. 0) 0 x ?m1"
  have c: "m_connc ?m1 = [x]" by simp
  note d = drain_connc [OF c]
  have "loop_own m ?m1" using sent [of m "[]" x xs] Suc.prems(1) x by simp
  then have r: "own_reach m ?m2" using d(1) by (rule converse_rtranclp_into_rtranclp)
  have "n = length (m_sending ?m2)" using Suc.hyps(2) x d(3) by simp
  moreover have "0 < pending ?m2" if "m_conn ?m2 = None"
    using that by (intro pending_timer d(6)) (simp only: d(5))
  ultimately obtain m' where m': "drained ?m2 m'" using Suc.hyps(1) [of ?m2] d(2) by blast
  have "closed_in ?m2 = closed_in m" using d(4) by (simp add: closed_in_def)
  with m' r have "drained m m'" by (auto simp: drained_def intro: rtranclp_trans)
  then show ?case by blast
qed

lemma drains:
  assumes "loop_inv m"
  shows "\<exists>m'. drained m m'"
proof (cases "m_connc m")
  case Nil
  with assms show ?thesis by (intro drain_sending) (auto simp: loop_inv_def)
next
  case (Cons r rs)
  with assms have r: "m_connc m = [r]" by (cases rs) (auto simp: loop_inv_def)
  note d = drain_connc [OF r]
  have "0 < pending (on_connc (\<lambda>_. 0) 0 r m)" if "m_conn (on_connc (\<lambda>_. 0) 0 r m) = None"
    using that by (intro pending_timer d(6)) (simp only: d(5))
  from drain_sending [OF d(2) this] obtain m' where "drained (on_connc (\<lambda>_. 0) 0 r m) m'" by blast
  with d(1,4) have "drained m m'" by (auto simp: drained_def intro: rtranclp_trans)
  then show ?thesis ..
qed

text \<open>A dial that is on its way brings whatever connection the dialer returns.\<close>

lemma dialing_connects:
  assumes "m_connc m = []" and "m_sending m = []" and "0 < m_dialing m"
  shows "\<exists>m'. own_reach m m' \<and> m_conn m' = Some c \<and> closed_in m' = closed_in m"
proof -
  let ?m1 = "m\<lparr>m_dialing := m_dialing m - 1, m_sending := [Some c], m_trace := m_trace m @ [Dialed (Some c)]\<rparr>"
  let ?m2 = "?m1\<lparr>m_connc := [Some c], m_sending := []\<rparr>"
  have "loop_own m ?m1" using dialed [OF assms(3), of "(Some c, None)"] assms(2) by (simp add: dial_def)
  moreover have "loop_own ?m1 ?m2" using sent [of ?m1 "[]" "Some c" "[]"] assms(1) by simp
  moreover have c: "m_connc ?m2 = [Some c]" by simp
  note d = drain_connc [OF c]
  ultimately have "own_reach m (on_connc (\<lambda>_. 0) 0 (Some c) ?m2)" using d(1) by (meson converse_rtranclp_into_rtranclp)
  with d(4,5) show ?thesis by (intro exI [of _ "on_connc (\<lambda>_. 0) 0 (Some c) ?m2"]) (simp add: closed_in_def)
qed

lemma pending_connects:
  assumes "m_connc m = []" and "m_sending m = []" and "0 < pending m"
  shows "\<exists>m'. own_reach m m' \<and> m_conn m' = Some c \<and> closed_in m' = closed_in m"
proof (cases "m_reconnectc m")
  case None
  with assms show ?thesis by (intro dialing_connects) (simp_all add: pending_def)
next
  case (Some d)
  then have t: "loop_own m (on_reconnectc m)" using timer [of m] by simp
  from assms(1,2) dialing_connects [of "on_reconnectc m" c] obtain m' where
    "own_reach (on_reconnectc m) m'" "m_conn m' = Some c" "closed_in m' = closed_in (on_reconnectc m)"
    by (auto simp: on_reconnectc_def)
  with t show ?thesis
    by (intro exI [of _ m']) (auto simp: on_reconnectc_def closed_in_def intro: converse_rtranclp_into_rtranclp)
qed

lemma loop_inv_reconnects:
  assumes "loop_inv m" and "m_conn m = None"
  shows "\<exists>m'. own_reach m m' \<and> m_conn m' \<noteq> None"
proof -
  obtain m1 where d: "drained m m1" using drains [OF assms(1)] by blast
  show ?thesis
  proof (cases "m_conn m1")
    case None
    from None d have "m_connc m1 = []" "m_sending m1 = []" "0 < pending m1" by (simp_all add: drained_def)
    from pending_connects [OF this, of undefined] obtain m' where m': "own_reach m1 m'" "m_conn m' = Some undefined" by blast
    from d have "own_reach m m1" by (simp add: drained_def)
    with m'(1) have "own_reach m m'" by (meson rtranclp_trans)
    with m'(2) show ?thesis by (intro exI [of _ m']) simp
  qed (use d in \<open>auto simp: drained_def\<close>)
qed

lemma loop_inv_live:
  assumes "loop_inv m" and "c \<notin> closed_in m"
  shows "\<exists>m'. loop_reach m m' \<and> m_conn m' = Some c \<and> c \<notin> closed_in m'"
proof -
  obtain m1 where "drained m m1" using drains [OF assms(1)] by blast
  then have d: "own_reach m m1" "m_connc m1 = []" "m_sending m1 = []" "closed_in m1 = closed_in m"
    "m_conn m1 = None \<longrightarrow> 0 < pending m1" by (simp_all add: drained_def)
  have r1: "loop_reach m m1" using d(1) by (rule own_reach_loop_reach)
  consider "m_conn m1 = None" | "m_conn m1 = Some c" | x where "m_conn m1 = Some x" "x \<noteq> c" by (cases "m_conn m1") auto
  then show ?thesis
  proof cases
    case 1
    with pending_connects [OF d(2,3), of c] d(5) obtain m' where
      "own_reach m1 m'" "m_conn m' = Some c" "closed_in m' = closed_in m1" by auto
    with r1 own_reach_loop_reach assms(2) d(4) show ?thesis unfolding loop_reach_def by (metis rtranclp_trans)
  next
    case 2
    with r1 assms(2) d(4) show ?thesis by blast
  next
    case 3
    let ?m2 = "Manager_Put (Some ''broken'') m1"
    have m2: "m_connc ?m2 = []" "m_sending ?m2 = []" "0 < pending ?m2" "closed_in ?m2 = insert x (closed_in m1)"
      using 3 d(2,3) by (auto simp: Manager_Put_def pending_def closed_in_def)
    obtain m' where m': "own_reach ?m2 m'" "m_conn m' = Some c" "closed_in m' = closed_in ?m2"
      using pending_connects [OF m2(1-3)] by blast
    have "loop_reach m ?m2" using r1 put_error unfolding loop_reach_def by (rule rtranclp.rtrancl_into_rtrancl)
    moreover have "loop_reach ?m2 m'" using m'(1) by (rule own_reach_loop_reach)
    ultimately have "loop_reach m m'" unfolding loop_reach_def by (rule rtranclp_trans)
    with m' m2(4) 3 assms(2) d(4) show ?thesis by auto
  qed
qed

subsection \<open>Properties\<close>


text \<open>The delay computed by \<open>Exponential\<close> in doubles and 64-bit integers never shrinks and never
  exceeds a minute, whatever the random number.\<close>

theorem Exponential_grows:
  assumes "is_random rnd" and "0 < d" and "d \<le> Minute"
  shows "d \<le> Exponential impl rnd d \<and> Exponential impl rnd d \<le> Minute"
  using Exponential_bounds [OF assms] by blast

text \<open>C27: A manager is never stuck: from every state that it can reach without a connection, a run of its own steps
  (timer, dial, send, receive) leads to one; and from every state at all, also when it holds a closed
  connection, a run leads to any given connection that has not been closed, if clients put the
  errors of those that are broken.\<close>

theorem conn_manager_recovers:
  assumes "loop_reach (NewManager dialer network address) m"
  shows "(m_conn m = None \<longrightarrow> (\<exists>m'. loop_own\<^sup>*\<^sup>* m m' \<and> m_conn m' \<noteq> None))
    \<and> (\<forall>c. Closed c \<notin> set (m_trace m) \<longrightarrow>
         (\<exists>m'. loop_reach m m' \<and> m_conn m' = Some c \<and> Closed c \<notin> set (m_trace m')))"
proof -
  have i: "loop_inv m" using assms unfolding NewManager_def by (rule reach_loop_inv)
  show ?thesis using loop_inv_reconnects [OF i] loop_inv_live [OF i] unfolding closed_in_def by blast
qed

text \<open>An error put before the loop has received the result of the first dial brings the closed
  connection back: the loop then holds a connection it has already closed, with no timer armed and
  nothing pending, so nothing but another error makes it reconnect.\<close>

theorem conn_manager_startup_race:
  assumes "r = (Some c, None)" and "is_random rnd"
    and "m = on_connc impl rnd (Some c) (Manager_Put (Some e) (loop_start r))"
  shows "loop_reach (loop_start r) m \<and> m_conn m = Some c \<and> Closed c \<in> set (m_trace m) \<and> pending m = 0"
proof -
  have "loop_step (loop_start r) (Manager_Put (Some e) (loop_start r))" by (rule put_error)
  moreover have "m_connc (Manager_Put (Some e) (loop_start r)) = [Some c]"
    by (simp add: assms(1) loop_start_def Manager_Put_def dial_def)
  then have "loop_step (Manager_Put (Some e) (loop_start r)) m"
    unfolding assms(3) using assms(2) by (intro own connected)
  ultimately have "loop_reach (loop_start r) m"
    unfolding loop_reach_def by (meson rtranclp.rtrancl_refl rtranclp.rtrancl_into_rtrancl)
  then show ?thesis
    by (simp add: assms(1,3) loop_start_def Manager_Put_def dial_def on_connc_def pending_def)
qed

subsection \<open>Concrete runs\<close>

abbreviation example_dialer :: "string \<Rightarrow> string \<Rightarrow> nat option \<times> string option" where
  "example_dialer network address \<equiv> (Some 3, None)"

lemma lost_connection:
  "loop_reach (NewManager example_dialer ''tcp'' ''a:80'') (Manager_Put (Some ''eof'')
     (on_connc (\<lambda>_. 0) 0 (Some 3) (NewManager example_dialer ''tcp'' ''a:80'')))" (is "loop_reach ?m _")
proof -
  have "loop_own ?m (on_connc (\<lambda>_. 0) 0 (Some 3) ?m)"
    by (intro connected) (simp_all add: is_random_def NewManager_def loop_start_def dial_def)
  then show ?thesis unfolding loop_reach_def by (meson own put_error converse_rtranclp_into_rtranclp r_into_rtranclp)
qed


theorem conn_manager_recovers_witness:
  "\<exists>m'. loop_own\<^sup>*\<^sup>* (Manager_Put (Some ''eof'') (on_connc (\<lambda>_. 0) 0 (Some 3) (NewManager example_dialer ''tcp'' ''a:80''))) m'
     \<and> m_conn m' \<noteq> None"
  using conn_manager_recovers [OF lost_connection] by (simp add: on_connc_def NewManager_def loop_start_def Manager_Put_def dial_def)

theorem Exponential_grows_witness:
  "Second \<le> Exponential (\<lambda>_. 0) (1 / 4) Second \<and> Exponential (\<lambda>_. 0) (1 / 4) Second \<le> Minute"
  using Exponential_grows [of "1 / 4" Second "\<lambda>_. 0"]
  by (simp add: is_random_def Second_def Minute_def)

theorem conn_manager_startup_race_witness:
  "\<exists>m :: nat manager. loop_reach (loop_start (Some 3, None)) m \<and> m_conn m = Some 3
     \<and> Closed 3 \<in> set (m_trace m) \<and> pending m = 0"
  using conn_manager_startup_race [of "(Some 3, None)" 3 0, OF refl _ refl] by (auto simp: is_random_def)

end
