(* ===== verification/Label_Values.thy ===== *)
theory Label_Values
  imports Prelude
begin

text \<open>
  Package metrics/internal/lv, file labelvalues.go: the label values of a metric and the method
  \<open>With\<close>, which every metric uses to derive a metric with more labels.

  \<open>With\<close> ends in Go's \<open>append\<close>, which writes into the array of its argument when that has room. So
  slices are modelled with their store: \<open>lv_heap\<close> lists the arrays (their length is the capacity), a
  slice is an array and a length, and \<open>None\<close> is nil. The capacity of a new array is chosen by the
  runtime, an argument \<open>grow\<close> that is only known to give enough room (\<open>grow_ok\<close>). \<open>With\<close> on plain lists,
  \<open>lv_With\<close>, is what the other theories use; \<open>LabelValues_With_value\<close> shows when it is right.
\<close>

type_synonym lv_heap = "string list list"
type_synonym lv_slice = "(nat \<times> nat) option"

definition slice_value :: "lv_heap \<Rightarrow> lv_slice \<Rightarrow> string list" where
  "slice_value h s = (case s of None \<Rightarrow> [] | Some (a, n) \<Rightarrow> take n (h ! a))"

definition slice_ok :: "lv_heap \<Rightarrow> lv_slice \<Rightarrow> bool" where
  "slice_ok h s \<longleftrightarrow> (case s of None \<Rightarrow> True | Some (a, n) \<Rightarrow> a < length h \<and> n \<le> length (h ! a))"

definition spare :: "lv_heap \<Rightarrow> lv_slice \<Rightarrow> nat" where
  "spare h s = (case s of None \<Rightarrow> 0 | Some (a, n) \<Rightarrow> length (h ! a) - n)"

text \<open>Go's \<open>append\<close>: in place when there is room, into a new array otherwise.\<close>

definition overwrite :: "'a list \<Rightarrow> nat \<Rightarrow> 'a list \<Rightarrow> 'a list" where
  "overwrite xs n ys = take n xs @ ys @ drop (n + length ys) xs"

definition append_slice ::
  "(nat \<Rightarrow> nat \<Rightarrow> nat) \<Rightarrow> lv_heap \<Rightarrow> lv_slice \<Rightarrow> string list \<Rightarrow> lv_heap \<times> lv_slice" where
  "append_slice grow h s ys =
     (let n = length (slice_value h s); m = n + length ys in
      if length ys \<le> spare h s then
        (case s of None \<Rightarrow> (h, None) | Some (a, k) \<Rightarrow> (h[a := overwrite (h ! a) k ys], Some (a, m)))
      else
        (h @ [slice_value h s @ ys @ replicate (grow (n + spare h s) m - m) []], Some (length h, m)))"

definition grow_ok :: "(nat \<Rightarrow> nat \<Rightarrow> nat) \<Rightarrow> bool" where
  "grow_ok grow \<longleftrightarrow> (\<forall>n m. m \<le> grow n m)"

text \<open>The growth of the Go runtime for small slices of strings (runtime.growslice).\<close>

definition go_grow :: "nat \<Rightarrow> nat \<Rightarrow> nat" where
  "go_grow c need = (if need > 2 * c then need else 2 * c)"

definition pad_labels :: "string list \<Rightarrow> string list" where
  "pad_labels labelValues =
     (if length labelValues mod 2 \<noteq> 0 then labelValues @ [''unknown''] else labelValues)"

definition LabelValues_With ::
  "(nat \<Rightarrow> nat \<Rightarrow> nat) \<Rightarrow> lv_heap \<Rightarrow> lv_slice \<Rightarrow> string list \<Rightarrow> lv_heap \<times> lv_slice" where
  "LabelValues_With grow h lvs labelValues = append_slice grow h lvs (pad_labels labelValues)"

definition lv_With :: "string list \<Rightarrow> string list \<Rightarrow> string list" where
  "lv_With lvs labelValues = lvs @ pad_labels labelValues"

lemma even_pad_labels [simp]: "even (length (pad_labels xs))"
  by (simp only: pad_labels_def flip: even_iff_mod_2_eq_zero) auto

lemma even_lv_With [simp]: "even (length (lv_With lvs xs)) = even (length lvs)"
  by (simp add: lv_With_def)

lemma slice_length: "slice_ok h (Some (a, n)) \<Longrightarrow> length (slice_value h (Some (a, n))) = n"
  by (simp add: slice_ok_def slice_value_def)

lemma append_slice_value:
  assumes "slice_ok h s" and "append_slice grow h s ys = (h', s')"
  shows "slice_value h' s' = slice_value h s @ ys" and "slice_ok h' s'"
  using assms
  by (auto simp: append_slice_def slice_ok_def slice_value_def overwrite_def spare_def nth_append Let_def
      split: option.splits if_splits)

text \<open>
  A slice survives an append to another one, unless it shares its array and reaches beyond the
  length of the slice that was appended to.
\<close>

lemma append_slice_other:
  assumes "slice_ok h s" and "slice_ok h t" and "append_slice grow h s ys = (h', s')"
    and "\<And>a n m. s = Some (a, n) \<Longrightarrow> t = Some (a, m) \<Longrightarrow> m \<le> n \<or> spare h s < length ys"
  shows "slice_value h' t = slice_value h t" and "slice_ok h' t"
proof -
  have "slice_value h' t = slice_value h t \<and> slice_ok h' t"
  proof (cases t)
    case (Some p)
    obtain b m where p: "p = (b, m)" by (cases p)
    have t: "b < length h" "m \<le> length (h ! b)" using assms(2) by (simp_all add: Some p slice_ok_def)
    show ?thesis
    proof (cases "length ys \<le> spare h s")
      case False
      then show ?thesis
        using assms(3) t by (auto simp: append_slice_def Some p slice_value_def slice_ok_def nth_append Let_def)
    next
      case True
      show ?thesis
      proof (cases s)
        case None
        with True assms(3) t show ?thesis
          by (auto simp: append_slice_def Some p slice_value_def slice_ok_def Let_def spare_def)
      next
        case (Some q)
        obtain a n where q: "q = (a, n)" by (cases q)
        have "m \<le> n" if "a = b" using assms(4) [of a n m] True that \<open>t = Some p\<close> by (auto simp: Some p q)
        then show ?thesis
          using assms(1,3) True t \<open>t = Some p\<close>
          by (cases "a = b") (auto simp: append_slice_def Some p q slice_value_def slice_ok_def Let_def
              overwrite_def nth_list_update spare_def min_def)
      qed
    qed
  qed (use assms(3) in \<open>auto simp: slice_value_def slice_ok_def\<close>)
  then show "slice_value h' t = slice_value h t" and "slice_ok h' t" by blast+
qed

subsection \<open>Properties\<close>

text \<open>\<open>With\<close> returns the label values of its receiver followed by the new ones, with "unknown" for a
  missing value, so that they stay even in number; the receiver and every slice that does not reach
  into the room of its array keep their values.\<close>

theorem LabelValues_With_value:
  assumes "slice_ok h lvs" and "LabelValues_With grow h lvs labels = (h', r)"
  shows "slice_value h' r = lv_With (slice_value h lvs) labels
    \<and> (even (length (slice_value h lvs)) \<longrightarrow> even (length (slice_value h' r)))
    \<and> slice_value h' lvs = slice_value h lvs
    \<and> (\<forall>t. slice_ok h t \<and> (\<forall>a n m. lvs = Some (a, n) \<longrightarrow> t = Some (a, m) \<longrightarrow> m \<le> n)
         \<longrightarrow> slice_value h' t = slice_value h t)"
proof -
  have a: "append_slice grow h lvs (pad_labels labels) = (h', r)"
    using assms(2) by (simp add: LabelValues_With_def)
  have v: "slice_value h' r = lv_With (slice_value h lvs) labels"
    using append_slice_value [OF assms(1) a] by (simp add: lv_With_def)
  have o: "slice_value h' t = slice_value h t"
    if "slice_ok h t" "\<And>a n m. lvs = Some (a, n) \<Longrightarrow> t = Some (a, m) \<Longrightarrow> m \<le> n" for t
    using append_slice_other [OF assms(1) that(1) a] that(2) by blast
  then have "slice_value h' lvs = slice_value h lvs" using assms(1) by auto
  then show ?thesis using v o by auto
qed

theorem LabelValues_With_value_witness:
  "slice_value (fst (LabelValues_With go_grow [[''a'', ''1'']] (Some (0, 2)) [''b'']))
     (snd (LabelValues_With go_grow [[''a'', ''1'']] (Some (0, 2)) [''b''])) = [''a'', ''1'', ''b'', ''unknown'']"
  using LabelValues_With_value [of "[[''a'', ''1'']]" "Some (0, 2)" go_grow "[''b'']", OF _ surjective_pairing]
  by (simp add: slice_ok_def slice_value_def lv_With_def pad_labels_def)

text \<open>Two metrics derived from the same metric share the room behind its label values: when its
  array has room for them, the second \<open>With\<close> replaces the labels of the metric the first one made.\<close>

theorem LabelValues_With_aliases:
  assumes "slice_ok h (Some (a, n))" and "2 \<le> spare h (Some (a, n))"
    and "LabelValues_With grow h (Some (a, n)) [k1, v1] = (h1, r1)"
    and "LabelValues_With grow h1 (Some (a, n)) [k2, v2] = (h2, r2)"
  shows "slice_value h1 r1 = lv_With (slice_value h (Some (a, n))) [k1, v1]
    \<and> slice_value h2 r1 = lv_With (slice_value h (Some (a, n))) [k2, v2]"
proof -
  have b: "a < length h" "n + 2 \<le> length (h ! a)"
    using assms(1,2) by (simp_all add: slice_ok_def spare_def)
  have l: "length (slice_value h (Some (a, n))) = n" using slice_length [OF assms(1)] .
  have "h1 = h[a := overwrite (h ! a) n [k1, v1]] \<and> r1 = Some (a, n + 2)"
    using assms(2,3) l by (auto simp: LabelValues_With_def append_slice_def pad_labels_def Let_def)
  moreover from this b have "h2 = h1[a := overwrite (h1 ! a) n [k2, v2]]"
    using assms(4)
    by (auto simp: LabelValues_With_def append_slice_def pad_labels_def Let_def spare_def overwrite_def
        slice_value_def split: if_splits)
  ultimately show ?thesis
    using b by (simp add: slice_value_def lv_With_def pad_labels_def overwrite_def)
qed

text \<open>Three levels of \<open>With\<close> are enough: with the runtime's growth the third leaves room for two.\<close>

theorem LabelValues_With_aliases_witness:
  "\<exists>h lvs h1 r1 h2 r2.
     LabelValues_With go_grow [[''a'', ''1'', ''b'', ''2'']] (Some (0, 4)) [''c'', ''3''] = (h, lvs) \<and>
     LabelValues_With go_grow h lvs [''x'', ''1''] = (h1, r1) \<and>
     LabelValues_With go_grow h1 lvs [''y'', ''2''] = (h2, r2) \<and>
     slice_value h2 r1 = [''a'', ''1'', ''b'', ''2'', ''c'', ''3'', ''y'', ''2'']"
proof -
  let ?h = "[[''a'', ''1'', ''b'', ''2''], [''a'', ''1'', ''b'', ''2'', ''c'', ''3'', [], []]]"
  have w: "LabelValues_With go_grow [[''a'', ''1'', ''b'', ''2'']] (Some (0, 4)) [''c'', ''3'']
      = (?h, Some (1, 6))"
    by (simp add: LabelValues_With_def append_slice_def pad_labels_def slice_value_def spare_def go_grow_def
        Let_def numeral_2_eq_2)
  obtain h1 r1 where a: "LabelValues_With go_grow ?h (Some (1, 6)) [''x'', ''1''] = (h1, r1)" by (rule prod.exhaust)
  obtain h2 r2 where b: "LabelValues_With go_grow h1 (Some (1, 6)) [''y'', ''2''] = (h2, r2)" by (rule prod.exhaust)
  have o: "slice_ok ?h (Some (1, 6))" "2 \<le> spare ?h (Some (1, 6))"
    and v: "slice_value ?h (Some (1, 6)) = [''a'', ''1'', ''b'', ''2'', ''c'', ''3'']"
    by (simp_all add: slice_ok_def spare_def slice_value_def)
  from LabelValues_With_aliases [OF o a b]
  have "slice_value h2 r1 = [''a'', ''1'', ''b'', ''2'', ''c'', ''3'', ''y'', ''2'']"
    unfolding v by (simp add: lv_With_def pad_labels_def)
  with w a b show ?thesis by blast
qed

end
