(* ===== verification/Label_Tree.thy ===== *)
theory Label_Tree
  imports Label_Values
begin

text \<open>
  The tree that metrics/internal/lv/space.go (type node) and the gauges of metrics/dogstatsd and
  metrics/influxstatsd (type gaugeNode) have in common: a node holds something, observations or a
  gauge, and its children are kept in a map under a pair of label and value.

  \<open>tree_update\<close> is the recursion of \<open>observe\<close>, \<open>add\<close> and \<open>addGauge\<close>: it goes down along the label
  values, making the nodes that are missing (with the content \<open>e\<close>), and applies its function to the
  content it arrives at; with a label left over it panics. \<open>tree_walk\<close> is the recursion of the two
  \<open>walk\<close> methods: it visits the node, then its children in the order \<open>it\<close> of the map's iteration, and
  stops when a visit says so. \<open>tree_walk_until\<close> and \<open>tree_entries_set\<close> show that a walk is a loop over
  all entries of the tree, each met once.
\<close>

datatype 'a tree = Node (content: 'a) (children: "((string \<times> string) \<times> 'a tree) list")

definition too_few :: "'r outcome" where
  "too_few = Panic ''too few LabelValues; programmer error!''"

fun tree_update :: "'a \<Rightarrow> ('a \<Rightarrow> 'a \<times> 'r) \<Rightarrow> 'a tree \<Rightarrow> string list \<Rightarrow> 'a tree \<times> 'r outcome" where
  "tree_update e f (Node x ch) [] = (let (x1, r) = f x in (Node x1 ch, Ret r))"
| "tree_update e f (Node x ch) [l] = (Node x ch, too_few)"
| "tree_update e f (Node x ch) (l # w # tail) =
     (let child = (case map_of ch (l, w) of Some c \<Rightarrow> c | None \<Rightarrow> Node e []);
          (child1, r) = tree_update e f child tail
      in (Node x (AList.update (l, w) child1 ch), r))"

type_synonym label_order = "(string \<times> string) list \<Rightarrow> (string \<times> string) list"

lemma size_map_of:
  "map_of ch p = Some c \<Longrightarrow> size_tree (\<lambda>_. 0) c \<le> size_list (size_prod (\<lambda>_. 0) (size_tree (\<lambda>_. 0))) ch"
proof -
  assume "map_of ch p = Some c"
  then have "(p, c) \<in> set ch" by (rule map_of_SomeD)
  then have "size_prod (\<lambda>_. 0) (size_tree (\<lambda>_. 0)) (p, c)
      \<le> size_list (size_prod (\<lambda>_. 0) (size_tree (\<lambda>_. 0))) ch"
    by (intro size_list_estimation' [where y = "size_prod (\<lambda>_. 0) (size_tree (\<lambda>_. 0)) (p, c)"]) auto
  then show ?thesis by simp
qed

abbreviation tree_measure :: "'a tree \<Rightarrow> nat" where
  "tree_measure n \<equiv> 2 * size_tree (\<lambda>_. 0) n"

abbreviation children_measure :: "((string \<times> string) \<times> 'a tree) list \<Rightarrow> nat" where
  "children_measure ch \<equiv> 2 * size_list (size_prod (\<lambda>_. 0) (size_tree (\<lambda>_. 0))) ch + 1"

function tree_walk :: "label_order \<Rightarrow> (string list \<Rightarrow> 'a \<Rightarrow> 's \<Rightarrow> 's \<times> bool) \<Rightarrow> 'a tree \<Rightarrow> string list
    \<Rightarrow> 's \<Rightarrow> 's \<times> bool"
  and tree_walk_children :: "label_order \<Rightarrow> (string list \<Rightarrow> 'a \<Rightarrow> 's \<Rightarrow> 's \<times> bool)
    \<Rightarrow> ((string \<times> string) \<times> 'a tree) list \<Rightarrow> (string \<times> string) list \<Rightarrow> string list \<Rightarrow> 's \<Rightarrow> 's \<times> bool" where
  "tree_walk it visit (Node x ch) lvs s =
     (let (s1, go) = visit lvs x s in
      if \<not> go then (s1, False) else tree_walk_children it visit ch (it (map fst ch)) lvs s1)"
| "tree_walk_children it visit ch [] lvs s = (s, True)"
| "tree_walk_children it visit ch (p # ps) lvs s =
     (case map_of ch p of
        None \<Rightarrow> tree_walk_children it visit ch ps lvs s
      | Some child \<Rightarrow>
          (let (s1, go) = tree_walk it visit child (lvs @ [fst p, snd p]) s in
           if \<not> go then (s1, False) else tree_walk_children it visit ch ps lvs s1))"
  by pat_completeness auto
termination
  by (relation "inv_image (less_than <*lex*> less_than) (\<lambda>x. case x of
        Inl (it, visit, n, lvs, s) \<Rightarrow> (tree_measure n, 0)
      | Inr (it, visit, ch, ps, lvs, s) \<Rightarrow> (children_measure ch, length ps))")
    (auto dest: size_map_of)

subsection \<open>Looking up and updating\<close>

fun tree_lookup :: "'a \<Rightarrow> 'a tree \<Rightarrow> string list \<Rightarrow> 'a" where
  "tree_lookup e (Node x ch) [] = x"
| "tree_lookup e (Node x ch) [l] = e"
| "tree_lookup e (Node x ch) (l # w # tail) =
     (case map_of ch (l, w) of Some c \<Rightarrow> tree_lookup e c tail | None \<Rightarrow> e)"

lemma tree_lookup_empty [simp]: "tree_lookup e (Node e []) lvs = e"
  by (cases "(e, Node e [] :: 'a tree, lvs)" rule: tree_lookup.cases) auto

lemma tree_lookup_odd: "odd (length lvs) \<Longrightarrow> tree_lookup e n lvs = e"
  by (induction e n lvs rule: tree_lookup.induct) (auto split: option.splits)

primrec wf_tree :: "'a tree \<Rightarrow> bool" where
  "wf_tree (Node x ch) \<longleftrightarrow>
     distinct (map fst ch) \<and> list_all (\<lambda>x. snd x) (map (map_prod id wf_tree) ch)"

lemma wf_tree_iff [simp]:
  "wf_tree (Node x ch) \<longleftrightarrow> distinct (map fst ch) \<and> (\<forall>(p, c) \<in> set ch. wf_tree c)"
  by (auto simp: list_all_iff)

declare wf_tree.simps [simp del]

lemma set_update_subset: "set (AList.update k v al) \<subseteq> insert (k, v) (set al)"
  by (induction al) auto

lemma wf_child: "wf_tree (Node x ch) \<Longrightarrow> map_of ch p = Some c \<Longrightarrow> wf_tree c"
  by (auto dest: map_of_SomeD)

lemma wf_update: "wf_tree (Node x ch) \<Longrightarrow> wf_tree c \<Longrightarrow> wf_tree (Node y (AList.update p c ch))"
  using set_update_subset [of p c ch] by auto

lemma tree_update_wf: "wf_tree n \<Longrightarrow> wf_tree (fst (tree_update e f n lvs))"
proof (induction e f n lvs rule: tree_update.induct)
  case (3 e f x ch l w tail)
  let ?c = "case map_of ch (l, w) of Some c \<Rightarrow> c | None \<Rightarrow> Node e []"
  have "wf_tree ?c" using wf_child [OF "3.prems"] by (simp split: option.splits)
  with 3 have "wf_tree (fst (tree_update e f ?c tail))" by simp
  from wf_update [OF "3.prems" this] show ?case
    by (simp add: Let_def split_beta del: wf_tree_iff)
qed (simp_all add: split_beta)

lemma tree_update_outcome:
  "snd (tree_update e f n lvs) = (if even (length lvs) then Ret (snd (f (tree_lookup e n lvs))) else too_few)"
  by (induction e f n lvs rule: tree_update.induct) (auto simp: Let_def split_beta split: option.splits)

lemma tree_lookup_update:
  "tree_lookup e (fst (tree_update e f n lvs)) ls =
     (if even (length lvs) \<and> ls = lvs then fst (f (tree_lookup e n lvs)) else tree_lookup e n ls)"
proof (induction e f n lvs arbitrary: ls rule: tree_update.induct)
  case (1 e f x ch)
  show ?case by (cases "(e, Node x ch, ls)" rule: tree_lookup.cases) (auto simp: split_beta)
next
  case (3 e f x ch l w tail)
  show ?case
    by (cases "(e, Node x ch, ls)" rule: tree_lookup.cases)
      (auto simp: Let_def split_beta 3 split: option.splits)
qed simp

subsection \<open>Loops that may stop\<close>

fun until :: "('x \<Rightarrow> 's \<Rightarrow> 's \<times> bool) \<Rightarrow> 'x list \<Rightarrow> 's \<Rightarrow> 's \<times> bool" where
  "until f [] s = (s, True)"
| "until f (x # xs) s = (let (s1, go) = f x s in if \<not> go then (s1, False) else until f xs s1)"

lemma until_append:
  "until f (xs @ ys) s = (let (s1, go) = until f xs s in if \<not> go then (s1, False) else until f ys s1)"
  by (induction xs arbitrary: s) (auto simp: Let_def split_beta)

lemma until_map: "until f (map g xs) s = until (\<lambda>x. f (g x)) xs s"
  by (induction xs arbitrary: s) (auto simp: Let_def split_beta)

lemma until_concat: "until (\<lambda>x. until f (g x)) xs s = until f (concat (map g xs)) s"
  by (induction xs arbitrary: s) (auto simp: until_append split: prod.splits)

lemma until_cong: "(\<And>x s. x \<in> set xs \<Longrightarrow> f x s = g x s) \<Longrightarrow> until f xs s = until g xs s"
  by (induction xs arbitrary: s) (auto simp: Let_def split_beta)

lemma until_single: "until f [x] s = f x s"
  by (cases "f x s") (auto simp: Let_def)

lemma until_filter: "until (\<lambda>x s. if P x then f x s else (s, True)) xs s = until f (filter P xs) s"
  by (induction xs arbitrary: s) (auto simp: Let_def split_beta)

subsection \<open>A walk as a loop over the entries\<close>

function tree_entries :: "label_order \<Rightarrow> 'a tree \<Rightarrow> string list \<Rightarrow> (string list \<times> 'a) list"
  and tree_entries_children :: "label_order \<Rightarrow> ((string \<times> string) \<times> 'a tree) list
    \<Rightarrow> (string \<times> string) list \<Rightarrow> string list \<Rightarrow> (string list \<times> 'a) list" where
  "tree_entries it (Node x ch) lvs = (lvs, x) # tree_entries_children it ch (it (map fst ch)) lvs"
| "tree_entries_children it ch [] lvs = []"
| "tree_entries_children it ch (p # ps) lvs =
     (case map_of ch p of None \<Rightarrow> [] | Some c \<Rightarrow> tree_entries it c (lvs @ [fst p, snd p]))
     @ tree_entries_children it ch ps lvs"
  by pat_completeness auto
termination
  by (relation "inv_image (less_than <*lex*> less_than) (\<lambda>x. case x of
        Inl (it, n, lvs) \<Rightarrow> (tree_measure n, 0)
      | Inr (it, ch, ps, lvs) \<Rightarrow> (children_measure ch, length ps))")
    (auto dest: size_map_of)

lemma tree_walk_until:
  "tree_walk it visit n lvs s = until (\<lambda>(l, x). visit l x) (tree_entries it n lvs) s"
  "tree_walk_children it visit ch ps lvs s = until (\<lambda>(l, x). visit l x) (tree_entries_children it ch ps lvs) s"
proof (induction it visit n lvs s and it visit ch ps lvs s rule: tree_walk_tree_walk_children.induct)
  case (1 it visit x ch lvs s)
  obtain s1 go where v: "visit lvs x s = (s1, go)" by (rule prod.exhaust)
  show ?case using "1.IH" [OF v [symmetric] refl] by (cases go) (auto simp: v)
next
  case (3 it visit ch p ps lvs s)
  show ?case
  proof (cases "map_of ch p")
    case None
    with "3.IH"(1) show ?thesis by simp
  next
    case (Some c)
    obtain s1 go where w: "tree_walk it visit c (lvs @ [fst p, snd p]) s = (s1, go)" by (rule prod.exhaust)
    have u: "until (\<lambda>(l, x). visit l x) (tree_entries it c (lvs @ [fst p, snd p])) s = (s1, go)"
      using "3.IH"(2) [OF Some] w by simp
    show ?thesis
    proof (cases go)
      case True
      then have "tree_walk_children it visit ch ps lvs s1
          = until (\<lambda>(l, x). visit l x) (tree_entries_children it ch ps lvs) s1"
        using "3.IH"(3) [OF Some w [symmetric]] by simp
      with True show ?thesis by (simp add: Some w u until_append)
    qed (simp add: Some w u until_append)
  qed
qed simp

text \<open>The paths that lead to a node of the tree.\<close>

fun tree_has :: "'a tree \<Rightarrow> string list \<Rightarrow> bool" where
  "tree_has (Node x ch) [] = True"
| "tree_has (Node x ch) [l] = False"
| "tree_has (Node x ch) (l # w # tail) = (case map_of ch (l, w) of Some c \<Rightarrow> tree_has c tail | None \<Rightarrow> False)"

lemma tree_has_lookup: "tree_lookup e n l \<noteq> e \<Longrightarrow> tree_has n l"
  by (induction n l rule: tree_has.induct) (auto split: option.splits)

definition child_paths :: "((string \<times> string) \<times> 'a tree) list \<Rightarrow> string \<times> string \<Rightarrow> string list set" where
  "child_paths ch p = (case map_of ch p of None \<Rightarrow> {} | Some c \<Rightarrow> (\<lambda>t. fst p # snd p # t) ` Collect (tree_has c))"

lemma child_paths_iff [simp]:
  "[] \<notin> child_paths ch p" "[a] \<notin> child_paths ch p"
  "a # w # l \<in> child_paths ch p \<longleftrightarrow> p = (a, w) \<and> (\<exists>c. map_of ch (a, w) = Some c \<and> tree_has c l)"
  by (auto simp: child_paths_def split: option.splits)

lemma paths_Node: "Collect (tree_has (Node x ch)) = insert [] (\<Union>p \<in> fst ` set ch. child_paths ch p)"
proof (rule set_eqI)
  fix l
  show "l \<in> Collect (tree_has (Node x ch)) \<longleftrightarrow> l \<in> insert [] (\<Union>p \<in> fst ` set ch. child_paths ch p)"
  proof (cases l rule: remdups_adj.cases)
    case (3 a w t)
    then show ?thesis by (auto split: option.splits) (metis map_of_SomeD fst_conv)
  qed auto
qed

lemma tree_entries_set:
  assumes "iterates it"
  shows "wf_tree n \<Longrightarrow> distinct (map fst (tree_entries it n lvs)) \<and>
      set (tree_entries it n lvs) = (\<lambda>l. (lvs @ l, tree_lookup e n l)) ` Collect (tree_has n)"
    and "\<forall>c \<in> snd ` set ch. wf_tree c \<Longrightarrow> distinct ps \<Longrightarrow>
      distinct (map fst (tree_entries_children it ch ps lvs)) \<and>
      set (tree_entries_children it ch ps lvs)
        = (\<lambda>l. (lvs @ l, tree_lookup e (Node e ch) l)) ` (\<Union>p \<in> set ps. child_paths ch p)"
  using assms
proof (induction it n lvs and it ch ps lvs rule: tree_entries_tree_entries_children.induct)
  case (1 it x ch lvs)
  have d: "distinct (it (map fst ch))" "set (it (map fst ch)) = fst ` set ch"
    using "1.prems" by (simp_all add: iterates_distinct iterates_set)
  have w: "\<forall>c \<in> snd ` set ch. wf_tree c" using "1.prems"(1) by fastforce
  let ?P = "\<Union>p \<in> fst ` set ch. child_paths ch p"
  have IH: "distinct (map fst (tree_entries_children it ch (it (map fst ch)) lvs)) \<and>
      set (tree_entries_children it ch (it (map fst ch)) lvs)
        = (\<lambda>l. (lvs @ l, tree_lookup e (Node e ch) l)) ` ?P"
    using "1.IH" [OF w d(1) "1.prems"(2)] by (simp only: d(2))
  have ne: "[] \<notin> ?P" by simp
  have same: "tree_lookup e (Node e ch) l = tree_lookup e (Node x ch) l" if "l \<noteq> []" for l
    using that by (cases "(e, Node x ch, l)" rule: tree_lookup.cases) auto
  have "(\<lambda>l. (lvs @ l, tree_lookup e (Node e ch) l)) ` ?P = (\<lambda>l. (lvs @ l, tree_lookup e (Node x ch) l)) ` ?P"
  proof (rule image_cong [OF refl])
    fix l assume "l \<in> ?P"
    with ne have "l \<noteq> []" by (cases l) simp_all
    from same [OF this] show "(lvs @ l, tree_lookup e (Node e ch) l) = (lvs @ l, tree_lookup e (Node x ch) l)"
      by simp
  qed
  with IH have set: "set (tree_entries_children it ch (it (map fst ch)) lvs)
      = (\<lambda>l. (lvs @ l, tree_lookup e (Node x ch) l)) ` ?P" by (simp only:)
  have "lvs \<notin> fst ` set (tree_entries_children it ch (it (map fst ch)) lvs)"
  proof
    assume "lvs \<in> fst ` set (tree_entries_children it ch (it (map fst ch)) lvs)"
    then obtain l where "l \<in> ?P" "lvs = lvs @ l" unfolding set by fastforce
    with ne show False by simp
  qed
  moreover have "(\<lambda>l. (lvs @ l, tree_lookup e (Node x ch) l)) ` Collect (tree_has (Node x ch))
      = insert (lvs, x) (set (tree_entries_children it ch (it (map fst ch)) lvs))"
    unfolding set paths_Node by simp
  ultimately show ?case using IH by simp
next
  case (3 it ch p ps lvs)
  show ?case
  proof (cases "map_of ch p")
    case None
    with 3 show ?thesis by (simp add: child_paths_def)
  next
    case (Some c)
    have wf: "wf_tree c" using "3.prems"(1) map_of_SomeD [OF Some] by force
    have A: "distinct (map fst (tree_entries it c (lvs @ [fst p, snd p])))"
      "set (tree_entries it c (lvs @ [fst p, snd p]))
        = (\<lambda>l. (lvs @ l, tree_lookup e (Node e ch) l)) ` child_paths ch p"
      using "3.IH"(1) [OF Some wf] "3.prems"(3) Some
      by (auto simp: child_paths_def image_image)
    have B: "distinct (map fst (tree_entries_children it ch ps lvs))"
      "set (tree_entries_children it ch ps lvs)
        = (\<lambda>l. (lvs @ l, tree_lookup e (Node e ch) l)) ` (\<Union>p \<in> set ps. child_paths ch p)"
      using "3.IH"(2) "3.prems" by auto
    have "child_paths ch p \<inter> (\<Union>p \<in> set ps. child_paths ch p) = {}"
      using "3.prems"(2) by (auto simp: child_paths_def split: option.splits)
    then have "fst ` set (tree_entries it c (lvs @ [fst p, snd p]))
        \<inter> fst ` set (tree_entries_children it ch ps lvs) = {}"
      unfolding A B by auto
    with A B Some show ?thesis by (simp add: image_Un)
  qed
qed simp

text \<open>The entries that are not empty, which the walks report.\<close>

lemma tree_entries_nonempty:
  assumes "wf_tree n" and "iterates it" and "\<not> P e"
  shows "set (filter (\<lambda>(l, x). P x) (tree_entries it n [])) = {(l, x). x = tree_lookup e n l \<and> P x}"
    and "distinct (map fst (filter (\<lambda>(l, x). P x) (tree_entries it n [])))"
proof -
  have "tree_has n l" if "P (tree_lookup e n l)" for l
    using that assms(3) tree_has_lookup by metis
  then show "set (filter (\<lambda>(l, x). P x) (tree_entries it n [])) = {(l, x). x = tree_lookup e n l \<and> P x}"
    using tree_entries_set(1) [OF assms(2,1), of "[]" e] by auto
  show "distinct (map fst (filter (\<lambda>(l, x). P x) (tree_entries it n [])))"
    using tree_entries_set(1) [OF assms(2,1), of "[]" e] by (simp add: distinct_map_filter_fst)
qed

end
