(* ===== verification/Space.thy ===== *)
theory Space
  imports Label_Tree Float64
begin

text \<open>
  Package metrics/internal/lv, file space.go, and metrics/internal/ratemap: the vector space in
  which the push backends collect observations, a tree with one node per prefix of label values
  under each metric name.

  A node is the tree of the theory Label_Tree with observations in it; the order in which \<open>walk\<close>
  ranges over the children (and \<open>Walk\<close> over the names) is the argument \<open>it\<close>, a function on lists of
  keys. The callback of a walk is a function on a state of its own. The operations panic on an odd
  number of label values, having already created the nodes on the way. Calls are atomic here.
\<close>

type_synonym node = "float64 list tree"

definition empty_node :: node where "empty_node = Node [] []"

definition node_observe :: "node \<Rightarrow> string list \<Rightarrow> float64 \<Rightarrow> node \<times> unit outcome" where
  "node_observe n lvs v = tree_update [] (\<lambda>obs. (obs @ [v], ())) n lvs"

definition node_add :: "node \<Rightarrow> string list \<Rightarrow> float64 \<Rightarrow> node \<times> unit outcome" where
  "node_add n lvs delta =
     tree_update [] (\<lambda>obs.
       let v = (if length obs > 0 then f64_add (last obs) delta else delta) in (obs @ [v], ())) n lvs"

type_synonym 's walk_fn = "string list \<Rightarrow> float64 list \<Rightarrow> 's \<Rightarrow> 's \<times> bool"

definition node_walk :: "label_order \<Rightarrow> 's walk_fn \<Rightarrow> node \<Rightarrow> string list \<Rightarrow> 's \<Rightarrow> 's \<times> bool" where
  "node_walk it fn n lvs s =
     tree_walk it (\<lambda>lvs obs s. if length obs > 0 then fn lvs obs s else (s, True)) n lvs s"

subsection \<open>The space\<close>

type_synonym Space = "(string \<times> node) list"
type_synonym name_order = "string list \<Rightarrow> string list"

definition NewSpace :: Space where "NewSpace = []"

definition Space_nodeFor :: "Space \<Rightarrow> string \<Rightarrow> Space \<times> node" where
  "Space_nodeFor s name =
     (case map_of s name of
        Some n \<Rightarrow> (s, n)
      | None \<Rightarrow> (AList.update name empty_node s, empty_node))"

definition Space_Observe :: "Space \<Rightarrow> string \<Rightarrow> string list \<Rightarrow> float64 \<Rightarrow> Space \<times> unit outcome" where
  "Space_Observe s name lvs v =
     (let (s1, n) = Space_nodeFor s name; (n', r) = node_observe n lvs v
      in (AList.update name n' s1, r))"

definition Space_Add :: "Space \<Rightarrow> string \<Rightarrow> string list \<Rightarrow> float64 \<Rightarrow> Space \<times> unit outcome" where
  "Space_Add s name lvs delta =
     (let (s1, n) = Space_nodeFor s name; (n', r) = node_add n lvs delta
      in (AList.update name n' s1, r))"

fun Space_Walk_names :: "label_order \<Rightarrow> (string \<Rightarrow> 's walk_fn) \<Rightarrow> Space \<Rightarrow> string list \<Rightarrow> 's \<Rightarrow> 's" where
  "Space_Walk_names it fn sp [] s = s"
| "Space_Walk_names it fn sp (name # names) s =
     (case map_of sp name of
        None \<Rightarrow> Space_Walk_names it fn sp names s
      | Some n \<Rightarrow>
          (let (s1, go) = node_walk it (fn name) n [] s in
           if \<not> go then s1 else Space_Walk_names it fn sp names s1))"

definition Space_Walk ::
  "name_order \<Rightarrow> label_order \<Rightarrow> (string \<Rightarrow> 's walk_fn) \<Rightarrow> Space \<Rightarrow> 's \<Rightarrow> 's" where
  "Space_Walk nit it fn sp s = Space_Walk_names it fn sp (nit (map fst sp)) s"

text \<open>\<open>Reset\<close>: the space that is left and the one that is returned.\<close>

definition Space_Reset :: "Space \<Rightarrow> Space \<times> Space" where
  "Space_Reset s = (NewSpace, s)"

subsection \<open>Sample rates\<close>

type_synonym RateMap = "(string \<times> float64) list"

definition RateMap_New :: RateMap where "RateMap_New = []"

definition RateMap_Set :: "RateMap \<Rightarrow> string \<Rightarrow> float64 \<Rightarrow> RateMap" where
  "RateMap_Set m name rate = AList.update name rate m"

definition RateMap_Get :: "RateMap \<Rightarrow> string \<Rightarrow> float64" where
  "RateMap_Get m name = (case map_of m name of Some f \<Rightarrow> f | None \<Rightarrow> F64 1)"

lemma RateMap_Get_Set [simp]:
  "RateMap_Get (RateMap_Set m name rate) name' = (if name' = name then rate else RateMap_Get m name')"
  by (simp add: RateMap_Get_def RateMap_Set_def)

lemma RateMap_Get_New [simp]: "RateMap_Get RateMap_New name = F64 1"
  by (simp add: RateMap_Get_def RateMap_New_def)

subsection \<open>The abstract space: time series by name and label values\<close>

abbreviation node_lookup :: "node \<Rightarrow> string list \<Rightarrow> float64 list" where
  "node_lookup \<equiv> tree_lookup []"

definition Space_lookup :: "Space \<Rightarrow> string \<Rightarrow> string list \<Rightarrow> float64 list" where
  "Space_lookup s name lvs = (case map_of s name of Some n \<Rightarrow> node_lookup n lvs | None \<Rightarrow> [])"

lemma Space_lookup_even: "Space_lookup s name lvs \<noteq> [] \<Longrightarrow> even (length lvs)"
  using tree_lookup_odd [of lvs "[]"] by (auto simp: Space_lookup_def split: option.splits)

lemma wf_empty [simp]: "wf_tree empty_node"
  by (simp add: empty_node_def)

lemma node_lookup_empty [simp]: "node_lookup empty_node lvs = []"
  by (simp add: empty_node_def)

definition wf_space :: "Space \<Rightarrow> bool" where
  "wf_space s \<longleftrightarrow> distinct (map fst s) \<and> (\<forall>(p, n) \<in> set s. wf_tree n)"

definition next_value :: "float64 list \<Rightarrow> float64 \<Rightarrow> float64" where
  "next_value obs delta = (if obs = [] then delta else f64_add (last obs) delta)"

lemma node_outcomes:
  "snd (node_observe n lvs v) = (if even (length lvs) then Ret () else too_few)"
  "snd (node_add n lvs v) = (if even (length lvs) then Ret () else too_few)"
  by (simp_all add: node_observe_def node_add_def tree_update_outcome)

lemma node_lookups:
  "node_lookup (fst (node_observe n lvs v)) lvs' =
     (if even (length lvs) \<and> lvs' = lvs then node_lookup n lvs @ [v] else node_lookup n lvs')"
  "node_lookup (fst (node_add n lvs v)) lvs' =
     (if even (length lvs) \<and> lvs' = lvs then node_lookup n lvs @ [next_value (node_lookup n lvs) v]
      else node_lookup n lvs')"
  by (simp_all add: node_observe_def node_add_def tree_lookup_update next_value_def)

lemma node_wf: "wf_tree n \<Longrightarrow> wf_tree (fst (node_observe n lvs v))" "wf_tree n \<Longrightarrow> wf_tree (fst (node_add n lvs v))"
  by (simp_all add: node_observe_def node_add_def tree_update_wf)

lemma Space_nodeFor_props:
  "map_of (fst (Space_nodeFor s name)) name = Some (snd (Space_nodeFor s name))"
  "name' \<noteq> name \<Longrightarrow> map_of (fst (Space_nodeFor s name)) name' = map_of s name'"
  "node_lookup (snd (Space_nodeFor s name)) lvs = Space_lookup s name lvs"
  "wf_space s \<Longrightarrow> wf_space (fst (Space_nodeFor s name)) \<and> wf_tree (snd (Space_nodeFor s name))"
  using set_update_subset [of name empty_node s]
  by (auto simp: Space_nodeFor_def Space_lookup_def wf_space_def dest: map_of_SomeD split: option.splits)

lemma Space_lookup_Observe:
  "Space_lookup (fst (Space_Observe s name lvs v)) name' lvs' =
     (if even (length lvs) \<and> name' = name \<and> lvs' = lvs then Space_lookup s name lvs @ [v]
      else Space_lookup s name' lvs')"
  using node_lookups(1) [of "snd (Space_nodeFor s name)" lvs v lvs'] Space_nodeFor_props [where s = s and name = name]
  by (auto simp: Space_Observe_def Let_def split_beta Space_lookup_def)

lemma Space_lookup_Add:
  "Space_lookup (fst (Space_Add s name lvs v)) name' lvs' =
     (if even (length lvs) \<and> name' = name \<and> lvs' = lvs
      then Space_lookup s name lvs @ [next_value (Space_lookup s name lvs) v]
      else Space_lookup s name' lvs')"
  using node_lookups(2) [of "snd (Space_nodeFor s name)" lvs v lvs'] Space_nodeFor_props [where s = s and name = name]
  by (auto simp: Space_Add_def Let_def split_beta Space_lookup_def)

lemma wf_space_update: "wf_space s \<Longrightarrow> wf_tree n \<Longrightarrow> wf_space (AList.update name n s)"
  using set_update_subset [of name n s] by (auto simp: wf_space_def)

lemma Space_Observe_wf: "wf_space s \<Longrightarrow> wf_space (fst (Space_Observe s name lvs v))"
  using Space_nodeFor_props(4) [of s name]
  by (auto simp: Space_Observe_def Let_def split_beta intro!: wf_space_update node_wf)

lemma Space_Add_wf: "wf_space s \<Longrightarrow> wf_space (fst (Space_Add s name lvs v))"
  using Space_nodeFor_props(4) [of s name]
  by (auto simp: Space_Add_def Let_def split_beta intro!: wf_space_update node_wf)

lemma Space_outcomes:
  "snd (Space_Observe s name lvs v) = (if even (length lvs) then Ret () else too_few)"
  "snd (Space_Add s name lvs v) = (if even (length lvs) then Ret () else too_few)"
  by (simp_all add: Space_Observe_def Space_Add_def Let_def split_beta node_outcomes)

lemma Space_lookup_New [simp]: "Space_lookup NewSpace name lvs = []" "wf_space NewSpace"
  by (simp_all add: Space_lookup_def NewSpace_def wf_space_def)

subsection \<open>What a walk visits\<close>

text \<open>The series of a tree in the order of a walk, and a walk as a loop over them that may stop.\<close>

definition node_series :: "label_order \<Rightarrow> node \<Rightarrow> (string list \<times> float64 list) list" where
  "node_series it n = filter (\<lambda>(l, obs). obs \<noteq> []) (tree_entries it n [])"

lemma node_walk_until: "node_walk it fn n [] s = until (\<lambda>(l, obs). fn l obs) (node_series it n) s"
proof -
  have "node_walk it fn n [] s
      = until (\<lambda>x s. if snd x \<noteq> [] then (case x of (l, obs) \<Rightarrow> fn l obs) s else (s, True)) (tree_entries it n []) s"
    unfolding node_walk_def tree_walk_until by (rule until_cong) auto
  then show ?thesis by (simp add: until_filter node_series_def split_def)
qed

lemma node_series_set:
  "wf_tree n \<Longrightarrow> iterates it \<Longrightarrow> set (node_series it n) = {(l, obs). obs = node_lookup n l \<and> obs \<noteq> []}"
  "wf_tree n \<Longrightarrow> iterates it \<Longrightarrow> distinct (map fst (node_series it n))"
  using tree_entries_nonempty [of n it "\<lambda>obs. obs \<noteq> []" "[]"] by (simp_all add: node_series_def)

definition Space_series :: "name_order \<Rightarrow> label_order \<Rightarrow> Space \<Rightarrow> (string \<times> string list \<times> float64 list) list" where
  "Space_series nit it sp = concat (map (\<lambda>name. case map_of sp name of None \<Rightarrow> []
     | Some n \<Rightarrow> map (Pair name) (node_series it n)) (nit (map fst sp)))"

lemma Space_Walk_names_until:
  "Space_Walk_names it fn sp names s = fst (until (\<lambda>(name, l, obs). fn name l obs)
     (concat (map (\<lambda>name. case map_of sp name of None \<Rightarrow> []
        | Some n \<Rightarrow> map (Pair name) (node_series it n)) names)) s)"
proof (induction names arbitrary: s)
  case (Cons name names)
  show ?case
  proof (cases "map_of sp name")
    case (Some n)
    have w: "node_walk it (fn name) n [] s
        = until (\<lambda>(name, l, obs). fn name l obs) (map (Pair name) (node_series it n)) s"
      by (simp add: node_walk_until until_map split_def)
    obtain s1 go where g: "node_walk it (fn name) n [] s = (s1, go)" by (rule prod.exhaust)
    note u = w [symmetric, unfolded g]
    show ?thesis by (cases go) (simp_all add: Some g until_append u Cons)
  qed (simp add: Cons)
qed simp

lemma Space_Walk_until:
  "Space_Walk nit it fn sp s = fst (until (\<lambda>(name, l, obs). fn name l obs) (Space_series nit it sp) s)"
  by (simp add: Space_Walk_def Space_series_def Space_Walk_names_until)

lemma Space_series_set:
  assumes "wf_space sp" and "iterates nit" and "iterates it"
  shows "set (Space_series nit it sp) = {(name, l, obs). obs = Space_lookup sp name l \<and> obs \<noteq> []}"
    and "distinct (map (\<lambda>(name, l, obs). (name, l)) (Space_series nit it sp))"
proof -
  let ?part = "\<lambda>name. case map_of sp name of None \<Rightarrow> []
      | Some n \<Rightarrow> map (Pair name) (node_series it n)"
  have wf: "wf_tree n" if "map_of sp name = Some n" for name n
    using map_of_SomeD [OF that] assms(1) by (auto simp: wf_space_def)
  have part: "set (?part name) = {(nm, l, obs). nm = name \<and> obs = Space_lookup sp name l \<and> obs \<noteq> []}" for name
    using node_series_set(1) [OF wf assms(3), of name]
    by (cases "map_of sp name") (auto simp: Space_lookup_def)
  have dist: "distinct (map (\<lambda>(name, l, obs). (name, l)) (?part name))" for name
    using node_series_set(2) [OF wf assms(3), of name]
    by (cases "map_of sp name") (force simp: distinct_map inj_on_def)+
  have names: "set (nit (map fst sp)) = fst ` set sp" "distinct (nit (map fst sp))"
    using assms(1,2) by (simp_all add: iterates_set iterates_distinct wf_space_def)
  have "name \<in> fst ` set sp" if "Space_lookup sp name l \<noteq> []" for name l
    using that by (auto simp: Space_lookup_def split: option.splits) (metis map_of_SomeD fst_conv image_eqI)
  then show "set (Space_series nit it sp) = {(name, l, obs). obs = Space_lookup sp name l \<and> obs \<noteq> []}"
    using part names(1) by (auto simp: Space_series_def)
  have "distinct (map (\<lambda>(name, l, obs). (name, l)) (concat (map ?part ns)))" if "distinct ns" for ns
    using that
  proof (induction ns)
    case (Cons name ns)
    have "(\<lambda>(name, l, obs). (name, l)) ` set (?part name)
        \<inter> (\<lambda>(name, l, obs). (name, l)) ` set (concat (map ?part ns)) = {}"
      using Cons.prems part by fastforce
    with Cons dist [of name] show ?case by simp
  qed simp
  then show "distinct (map (\<lambda>(name, l, obs). (name, l)) (Space_series nit it sp))"
    using names(2) by (simp add: Space_series_def)
qed

text \<open>The definitions that a concrete run unfolds.\<close>

lemmas space_eval = Space_Observe_def Space_Add_def Space_nodeFor_def NewSpace_def empty_node_def
  node_observe_def node_add_def node_series_def Space_series_def RateMap_New_def RateMap_Set_def
  RateMap_Get_def

subsection \<open>Properties\<close>

text \<open>C12: The tree refines a map from metric names and label values to series: with an even number of
  label values \<open>Observe\<close> appends the value to that series and \<open>Add\<close> the last value plus the delta,
  and no other series changes; with an odd number both panic and no series changes.\<close>

theorem Space_refines_series:
  "Space_lookup (fst (Space_Observe s name lvs v)) name' lvs' =
     (if even (length lvs) \<and> name' = name \<and> lvs' = lvs then Space_lookup s name lvs @ [v]
      else Space_lookup s name' lvs')
   \<and> Space_lookup (fst (Space_Add s name lvs v)) name' lvs' =
     (if even (length lvs) \<and> name' = name \<and> lvs' = lvs
      then Space_lookup s name lvs @ [next_value (Space_lookup s name lvs) v]
      else Space_lookup s name' lvs')
   \<and> snd (Space_Observe s name lvs v) = (if even (length lvs) then Ret () else too_few)
   \<and> snd (Space_Add s name lvs v) = (if even (length lvs) then Ret () else too_few)"
  by (intro conjI Space_lookup_Observe Space_lookup_Add Space_outcomes)

text \<open>\<open>Walk\<close> calls its function on every non-empty series exactly once, with its name, label values
  and all its observations, in some order, and stops as soon as the function returns false.\<close>

theorem Space_Walk_visits:
  assumes "wf_space sp" and "iterates nit" and "iterates it"
  shows "\<exists>xs. distinct (map (\<lambda>(name, l, obs). (name, l)) xs)
    \<and> set xs = {(name, l, obs). obs = Space_lookup sp name l \<and> obs \<noteq> []}
    \<and> Space_Walk nit it fn sp s = fst (until (\<lambda>(name, l, obs). fn name l obs) xs s)"
  by (intro exI [of _ "Space_series nit it sp"] conjI Space_series_set [OF assms] Space_Walk_until)

theorem Space_Walk_visits_witness:
  "\<exists>xs. set xs = {(name, l, obs). obs = Space_lookup [(''m'', Node [F64 1] [])] name l \<and> obs \<noteq> []}
    \<and> Space_Walk rev rev (\<lambda>name l obs s. (s @ [name], True)) [(''m'', Node [F64 1] [])] []
        = fst (until (\<lambda>(name, l, obs) s. (s @ [name], True)) xs [])"
  using Space_Walk_visits [of "[(''m'', Node [F64 1] [])]" rev rev "\<lambda>name l obs s. (s @ [name], True)" "[]"]
  by (auto simp: wf_space_def)

definition observe_all :: "(string \<times> string list \<times> float64) list \<Rightarrow> Space \<Rightarrow> Space" where
  "observe_all obs s = fold (\<lambda>(name, lvs, v) s. fst (Space_Observe s name lvs v)) obs s"

lemma Space_lookup_observe_all:
  "even (length lvs) \<Longrightarrow> Space_lookup (observe_all obs s) name lvs = Space_lookup s name lvs
     @ map (\<lambda>(name, lvs, v). v) (filter (\<lambda>(name', lvs', v). name' = name \<and> lvs' = lvs) obs)"
proof (induction obs arbitrary: s)
  case (Cons x obs)
  obtain a l v where x: "x = (a, l, v)" by (rule prod_cases3)
  from Cons show ?case
    by (cases "a = name \<and> l = lvs") (auto simp: observe_all_def x Space_lookup_Observe)
qed (simp add: observe_all_def)

lemma observe_all_wf: "wf_space s \<Longrightarrow> wf_space (observe_all obs s)"
  by (induction obs arbitrary: s) (auto simp: observe_all_def Space_Observe_wf)

text \<open>A space that collects a sequence of observations holds, for each series, exactly its values in
  the order of the observations; \<open>Reset\<close> hands them over and leaves an empty space.\<close>

theorem Space_collects:
  assumes "iterates nit" and "iterates it" and "Space_Reset (observe_all obs NewSpace) = (left, old)"
  shows "left = NewSpace
    \<and> set (Space_series nit it old) = {(name, l, vs). vs \<noteq> [] \<and> vs = Space_lookup old name l}
    \<and> (even (length lvs) \<longrightarrow> Space_lookup old name lvs
        = map (\<lambda>(name, lvs, v). v) (filter (\<lambda>(name', lvs', v). name' = name \<and> lvs' = lvs) obs))"
  using assms(3) Space_series_set(1) [OF observe_all_wf [OF Space_lookup_New(2)] assms(1,2), of obs]
  by (auto simp: Space_Reset_def Space_lookup_observe_all)

theorem Space_collects_witness:
  "Space_lookup (snd (Space_Reset (observe_all
      [(''m'', [''k'', ''a''], F64 1), (''n'', [], F64 2), (''m'', [''k'', ''a''], F64 3)] NewSpace)))
      ''m'' [''k'', ''a''] = [F64 1, F64 3]"
  using Space_collects [OF iterates_id iterates_id surjective_pairing,
      of "[(''m'', [''k'', ''a''], F64 1), (''n'', [], F64 2), (''m'', [''k'', ''a''], F64 3)]"
        "[''k'', ''a'']" "''m''"]
  by simp

end
