(* ===== verification/Line_Writer.thy ===== *)
theory Line_Writer
  imports Space
begin

text \<open>
  What the backends that print lines share: a call of \<open>fmt.Fprintf(w, ...)\<close> in a closure of
  \<open>WriteTo\<close>, which assigns the variables \<open>n\<close>, \<open>err\<close> and \<open>count\<close> of the method, and the helper functions
  \<open>sum\<close>, \<open>last\<close> and \<open>sampling\<close>, of which packages statsd, dogstatsd and influxstatsd have equal copies.

  A writer is a function from its state and the text to its new state, the number of bytes and an
  error. \<open>limited\<close> is a writer that takes a number of lines and then fails for ever; it is what the
  theorems about \<open>WriteTo\<close> are stated with (a writer that never fails has a large enough limit).
\<close>

type_synonym 'w writer = "'w \<Rightarrow> string \<Rightarrow> 'w \<times> int \<times> string option"

record 'w writing =
  ws_w :: 'w
  ws_count :: int
  ws_err :: "string option"

definition writing_start :: "'w \<Rightarrow> 'w writing" where
  "writing_start w = \<lparr>ws_w = w, ws_count = 0, ws_err = None\<rparr>"

definition write_line :: "'w writer \<Rightarrow> string \<Rightarrow> 'w writing \<Rightarrow> 'w writing \<times> bool" where
  "write_line wr line st =
     (let (w1, n, err) = wr (ws_w st) line; st1 = st\<lparr>ws_w := w1, ws_err := err\<rparr> in
      if err \<noteq> None then (st1, False) else (st1\<lparr>ws_count := ws_count st1 + n\<rparr>, True))"

definition newline :: string where "newline = [CHR 0x0A]"

definition sum :: "float64 list \<Rightarrow> float64" where
  "sum a = fold (\<lambda>f v. f64_add v f) a (F64 0)"

definition sampling :: "float64 \<Rightarrow> string" where
  "sampling r = (if f64_lt r (F64 1) then ''|@'' @ fmt_f r else [])"

subsection \<open>Loops that write\<close>

definition limited :: "(nat \<times> string list) writer" where
  "limited w line = (case w of
      (0, out) \<Rightarrow> ((0, out), 0, Some ''broken'')
    | (Suc k, out) \<Rightarrow> ((k, out @ [line]), int (length line), None))"

definition total_length :: "string list \<Rightarrow> int" where
  "total_length xs = sum_list (map (\<lambda>s. int (length s)) xs)"

lemma total_length_simps [simp]:
  "total_length [] = 0" "total_length (x # xs) = int (length x) + total_length xs"
  "total_length (xs @ ys) = total_length xs + total_length ys"
  by (simp_all add: total_length_def)

text \<open>The state of a limited writer after writing some lines.\<close>

definition wrote :: "string list \<Rightarrow> (nat \<times> string list) writing \<Rightarrow> (nat \<times> string list) writing" where
  "wrote xs st = (case ws_w st of (k, out) \<Rightarrow>
     \<lparr>ws_w = (k - length xs, out @ take k xs), ws_count = ws_count st + total_length (take k xs),
      ws_err = (if k < length xs then Some ''broken'' else ws_err st)\<rparr>)"

lemma wrote_Nil [simp]: "wrote [] st = st"
  by (cases st) (auto simp: wrote_def split: prod.splits)

text \<open>A state whose error, if it has one, is that of the exhausted writer.\<close>

definition live :: "(nat \<times> string list) writing \<Rightarrow> bool" where
  "live st \<longleftrightarrow> ws_err st = None \<or> ws_err st = Some ''broken'' \<and> fst (ws_w st) = 0"

lemma live_start [simp]: "live (writing_start w)"
  by (simp add: live_def writing_start_def)

lemma live_wrote [simp]: "live st \<Longrightarrow> live (wrote xs st)"
  by (cases "ws_w st") (auto simp: live_def wrote_def)

lemma live_wrote_append: "live st \<Longrightarrow> wrote ys (wrote xs st) = wrote (xs @ ys) st"
  by (cases "ws_w st") (auto simp: live_def wrote_def)

lemma live_wrote_stop: "live st \<Longrightarrow> ws_err st \<noteq> None \<Longrightarrow> wrote xs st = st"
  by (cases st) (auto simp: live_def wrote_def)

lemma live_wrote_None: "live st \<Longrightarrow> ws_err (wrote xs st) = None \<Longrightarrow> ws_err st = None"
  by (rule ccontr) (simp add: live_wrote_stop)

lemma live_write_line: "live st \<Longrightarrow> write_line limited x st = (wrote [x] st, ws_err (wrote [x] st) = None)"
  by (cases st; cases "fst (ws_w st)")
    (auto simp: live_def write_line_def limited_def wrote_def split: prod.splits nat.splits)

lemma live_until_write:
  "live st \<Longrightarrow> until (write_line limited) xs st = (wrote xs st, xs = [] \<or> ws_err (wrote xs st) = None)"
proof (induction xs arbitrary: st)
  case (Cons x xs)
  have w: "wrote (x # xs) st = wrote xs (wrote [x] st)" using live_wrote_append [OF Cons.prems, of xs "[x]"] by simp
  show ?case
  proof (cases "ws_err (wrote [x] st) = None")
    case True
    with Cons live_write_line [OF Cons.prems, of x] w show ?thesis by (cases xs) simp_all
  next
    case False
    with Cons.prems live_write_line [OF Cons.prems, of x] live_wrote_stop [OF _ False, of xs] w show ?thesis
      by simp
  qed
qed simp

text \<open>A walk whose function writes the lines \<open>f name lvs obs\<close> of each series.\<close>

definition series_lines ::
  "(string \<Rightarrow> string list \<Rightarrow> float64 list \<Rightarrow> string list) \<Rightarrow> (string \<times> string list \<times> float64 list) list
     \<Rightarrow> string list" where
  "series_lines f xs = concat (map (\<lambda>(name, l, obs). f name l obs) xs)"

lemma walk_writes:
  assumes "live st"
    and "\<And>name l obs st. fn name l obs st = until (write_line limited) (f name l obs) st"
  shows "Space_Walk nit it fn sp st = wrote (series_lines f (Space_series nit it sp)) st"
proof -
  have "Space_Walk nit it fn sp st
      = fst (until (\<lambda>x. until (write_line limited) (case x of (name, l, obs) \<Rightarrow> f name l obs))
          (Space_series nit it sp) st)"
    unfolding Space_Walk_until
    by (intro arg_cong [where f = fst] until_cong) (auto simp: assms(2))
  then show ?thesis
    using live_until_write [OF assms(1)] by (simp add: until_concat series_lines_def)
qed

end
