(* ===== verification/Statsd.thy ===== *)
theory Statsd
  imports Line_Writer Conn_Manager
begin

text \<open>
  Package metrics/statsd, file statsd.go. The metric handles (\<open>Counter\<close>, \<open>Gauge\<close>, \<open>Timing\<close>) are their
  names; their methods act on the Statsd object, whose spaces they close over. StatsD knows no labels,
  so the handles observe with none. \<open>WriteTo\<close> returns the new object and what it wrote; \<open>nit\<close> and \<open>it\<close>
  are the orders in which the maps of the spaces are ranged over. Log output is not modelled.
\<close>

record Statsd =
  s_prefix :: string
  s_rates :: RateMap
  s_counters :: Space
  s_gauges :: Space
  s_timings :: Space

definition Statsd_New :: "string \<Rightarrow> Statsd" where
  "Statsd_New prefix = \<lparr>s_prefix = prefix, s_rates = RateMap_New, s_counters = NewSpace,
     s_gauges = NewSpace, s_timings = NewSpace\<rparr>"

type_synonym handle = string

definition Statsd_NewCounter :: "Statsd \<Rightarrow> string \<Rightarrow> float64 \<Rightarrow> Statsd \<times> handle" where
  "Statsd_NewCounter s name sampleRate =
     (s\<lparr>s_rates := RateMap_Set (s_rates s) (s_prefix s @ name) sampleRate\<rparr>, s_prefix s @ name)"

definition Statsd_NewGauge :: "Statsd \<Rightarrow> string \<Rightarrow> handle" where
  "Statsd_NewGauge s name = s_prefix s @ name"

definition Statsd_NewTiming :: "Statsd \<Rightarrow> string \<Rightarrow> float64 \<Rightarrow> Statsd \<times> handle" where
  "Statsd_NewTiming s name sampleRate =
     (s\<lparr>s_rates := RateMap_Set (s_rates s) (s_prefix s @ name) sampleRate\<rparr>, s_prefix s @ name)"

definition Statsd_Counter_With :: "handle \<Rightarrow> string list \<Rightarrow> handle" where
  "Statsd_Counter_With c labelValues = c"

definition Statsd_Counter_Add :: "handle \<Rightarrow> float64 \<Rightarrow> Statsd \<Rightarrow> Statsd" where
  "Statsd_Counter_Add c delta s = s\<lparr>s_counters := fst (Space_Observe (s_counters s) c [] delta)\<rparr>"

definition Statsd_Gauge_With :: "handle \<Rightarrow> string list \<Rightarrow> handle" where
  "Statsd_Gauge_With g labelValues = g"

definition Statsd_Gauge_Set :: "handle \<Rightarrow> float64 \<Rightarrow> Statsd \<Rightarrow> Statsd" where
  "Statsd_Gauge_Set g v s = s\<lparr>s_gauges := fst (Space_Observe (s_gauges s) g [] v)\<rparr>"

definition Statsd_Gauge_Add :: "handle \<Rightarrow> float64 \<Rightarrow> Statsd \<Rightarrow> Statsd" where
  "Statsd_Gauge_Add g delta s = s\<lparr>s_gauges := fst (Space_Add (s_gauges s) g [] delta)\<rparr>"

definition Statsd_Timing_With :: "handle \<Rightarrow> string list \<Rightarrow> handle" where
  "Statsd_Timing_With t labelValues = t"

definition Statsd_Timing_Observe :: "handle \<Rightarrow> float64 \<Rightarrow> Statsd \<Rightarrow> Statsd" where
  "Statsd_Timing_Observe t v s = s\<lparr>s_timings := fst (Space_Observe (s_timings s) t [] v)\<rparr>"

subsection \<open>Flushing\<close>

definition Statsd_counter_line :: "RateMap \<Rightarrow> string \<Rightarrow> float64 list \<Rightarrow> string" where
  "Statsd_counter_line rates name vs =
     name @ '':'' @ fmt_f (sum vs) @ ''|c'' @ sampling (RateMap_Get rates name) @ newline"

definition Statsd_gauge_line :: "string \<Rightarrow> float64 list \<Rightarrow> string" where
  "Statsd_gauge_line name vs = name @ '':'' @ fmt_f (last vs) @ ''|g'' @ newline"

definition Statsd_timing_line :: "string \<Rightarrow> float64 \<Rightarrow> float64 \<Rightarrow> string" where
  "Statsd_timing_line name sampleRate v = name @ '':'' @ fmt_f v @ ''|ms'' @ sampling sampleRate @ newline"

definition Statsd_WriteTo ::
  "name_order \<Rightarrow> label_order \<Rightarrow> 'w writer \<Rightarrow> Statsd \<Rightarrow> 'w \<Rightarrow> Statsd \<times> 'w writing" where
  "Statsd_WriteTo nit it wr s w =
     (let (c1, old) = Space_Reset (s_counters s); s1 = s\<lparr>s_counters := c1\<rparr>;
          st1 = Space_Walk nit it (\<lambda>name lvs vs st.
                  write_line wr (Statsd_counter_line (s_rates s1) name vs) st) old (writing_start w)
      in if ws_err st1 \<noteq> None then (s1, st1)
      else
        let (g1, oldg) = Space_Reset (s_gauges s1); s2 = s1\<lparr>s_gauges := g1\<rparr>;
            st2 = Space_Walk nit it (\<lambda>name lvs vs st.
                    write_line wr (Statsd_gauge_line name vs) st) oldg st1
        in if ws_err st2 \<noteq> None then (s2, st2)
        else
          let (t1, oldt) = Space_Reset (s_timings s2); s3 = s2\<lparr>s_timings := t1\<rparr>;
              st3 = Space_Walk nit it (\<lambda>name lvs vs st.
                      let sampleRate = RateMap_Get (s_rates s3) name in
                      until (\<lambda>v st. write_line wr (Statsd_timing_line name sampleRate v) st) vs st) oldt st2
          in (s3, st3))"

text \<open>\<open>WriteLoop\<close>: one \<open>WriteTo\<close> per tick until the context is done; errors are only logged.\<close>

fun Statsd_WriteLoop ::
  "name_order \<Rightarrow> label_order \<Rightarrow> 'w writer \<Rightarrow> nat \<Rightarrow> Statsd \<Rightarrow> 'w \<Rightarrow> Statsd \<times> 'w" where
  "Statsd_WriteLoop nit it wr 0 s w = (s, w)"
| "Statsd_WriteLoop nit it wr (Suc ticks) s w =
     (let (s1, st) = Statsd_WriteTo nit it wr s w in Statsd_WriteLoop nit it wr ticks s1 (ws_w st))"

definition Statsd_SendLoop :: "name_order \<Rightarrow> label_order \<Rightarrow> ('c \<Rightarrow> string \<Rightarrow> int \<times> string option)
    \<Rightarrow> ('c manager \<Rightarrow> 'c manager) \<Rightarrow> nat \<Rightarrow> Statsd \<Rightarrow> 'c option \<times> string option
    \<Rightarrow> Statsd \<times> 'c manager" where
  "Statsd_SendLoop nit it net_write mid ticks s dialed =
     Statsd_WriteLoop nit it (Manager_Write net_write mid) ticks s (loop_start dialed)"

subsection \<open>The lines of a flush\<close>

definition Statsd_lines :: "name_order \<Rightarrow> label_order \<Rightarrow> Statsd \<Rightarrow> string list" where
  "Statsd_lines nit it s =
     series_lines (\<lambda>name l vs. [Statsd_counter_line (s_rates s) name vs]) (Space_series nit it (s_counters s))
   @ series_lines (\<lambda>name l vs. [Statsd_gauge_line name vs]) (Space_series nit it (s_gauges s))
   @ series_lines (\<lambda>name l vs. map (Statsd_timing_line name (RateMap_Get (s_rates s) name)) vs)
       (Space_series nit it (s_timings s))"

lemma until_map_lines: "until (\<lambda>v st. write_line wr (f v) st) vs st = until (write_line wr) (map f vs) st"
  by (simp add: until_map)

lemma Statsd_WriteTo_writes:
  assumes "Statsd_WriteTo nit it limited s (k, []) = (s', st)"
  shows "st = wrote (Statsd_lines nit it s) (writing_start (k, []))"
    and "ws_err st = None \<Longrightarrow> s' = s\<lparr>s_counters := NewSpace, s_gauges := NewSpace, s_timings := NewSpace\<rparr>"
proof -
  let ?c = "series_lines (\<lambda>name l vs. [Statsd_counter_line (s_rates s) name vs]) (Space_series nit it (s_counters s))"
  let ?g = "series_lines (\<lambda>name l vs. [Statsd_gauge_line name vs]) (Space_series nit it (s_gauges s))"
  let ?t = "series_lines (\<lambda>name l vs. map (Statsd_timing_line name (RateMap_Get (s_rates s) name)) vs)
       (Space_series nit it (s_timings s))"
  let ?st0 = "writing_start (k, [])"
  have c: "Space_Walk nit it (\<lambda>name lvs vs st. write_line limited (Statsd_counter_line (s_rates s) name vs) st)
      (s_counters s) ?st0 = wrote ?c ?st0"
    by (rule walk_writes) (simp_all add: until_single del: until.simps)
  have g: "Space_Walk nit it (\<lambda>name lvs vs st. write_line limited (Statsd_gauge_line name vs) st)
      (s_gauges s) st = wrote ?g st" if "live st" for st
    by (rule walk_writes [OF that]) (simp add: until_single del: until.simps)
  have t: "Space_Walk nit it (\<lambda>name lvs vs st. let sampleRate = RateMap_Get (s_rates s) name in
        until (\<lambda>v st. write_line limited (Statsd_timing_line name sampleRate v) st) vs st)
      (s_timings s) st = wrote ?t st" if "live st" for st
    by (rule walk_writes [OF that]) (unfold Let_def, rule until_map_lines)
  have l: "live (wrote ?c ?st0)" "live (wrote ?g (wrote ?c ?st0))" by simp_all
  have "st = wrote ?t (wrote ?g (wrote ?c ?st0)) \<and>
      (ws_err st = None \<longrightarrow> s' = s\<lparr>s_counters := NewSpace, s_gauges := NewSpace, s_timings := NewSpace\<rparr>)"
    using assms c g [OF l(1)] t [OF l(2)] live_wrote_stop [OF l(1)] live_wrote_stop [OF l(2)]
    by (auto simp: Statsd_WriteTo_def Space_Reset_def Let_def split: if_splits)
  then show "st = wrote (Statsd_lines nit it s) (writing_start (k, []))"
    "ws_err st = None \<Longrightarrow> s' = s\<lparr>s_counters := NewSpace, s_gauges := NewSpace, s_timings := NewSpace\<rparr>"
    by (simp_all add: Statsd_lines_def live_wrote_append)
qed

subsection \<open>Properties\<close>

text \<open>\<open>WriteTo\<close> writes exactly the lines of the buffered series (one summed line per counter, the
  last value per gauge, one line per timing observation), up to the first one the writer refuses; it
  returns the bytes written and an error exactly if a line was refused, and on success it leaves
  nothing buffered.\<close>

theorem Statsd_WriteTo_correct:
  assumes "Statsd_WriteTo nit it limited s (k, []) = (s', st)"
  shows "snd (ws_w st) = take k (Statsd_lines nit it s)
    \<and> ws_count st = total_length (take k (Statsd_lines nit it s))
    \<and> (ws_err st = None \<longleftrightarrow> length (Statsd_lines nit it s) \<le> k)
    \<and> (ws_err st = None \<longrightarrow> s' = s\<lparr>s_counters := NewSpace, s_gauges := NewSpace, s_timings := NewSpace\<rparr>)"
  using Statsd_WriteTo_writes [OF assms] by (auto simp: wrote_def writing_start_def)

definition statsd_example :: Statsd where
  "statsd_example = Statsd_Timing_Observe ''x.t'' (F64 3) (Statsd_Gauge_Add ''x.g'' (F64 2)
     (Statsd_Gauge_Set ''x.g'' (F64 5) (Statsd_Counter_Add ''x.c'' (F64 2) (Statsd_Counter_Add ''x.c'' (F64 1)
       (fst (Statsd_NewCounter (Statsd_New ''x.'') ''c'' (F64 (1 / 2))))))))"

lemmas statsd_eval = statsd_example_def Statsd_New_def Statsd_NewCounter_def Statsd_Counter_Add_def
  Statsd_Gauge_Set_def Statsd_Gauge_Add_def Statsd_Timing_Observe_def space_eval

lemma statsd_example_lines:
  "Statsd_lines (\<lambda>xs. xs) (\<lambda>xs. xs) statsd_example =
     [''x.c:3.000000|c|@0.500000'' @ newline, ''x.g:7.000000|g'' @ newline, ''x.t:3.000000|ms'' @ newline]"
  by (simp add: statsd_eval Statsd_lines_def series_lines_def Statsd_counter_line_def
      Statsd_gauge_line_def Statsd_timing_line_def sum_def sampling_def f64_lt_def
      f64_add_numeral f64_add_int [of 0 1, simplified] f64_add_int [of 1 2, simplified] fmt_f_eval Let_def)

theorem Statsd_WriteTo_correct_witness:
  "snd (ws_w (snd (Statsd_WriteTo (\<lambda>xs. xs) (\<lambda>xs. xs) limited statsd_example (1, []))))
     = [''x.c:3.000000|c|@0.500000'' @ newline]
   \<and> ws_err (snd (Statsd_WriteTo (\<lambda>xs. xs) (\<lambda>xs. xs) limited statsd_example (1, []))) \<noteq> None"
  using Statsd_WriteTo_correct [of "\<lambda>xs. xs" "\<lambda>xs. xs" statsd_example 1, OF surjective_pairing]
  by (simp add: statsd_example_lines)

end
