(* ===== verification/Generic_Metrics.thy ===== *)
theory Generic_Metrics
  imports Space
begin

text \<open>
  Package metrics/generic, file generic.go: the in-memory metrics. A metric's 64-bit word is the
  double it encodes, so a compare-and-swap compares doubles as bit patterns (the type \<open>float64\<close> keeps
  the two zeros apart; of the NaNs it knows one).

  \<open>Counter_Add\<close> and \<open>Counter_ValueReset\<close> are what one call does when nobody else is at work. The relation \<open>cas_step\<close> has the
  loops of the code, as the atomic operations of any number of goroutines; a theorem shows that the calls
  are atomic, which is why all other theorems reason about sequences of calls.
  The bucket histogram of VividCortex/gohistogram is code of another module, a parameter.
\<close>

record metric =
  met_Name :: string
  met_bits :: float64
  met_lvs :: "string list"

definition NewCounter :: "string \<Rightarrow> metric" where
  "NewCounter name = \<lparr>met_Name = name, met_bits = F64 0, met_lvs = []\<rparr>"

definition Counter_With :: "metric \<Rightarrow> string list \<Rightarrow> metric" where
  "Counter_With c labelValues = \<lparr>met_Name = met_Name c, met_bits = met_bits c, met_lvs = lv_With (met_lvs c) labelValues\<rparr>"

definition Counter_Add :: "metric \<Rightarrow> float64 \<Rightarrow> metric" where
  "Counter_Add c delta = c\<lparr>met_bits := f64_add (met_bits c) delta\<rparr>"

definition Counter_Value :: "metric \<Rightarrow> float64" where
  "Counter_Value c = met_bits c"

definition Counter_ValueReset :: "metric \<Rightarrow> metric \<times> float64" where
  "Counter_ValueReset c = (c\<lparr>met_bits := F64 0\<rparr>, met_bits c)"

definition Counter_LabelValues :: "metric \<Rightarrow> string list" where
  "Counter_LabelValues c = met_lvs c"

definition NewGauge :: "string \<Rightarrow> metric" where
  "NewGauge name = \<lparr>met_Name = name, met_bits = F64 0, met_lvs = []\<rparr>"

definition Gauge_With :: "metric \<Rightarrow> string list \<Rightarrow> metric" where
  "Gauge_With g labelValues = \<lparr>met_Name = met_Name g, met_bits = met_bits g, met_lvs = lv_With (met_lvs g) labelValues\<rparr>"

definition Gauge_Set :: "metric \<Rightarrow> float64 \<Rightarrow> metric" where
  "Gauge_Set g v = g\<lparr>met_bits := v\<rparr>"

definition Gauge_Add :: "metric \<Rightarrow> float64 \<Rightarrow> metric" where
  "Gauge_Add g delta = g\<lparr>met_bits := f64_add (met_bits g) delta\<rparr>"

definition Gauge_Value :: "metric \<Rightarrow> float64" where
  "Gauge_Value g = met_bits g"

definition Gauge_LabelValues :: "metric \<Rightarrow> string list" where
  "Gauge_LabelValues g = met_lvs g"

subsection \<open>Histograms\<close>

text \<open>
  A histogram holds a pointer to its buckets, which those that \<open>With\<close> makes of it share: the buckets, of type \<open>'h\<close>, live in a
  store, and a pointer is an index of it.
\<close>

record Histogram =
  h_Name :: string
  h_lvs :: "string list"
  h_h :: nat

definition NewHistogram :: "(int \<Rightarrow> 'h) \<Rightarrow> string \<Rightarrow> int \<Rightarrow> 'h list \<Rightarrow> 'h list \<times> Histogram" where
  "NewHistogram new_gohistogram name buckets hs =
     (hs @ [new_gohistogram buckets], \<lparr>h_Name = name, h_lvs = [], h_h = length hs\<rparr>)"

definition Histogram_With :: "Histogram \<Rightarrow> string list \<Rightarrow> Histogram" where
  "Histogram_With h labelValues = \<lparr>h_Name = h_Name h, h_lvs = lv_With (h_lvs h) labelValues, h_h = h_h h\<rparr>"

definition Histogram_Observe :: "('h \<Rightarrow> float64 \<Rightarrow> 'h) \<Rightarrow> Histogram \<Rightarrow> float64 \<Rightarrow> 'h list \<Rightarrow> 'h list" where
  "Histogram_Observe add h v hs = hs[h_h h := add (hs ! h_h h) v]"

definition Histogram_Quantile :: "('h \<Rightarrow> float64 \<Rightarrow> float64) \<Rightarrow> 'h list \<Rightarrow> Histogram \<Rightarrow> float64 \<Rightarrow> float64" where
  "Histogram_Quantile quantile hs h q = quantile (hs ! h_h h) q"

definition Histogram_LabelValues :: "Histogram \<Rightarrow> string list" where
  "Histogram_LabelValues h = h_lvs h"

text \<open>\<open>Print\<close> writes what the library shows of the buckets; \<open>write\<close> is the writer, whose result is ignored.\<close>

definition Histogram_Print :: "('h \<Rightarrow> string) \<Rightarrow> (string \<Rightarrow> 'w \<Rightarrow> 'w) \<Rightarrow> 'h list \<Rightarrow> Histogram \<Rightarrow> 'w \<Rightarrow> 'w" where
  "Histogram_Print show_h write hs h = write (show_h (hs ! h_h h))"

text \<open>Observations through any of the histograms that share their buckets count for all of them; others are left alone.\<close>

lemma Histogram_Observe_shared:
  "h_h h = h_h g \<Longrightarrow> h_h h < length hs \<Longrightarrow> fold (Histogram_Observe add h) vs hs ! h_h g = foldl add (hs ! h_h g) vs"
  "h_h h \<noteq> h_h g \<Longrightarrow> fold (Histogram_Observe add h) vs hs ! h_h g = hs ! h_h g"
  by (induction vs arbitrary: hs) (simp_all add: Histogram_Observe_def)

record SimpleHistogram =
  sh_lvs :: "string list"
  sh_avg :: float64
  sh_n :: "64 word"

definition NewSimpleHistogram :: SimpleHistogram where
  "NewSimpleHistogram = \<lparr>sh_lvs = [], sh_avg = F64 0, sh_n = 0\<rparr>"

definition SimpleHistogram_With :: "SimpleHistogram \<Rightarrow> string list \<Rightarrow> SimpleHistogram" where
  "SimpleHistogram_With h labelValues =
     \<lparr>sh_lvs = lv_With (sh_lvs h) labelValues, sh_avg = sh_avg h, sh_n = sh_n h\<rparr>"

definition SimpleHistogram_Observe :: "SimpleHistogram \<Rightarrow> float64 \<Rightarrow> SimpleHistogram" where
  "SimpleHistogram_Observe h v =
     (let n = sh_n h + 1;
          fn = f64_of_int (uint n);
          avg1 = f64_sub (sh_avg h) (f64_div (sh_avg h) fn);
          avg2 = f64_add avg1 (f64_div v fn)
      in h\<lparr>sh_n := n, sh_avg := avg2\<rparr>)"

definition SimpleHistogram_ApproximateMovingAverage :: "SimpleHistogram \<Rightarrow> float64" where
  "SimpleHistogram_ApproximateMovingAverage h = sh_avg h"

definition SimpleHistogram_LabelValues :: "SimpleHistogram \<Rightarrow> string list" where
  "SimpleHistogram_LabelValues h = sh_lvs h"

subsection \<open>The compare-and-swap loop\<close>

text \<open>
  The calls of \<open>Add\<close> and \<open>ValueReset\<close> of one counter by any number of goroutines: \<open>cs_running\<close> tells of each goroutine
  what it calls and, between the load and the compare-and-swap, the word that it loaded. A step is one atomic
  operation: a goroutine begins a call, loads the word, or compares and swaps, after which the call returns or the loop starts again.
  \<open>cs_done\<close> notes the calls that have returned, in the order of their swaps, with what they returned.
\<close>

datatype counter_call = CallAdd float64 | CallValueReset

primrec cas_newf :: "counter_call \<Rightarrow> float64 \<Rightarrow> float64" where
  "cas_newf (CallAdd delta) old = f64_add old delta"
| "cas_newf CallValueReset old = F64 0"

primrec cas_result :: "counter_call \<Rightarrow> float64 \<Rightarrow> float64 option" where
  "cas_result (CallAdd delta) old = None"
| "cas_result CallValueReset old = Some old"

record counter_state =
  cs_counter :: metric
  cs_running :: "nat \<rightharpoonup> counter_call \<times> float64 option"
  cs_done :: "(nat \<times> counter_call \<times> float64 option) list"

definition start_counter :: "metric \<Rightarrow> counter_state" where
  "start_counter c = \<lparr>cs_counter = c, cs_running = Map.empty, cs_done = []\<rparr>"

inductive cas_step :: "counter_state \<Rightarrow> counter_state \<Rightarrow> bool" where
  cas_call: "cs_running s g = None \<Longrightarrow> cas_step s (s\<lparr>cs_running := (cs_running s)(g \<mapsto> (call, None))\<rparr>)"
| cas_load: "cs_running s g = Some (call, None) \<Longrightarrow>
    cas_step s (s\<lparr>cs_running := (cs_running s)(g \<mapsto> (call, Some (met_bits (cs_counter s))))\<rparr>)"
| cas_swap: "cs_running s g = Some (call, Some old) \<Longrightarrow> met_bits (cs_counter s) = old \<Longrightarrow>
    cas_step s (s\<lparr>cs_counter := (cs_counter s)\<lparr>met_bits := cas_newf call old\<rparr>, cs_running := (cs_running s)(g := None),
      cs_done := cs_done s @ [(g, call, cas_result call old)]\<rparr>)"
| cas_retry: "cs_running s g = Some (call, Some old) \<Longrightarrow> met_bits (cs_counter s) \<noteq> old \<Longrightarrow>
    cas_step s (s\<lparr>cs_running := (cs_running s)(g \<mapsto> (call, None))\<rparr>)"

text \<open>The same calls one after the other.\<close>

fun counter_calls :: "counter_call list \<Rightarrow> metric \<Rightarrow> metric \<times> float64 option list" where
  "counter_calls [] c = (c, [])"
| "counter_calls (CallAdd delta # calls) c =
     (case counter_calls calls (Counter_Add c delta) of (c1, rs) \<Rightarrow> (c1, None # rs))"
| "counter_calls (CallValueReset # calls) c =
     (case Counter_ValueReset c of (c1, v) \<Rightarrow> (case counter_calls calls c1 of (c2, rs) \<Rightarrow> (c2, Some v # rs)))"

lemma counter_calls_append:
  "counter_calls (calls @ calls') c =
     (case counter_calls calls c of (c1, rs) \<Rightarrow> (case counter_calls calls' c1 of (c2, rs') \<Rightarrow> (c2, rs @ rs')))"
  by (induction calls c rule: counter_calls.induct) (auto split: prod.splits)

lemma counter_calls_swap:
  "counter_calls [call] c = (c\<lparr>met_bits := cas_newf call (met_bits c)\<rparr>, [cas_result call (met_bits c)])"
  by (cases call) (simp_all add: Counter_Add_def Counter_ValueReset_def)

definition calls_of :: "(nat \<times> counter_call \<times> float64 option) list \<Rightarrow> counter_call list" where
  "calls_of = map (\<lambda>(g, call, r). call)"

definition results_of :: "(nat \<times> counter_call \<times> float64 option) list \<Rightarrow> float64 option list" where
  "results_of = map (\<lambda>(g, call, r). r)"

lemma cas_step_sequential:
  "cas_step s s' \<Longrightarrow> counter_calls (calls_of (cs_done s)) c = (cs_counter s, results_of (cs_done s))
     \<Longrightarrow> counter_calls (calls_of (cs_done s')) c = (cs_counter s', results_of (cs_done s'))"
  by (induction rule: cas_step.induct)
    (simp_all add: calls_of_def results_of_def counter_calls_append counter_calls_swap)

lemma cas_steps_sequential:
  "cas_step\<^sup>*\<^sup>* (start_counter c) s \<Longrightarrow> counter_calls (calls_of (cs_done s)) c = (cs_counter s, results_of (cs_done s))"
proof (induction rule: rtranclp_induct)
  case base
  show ?case by (simp add: start_counter_def calls_of_def results_of_def)
next
  case (step s s')
  then show ?case by (blast intro: cas_step_sequential)
qed

text \<open>A goroutine whose load and swap are undisturbed returns.\<close>

lemma cas_loaded:
  assumes "cs_running s g = Some (call, None)"
  shows "\<exists>s'. cas_step\<^sup>*\<^sup>* s s' \<and> cs_running s' g = None
    \<and> cs_done s' = cs_done s @ [(g, call, cas_result call (met_bits (cs_counter s)))]"
proof -
  let ?old = "met_bits (cs_counter s)"
  let ?s1 = "s\<lparr>cs_running := (cs_running s)(g \<mapsto> (call, Some ?old))\<rparr>"
  have "cas_step s ?s1" using assms by (rule cas_load)
  moreover from cas_swap [of ?s1 g call ?old] have
    "cas_step ?s1 (?s1\<lparr>cs_counter := (cs_counter s)\<lparr>met_bits := cas_newf call ?old\<rparr>, cs_running := (cs_running ?s1)(g := None),
      cs_done := cs_done s @ [(g, call, cas_result call ?old)]\<rparr>)" (is "cas_step _ ?s2") by simp
  ultimately have "cas_step\<^sup>*\<^sup>* s ?s2" by (meson converse_rtranclp_into_rtranclp r_into_rtranclp)
  then show ?thesis by (rule exI [of _ ?s2, OF conjI]) simp
qed

lemma cas_returns:
  assumes "cs_running s g = Some (call, x)"
  shows "\<exists>s'. cas_step\<^sup>*\<^sup>* s s' \<and> cs_running s' g = None
    \<and> cs_done s' = cs_done s @ [(g, call, cas_result call (met_bits (cs_counter s)))]"
proof (cases x)
  case None
  with assms cas_loaded show ?thesis by simp
next
  case (Some old)
  show ?thesis
  proof (cases "met_bits (cs_counter s) = old")
    case True
    with cas_swap [of s g call old] assms Some show ?thesis
      by (intro exI [of _ "s\<lparr>cs_counter := (cs_counter s)\<lparr>met_bits := cas_newf call old\<rparr>,
          cs_running := (cs_running s)(g := None), cs_done := cs_done s @ [(g, call, cas_result call old)]\<rparr>"]) auto
  next
    case False
    let ?s1 = "s\<lparr>cs_running := (cs_running s)(g \<mapsto> (call, None))\<rparr>"
    have "cas_step s ?s1" using cas_retry [of s g call old] assms Some False by simp
    with cas_loaded [of ?s1 g call] show ?thesis by (auto intro: converse_rtranclp_into_rtranclp)
  qed
qed

subsection \<open>Properties\<close>

text \<open>C13: Calls of \<open>Add\<close> and \<open>ValueReset\<close> take effect atomically: however the loads and swaps of any number of goroutines
  interleave, the counter holds and the calls that have returned gave what the same calls give when they are
  made one after the other, in the order of their swaps; and a call that is running can return from every
  state, with the result that the call gives there at once.\<close>

theorem counter_cas_atomic:
  assumes "cas_step\<^sup>*\<^sup>* (start_counter (NewCounter name)) s"
  shows "counter_calls (calls_of (cs_done s)) (NewCounter name) = (cs_counter s, results_of (cs_done s))
    \<and> (\<forall>g call x. cs_running s g = Some (call, x) \<longrightarrow>
         (\<exists>s'. cas_step\<^sup>*\<^sup>* s s' \<and> cs_running s' g = None
            \<and> cs_done s' = cs_done s @ [(g, call, snd (counter_calls [call] (cs_counter s)) ! 0)]))"
  using cas_steps_sequential [OF assms] cas_returns by (simp add: counter_calls_swap)

theorem counter_cas_atomic_witness:
  "\<exists>s. cas_step\<^sup>*\<^sup>* (start_counter (NewCounter ''c'')) s \<and> cs_running s 0 = Some (CallAdd (F64 2), Some (F64 0))
     \<and> cs_done s = [(1, CallAdd (F64 5), None)] \<and> Counter_Value (cs_counter s) = F64 5"
proof -
  let ?c = "NewCounter ''c''"
  let ?s1 = "(start_counter ?c)\<lparr>cs_running := [0 \<mapsto> (CallAdd (F64 2), None)]\<rparr>"
  let ?s2 = "?s1\<lparr>cs_running := [0 \<mapsto> (CallAdd (F64 2), Some (F64 0))]\<rparr>"
  let ?s3 = "?s2\<lparr>cs_running := [0 \<mapsto> (CallAdd (F64 2), Some (F64 0)), 1 \<mapsto> (CallAdd (F64 5), None)]\<rparr>"
  let ?s4 = "?s3\<lparr>cs_running := [0 \<mapsto> (CallAdd (F64 2), Some (F64 0)), 1 \<mapsto> (CallAdd (F64 5), Some (F64 0))]\<rparr>"
  let ?s5 = "?s4\<lparr>cs_counter := ?c\<lparr>met_bits := f64_add (F64 0) (F64 5)\<rparr>, cs_running := [0 \<mapsto> (CallAdd (F64 2), Some (F64 0))],
      cs_done := [(1, CallAdd (F64 5), None)]\<rparr>"
  have "cas_step (start_counter ?c) ?s1"
    using cas_call [of "start_counter ?c" 0 "CallAdd (F64 2)"] by (simp add: start_counter_def)
  moreover have "cas_step ?s1 ?s2"
    using cas_load [of ?s1 0 "CallAdd (F64 2)"] by (simp add: start_counter_def NewCounter_def)
  moreover have "cas_step ?s2 ?s3" using cas_call [of ?s2 1 "CallAdd (F64 5)"] by simp
  moreover have "cas_step ?s3 ?s4" using cas_load [of ?s3 1 "CallAdd (F64 5)"] by (simp add: start_counter_def NewCounter_def)
  moreover have "cas_step ?s4 ?s5"
    using cas_swap [of ?s4 1 "CallAdd (F64 5)" "F64 0"] by (simp add: start_counter_def NewCounter_def fun_upd_twist)
  ultimately have s5: "cas_step\<^sup>*\<^sup>* (start_counter ?c) ?s5" by (meson converse_rtranclp_into_rtranclp r_into_rtranclp)
  from counter_cas_atomic [OF this] have "Counter_Value (cs_counter ?s5) = f64_add (F64 0) (F64 5)"
    by (simp add: calls_of_def Counter_Add_def Counter_Value_def NewCounter_def)
  also have "\<dots> = F64 5" using f64_add_int [of 0 5] by simp
  finally show ?thesis using s5 by (intro exI [of _ ?s5]) simp
qed

datatype counter_op = OpAdd int | OpValueReset

fun counter_run :: "counter_op list \<Rightarrow> metric \<Rightarrow> metric \<times> float64 list" where
  "counter_run [] c = (c, [])"
| "counter_run (OpAdd d # ops) c = counter_run ops (Counter_Add c (F64 (of_int d)))"
| "counter_run (OpValueReset # ops) c =
     (let (c1, v) = Counter_ValueReset c; (c2, vs) = counter_run ops c1 in (c2, v # vs))"

primrec op_delta :: "counter_op \<Rightarrow> int" where
  "op_delta (OpAdd d) = d"
| "op_delta OpValueReset = 0"

definition total_added :: "counter_op list \<Rightarrow> int" where
  "total_added ops = sum_list (map op_delta ops)"

lemma total_added_simps [simp]:
  "total_added [] = 0" "total_added (op # ops) = op_delta op + total_added ops"
  by (simp_all add: total_added_def)

lemma total_added_nonneg: "\<forall>op \<in> set ops. 0 \<le> op_delta op \<Longrightarrow> 0 \<le> total_added ops"
  by (induction ops) auto

lemma counter_run_exact:
  "counter_run ops c = (c', vs) \<Longrightarrow> met_bits c = F64 (of_int m) \<Longrightarrow> 0 \<le> m \<Longrightarrow>
    \<forall>op \<in> set ops. 0 \<le> op_delta op \<Longrightarrow> m + total_added ops < 2 ^ 53 \<Longrightarrow>
    \<exists>ns n. vs = map (\<lambda>n. F64 (of_int n)) ns \<and> met_bits c' = F64 (of_int n) \<and> sum_list ns + n = m + total_added ops"
proof (induction ops c arbitrary: c' vs m rule: counter_run.induct)
  case (1 c)
  then show ?case by (intro exI [of _ "[]"]) simp
next
  case (2 d ops c)
  have d: "0 \<le> d" "0 \<le> total_added ops" using "2.prems"(4) by (auto intro: total_added_nonneg)
  then have "met_bits (Counter_Add c (F64 (of_int d))) = F64 (of_int (m + d))"
    using "2.prems"(2,3,5) by (simp add: Counter_Add_def) (subst f64_add_int, auto)
  from "2.IH" [OF _ this] "2.prems" d show ?case by (simp add: add.assoc)
next
  case (3 ops c)
  obtain c2 ws where w: "counter_run ops (fst (Counter_ValueReset c)) = (c2, ws)" by (rule prod.exhaust)
  have b: "met_bits (fst (Counter_ValueReset c)) = F64 (of_int 0)" by (simp add: Counter_ValueReset_def)
  from "3.IH" [OF refl prod.collapse w b] "3.prems"
  obtain ns n where n: "ws = map (\<lambda>n. F64 (of_int n)) ns" "met_bits c2 = F64 (of_int n)"
    "sum_list ns + n = total_added ops" by auto
  have "c' = c2" "vs = F64 (of_int m) # ws"
    using "3.prems"(1,2) w by (simp_all add: Counter_ValueReset_def)
  with n show ?case by (intro exI [of _ "m # ns"] exI [of _ n]) simp
qed

text \<open>No increment is lost or counted twice: however calls of \<open>Add\<close> with whole numbers and of
  \<open>ValueReset\<close> interleave, what the resets returned plus what is left is exactly the total added,
  as long as totals stay below 2^53.\<close>

theorem counter_resets_exact:
  assumes "counter_run ops (NewCounter name) = (c, vs)"
    and "\<forall>op \<in> set ops. 0 \<le> op_delta op" and "total_added ops < 2 ^ 53"
  shows "\<exists>ns n. vs = map (\<lambda>n. F64 (of_int n)) ns \<and> Counter_Value c = F64 (of_int n)
    \<and> sum_list ns + n = total_added ops"
  using counter_run_exact [OF assms(1), of 0] assms(2,3) by (simp add: NewCounter_def Counter_Value_def)

theorem counter_resets_exact_witness:
  "\<exists>ns n. snd (counter_run [OpAdd 3, OpValueReset, OpAdd 4] (NewCounter ''c'')) = map (\<lambda>n. F64 (of_int n)) ns
     \<and> Counter_Value (fst (counter_run [OpAdd 3, OpValueReset, OpAdd 4] (NewCounter ''c''))) = F64 (of_int n)
     \<and> sum_list ns + n = 7"
  using counter_resets_exact [OF surjective_pairing, of "[OpAdd 3, OpValueReset, OpAdd 4]" "''c''"] by simp

end
