(* ===== verification/Dogstatsd.thy ===== *)
theory Dogstatsd
  imports Line_Writer Generic_Metrics Conn_Manager
begin

text \<open>
  Packages metrics/dogstatsd and metrics/influxstatsd, files dogstatsd.go and influxstatsd.go. The two
  packages are copies of each other but for the format of their lines and the sampling of dogstatsd,
  so the operations they share are defined once, over a record of the formats (\<open>formats\<close>), and
  used with \<open>dogstatsd_formats\<close> and \<open>influxstatsd_formats\<close>.

  Gauges are shared objects: clients hold pointers to them, and the tree of a name keeps one per list of
  label values. They live in a store, \<open>d_heap\<close>; a pointer is an index of it. A counter, timing or
  histogram handle is its name, labels and sample rate. The random number that a sampled observation
  draws is an argument. The panics of \<open>tagValues\<close> and \<open>addGauge\<close> on an odd number of labels cannot
  happen, since \<open>With\<close> and \<open>New\<close> keep the number even (\<open>Space_lookup_even\<close>, \<open>Gauge_With_even\<close>).
\<close>

record gauge =
  g_g :: metric
  g_set :: bool

type_synonym gaugeNode = "nat option tree"

record Dogstatsd =
  d_prefix :: string
  d_rates :: RateMap
  d_counters :: Space
  d_gauges :: "(string \<times> gaugeNode) list"
  d_timings :: Space
  d_histograms :: Space
  d_lvs :: "string list"
  d_heap :: "gauge list"

definition Dogstatsd_New :: "string \<Rightarrow> string list \<Rightarrow> Dogstatsd outcome" where
  "Dogstatsd_New prefix ls =
     (if length ls mod 2 \<noteq> 0 then Panic ''odd number of LabelValues; programmer error!''
      else Ret \<lparr>d_prefix = prefix, d_rates = RateMap_New, d_counters = NewSpace, d_gauges = [],
        d_timings = NewSpace, d_histograms = NewSpace, d_lvs = ls, d_heap = []\<rparr>)"

record dd_handle =
  dh_name :: string
  dh_lvs :: "string list"
  dh_rate :: float64

definition Dogstatsd_NewCounter :: "Dogstatsd \<Rightarrow> string \<Rightarrow> float64 \<Rightarrow> Dogstatsd \<times> dd_handle" where
  "Dogstatsd_NewCounter d name sampleRate =
     (d\<lparr>d_rates := RateMap_Set (d_rates d) name sampleRate\<rparr>,
      \<lparr>dh_name = name, dh_lvs = [], dh_rate = sampleRate\<rparr>)"

definition Dogstatsd_NewTiming :: "Dogstatsd \<Rightarrow> string \<Rightarrow> float64 \<Rightarrow> Dogstatsd \<times> dd_handle" where
  "Dogstatsd_NewTiming d name sampleRate =
     (d\<lparr>d_rates := RateMap_Set (d_rates d) name sampleRate\<rparr>,
      \<lparr>dh_name = name, dh_lvs = [], dh_rate = sampleRate\<rparr>)"

definition Dogstatsd_NewHistogram :: "Dogstatsd \<Rightarrow> string \<Rightarrow> float64 \<Rightarrow> Dogstatsd \<times> dd_handle" where
  "Dogstatsd_NewHistogram d name sampleRate =
     (d\<lparr>d_rates := RateMap_Set (d_rates d) name sampleRate\<rparr>,
      \<lparr>dh_name = name, dh_lvs = [], dh_rate = sampleRate\<rparr>)"

definition Dogstatsd_NewGauge :: "Dogstatsd \<Rightarrow> string \<Rightarrow> Dogstatsd \<times> nat option" where
  "Dogstatsd_NewGauge d name =
     (case map_of (d_gauges d) name of
        Some n \<Rightarrow> (d, content n)
      | None \<Rightarrow>
          (d\<lparr>d_gauges := AList.update name (Node (Some (length (d_heap d))) []) (d_gauges d),
             d_heap := d_heap d @ [\<lparr>g_g = NewGauge name, g_set = False\<rparr>]\<rparr>, Some (length (d_heap d))))"

subsection \<open>Counters, timings and histograms\<close>

definition sampled :: "float64 \<Rightarrow> rat \<Rightarrow> bool" where
  "sampled sampleRate rnd =
     (if f64_le (F64 1) sampleRate then True else \<not> f64_lt sampleRate (F64 rnd))"

definition sampleObservations ::
  "float64 \<Rightarrow> rat \<Rightarrow> Space \<Rightarrow> string \<Rightarrow> string list \<Rightarrow> float64 \<Rightarrow> Space" where
  "sampleObservations sampleRate rnd sp name ls v =
     (if sampled sampleRate rnd then fst (Space_Observe sp name ls v) else sp)"

text \<open>The panic of \<open>Observe\<close>, when it is called.\<close>

definition sampleObservations_outcome ::
  "float64 \<Rightarrow> rat \<Rightarrow> Space \<Rightarrow> string \<Rightarrow> string list \<Rightarrow> float64 \<Rightarrow> unit outcome" where
  "sampleObservations_outcome sampleRate rnd sp name ls v =
     (if sampled sampleRate rnd then snd (Space_Observe sp name ls v) else Ret ())"

definition dd_With :: "dd_handle \<Rightarrow> string list \<Rightarrow> dd_handle" where
  "dd_With h labelValues = h\<lparr>dh_lvs := lv_With (dh_lvs h) labelValues\<rparr>"

definition Dogstatsd_Counter_Add :: "rat \<Rightarrow> dd_handle \<Rightarrow> float64 \<Rightarrow> Dogstatsd \<Rightarrow> Dogstatsd" where
  "Dogstatsd_Counter_Add rnd c delta d =
     d\<lparr>d_counters := sampleObservations (dh_rate c) rnd (d_counters d) (dh_name c) (dh_lvs c) delta\<rparr>"

definition Dogstatsd_Timing_Observe :: "rat \<Rightarrow> dd_handle \<Rightarrow> float64 \<Rightarrow> Dogstatsd \<Rightarrow> Dogstatsd" where
  "Dogstatsd_Timing_Observe rnd t v d =
     d\<lparr>d_timings := sampleObservations (dh_rate t) rnd (d_timings d) (dh_name t) (dh_lvs t) v\<rparr>"

definition Dogstatsd_Histogram_Observe :: "rat \<Rightarrow> dd_handle \<Rightarrow> float64 \<Rightarrow> Dogstatsd \<Rightarrow> Dogstatsd" where
  "Dogstatsd_Histogram_Observe rnd h v d =
     d\<lparr>d_histograms := sampleObservations (dh_rate h) rnd (d_histograms d) (dh_name h) (dh_lvs h) v\<rparr>"

text \<open>In influxstatsd the handles observe without sampling.\<close>

definition Influxstatsd_Counter_Add :: "dd_handle \<Rightarrow> float64 \<Rightarrow> Dogstatsd \<Rightarrow> Dogstatsd" where
  "Influxstatsd_Counter_Add c delta d =
     d\<lparr>d_counters := fst (Space_Observe (d_counters d) (dh_name c) (dh_lvs c) delta)\<rparr>"

definition Influxstatsd_Timing_Observe :: "dd_handle \<Rightarrow> float64 \<Rightarrow> Dogstatsd \<Rightarrow> Dogstatsd" where
  "Influxstatsd_Timing_Observe t v d =
     d\<lparr>d_timings := fst (Space_Observe (d_timings d) (dh_name t) (dh_lvs t) v)\<rparr>"

definition Influxstatsd_Histogram_Observe :: "dd_handle \<Rightarrow> float64 \<Rightarrow> Dogstatsd \<Rightarrow> Dogstatsd" where
  "Influxstatsd_Histogram_Observe h v d =
     d\<lparr>d_histograms := fst (Space_Observe (d_histograms d) (dh_name h) (dh_lvs h) v)\<rparr>"

subsection \<open>Gauges\<close>

definition addGauge :: "gaugeNode \<Rightarrow> nat \<Rightarrow> string list \<Rightarrow> gaugeNode \<times> nat outcome" where
  "addGauge n g ls =
     tree_update None (\<lambda>gauge. case gauge of None \<Rightarrow> (Some g, g) | Some a \<Rightarrow> (gauge, a)) n ls"

text \<open>
  \<open>With\<close> builds a gauge and offers it to the tree of its name, which returns the one it already has for
  these label values, if any. A missing tree would be a nil pointer; \<open>NewGauge\<close> always makes one.
\<close>

definition Dogstatsd_Gauge_With :: "Dogstatsd \<Rightarrow> nat \<Rightarrow> string list \<Rightarrow> Dogstatsd \<times> nat outcome" where
  "Dogstatsd_Gauge_With d a labelValues =
     (let g = g_g (d_heap d ! a);
          ga = \<lparr>g_g = Gauge_With g labelValues, g_set = False\<rparr>;
          d1 = d\<lparr>d_heap := d_heap d @ [ga]\<rparr>
      in case map_of (d_gauges d) (met_Name g) of
           None \<Rightarrow> (d1, Panic ''nil pointer dereference'')
         | Some node \<Rightarrow>
             (let (node1, r) = addGauge node (length (d_heap d)) (Gauge_LabelValues (g_g ga))
              in (d1\<lparr>d_gauges := AList.update (met_Name g) node1 (d_gauges d)\<rparr>, r)))"

definition touch :: "gauge \<Rightarrow> gauge" where
  "touch g = g\<lparr>g_set := True\<rparr>"

definition Dogstatsd_Gauge_Set :: "nat \<Rightarrow> float64 \<Rightarrow> Dogstatsd \<Rightarrow> Dogstatsd" where
  "Dogstatsd_Gauge_Set a v d =
     d\<lparr>d_heap := (d_heap d)[a := touch ((d_heap d ! a)\<lparr>g_g := Gauge_Set (g_g (d_heap d ! a)) v\<rparr>)]\<rparr>"

definition Dogstatsd_Gauge_Add :: "nat \<Rightarrow> float64 \<Rightarrow> Dogstatsd \<Rightarrow> Dogstatsd" where
  "Dogstatsd_Gauge_Add a delta d =
     d\<lparr>d_heap := (d_heap d)[a := touch ((d_heap d ! a)\<lparr>g_g := Gauge_Add (g_g (d_heap d ! a)) delta\<rparr>)]\<rparr>"

definition gauge_read :: "gauge \<Rightarrow> gauge \<times> float64 \<times> bool" where
  "gauge_read g = (g\<lparr>g_set := False\<rparr>, Gauge_Value (g_g g), g_set g)"

type_synonym 's gauge_fn = "string \<Rightarrow> string list \<Rightarrow> float64 \<Rightarrow> 's \<Rightarrow> 's \<times> bool"

definition visit_gauge :: "'s gauge_fn \<Rightarrow> nat \<Rightarrow> gauge list \<times> 's \<Rightarrow> (gauge list \<times> 's) \<times> bool" where
  "visit_gauge fn a hs =
     (case hs of (h, s) \<Rightarrow>
        let (g1, v, ok) = gauge_read (h ! a); h1 = h[a := g1] in
        if ok then
          (let (s1, go) = fn (met_Name (g_g (h ! a))) (Gauge_LabelValues (g_g (h ! a))) v s
           in ((h1, s1), go))
        else ((h1, s), True))"

definition gaugeNode_walk :: "label_order \<Rightarrow> 's gauge_fn \<Rightarrow> gaugeNode \<Rightarrow> gauge list \<times> 's \<Rightarrow> (gauge list \<times> 's) \<times> bool" where
  "gaugeNode_walk it fn n hs =
     tree_walk it (\<lambda>_ gauge hs. case gauge of None \<Rightarrow> (hs, True) | Some a \<Rightarrow> visit_gauge fn a hs) n [] hs"

subsection \<open>Lines\<close>

fun label_pairs :: "string \<Rightarrow> string list \<Rightarrow> string list" where
  "label_pairs sep (l # v # rest) = (l @ sep @ v) # label_pairs sep rest"
| "label_pairs sep [l] = []"
| "label_pairs sep [] = []"

definition tagValues :: "string \<Rightarrow> string \<Rightarrow> string list \<Rightarrow> string list \<Rightarrow> string" where
  "tagValues start sep dls ls =
     (if length ls = 0 \<and> length dls = 0 then []
      else start @ strings_Join (label_pairs sep dls @ label_pairs sep ls) '','')"

definition Dogstatsd_tagValues :: "Dogstatsd \<Rightarrow> string list \<Rightarrow> string" where
  "Dogstatsd_tagValues d ls = tagValues ''|#'' '':'' (d_lvs d) ls"

definition Influxstatsd_tagValues :: "Dogstatsd \<Rightarrow> string list \<Rightarrow> string" where
  "Influxstatsd_tagValues d ls = tagValues '','' ''='' (d_lvs d) ls"

record formats =
  counter_line :: "Dogstatsd \<Rightarrow> string \<Rightarrow> string list \<Rightarrow> float64 list \<Rightarrow> string"
  gauge_line :: "Dogstatsd \<Rightarrow> string \<Rightarrow> string list \<Rightarrow> float64 \<Rightarrow> string"
  value_line :: "string \<Rightarrow> Dogstatsd \<Rightarrow> string \<Rightarrow> string list \<Rightarrow> float64 \<Rightarrow> float64 \<Rightarrow> string"

definition dogstatsd_formats :: formats where
  "dogstatsd_formats = \<lparr>
     counter_line = \<lambda>d name ls vs. d_prefix d @ name @ '':'' @ fmt_f (sum vs) @ ''|c''
       @ sampling (RateMap_Get (d_rates d) name) @ Dogstatsd_tagValues d ls @ newline,
     gauge_line = \<lambda>d name ls v. d_prefix d @ name @ '':'' @ fmt_f v @ ''|g''
       @ Dogstatsd_tagValues d ls @ newline,
     value_line = \<lambda>kind d name ls sampleRate v. d_prefix d @ name @ '':'' @ fmt_f v @ ''|'' @ kind
       @ sampling sampleRate @ Dogstatsd_tagValues d ls @ newline\<rparr>"

definition influxstatsd_formats :: formats where
  "influxstatsd_formats = \<lparr>
     counter_line = \<lambda>d name ls vs. d_prefix d @ name @ Influxstatsd_tagValues d ls @ '':''
       @ fmt_f (sum vs) @ ''|c'' @ sampling (RateMap_Get (d_rates d) name) @ newline,
     gauge_line = \<lambda>d name ls v. d_prefix d @ name @ Influxstatsd_tagValues d ls @ '':''
       @ fmt_f v @ ''|g'' @ newline,
     value_line = \<lambda>kind d name ls sampleRate v. d_prefix d @ name @ Influxstatsd_tagValues d ls @ '':''
       @ fmt_f v @ ''|'' @ kind @ sampling sampleRate @ newline\<rparr>"

subsection \<open>Flushing\<close>

text \<open>The loop over the gauge trees: the result of a walk is ignored.\<close>

fun walk_gauges :: "label_order \<Rightarrow> 's gauge_fn \<Rightarrow> (string \<times> gaugeNode) list \<Rightarrow> string list
    \<Rightarrow> gauge list \<times> 's \<Rightarrow> gauge list \<times> 's" where
  "walk_gauges it fn gs [] hs = hs"
| "walk_gauges it fn gs (name # names) hs =
     (case map_of gs name of
        None \<Rightarrow> walk_gauges it fn gs names hs
      | Some node \<Rightarrow> walk_gauges it fn gs names (fst (gaugeNode_walk it fn node hs)))"

definition write_values :: "formats \<Rightarrow> string \<Rightarrow> 'w writer \<Rightarrow> Dogstatsd \<Rightarrow> string \<Rightarrow> string list
    \<Rightarrow> float64 list \<Rightarrow> 'w writing \<Rightarrow> 'w writing \<times> bool" where
  "write_values F kind wr d name ls vs st =
     (let sampleRate = RateMap_Get (d_rates d) name in
      until (\<lambda>v st. write_line wr (value_line F kind d name ls sampleRate v) st) vs st)"

definition Tagged_WriteTo :: "formats \<Rightarrow> name_order \<Rightarrow> label_order \<Rightarrow> 'w writer \<Rightarrow> Dogstatsd \<Rightarrow> 'w
    \<Rightarrow> Dogstatsd \<times> 'w writing" where
  "Tagged_WriteTo F nit it wr d w =
     (let (c1, oldc) = Space_Reset (d_counters d); d1 = d\<lparr>d_counters := c1\<rparr>;
          st1 = Space_Walk nit it (\<lambda>name ls vs st. write_line wr (counter_line F d name ls vs) st)
                  oldc (writing_start w)
      in if ws_err st1 \<noteq> None then (d1, st1)
      else
        let (h2, st2) = walk_gauges it (\<lambda>name ls v st. write_line wr (gauge_line F d name ls v) st)
                          (d_gauges d1) (nit (map fst (d_gauges d1))) (d_heap d1, st1);
            d2 = d1\<lparr>d_heap := h2\<rparr>;
            (t1, oldt) = Space_Reset (d_timings d2); d3 = d2\<lparr>d_timings := t1\<rparr>;
            st3 = Space_Walk nit it (write_values F ''ms'' wr d) oldt st2
        in if ws_err st3 \<noteq> None then (d3, st3)
        else
          let (g1, oldh) = Space_Reset (d_histograms d3); d4 = d3\<lparr>d_histograms := g1\<rparr>;
              st4 = Space_Walk nit it (write_values F ''h'' wr d) oldh st3
          in (d4, st4))"

definition Dogstatsd_WriteTo ::
  "name_order \<Rightarrow> label_order \<Rightarrow> 'w writer \<Rightarrow> Dogstatsd \<Rightarrow> 'w \<Rightarrow> Dogstatsd \<times> 'w writing" where
  "Dogstatsd_WriteTo = Tagged_WriteTo dogstatsd_formats"

definition Influxstatsd_WriteTo ::
  "name_order \<Rightarrow> label_order \<Rightarrow> 'w writer \<Rightarrow> Dogstatsd \<Rightarrow> 'w \<Rightarrow> Dogstatsd \<times> 'w writing" where
  "Influxstatsd_WriteTo = Tagged_WriteTo influxstatsd_formats"

text \<open>\<open>WriteLoop\<close>: one \<open>WriteTo\<close> per tick until the context is done; errors are only logged.\<close>

fun Tagged_WriteLoop :: "formats \<Rightarrow> name_order \<Rightarrow> label_order \<Rightarrow> 'w writer \<Rightarrow> nat \<Rightarrow> Dogstatsd \<Rightarrow> 'w \<Rightarrow> Dogstatsd \<times> 'w" where
  "Tagged_WriteLoop F nit it wr 0 d w = (d, w)"
| "Tagged_WriteLoop F nit it wr (Suc ticks) d w =
     (let (d1, st) = Tagged_WriteTo F nit it wr d w in Tagged_WriteLoop F nit it wr ticks d1 (ws_w st))"

definition Dogstatsd_WriteLoop ::
  "name_order \<Rightarrow> label_order \<Rightarrow> 'w writer \<Rightarrow> nat \<Rightarrow> Dogstatsd \<Rightarrow> 'w \<Rightarrow> Dogstatsd \<times> 'w" where
  "Dogstatsd_WriteLoop = Tagged_WriteLoop dogstatsd_formats"

text \<open>
  \<open>SendLoop\<close> writes through a connection manager: a \<open>Write\<close> of the manager is the writer, and the
  state that the loop threads is the manager.
\<close>

definition Dogstatsd_SendLoop :: "name_order \<Rightarrow> label_order \<Rightarrow> ('c \<Rightarrow> string \<Rightarrow> int \<times> string option)
    \<Rightarrow> ('c manager \<Rightarrow> 'c manager) \<Rightarrow> nat \<Rightarrow> Dogstatsd \<Rightarrow> 'c option \<times> string option
    \<Rightarrow> Dogstatsd \<times> 'c manager" where
  "Dogstatsd_SendLoop nit it net_write mid ticks d dialed =
     Dogstatsd_WriteLoop nit it (Manager_Write net_write mid) ticks d (loop_start dialed)"

subsection \<open>The operations of influxstatsd that are copies\<close>

definition Influxstatsd_New :: "string \<Rightarrow> string list \<Rightarrow> Dogstatsd outcome" where
  "Influxstatsd_New = Dogstatsd_New"

definition Influxstatsd_NewCounter :: "Dogstatsd \<Rightarrow> string \<Rightarrow> float64 \<Rightarrow> Dogstatsd \<times> dd_handle" where
  "Influxstatsd_NewCounter = Dogstatsd_NewCounter"

definition Influxstatsd_NewTiming :: "Dogstatsd \<Rightarrow> string \<Rightarrow> float64 \<Rightarrow> Dogstatsd \<times> dd_handle" where
  "Influxstatsd_NewTiming = Dogstatsd_NewTiming"

definition Influxstatsd_NewHistogram :: "Dogstatsd \<Rightarrow> string \<Rightarrow> float64 \<Rightarrow> Dogstatsd \<times> dd_handle" where
  "Influxstatsd_NewHistogram = Dogstatsd_NewHistogram"

definition Influxstatsd_NewGauge :: "Dogstatsd \<Rightarrow> string \<Rightarrow> Dogstatsd \<times> nat option" where
  "Influxstatsd_NewGauge = Dogstatsd_NewGauge"

definition Influxstatsd_With :: "dd_handle \<Rightarrow> string list \<Rightarrow> dd_handle" where
  "Influxstatsd_With = dd_With"

definition Influxstatsd_addGauge :: "gaugeNode \<Rightarrow> nat \<Rightarrow> string list \<Rightarrow> gaugeNode \<times> nat outcome" where
  "Influxstatsd_addGauge = addGauge"

definition Influxstatsd_Gauge_With :: "Dogstatsd \<Rightarrow> nat \<Rightarrow> string list \<Rightarrow> Dogstatsd \<times> nat outcome" where
  "Influxstatsd_Gauge_With = Dogstatsd_Gauge_With"

definition Influxstatsd_Gauge_Set :: "nat \<Rightarrow> float64 \<Rightarrow> Dogstatsd \<Rightarrow> Dogstatsd" where
  "Influxstatsd_Gauge_Set = Dogstatsd_Gauge_Set"

definition Influxstatsd_Gauge_Add :: "nat \<Rightarrow> float64 \<Rightarrow> Dogstatsd \<Rightarrow> Dogstatsd" where
  "Influxstatsd_Gauge_Add = Dogstatsd_Gauge_Add"

definition Influxstatsd_gaugeNode_walk ::
  "label_order \<Rightarrow> 's gauge_fn \<Rightarrow> gaugeNode \<Rightarrow> gauge list \<times> 's \<Rightarrow> (gauge list \<times> 's) \<times> bool" where
  "Influxstatsd_gaugeNode_walk = gaugeNode_walk"

definition Influxstatsd_WriteLoop ::
  "name_order \<Rightarrow> label_order \<Rightarrow> 'w writer \<Rightarrow> nat \<Rightarrow> Dogstatsd \<Rightarrow> 'w \<Rightarrow> Dogstatsd \<times> 'w" where
  "Influxstatsd_WriteLoop = Tagged_WriteLoop influxstatsd_formats"

definition Influxstatsd_SendLoop :: "name_order \<Rightarrow> label_order \<Rightarrow> ('c \<Rightarrow> string \<Rightarrow> int \<times> string option)
    \<Rightarrow> ('c manager \<Rightarrow> 'c manager) \<Rightarrow> nat \<Rightarrow> Dogstatsd \<Rightarrow> 'c option \<times> string option
    \<Rightarrow> Dogstatsd \<times> 'c manager" where
  "Influxstatsd_SendLoop nit it net_write mid ticks d dialed =
     Influxstatsd_WriteLoop nit it (Manager_Write net_write mid) ticks d (loop_start dialed)"

subsection \<open>The invariant of the gauge trees\<close>

text \<open>
  The gauge that the tree of a name keeps for some label values is a gauge of that name with those label
  values. So different places hold different gauges.
\<close>

definition gauges_ok :: "(string \<times> gaugeNode) list \<Rightarrow> gauge list \<Rightarrow> bool" where
  "gauges_ok gs h \<longleftrightarrow> distinct (map fst gs) \<and>
     (\<forall>(name, n) \<in> set gs. wf_tree n \<and> (\<exists>a. content n = Some a) \<and>
       (\<forall>ls a. tree_lookup None n ls = Some a \<longrightarrow>
          a < length h \<and> met_Name (g_g (h ! a)) = name \<and> met_lvs (g_g (h ! a)) = ls))"

definition dd_inv :: "Dogstatsd \<Rightarrow> bool" where
  "dd_inv d \<longleftrightarrow> gauges_ok (d_gauges d) (d_heap d) \<and> even (length (d_lvs d)) \<and>
     wf_space (d_counters d) \<and> wf_space (d_timings d) \<and> wf_space (d_histograms d)"

lemma content_lookup: "content n = tree_lookup e n []"
  by (cases n) simp

lemma gauges_okD:
  assumes "gauges_ok gs h" and "map_of gs name = Some n"
  shows "wf_tree n" and "tree_lookup None n ls = Some a \<Longrightarrow>
    a < length h \<and> met_Name (g_g (h ! a)) = name \<and> met_lvs (g_g (h ! a)) = ls"
    and "\<exists>a. content n = Some a"
  using assms(1) map_of_SomeD [OF assms(2)] by (auto simp: gauges_ok_def)

lemma gauges_ok_heap:
  assumes "gauges_ok gs h" and "length h \<le> length h'"
    and "\<And>a. a < length h \<Longrightarrow> met_Name (g_g (h' ! a)) = met_Name (g_g (h ! a))
      \<and> met_lvs (g_g (h' ! a)) = met_lvs (g_g (h ! a))"
  shows "gauges_ok gs h'"
  using assms by (fastforce simp: gauges_ok_def)

lemma gauges_ok_update:
  assumes "gauges_ok gs h" and "wf_tree n" and "\<exists>a. content n = Some a"
    and "\<And>ls a. tree_lookup None n ls = Some a \<Longrightarrow>
      a < length h \<and> met_Name (g_g (h ! a)) = name \<and> met_lvs (g_g (h ! a)) = ls"
  shows "gauges_ok (AList.update name n gs) h"
  unfolding gauges_ok_def
proof (intro conjI ballI)
  show "distinct (map fst (AList.update name n gs))" using assms(1) by (simp add: gauges_ok_def)
  fix x assume "x \<in> set (AList.update name n gs)"
  then consider "x = (name, n)" | "x \<in> set gs" using set_update_subset [of name n gs] by blast
  then show "case x of (name, n) \<Rightarrow> wf_tree n \<and> (\<exists>a. content n = Some a) \<and>
      (\<forall>ls a. tree_lookup None n ls = Some a \<longrightarrow>
        a < length h \<and> met_Name (g_g (h ! a)) = name \<and> met_lvs (g_g (h ! a)) = ls)"
  proof cases
    case 1
    then show ?thesis using assms(2-4) by simp
  next
    case 2
    then show ?thesis using assms(1) by (simp add: gauges_ok_def)
  qed
qed

lemma Dogstatsd_New_inv: "Dogstatsd_New prefix ls = Ret d \<Longrightarrow> dd_inv d"
  by (auto simp: Dogstatsd_New_def dd_inv_def gauges_ok_def split: if_splits)

lemma Dogstatsd_NewGauge_inv:
  assumes "dd_inv d" and "Dogstatsd_NewGauge d name = (d', p)"
  shows "dd_inv d' \<and> (\<exists>a n. p = Some a \<and> map_of (d_gauges d') name = Some n \<and> tree_lookup None n [] = Some a)"
proof (cases "map_of (d_gauges d) name")
  case (Some n)
  with assms gauges_okD(3) [of "d_gauges d" "d_heap d" name n] show ?thesis
    by (auto simp: Dogstatsd_NewGauge_def dd_inv_def content_lookup [of _ None])
next
  case None
  let ?g = "\<lparr>g_g = NewGauge name, g_set = False\<rparr>" and ?n = "Node (Some (length (d_heap d))) [] :: gaugeNode"
  have ok: "gauges_ok (d_gauges d) (d_heap d @ [?g])"
  proof -
    have "gauges_ok (d_gauges d) (d_heap d)" using assms(1) by (simp add: dd_inv_def)
    then show ?thesis by (rule gauges_ok_heap) (simp_all add: nth_append)
  qed
  have n: "a = length (d_heap d) \<and> ls = []" if "tree_lookup None ?n ls = Some a" for ls a
    using that by (cases "(None :: nat option, ?n, ls)" rule: tree_lookup.cases) auto
  have "gauges_ok (AList.update name ?n (d_gauges d)) (d_heap d @ [?g])"
  proof (rule gauges_ok_update [OF ok])
    fix ls a assume "tree_lookup None ?n ls = Some a"
    with n have "a = length (d_heap d)" "ls = []" by blast+
    then show "a < length (d_heap d @ [?g]) \<and> met_Name (g_g ((d_heap d @ [?g]) ! a)) = name
        \<and> met_lvs (g_g ((d_heap d @ [?g]) ! a)) = ls"
      by (simp add: NewGauge_def)
  qed simp_all
  with assms None show ?thesis by (auto simp: Dogstatsd_NewGauge_def dd_inv_def)
qed

lemma addGauge_props:
  "even (length ls) \<Longrightarrow> addGauge n g ls = (n1, r) \<Longrightarrow>
     (\<forall>ls'. tree_lookup None n1 ls' = (if ls' = ls \<and> tree_lookup None n ls = None then Some g
        else tree_lookup None n ls')) \<and> r = Ret (case tree_lookup None n ls of None \<Rightarrow> g | Some a \<Rightarrow> a)"
  "wf_tree n \<Longrightarrow> wf_tree (fst (addGauge n g ls))"
proof -
  assume e: "even (length ls)" and a: "addGauge n g ls = (n1, r)"
  let ?f = "\<lambda>gauge. case gauge of None \<Rightarrow> (Some g, g) | Some a \<Rightarrow> (gauge, a)"
  have n: "n1 = fst (tree_update None ?f n ls)" "r = snd (tree_update None ?f n ls)"
    using a by (simp_all add: addGauge_def)
  show "(\<forall>ls'. tree_lookup None n1 ls' = (if ls' = ls \<and> tree_lookup None n ls = None then Some g
        else tree_lookup None n ls')) \<and> r = Ret (case tree_lookup None n ls of None \<Rightarrow> g | Some a \<Rightarrow> a)"
    unfolding n tree_lookup_update tree_update_outcome using e by (auto split: option.splits)
qed (simp add: addGauge_def tree_update_wf)

text \<open>A handle of a gauge: it is in the tree of its name, under its label values.\<close>

definition gauge_handle :: "Dogstatsd \<Rightarrow> nat \<Rightarrow> bool" where
  "gauge_handle d a \<longleftrightarrow> a < length (d_heap d) \<and> (\<exists>n. map_of (d_gauges d) (met_Name (g_g (d_heap d ! a))) = Some n
     \<and> tree_lookup None n (met_lvs (g_g (d_heap d ! a))) = Some a)"

lemma gauge_handle_even: "gauge_handle d a \<Longrightarrow> even (length (met_lvs (g_g (d_heap d ! a))))"
  using tree_lookup_odd [of "met_lvs (g_g (d_heap d ! a))" None]
  by (metis gauge_handle_def option.distinct(1))

lemma Dogstatsd_NewGauge_handle:
  assumes "dd_inv d" and "Dogstatsd_NewGauge d name = (d', Some a)"
  shows "gauge_handle d' a \<and> met_Name (g_g (d_heap d' ! a)) = name \<and> met_lvs (g_g (d_heap d' ! a)) = []"
proof -
  from Dogstatsd_NewGauge_inv [OF assms] obtain n where "dd_inv d'"
    "map_of (d_gauges d') name = Some n" "tree_lookup None n [] = Some a" by auto
  with gauges_okD(2) [of "d_gauges d'" "d_heap d'" name n "[]" a] show ?thesis
    by (auto simp: gauge_handle_def dd_inv_def)
qed

text \<open>\<open>With\<close>: the gauge of the tree under the new label values, made if it is not there yet.\<close>

lemma Dogstatsd_Gauge_With_props:
  assumes "dd_inv d" and "gauge_handle d a" and "Dogstatsd_Gauge_With d a ls = (d', r)"
  shows "\<exists>b. r = Ret b \<and> dd_inv d' \<and> gauge_handle d' b
    \<and> met_Name (g_g (d_heap d' ! b)) = met_Name (g_g (d_heap d ! a))
    \<and> met_lvs (g_g (d_heap d' ! b)) = lv_With (met_lvs (g_g (d_heap d ! a))) ls
    \<and> (\<forall>c. gauge_handle d c \<longrightarrow> gauge_handle d' c \<and> d_heap d' ! c = d_heap d ! c)"
proof -
  let ?g = "g_g (d_heap d ! a)" and ?h = "d_heap d"
  let ?name = "met_Name ?g" and ?full = "lv_With (met_lvs ?g) ls"
  let ?ga = "\<lparr>g_g = Gauge_With ?g ls, g_set = False\<rparr>"
  from assms(2) obtain n where n: "map_of (d_gauges d) ?name = Some n"
    by (auto simp: gauge_handle_def)
  obtain n1 r1 where add: "addGauge n (length ?h) ?full = (n1, r1)" by (rule prod.exhaust)
  have ev: "even (length ?full)" using gauge_handle_even [OF assms(2)] by simp
  have eq: "d' = d\<lparr>d_heap := ?h @ [?ga], d_gauges := AList.update ?name n1 (d_gauges d)\<rparr>" "r = r1"
    using assms(3) n add by (auto simp: Dogstatsd_Gauge_With_def Gauge_LabelValues_def Gauge_With_def Let_def)
  from addGauge_props(1) [OF ev add]
  have lk: "\<And>ls'. tree_lookup None n1 ls' = (if ls' = ?full \<and> tree_lookup None n ?full = None then Some (length ?h)
      else tree_lookup None n ls')"
    and r1: "r1 = Ret (case tree_lookup None n ?full of None \<Rightarrow> length ?h | Some a \<Rightarrow> a)" by auto
  have ok: "gauges_ok (d_gauges d) ?h" using assms(1) by (simp add: dd_inv_def)
  have ok1: "gauges_ok (d_gauges d) (?h @ [?ga])"
    by (rule gauges_ok_heap [OF ok]) (auto simp: nth_append)
  have at: "b < length (?h @ [?ga]) \<and> met_Name (g_g ((?h @ [?ga]) ! b)) = ?name \<and> met_lvs (g_g ((?h @ [?ga]) ! b)) = ls'"
    if "tree_lookup None n1 ls' = Some b" for ls' b
    using that gauges_okD(2) [OF ok1 n, of ls' b] by (auto simp: lk Gauge_With_def split: if_splits)
  have wf: "wf_tree n1" using addGauge_props(2) [OF gauges_okD(1) [OF ok n]] add by (metis fst_conv)
  have root: "\<exists>a. content n1 = Some a"
    using gauges_okD(3) [OF ok n] by (auto simp: content_lookup [of _ None] lk)
  have inv: "dd_inv d'"
    using assms(1) gauges_ok_update [OF ok1 wf root at] by (simp add: dd_inv_def eq)
  obtain b where b: "r = Ret b" "tree_lookup None n1 ?full = Some b"
    using r1 lk [of ?full] by (auto simp: eq split: option.splits)
  have hb: "gauge_handle d' b \<and> met_Name (g_g (d_heap d' ! b)) = ?name \<and> met_lvs (g_g (d_heap d' ! b)) = ?full"
    using at [OF b(2)] b(2) by (simp add: gauge_handle_def eq)
  have keep: "gauge_handle d' c \<and> d_heap d' ! c = d_heap d ! c" if c: "gauge_handle d c" for c
  proof -
    from c obtain m where m: "c < length ?h" "map_of (d_gauges d) (met_Name (g_g (?h ! c))) = Some m"
      "tree_lookup None m (met_lvs (g_g (?h ! c))) = Some c" by (auto simp: gauge_handle_def)
    then show ?thesis using n lk by (auto simp: gauge_handle_def eq nth_append)
  qed
  from b inv hb keep show ?thesis by blast
qed

subsection \<open>What a flush writes\<close>

definition tree_gauges :: "label_order \<Rightarrow> gaugeNode \<Rightarrow> nat list" where
  "tree_gauges it n = List.map_filter snd (tree_entries it n [])"

definition all_gauges :: "name_order \<Rightarrow> label_order \<Rightarrow> Dogstatsd \<Rightarrow> nat list" where
  "all_gauges nit it d = concat (map (\<lambda>name. case map_of (d_gauges d) name of None \<Rightarrow> []
     | Some n \<Rightarrow> tree_gauges it n) (nit (map fst (d_gauges d))))"

definition gauge_text :: "formats \<Rightarrow> Dogstatsd \<Rightarrow> gauge \<Rightarrow> string" where
  "gauge_text F d g = gauge_line F d (met_Name (g_g g)) (met_lvs (g_g g)) (met_bits (g_g g))"

definition gauge_lines :: "formats \<Rightarrow> Dogstatsd \<Rightarrow> gauge list \<Rightarrow> nat list \<Rightarrow> string list" where
  "gauge_lines F d h as = map (\<lambda>a. gauge_text F d (h ! a)) (filter (\<lambda>a. g_set (h ! a)) as)"

lemma gaugeNode_walk_until:
  "gaugeNode_walk it fn n hs = until (visit_gauge fn) (tree_gauges it n) hs"
proof -
  have "until (\<lambda>(l, x) hs. case x of None \<Rightarrow> (hs, True) | Some a \<Rightarrow> f a hs) xs hs
      = until f (List.map_filter snd xs) hs" for f :: "nat \<Rightarrow> gauge list \<times> 'a \<Rightarrow> (gauge list \<times> 'a) \<times> bool"
    and xs :: "(string list \<times> nat option) list"
    by (induction xs arbitrary: hs) (auto simp: List.map_filter_def split: option.splits prod.splits)
  then show ?thesis by (simp add: gaugeNode_walk_def tree_walk_until tree_gauges_def)
qed

lemma visit_gauge_limited:
  assumes "live st"
  shows "visit_gauge (\<lambda>name ls v st. write_line limited (gauge_line F d name ls v) st) a (h, st)
    = ((h[a := (h ! a)\<lparr>g_set := False\<rparr>], wrote (gauge_lines F d h [a]) st),
       \<not> g_set (h ! a) \<or> ws_err (wrote (gauge_lines F d h [a]) st) = None)"
  using live_write_line [OF assms]
  by (simp add: visit_gauge_def gauge_read_def gauge_lines_def gauge_text_def Gauge_Value_def Gauge_LabelValues_def)

lemma gauge_lines_simps [simp]:
  "gauge_lines F d h [] = []" "gauge_lines F d h (as @ bs) = gauge_lines F d h as @ gauge_lines F d h bs"
  by (simp_all add: gauge_lines_def)

lemma gauge_lines_cong: "(\<And>a. a \<in> set as \<Longrightarrow> h' ! a = h ! a) \<Longrightarrow> gauge_lines F d h' as = gauge_lines F d h as"
  unfolding gauge_lines_def by (induction as) auto

text \<open>What a walk over some gauges does to the store: only these change, and if all was written they are
  all marked as read.\<close>

definition swept :: "gauge list \<Rightarrow> nat list \<Rightarrow> bool \<Rightarrow> gauge list \<Rightarrow> bool" where
  "swept h as ok h' \<longleftrightarrow> length h' = length h \<and> (\<forall>b. b \<notin> set as \<longrightarrow> h' ! b = h ! b) \<and>
     (ok \<longrightarrow> (\<forall>a \<in> set as. h' ! a = (h ! a)\<lparr>g_set := False\<rparr>))"

lemma until_visit_gauges:
  assumes "live st" and "distinct as" and "\<forall>a \<in> set as. a < length h"
  shows "\<exists>h'. fst (until (visit_gauge (\<lambda>name ls v st. write_line limited (gauge_line F d name ls v) st)) as (h, st))
      = (h', wrote (gauge_lines F d h as) st) \<and> swept h as (ws_err (wrote (gauge_lines F d h as) st) = None) h'"
  using assms
proof (induction as arbitrary: h st)
  case (Cons a as)
  let ?h1 = "h[a := (h ! a)\<lparr>g_set := False\<rparr>]" and ?st1 = "wrote (gauge_lines F d h [a]) st"
  note v = visit_gauge_limited [OF Cons.prems(1), of F d a h]
  have l: "live ?st1" using Cons.prems(1) by simp
  have rest: "gauge_lines F d ?h1 as = gauge_lines F d h as"
    using Cons.prems(2) by (intro gauge_lines_cong) (metis distinct.simps(2) nth_list_update_neq)
  have all: "gauge_lines F d h (a # as) = gauge_lines F d h [a] @ gauge_lines F d h as"
    by (simp add: gauge_lines_def)
  have w: "wrote (gauge_lines F d h (a # as)) st = wrote (gauge_lines F d h as) ?st1"
    unfolding all by (rule live_wrote_append [OF Cons.prems(1), symmetric])
  show ?case
  proof (cases "\<not> g_set (h ! a) \<or> ws_err ?st1 = None")
    case True
    from Cons.IH [OF l, of ?h1] Cons.prems(2,3) rest obtain h' where
      "fst (until (visit_gauge (\<lambda>name ls v st. write_line limited (gauge_line F d name ls v) st)) as (?h1, ?st1))
        = (h', wrote (gauge_lines F d h as) ?st1)"
      "swept ?h1 as (ws_err (wrote (gauge_lines F d h as) ?st1) = None) h'" by auto
    with True v w Cons.prems(2,3) show ?thesis
      by (intro exI [of _ h']) (auto simp: swept_def nth_list_update)
  next
    case False
    with v w live_wrote_stop [OF l, of "gauge_lines F d h as"] Cons.prems(3) show ?thesis
      by (intro exI [of _ ?h1]) (auto simp: swept_def)
  qed
qed (simp add: swept_def)

lemma walk_gauges_limited:
  assumes "live st" and "as = concat (map (\<lambda>name. case map_of gs name of None \<Rightarrow> []
      | Some n \<Rightarrow> tree_gauges it n) names)"
    and "distinct as" and "\<forall>a \<in> set as. a < length h"
  shows "\<exists>h'. walk_gauges it (\<lambda>name ls v st. write_line limited (gauge_line F d name ls v) st) gs names (h, st)
      = (h', wrote (gauge_lines F d h as) st) \<and> swept h as (ws_err (wrote (gauge_lines F d h as) st) = None) h'"
  using assms
proof (induction names arbitrary: h st as)
  case (Cons name names)
  let ?fn = "\<lambda>name ls v st. write_line limited (gauge_line F d name ls v) st"
  define rest where "rest = concat (map (\<lambda>name. case map_of gs name of None \<Rightarrow> []
      | Some n \<Rightarrow> tree_gauges it n) names)"
  show ?case
  proof (cases "map_of gs name")
    case None
    with Cons.prems(2) have "as = rest" by (simp add: rest_def)
    from Cons.IH [OF Cons.prems(1) rest_def] Cons.prems(3,4) None show ?thesis by (simp add: \<open>as = rest\<close>)
  next
    case (Some n)
    let ?as = "tree_gauges it n"
    have as: "as = ?as @ rest" using Cons.prems(2) Some by (simp add: rest_def)
    from until_visit_gauges [OF Cons.prems(1), of ?as h F d] Cons.prems(3,4) obtain h1 where
      h1: "fst (gaugeNode_walk it ?fn n (h, st)) = (h1, wrote (gauge_lines F d h ?as) st)"
      "swept h ?as (ws_err (wrote (gauge_lines F d h ?as) st) = None) h1"
      by (auto simp: as gaugeNode_walk_until)
    have l: "live (wrote (gauge_lines F d h ?as) st)" using Cons.prems(1) by simp
    have same: "gauge_lines F d h1 rest = gauge_lines F d h rest"
      using h1(2) Cons.prems(3) by (intro gauge_lines_cong) (auto simp: as swept_def)
    have "distinct rest" "\<forall>a \<in> set rest. a < length h1"
      using Cons.prems(3,4) h1(2) by (auto simp: as swept_def)
    from Cons.IH [OF l rest_def this, unfolded same] obtain h2 where
      h2: "walk_gauges it ?fn gs names (h1, wrote (gauge_lines F d h ?as) st)
        = (h2, wrote (gauge_lines F d h rest) (wrote (gauge_lines F d h ?as) st))"
      "swept h1 rest (ws_err (wrote (gauge_lines F d h rest) (wrote (gauge_lines F d h ?as) st)) = None) h2"
      by blast
    have w: "wrote (gauge_lines F d h rest) (wrote (gauge_lines F d h ?as) st) = wrote (gauge_lines F d h as) st"
      unfolding as gauge_lines_simps by (rule live_wrote_append [OF Cons.prems(1)])
    have "ws_err (wrote (gauge_lines F d h ?as) st) = None" if "ws_err (wrote (gauge_lines F d h as) st) = None"
      using that w live_wrote_None [OF l] by metis
    then have "swept h as (ws_err (wrote (gauge_lines F d h as) st) = None) h2"
      using h1(2) h2(2) Cons.prems(3) unfolding w by (auto simp: as swept_def)
    with h1(1) h2(1) w Some show ?thesis by auto
  qed
qed (simp add: swept_def)

lemma tree_gauges_props:
  assumes "gauges_ok gs h" and "map_of gs name = Some n" and "iterates it"
  shows "set (tree_gauges it n) = {a. a < length h \<and> met_Name (g_g (h ! a)) = name
      \<and> tree_lookup None n (met_lvs (g_g (h ! a))) = Some a}"
    and "distinct (tree_gauges it n)"
proof -
  define es where "es = filter (\<lambda>(l, x). x \<noteq> None) (tree_entries it n [])"
  note ok = gauges_okD [OF assms(1,2)]
  have mem: "(l, x) \<in> set es \<longleftrightarrow> x = tree_lookup None n l \<and> x \<noteq> None" for l x
    using tree_entries_nonempty(1) [OF ok(1) assms(3), of "\<lambda>x. x \<noteq> None" None] by (auto simp: es_def)
  have dist: "distinct es"
    using tree_entries_nonempty(2) [OF ok(1) assms(3), of "\<lambda>x. x \<noteq> None" None]
    by (simp add: es_def distinct_map)
  have tg: "tree_gauges it n = map (\<lambda>p. the (snd p)) es"
    by (simp add: es_def tree_gauges_def List.map_filter_def split_def comp_def)
  show "set (tree_gauges it n) = {a. a < length h \<and> met_Name (g_g (h ! a)) = name
      \<and> tree_lookup None n (met_lvs (g_g (h ! a))) = Some a}" (is "_ = ?S")
  proof (intro equalityI subsetI)
    fix a assume "a \<in> set (tree_gauges it n)"
    then obtain l x where "(l, x) \<in> set es" "a = the x" unfolding tg by auto
    then have "tree_lookup None n l = Some a" using mem by auto
    with ok(2) [OF this] show "a \<in> ?S" by auto
  next
    fix a assume "a \<in> ?S"
    then have "(met_lvs (g_g (h ! a)), Some a) \<in> set es" using mem by auto
    then show "a \<in> set (tree_gauges it n)" unfolding tg by force
  qed
  have "inj_on (\<lambda>p. the (snd p)) (set es)"
  proof (rule inj_onI)
    fix p q assume pq: "p \<in> set es" "q \<in> set es" "the (snd p) = the (snd q)"
    obtain l x k y where p: "p = (l, x)" "q = (k, y)" by (metis prod.exhaust)
    then obtain a where a: "x = Some a" "y = Some a" using pq mem by (metis option.collapse snd_conv)
    then have "tree_lookup None n l = Some a" "tree_lookup None n k = Some a" using pq p mem by auto
    with ok(2) have "l = k" by metis
    with p a show "p = q" by simp
  qed
  with dist show "distinct (tree_gauges it n)" unfolding tg by (simp add: distinct_map)
qed

lemma all_gauges_props:
  assumes "dd_inv d" and "iterates nit" and "iterates it"
  shows "set (all_gauges nit it d) = {a. gauge_handle d a}" and "distinct (all_gauges nit it d)"
proof -
  have ok: "gauges_ok (d_gauges d) (d_heap d)" using assms(1) by (simp add: dd_inv_def)
  let ?part = "\<lambda>name. case map_of (d_gauges d) name of None \<Rightarrow> [] | Some n \<Rightarrow> tree_gauges it n"
  have part: "set (?part name) = {a. gauge_handle d a \<and> met_Name (g_g (d_heap d ! a)) = name}" for name
  proof (cases "map_of (d_gauges d) name")
    case (Some n)
    have "set (?part name) = set (tree_gauges it n)" by (simp add: Some)
    also note tree_gauges_props(1) [OF ok Some assms(3)]
    also have "{a. a < length (d_heap d) \<and> met_Name (g_g (d_heap d ! a)) = name
        \<and> tree_lookup None n (met_lvs (g_g (d_heap d ! a))) = Some a}
      = {a. gauge_handle d a \<and> met_Name (g_g (d_heap d ! a)) = name}"
      using Some by (intro Collect_cong) (simp add: gauge_handle_def, fastforce)
    finally show ?thesis .
  qed (auto simp: gauge_handle_def)
  have dist: "distinct (?part name)" for name
    using tree_gauges_props(2) [OF ok _ assms(3), of name] by (cases "map_of (d_gauges d) name") auto
  have names: "set (nit (map fst (d_gauges d))) = fst ` set (d_gauges d)" "distinct (nit (map fst (d_gauges d)))"
    using ok assms(2) by (simp_all add: iterates_set iterates_distinct gauges_ok_def)
  have "met_Name (g_g (d_heap d ! a)) \<in> fst ` set (d_gauges d)" if "gauge_handle d a" for a
    using that by (auto simp: gauge_handle_def) (metis domI dom_map_of_conv_image_fst)
  then show "set (all_gauges nit it d) = {a. gauge_handle d a}"
    using part names(1) by (auto simp: all_gauges_def)
  have "distinct (concat (map ?part ns))" if "distinct ns" for ns
    using that
  proof (induction ns)
    case (Cons name ns)
    have "set (?part name) \<inter> set (concat (map ?part ns)) = {}"
      using Cons.prems part by fastforce
    with Cons dist [of name] show ?case by simp
  qed simp
  then show "distinct (all_gauges nit it d)" using names(2) by (simp add: all_gauges_def)
qed

definition Tagged_lines :: "formats \<Rightarrow> name_order \<Rightarrow> label_order \<Rightarrow> Dogstatsd \<Rightarrow> string list" where
  "Tagged_lines F nit it d =
     series_lines (\<lambda>name ls vs. [counter_line F d name ls vs]) (Space_series nit it (d_counters d))
   @ gauge_lines F d (d_heap d) (all_gauges nit it d)
   @ series_lines (\<lambda>name ls. map (value_line F ''ms'' d name ls (RateMap_Get (d_rates d) name)))
       (Space_series nit it (d_timings d))
   @ series_lines (\<lambda>name ls. map (value_line F ''h'' d name ls (RateMap_Get (d_rates d) name)))
       (Space_series nit it (d_histograms d))"

definition flushed :: "Dogstatsd \<Rightarrow> Dogstatsd \<Rightarrow> bool" where
  "flushed d d' \<longleftrightarrow> d_counters d' = NewSpace \<and> d_timings d' = NewSpace \<and> d_histograms d' = NewSpace \<and>
     d_gauges d' = d_gauges d \<and> (\<forall>a. gauge_handle d a \<longrightarrow> d_heap d' ! a = (d_heap d ! a)\<lparr>g_set := False\<rparr>)"

lemma Tagged_WriteTo_writes:
  assumes "dd_inv d" and "iterates nit" and "iterates it"
    and "Tagged_WriteTo F nit it limited d (k, []) = (d', st)"
  shows "st = wrote (Tagged_lines F nit it d) (writing_start (k, []))"
    and "ws_err st = None \<Longrightarrow> flushed d d'"
proof -
  let ?c = "series_lines (\<lambda>name ls vs. [counter_line F d name ls vs]) (Space_series nit it (d_counters d))"
  let ?as = "all_gauges nit it d"
  let ?g = "gauge_lines F d (d_heap d) ?as"
  let ?v = "\<lambda>kind sp. series_lines (\<lambda>name ls. map (value_line F kind d name ls (RateMap_Get (d_rates d) name)))
       (Space_series nit it sp)"
  let ?s1 = "wrote ?c (writing_start (k, []))"
  let ?s2 = "wrote ?g ?s1"
  let ?s3 = "wrote (?v ''ms'' (d_timings d)) ?s2"
  let ?s4 = "wrote (?v ''h'' (d_histograms d)) ?s3"
  have l: "live ?s1" "live ?s2" "live ?s3" "live ?s4" by simp_all
  have c: "Space_Walk nit it (\<lambda>name ls vs st. write_line limited (counter_line F d name ls vs) st)
      (d_counters d) (writing_start (k, [])) = ?s1"
    by (rule walk_writes) (simp_all add: until_single del: until.simps)
  have v: "Space_Walk nit it (write_values F kind limited d) sp st = wrote (?v kind sp) st" if "live st" for kind sp st
    by (rule walk_writes [OF that]) (unfold write_values_def Let_def until_map, rule refl)
  from all_gauges_props [OF assms(1-3)] have as: "distinct ?as" "\<forall>a \<in> set ?as. a < length (d_heap d)"
    by (auto simp: gauge_handle_def)
  from walk_gauges_limited [OF l(1) all_gauges_def as, of F d] obtain h where
    g: "walk_gauges it (\<lambda>name ls v st. write_line limited (gauge_line F d name ls v) st) (d_gauges d)
      (nit (map fst (d_gauges d))) (d_heap d, ?s1) = (h, ?s2)"
    "swept (d_heap d) ?as (ws_err ?s2 = None) h" by auto
  have "st = ?s4"
    using assms(4) c v [OF l(2)] v [OF l(3)] g(1) live_wrote_stop [OF l(1)] live_wrote_stop [OF l(2)]
      live_wrote_stop [OF l(3)]
    by (auto simp: Tagged_WriteTo_def Space_Reset_def Let_def split: if_splits)
  moreover have "?s4 = wrote (Tagged_lines F nit it d) (writing_start (k, []))"
    by (simp add: Tagged_lines_def live_wrote_append)
  ultimately show "st = wrote (Tagged_lines F nit it d) (writing_start (k, []))" by simp
  assume e: "ws_err st = None"
  then have "ws_err ?s3 = None" "ws_err ?s2 = None" "ws_err ?s1 = None"
    using \<open>st = ?s4\<close> live_wrote_None l by blast+
  then have "d' = d\<lparr>d_counters := NewSpace, d_heap := h, d_timings := NewSpace, d_histograms := NewSpace\<rparr>"
    using assms(4) c v [OF l(2)] v [OF l(3)] g(1)
    by (auto simp: Tagged_WriteTo_def Space_Reset_def Let_def)
  with g(2) \<open>ws_err ?s2 = None\<close> all_gauges_props(1) [OF assms(1-3)] show "flushed d d'"
    by (auto simp: flushed_def swept_def)
qed

subsection \<open>Reachable states\<close>

lemma until_keeps: "(\<And>x s. P s \<Longrightarrow> P (fst (f x s))) \<Longrightarrow> P s \<Longrightarrow> P (fst (until f xs s))"
  by (induction xs arbitrary: s) (auto simp: Let_def split_beta)

definition same_gauges :: "gauge list \<Rightarrow> gauge list \<Rightarrow> bool" where
  "same_gauges h h' \<longleftrightarrow> length h' = length h \<and> (\<forall>a. g_g (h' ! a) = g_g (h ! a))"

lemma visit_gauge_keeps: "same_gauges h (fst hs) \<Longrightarrow> same_gauges h (fst (fst (visit_gauge fn a hs)))"
  by (cases hs) (auto simp: same_gauges_def visit_gauge_def gauge_read_def Let_def split_beta
      nth_update_keeps [where f = g_g])

lemma walk_gauges_keeps: "same_gauges h (fst hs) \<Longrightarrow> same_gauges h (fst (walk_gauges it fn gs names hs))"
proof (induction names arbitrary: hs)
  case (Cons name names)
  have "same_gauges h (fst (fst (until (visit_gauge fn) as hs)))" for as
    by (rule until_keeps [where P = "\<lambda>hs. same_gauges h (fst hs)"]) (auto intro: visit_gauge_keeps Cons.prems)
  with Cons show ?case by (auto simp: gaugeNode_walk_until split: option.splits)
qed simp

lemma same_gauges_ok: "gauges_ok gs h \<Longrightarrow> same_gauges h h' \<Longrightarrow> gauges_ok gs h'"
  by (rule gauges_ok_heap) (simp_all add: same_gauges_def)

lemma Tagged_WriteTo_inv:
  assumes "dd_inv d" and "Tagged_WriteTo F nit it wr d w = (d', st)"
  shows "dd_inv d'"
proof -
  let ?st1 = "Space_Walk nit it (\<lambda>name ls vs st. write_line wr (counter_line F d name ls vs) st)
      (d_counters d) (writing_start w)"
  obtain h st2 where g: "walk_gauges it (\<lambda>name ls v st. write_line wr (gauge_line F d name ls v) st) (d_gauges d)
      (nit (map fst (d_gauges d))) (d_heap d, ?st1) = (h, st2)" by (rule prod.exhaust)
  have sg: "same_gauges (d_heap d) h"
    using walk_gauges_keeps [where h = "d_heap d" and hs = "(d_heap d, ?st1)"] g
    by (simp add: same_gauges_def) (metis fst_conv)
  have "gauges_ok (d_gauges d) h"
    using assms(1) by (intro same_gauges_ok [OF _ sg]) (simp add: dd_inv_def)
  moreover have "d_gauges d' = d_gauges d \<and> d_lvs d' = d_lvs d \<and> (d_heap d' = d_heap d \<or> d_heap d' = h)
      \<and> d_counters d' = NewSpace \<and> (d_timings d' = NewSpace \<or> d_timings d' = d_timings d)
      \<and> (d_histograms d' = NewSpace \<or> d_histograms d' = d_histograms d)"
    using assms(2) g by (auto simp: Tagged_WriteTo_def Space_Reset_def Let_def split: if_splits)
  ultimately show ?thesis using assms(1) by (auto simp: dd_inv_def)
qed

text \<open>
  Clients hold handles they got from \<open>NewGauge\<close> or \<open>With\<close>. The steps are those of both packages; a
  flush may use the formats of either and any writer.
\<close>

inductive dd_step :: "Dogstatsd \<Rightarrow> Dogstatsd \<Rightarrow> bool" where
  new_counter: "Dogstatsd_NewCounter d name r = (d', c) \<Longrightarrow> dd_step d d'"
| new_timing: "Dogstatsd_NewTiming d name r = (d', c) \<Longrightarrow> dd_step d d'"
| new_histogram: "Dogstatsd_NewHistogram d name r = (d', c) \<Longrightarrow> dd_step d d'"
| new_gauge: "Dogstatsd_NewGauge d name = (d', p) \<Longrightarrow> dd_step d d'"
| with_labels: "gauge_handle d a \<Longrightarrow> Dogstatsd_Gauge_With d a ls = (d', r) \<Longrightarrow> dd_step d d'"
| gauge_set: "gauge_handle d a \<Longrightarrow> dd_step d (Dogstatsd_Gauge_Set a v d)"
| gauge_add: "gauge_handle d a \<Longrightarrow> dd_step d (Dogstatsd_Gauge_Add a v d)"
| counter_add: "dd_step d (Dogstatsd_Counter_Add rnd c v d)"
| timing_observe: "dd_step d (Dogstatsd_Timing_Observe rnd c v d)"
| histogram_observe: "dd_step d (Dogstatsd_Histogram_Observe rnd c v d)"
| influx_counter_add: "dd_step d (Influxstatsd_Counter_Add c v d)"
| influx_timing_observe: "dd_step d (Influxstatsd_Timing_Observe c v d)"
| influx_histogram_observe: "dd_step d (Influxstatsd_Histogram_Observe c v d)"
| write_to: "Tagged_WriteTo F nit it wr d (w :: nat \<times> string list) = (d', st) \<Longrightarrow> dd_step d d'"

lemma sampleObservations_wf: "wf_space sp \<Longrightarrow> wf_space (sampleObservations r rnd sp name ls v)"
  by (simp add: sampleObservations_def Space_Observe_wf)

lemma gauges_ok_update_gauge:
  assumes "gauges_ok gs h" and "met_Name (g_g g) = met_Name (g_g (h ! a))" and "met_lvs (g_g g) = met_lvs (g_g (h ! a))"
  shows "gauges_ok gs (h[a := g])"
proof (rule gauges_ok_heap [OF assms(1)])
  fix b
  show "met_Name (g_g (h[a := g] ! b)) = met_Name (g_g (h ! b)) \<and> met_lvs (g_g (h[a := g] ! b)) = met_lvs (g_g (h ! b))"
    using nth_update_keeps [of "\<lambda>g. met_Name (g_g g)" g h a b] nth_update_keeps [of "\<lambda>g. met_lvs (g_g g)" g h a b]
      assms(2,3) by simp
qed simp

lemma dd_step_inv: "dd_step d d' \<Longrightarrow> dd_inv d \<Longrightarrow> dd_inv d'"
proof (induction rule: dd_step.induct)
  case (new_gauge d name d' p)
  then show ?case using Dogstatsd_NewGauge_inv by blast
next
  case (with_labels d a ls d' r)
  then show ?case using Dogstatsd_Gauge_With_props by blast
next
  case (gauge_set d a v)
  then show ?case
    by (auto simp: Dogstatsd_Gauge_Set_def dd_inv_def touch_def Gauge_Set_def intro!: gauges_ok_update_gauge)
next
  case (gauge_add d a v)
  then show ?case
    by (auto simp: Dogstatsd_Gauge_Add_def dd_inv_def touch_def Gauge_Add_def intro!: gauges_ok_update_gauge)
next
  case (write_to F nit it wr d w d' st)
  then show ?case by (blast intro: Tagged_WriteTo_inv)
qed (auto simp: Dogstatsd_NewCounter_def Dogstatsd_NewTiming_def Dogstatsd_NewHistogram_def dd_inv_def
    Dogstatsd_Counter_Add_def Dogstatsd_Timing_Observe_def Dogstatsd_Histogram_Observe_def sampleObservations_wf
    Influxstatsd_Counter_Add_def Influxstatsd_Timing_Observe_def Influxstatsd_Histogram_Observe_def Space_Observe_wf)

definition dd_reach :: "string \<Rightarrow> string list \<Rightarrow> Dogstatsd \<Rightarrow> bool" where
  "dd_reach prefix ls d \<longleftrightarrow> (\<exists>d0. Dogstatsd_New prefix ls = Ret d0 \<and> rtranclp dd_step d0 d)"

lemma dd_reach_inv: "dd_reach prefix ls d \<Longrightarrow> dd_inv d"
proof -
  have "rtranclp dd_step d0 d \<Longrightarrow> dd_inv d0 \<Longrightarrow> dd_inv d" for d0
    by (induction rule: rtranclp_induct) (auto intro: dd_step_inv)
  then show "dd_reach prefix ls d \<Longrightarrow> dd_inv d" by (auto simp: dd_reach_def intro: Dogstatsd_New_inv)
qed

lemma dd_reach_step: "dd_reach prefix ls d \<Longrightarrow> dd_step d d' \<Longrightarrow> dd_reach prefix ls d'"
  by (auto simp: dd_reach_def intro: rtranclp.rtrancl_into_rtrancl)

subsection \<open>An example\<close>

text \<open>A client of a server with a default label that has counted once and set a labelled gauge.\<close>

definition dd_empty :: Dogstatsd where
  "dd_empty = \<lparr>d_prefix = ''p.'', d_rates = [], d_counters = NewSpace, d_gauges = [],
     d_timings = NewSpace, d_histograms = NewSpace, d_lvs = [''env'', ''a''], d_heap = []\<rparr>"

definition dd_example :: Dogstatsd where
  "dd_example =
     (let d1 = fst (Dogstatsd_NewCounter dd_empty ''c'' (F64 1));
          d2 = Dogstatsd_Counter_Add 0 \<lparr>dh_name = ''c'', dh_lvs = [], dh_rate = F64 1\<rparr> (F64 2) d1;
          d3 = fst (Dogstatsd_NewGauge d2 ''g'');
          d4 = fst (Dogstatsd_Gauge_With d3 0 [''k'', ''v''])
      in Dogstatsd_Gauge_Set 1 (F64 3) d4)"

lemmas dd_eval = dd_empty_def Dogstatsd_NewCounter_def Dogstatsd_Counter_Add_def sampleObservations_def sampled_def
  Dogstatsd_NewGauge_def Dogstatsd_Gauge_With_def Dogstatsd_Gauge_Set_def addGauge_def touch_def gauge_handle_def
  Gauge_With_def Gauge_LabelValues_def Gauge_Set_def NewGauge_def lv_With_def
  pad_labels_def f64_le_def f64_lt_def

lemma dd_example_reach: "dd_reach ''p.'' [''env'', ''a''] dd_example"
  unfolding dd_reach_def
proof (intro exI conjI)
  show "Dogstatsd_New ''p.'' [''env'', ''a''] = Ret dd_empty"
    by (simp add: Dogstatsd_New_def dd_empty_def RateMap_New_def)
  let ?d1 = "fst (Dogstatsd_NewCounter dd_empty ''c'' (F64 1))"
  let ?d2 = "Dogstatsd_Counter_Add 0 \<lparr>dh_name = ''c'', dh_lvs = [], dh_rate = F64 1\<rparr> (F64 2) ?d1"
  let ?d3 = "fst (Dogstatsd_NewGauge ?d2 ''g'')"
  let ?d4 = "fst (Dogstatsd_Gauge_With ?d3 0 [''k'', ''v''])"
  have "dd_step dd_empty ?d1" by (rule new_counter [OF surjective_pairing])
  moreover have "dd_step ?d1 ?d2" by (rule counter_add)
  moreover have "dd_step ?d2 ?d3" by (rule new_gauge [OF surjective_pairing])
  moreover have "dd_step ?d3 ?d4"
    by (rule with_labels [OF _ surjective_pairing]) (simp add: dd_eval)
  moreover have "dd_step ?d4 dd_example"
    unfolding dd_example_def Let_def by (rule gauge_set) (simp add: dd_eval)
  ultimately show "rtranclp dd_step dd_empty dd_example"
    by (blast intro: converse_rtranclp_into_rtranclp)
qed

lemma dd_example_state:
  "dd_example = dd_empty\<lparr>d_rates := [(''c'', F64 1)], d_counters := fst (Space_Observe NewSpace ''c'' [] (F64 2)),
     d_gauges := [(''g'', Node (Some 0) [((''k'', ''v''), Node (Some 1) [])])],
     d_heap := [\<lparr>g_g = NewGauge ''g'', g_set = False\<rparr>,
       \<lparr>g_g = (Gauge_Set (Gauge_With (NewGauge ''g'') [''k'', ''v'']) (F64 3)), g_set = True\<rparr>]\<rparr>"
  by (simp add: dd_example_def dd_eval RateMap_Set_def RateMap_New_def)

lemma dd_example_lines:
  "Tagged_lines dogstatsd_formats (\<lambda>xs. xs) (\<lambda>xs. xs) dd_example
     = [''p.c:2.000000|c|#env:a'' @ newline, ''p.g:3.000000|g|#env:a,k:v'' @ newline]"
  "Tagged_lines influxstatsd_formats (\<lambda>xs. xs) (\<lambda>xs. xs) dd_example
     = [''p.c,env=a:2.000000|c'' @ newline, ''p.g,env=a,k=v:3.000000|g'' @ newline]"
  by (simp_all add: dd_example_state dd_eval space_eval Tagged_lines_def series_lines_def gauge_lines_def
      all_gauges_def tree_gauges_def gauge_text_def dogstatsd_formats_def influxstatsd_formats_def Dogstatsd_tagValues_def
      Influxstatsd_tagValues_def tagValues_def sum_def sampling_def f64_add_int [of 0 2, simplified]
      fmt_f_eval Let_def map_filter_def)

subsection \<open>Properties\<close>

text \<open>C11: From any reachable state a flush in the DogStatsD format writes exactly the lines of what is
  buffered (one summed line per counter series, one per gauge that was set since it was last read, one
  per timing and histogram observation), up to the first line the writer refuses, reports the bytes and
  whether a line was refused, and on success leaves nothing buffered and every gauge unset.\<close>

theorem Dogstatsd_WriteTo_correct:
  assumes "dd_reach prefix dls d" and "iterates nit" and "iterates it"
    and "Dogstatsd_WriteTo nit it limited d (k, []) = (d', st)"
    and "lines = Tagged_lines dogstatsd_formats nit it d"
  shows "snd (ws_w st) = take k lines \<and> ws_count st = total_length (take k lines)
    \<and> (ws_err st = None \<longleftrightarrow> length lines \<le> k) \<and> (ws_err st = None \<longrightarrow> flushed d d')"
  using Tagged_WriteTo_writes [OF dd_reach_inv [OF assms(1)] assms(2,3) assms(4) [unfolded Dogstatsd_WriteTo_def]]
  by (auto simp: assms(5) wrote_def writing_start_def)

theorem Dogstatsd_WriteTo_correct_witness:
  "snd (ws_w (snd (Dogstatsd_WriteTo (\<lambda>xs. xs) (\<lambda>xs. xs) limited dd_example (1, []))))
     = [''p.c:2.000000|c|#env:a'' @ newline]
   \<and> ws_err (snd (Dogstatsd_WriteTo (\<lambda>xs. xs) (\<lambda>xs. xs) limited dd_example (1, []))) \<noteq> None"
  using Dogstatsd_WriteTo_correct [OF dd_example_reach iterates_id iterates_id surjective_pairing dd_example_lines(1) [symmetric], of 1]
  by simp

text \<open>The same holds for influxstatsd, in its own format.\<close>

theorem Influxstatsd_WriteTo_correct:
  assumes "dd_reach prefix dls d" and "iterates nit" and "iterates it"
    and "Influxstatsd_WriteTo nit it limited d (k, []) = (d', st)"
    and "lines = Tagged_lines influxstatsd_formats nit it d"
  shows "snd (ws_w st) = take k lines \<and> ws_count st = total_length (take k lines)
    \<and> (ws_err st = None \<longleftrightarrow> length lines \<le> k) \<and> (ws_err st = None \<longrightarrow> flushed d d')"
  using Tagged_WriteTo_writes [OF dd_reach_inv [OF assms(1)] assms(2,3) assms(4) [unfolded Influxstatsd_WriteTo_def]]
  by (auto simp: assms(5) wrote_def writing_start_def)

theorem Influxstatsd_WriteTo_correct_witness:
  "snd (ws_w (snd (Influxstatsd_WriteTo (\<lambda>xs. xs) (\<lambda>xs. xs) limited dd_example (2, []))))
     = [''p.c,env=a:2.000000|c'' @ newline, ''p.g,env=a,k=v:3.000000|g'' @ newline]
   \<and> flushed dd_example (fst (Influxstatsd_WriteTo (\<lambda>xs. xs) (\<lambda>xs. xs) limited dd_example (2, [])))"
  using Influxstatsd_WriteTo_correct [OF dd_example_reach iterates_id iterates_id surjective_pairing dd_example_lines(2) [symmetric], of 2]
  by simp

text \<open>Deriving a gauge with the same labels twice gives the same gauge, so values set through either
  handle are values of one series; handles stay valid and no other gauge changes.\<close>

theorem Dogstatsd_gauges_shared:
  assumes "dd_reach prefix dls d" and "gauge_handle d a"
    and "Dogstatsd_Gauge_With d a ls = (d1, r1)" and "Dogstatsd_Gauge_With d1 a ls = (d2, r2)"
  shows "\<exists>b. r1 = Ret b \<and> r2 = Ret b \<and> gauge_handle d2 b
    \<and> met_lvs (g_g (d_heap d2 ! b)) = lv_With (met_lvs (g_g (d_heap d ! a))) ls
    \<and> (\<forall>c. gauge_handle d c \<longrightarrow> gauge_handle d2 c \<and> d_heap d2 ! c = d_heap d ! c)"
proof -
  from Dogstatsd_Gauge_With_props [OF dd_reach_inv [OF assms(1)] assms(2,3)] obtain b where
    b: "r1 = Ret b" "dd_inv d1" "gauge_handle d1 b"
    "met_Name (g_g (d_heap d1 ! b)) = met_Name (g_g (d_heap d ! a))"
    "met_lvs (g_g (d_heap d1 ! b)) = lv_With (met_lvs (g_g (d_heap d ! a))) ls"
    "\<And>c. gauge_handle d c \<Longrightarrow> gauge_handle d1 c \<and> d_heap d1 ! c = d_heap d ! c" by blast
  from Dogstatsd_Gauge_With_props [OF b(2) _ assms(4)] b(6) [OF assms(2)] obtain c where
    c: "r2 = Ret c" "dd_inv d2" "gauge_handle d2 c"
    "met_Name (g_g (d_heap d2 ! c)) = met_Name (g_g (d_heap d ! a))"
    "met_lvs (g_g (d_heap d2 ! c)) = lv_With (met_lvs (g_g (d_heap d ! a))) ls"
    "\<And>x. gauge_handle d1 x \<Longrightarrow> gauge_handle d2 x \<and> d_heap d2 ! x = d_heap d1 ! x" by auto
  have "gauge_handle d2 b" "d_heap d2 ! b = d_heap d1 ! b" using c(6) [OF b(3)] by auto
  then have "b = c" using c b(4,5) by (auto simp: gauge_handle_def)
  with b c show ?thesis by auto
qed

theorem Dogstatsd_gauges_shared_witness:
  "snd (Dogstatsd_Gauge_With dd_example 0 [''k'', ''v''])
     = snd (Dogstatsd_Gauge_With (fst (Dogstatsd_Gauge_With dd_example 0 [''k'', ''v''])) 0 [''k'', ''v''])"
proof -
  have "gauge_handle dd_example 0" by (simp add: dd_example_def dd_eval)
  from Dogstatsd_gauges_shared [where ls = "[''k'', ''v'']", OF dd_example_reach this surjective_pairing surjective_pairing]
  show ?thesis by auto
qed

text \<open>
  A writer that refuses the texts of a list and takes all others: a transient failure.
\<close>

definition refusing :: "string list \<Rightarrow> string list writer" where
  "refusing bad out line =
     (if line \<in> set bad then (out, 0, Some ''refused'') else (out @ [line], int (length line), None))"

definition dd_two :: Dogstatsd where
  "dd_two = Dogstatsd_Gauge_Set 2 (F64 4) (fst (Dogstatsd_NewGauge dd_example ''h''))"

lemma dd_two_reach: "dd_reach ''p.'' [''env'', ''a''] dd_two"
proof -
  have "dd_reach ''p.'' [''env'', ''a''] (fst (Dogstatsd_NewGauge dd_example ''h''))"
    by (rule dd_reach_step [OF dd_example_reach]) (rule new_gauge [OF surjective_pairing])
  then show ?thesis
    unfolding dd_two_def by (rule dd_reach_step) (rule gauge_set, simp add: dd_example_def dd_eval)
qed

lemma dd_two_value:
  "dd_two = \<lparr>d_prefix = ''p.'', d_rates = [(''c'', F64 1)], d_counters = [(''c'', Node [F64 2] [])],
     d_gauges = [(''g'', Node (Some 0) [((''k'', ''v''), Node (Some 1) [])]), (''h'', Node (Some 2) [])],
     d_timings = [], d_histograms = [], d_lvs = [''env'', ''a''],
     d_heap = [\<lparr>g_g = \<lparr>met_Name = ''g'', met_bits = F64 0, met_lvs = []\<rparr>, g_set = False\<rparr>,
       \<lparr>g_g = \<lparr>met_Name = ''g'', met_bits = F64 3, met_lvs = [''k'', ''v'']\<rparr>, g_set = True\<rparr>,
       \<lparr>g_g = \<lparr>met_Name = ''h'', met_bits = F64 4, met_lvs = []\<rparr>, g_set = True\<rparr>]\<rparr>"
  by (simp add: dd_two_def dd_example_def dd_eval space_eval Let_def)

lemmas dogstatsd_line_eval = dogstatsd_formats_def Dogstatsd_tagValues_def tagValues_def sum_def sampling_def
  f64_lt_def RateMap_Get_def fmt_f_eval f64_add_int [of 0 2, simplified]

lemma dd_two_flush:
  "Dogstatsd_WriteTo (\<lambda>xs. xs) (\<lambda>xs. xs) (refusing [''p.g:3.000000|g|#env:a,k:v'' @ newline]) dd_two []
     = (dd_two\<lparr>d_counters := NewSpace, d_timings := NewSpace, d_histograms := NewSpace,
          d_heap := map (\<lambda>g. g\<lparr>g_set := False\<rparr>) (d_heap dd_two)\<rparr>,
        \<lparr>ws_w = [''p.c:2.000000|c|#env:a'' @ newline, ''p.h:4.000000|g|#env:a'' @ newline],
         ws_count = 44, ws_err = None\<rparr>)"
  by (simp add: dd_two_value Dogstatsd_WriteTo_def Tagged_WriteTo_def Space_Reset_def Space_Walk_def NewSpace_def
      write_line_def writing_start_def refusing_def gaugeNode_walk_def visit_gauge_def gauge_read_def node_walk_def
      Gauge_Value_def Gauge_LabelValues_def dogstatsd_line_eval newline_def Let_def)

lemma dd_two_lines:
  "''p.g:3.000000|g|#env:a,k:v'' @ newline \<in> set (Tagged_lines dogstatsd_formats (\<lambda>xs. xs) (\<lambda>xs. xs) dd_two)"
  by (simp add: dd_two_value Tagged_lines_def gauge_lines_def all_gauges_def tree_gauges_def gauge_text_def
      map_filter_def dogstatsd_line_eval)

lemma dd_two_flushed:
  "flushed dd_two (dd_two\<lparr>d_counters := NewSpace, d_timings := NewSpace, d_histograms := NewSpace,
     d_heap := map (\<lambda>g. g\<lparr>g_set := False\<rparr>) (d_heap dd_two)\<rparr>)"
  by (simp add: flushed_def gauge_handle_def)

text \<open>A refused gauge line can go unreported. In a reachable state with gauges of two names, a writer that
  refuses the line of the first name but takes that of the second makes \<open>WriteTo\<close> return no error, although
  the line was not written, and the gauge is marked as read: the result of \<open>walk\<close> is dropped and the next
  line overwrites the error.\<close>

theorem Dogstatsd_gauge_error_masked:
  "\<exists>prefix ls d. dd_reach prefix ls d \<and>
     (let line = ''p.g:3.000000|g|#env:a,k:v'' @ newline;
          (d', st) = Dogstatsd_WriteTo (\<lambda>xs. xs) (\<lambda>xs. xs) (refusing [line]) d []
      in line \<in> set (Tagged_lines dogstatsd_formats (\<lambda>xs. xs) (\<lambda>xs. xs) d)
       \<and> line \<notin> set (ws_w st) \<and> ws_err st = None \<and> flushed d d')"
proof (intro exI conjI)
  show "dd_reach ''p.'' [''env'', ''a''] dd_two" by (rule dd_two_reach)
  let ?line = "''p.g:3.000000|g|#env:a,k:v'' @ newline"
  show "let line = ?line; (d', st) = Dogstatsd_WriteTo (\<lambda>xs. xs) (\<lambda>xs. xs) (refusing [line]) dd_two []
      in line \<in> set (Tagged_lines dogstatsd_formats (\<lambda>xs. xs) (\<lambda>xs. xs) dd_two)
       \<and> line \<notin> set (ws_w st) \<and> ws_err st = None \<and> flushed dd_two d'"
    unfolding Let_def dd_two_flush prod.case
    using dd_two_lines dd_two_flushed by (simp add: newline_def)
qed

end
