(* ===== verification/Endpoint.thy ===== *)
theory Endpoint
  imports Go_Strings
begin

text \<open>
  Package endpoint, file endpoint.go: endpoints, middlewares and \<open>Chain\<close>, with the parts of Go they
  are made of. An endpoint gets a context and a request and returns a response and an error; what it
  does besides is a change of the world \<open>'w\<close>, and it may panic. A context is the list of its values,
  the last added first. \<open>zero\<close> stands for the zero value of the response type.

  The interface \<open>guard\<close> is what the middlewares of packages ratelimit, auth/basic and auth/jwt have in
  common: they check the request and then either refuse it or pass it on.
\<close>

datatype go_error = ErrorText string | AuthError string | ConversionError | ForeignError nat

text \<open>Values of type \<open>interface{}\<close> that a context holds: strings, integers, claims of a token,
  headers, anything else.\<close>

datatype any = AnyString string | AnyInt int | AnyClaims "(string \<times> string) list"
  | AnyHeader "(string \<times> string list) list" | AnyOther nat

type_synonym context_values = "(string \<times> any) list"

definition WithValue :: "context_values \<Rightarrow> string \<Rightarrow> any \<Rightarrow> context_values" where
  "WithValue ctx key v = (key, v) # ctx"

definition context_Value :: "context_values \<Rightarrow> string \<Rightarrow> any option" where
  "context_Value ctx key = map_of ctx key"

text \<open>The type assertion \<open>ctx.Value(key).(string)\<close>.\<close>

definition string_Value :: "context_values \<Rightarrow> string \<Rightarrow> string option" where
  "string_Value ctx key = (case context_Value ctx key of Some (AnyString s) \<Rightarrow> Some s | _ \<Rightarrow> None)"

datatype 'o reply = Reply 'o "go_error option" | Panicked string

type_synonym ('w, 'req, 'o) endpoint = "context_values \<Rightarrow> 'req \<Rightarrow> 'w \<Rightarrow> 'w \<times> 'o reply"
type_synonym ('w, 'req, 'o) middleware = "('w, 'req, 'o) endpoint \<Rightarrow> ('w, 'req, 'o) endpoint"

definition Nop :: "('w, 'req, unit) endpoint" where
  "Nop ctx request w = (w, Reply () None)"

text \<open>The loop of \<open>Chain\<close> goes over the other middlewares from the last to the first.\<close>

definition Chain :: "('w, 'req, 'o) middleware \<Rightarrow> ('w, 'req, 'o) middleware list \<Rightarrow> ('w, 'req, 'o) middleware" where
  "Chain outer others next = outer (fold (\<lambda>m next. m next) (rev others) next)"

lemma Chain_Nil [simp]: "Chain m [] = m"
  by (rule ext) (simp add: Chain_def)

lemma Chain_Cons: "Chain m (n # ns) next = m (Chain n ns next)"
  by (simp add: Chain_def)

lemma Chain_append: "Chain m (ms @ n # ns) next = Chain m ms (Chain n ns next)"
  by (simp add: Chain_def)

text \<open>A middleware that notes in the world when a request enters and leaves it.\<close>

datatype ('i, 'req) mark = Enter 'i | Exit 'i

definition annotate :: "'i \<Rightarrow> (('i, 'req) mark list, 'req, 'o) middleware" where
  "annotate i next ctx req w =
     (case next ctx req (w @ [Enter i]) of (w1, r) \<Rightarrow> (w1 @ [Exit i], r))"

lemma Chain_annotate:
  "Chain (annotate i) (map annotate is) next ctx req w
     = (let (w1, r) = next ctx req (w @ map Enter (i # is)) in (w1 @ map Exit (rev (i # is)), r))"
proof (induction "is" arbitrary: i w)
  case Nil
  then show ?case by (simp add: annotate_def split_beta Let_def)
next
  case (Cons j js)
  then show ?case by (simp add: Chain_Cons annotate_def [of i] split_beta Let_def)
qed

subsection \<open>Guards\<close>

type_synonym ('w, 'req) check = "context_values \<Rightarrow> 'req \<Rightarrow> 'w \<Rightarrow> 'w \<times> (go_error + context_values)"

definition guarded :: "('w, 'req) check \<Rightarrow> 'o \<Rightarrow> ('w, 'req, 'o) middleware" where
  "guarded check zero next ctx req w =
     (case check ctx req w of
        (w1, Inl e) \<Rightarrow> (w1, Reply zero (Some e))
      | (w1, Inr ctx1) \<Rightarrow> next ctx1 req w1)"

fun checks :: "('w, 'req) check list \<Rightarrow> ('w, 'req) check" where
  "checks [] ctx req w = (w, Inr ctx)"
| "checks (c # cs) ctx req w =
     (case c ctx req w of (w1, Inl e) \<Rightarrow> (w1, Inl e) | (w1, Inr ctx1) \<Rightarrow> checks cs ctx1 req w1)"

locale guard =
  fixes mw :: "('w, 'req, 'o) middleware" and check :: "('w, 'req) check" and zero :: 'o
  assumes guards: "mw next ctx req w = guarded check zero next ctx req w"
begin

lemma refused: "check ctx req w = (w1, Inl e) \<Longrightarrow> mw next ctx req w = (w1, Reply zero (Some e))"
  by (simp add: guards guarded_def)

lemma passed: "check ctx req w = (w1, Inr ctx1) \<Longrightarrow> mw next ctx req w = next ctx1 req w1"
  by (simp add: guards guarded_def)

lemma cons: "mw (guarded (checks cs) zero next) ctx req w = guarded (checks (check # cs)) zero next ctx req w"
  by (auto simp: guards guarded_def split: prod.splits sum.splits)

end

lemma guard_Chain:
  assumes "list_all2 (\<lambda>m c. guard m c zero) (m # ms) (c # cs)"
  shows "Chain m ms next ctx req w = guarded (checks (c # cs)) zero next ctx req w"
  using assms
proof (induction ms arbitrary: m c cs ctx req w)
  case Nil
  then have g: "guard m c zero" and cs: "cs = []" by simp_all
  from guard.cons [OF g, of "[]"] have "m (guarded (checks []) zero next) ctx req w = guarded (checks [c]) zero next ctx req w" .
  moreover have "guarded (checks []) zero next = next" by (intro ext) (simp add: guarded_def)
  ultimately show ?case by (simp only: Chain_Nil cs)
next
  case (Cons n ns)
  then obtain d ds where cs: "cs = d # ds" by (cases cs) auto
  with Cons.prems have g: "guard m c zero" and gs: "list_all2 (\<lambda>m c. guard m c zero) (n # ns) (d # ds)" by auto
  have "Chain n ns next = guarded (checks (d # ds)) zero next"
    by (intro ext) (rule Cons.IH [OF gs])
  then show ?case using guard.cons [OF g, of "d # ds" "next" ctx req w] by (simp only: Chain_Cons cs)
qed

subsection \<open>Properties\<close>

text \<open>Middlewares run in the order in which \<open>Chain\<close> lists them: a request enters the first, then each of
  the others in order, then the endpoint, and leaves them in the reverse order; a chain within a chain
  is the flat chain.\<close>

theorem Chain_order:
  "Chain (annotate i) (map annotate is) next ctx req w
     = (let (w1, r) = next ctx req (w @ map Enter (i # is)) in (w1 @ map Exit (rev (i # is)), r))
   \<and> Chain m (ms @ [Chain n ns]) endp = Chain m (ms @ n # ns) endp"
  by (simp add: Chain_annotate) (simp add: Chain_def)

end
