(* ===== verification/Rate_Limits.thy ===== *)
theory Rate_Limits
  imports Endpoint
begin

text \<open>
  Packages ratelimit (token_bucket.go) and circuitbreaker (gobreaker.go, handy_breaker.go, hystrix.go,
  error.go): middlewares that refuse requests. The rate limiter and the circuit breakers themselves
  are third-party packages: parameters. A breaker runs a function that it is given, so its parameter
  is a function of that function.
\<close>

definition ErrLimited :: go_error where
  "ErrLimited = ErrorText ''rate limit exceeded''"

type_synonym 'w Allower = "'w \<Rightarrow> 'w \<times> bool"
type_synonym 'w Waiter = "context_values \<Rightarrow> 'w \<Rightarrow> 'w \<times> go_error option"

definition AllowerFunc_Allow :: "('w \<Rightarrow> 'w \<times> bool) \<Rightarrow> 'w Allower" where
  "AllowerFunc_Allow f = f"

definition WaiterFunc_Wait :: "(context_values \<Rightarrow> 'w \<Rightarrow> 'w \<times> go_error option) \<Rightarrow> 'w Waiter" where
  "WaiterFunc_Wait f ctx = f ctx"

definition NewErroringLimiter :: "'w Allower \<Rightarrow> 'o \<Rightarrow> ('w, 'req, 'o) middleware" where
  "NewErroringLimiter Allow zero next ctx request w =
     (let (w1, allowed) = Allow w in
      if \<not> allowed then (w1, Reply zero (Some ErrLimited)) else next ctx request w1)"

definition NewDelayingLimiter :: "'w Waiter \<Rightarrow> 'o \<Rightarrow> ('w, 'req, 'o) middleware" where
  "NewDelayingLimiter Wait zero next ctx request w =
     (let (w1, err) = Wait ctx w in
      if err \<noteq> None then (w1, Reply zero err) else next ctx request w1)"

definition limiter_check :: "'w Allower \<Rightarrow> ('w, 'req) check" where
  "limiter_check Allow ctx req w =
     (case Allow w of (w1, allowed) \<Rightarrow> (w1, if allowed then Inr ctx else Inl ErrLimited))"

definition waiter_check :: "'w Waiter \<Rightarrow> ('w, 'req) check" where
  "waiter_check Wait ctx req w =
     (case Wait ctx w of (w1, None) \<Rightarrow> (w1, Inr ctx) | (w1, Some e) \<Rightarrow> (w1, Inl e))"

interpretation erroring: guard "NewErroringLimiter Allow zero" "limiter_check Allow" zero
  by unfold_locales (simp add: NewErroringLimiter_def limiter_check_def guarded_def split: prod.splits)

interpretation delaying: guard "NewDelayingLimiter Wait zero" "waiter_check Wait" zero
  by unfold_locales (auto simp: NewDelayingLimiter_def waiter_check_def guarded_def split: prod.splits option.splits)

subsection \<open>Circuit breakers\<close>

definition ConversionErrorCode :: int where "ConversionErrorCode = 2400"

text \<open>
  \<open>Gobreaker\<close>: the response goes through the breaker as an \<open>interface{}\<close>; \<open>unbox\<close> is the type assertion
  back to the response type, which fails for a nil interface.
\<close>

definition Gobreaker :: "(('w \<Rightarrow> 'w \<times> 'i reply) \<Rightarrow> 'w \<Rightarrow> 'w \<times> 'i reply) \<Rightarrow> ('o \<Rightarrow> 'i) \<Rightarrow> ('i \<Rightarrow> 'o option)
    \<Rightarrow> 'o \<Rightarrow> ('w, 'req, 'o) middleware" where
  "Gobreaker Execute box unbox zero next ctx request w =
     (case Execute (\<lambda>w. case next ctx request w of
          (w1, Reply o1 err) \<Rightarrow> (w1, Reply (box o1) err) | (w1, Panicked p) \<Rightarrow> (w1, Panicked p)) w of
        (w1, Panicked p) \<Rightarrow> (w1, Panicked p)
      | (w1, Reply i err) \<Rightarrow>
          if err \<noteq> None then (w1, Reply zero err)
          else case unbox i of
            None \<Rightarrow> (w1, Reply zero (Some ConversionError))
          | Some o1 \<Rightarrow> (w1, Reply o1 None))"

record 'w breaker =
  br_Allow :: "'w \<Rightarrow> 'w \<times> bool"
  br_Success :: "'w \<Rightarrow> 'w"
  br_Failure :: "'w \<Rightarrow> 'w"

definition ErrCircuitOpen :: go_error where
  "ErrCircuitOpen = ErrorText ''circuit open''"

text \<open>The deferred function also runs when \<open>next\<close> panics; the result \<open>err\<close> is still nil then.\<close>

definition HandyBreaker :: "'w breaker \<Rightarrow> 'o \<Rightarrow> ('w, 'req, 'o) middleware" where
  "HandyBreaker cb zero next ctx request w =
     (let (w1, allowed) = br_Allow cb w in
      if \<not> allowed then (w1, Reply zero (Some ErrCircuitOpen))
      else case next ctx request w1 of
          (w2, Reply response err) \<Rightarrow>
            (if err = None then br_Success cb w2 else br_Failure cb w2, Reply response err)
        | (w2, Panicked p) \<Rightarrow> (br_Success cb w2, Panicked p))"

text \<open>\<open>Hystrix\<close>: the state of the function that is run includes the captured variable \<open>response\<close>.\<close>

definition Hystrix :: "(string \<Rightarrow> ('w \<times> 'o \<Rightarrow> ('w \<times> 'o) \<times> go_error option outcome) \<Rightarrow> 'w \<times> 'o
    \<Rightarrow> ('w \<times> 'o) \<times> go_error option outcome) \<Rightarrow> string \<Rightarrow> 'o \<Rightarrow> ('w, 'req, 'o) middleware" where
  "Hystrix Do commandName zero next ctx request w =
     (case Do commandName (\<lambda>(w, response). case next ctx request w of
          (w1, Reply response1 err) \<Rightarrow> ((w1, response1), Ret err)
        | (w1, Panicked p) \<Rightarrow> ((w1, response), Panic p)) (w, zero) of
        ((w1, response), Panic p) \<Rightarrow> (w1, Panicked p)
      | ((w1, response), Ret err) \<Rightarrow> if err \<noteq> None then (w1, Reply response err) else (w1, Reply response None))"

text \<open>A closed breaker lets the function run and returns its result.\<close>

lemma Gobreaker_closed:
  assumes "\<And>f. Execute f = f" and "\<And>o1. unbox (box o1) = Some o1"
    and "next ctx req w = (w1, Reply o1 err)"
  shows "Gobreaker Execute box unbox zero next ctx req w = (w1, Reply (if err = None then o1 else zero) err)"
  using assms by (simp add: Gobreaker_def)

lemma Hystrix_closed:
  assumes "\<And>f. Do name f = f"
  shows "Hystrix Do name zero next = next"
  using assms by (intro ext) (auto simp: Hystrix_def split: prod.splits reply.splits)

subsection \<open>A breaker that counts\<close>

text \<open>A breaker that opens after some failures in a row, to run the middleware with.\<close>

record handy =
  hb_failures :: nat
  hb_calls :: nat

definition counting_breaker :: "nat \<Rightarrow> handy breaker" where
  "counting_breaker limit =
     \<lparr>br_Allow = \<lambda>w. (w, hb_failures w < limit), br_Success = \<lambda>w. w\<lparr>hb_failures := 0\<rparr>,
      br_Failure = \<lambda>w. w\<lparr>hb_failures := hb_failures w + 1\<rparr>\<rparr>"

fun requests :: "('w, 'req, 'o) endpoint \<Rightarrow> context_values \<Rightarrow> 'req list \<Rightarrow> 'w \<Rightarrow> 'w \<times> 'o reply list" where
  "requests e ctx [] w = (w, [])"
| "requests e ctx (r # rs) w =
     (let (w1, x) = e ctx r w; (w2, xs) = requests e ctx rs w1 in (w2, x # xs))"

definition counted_endpoint :: "('req \<Rightarrow> 'o reply) \<Rightarrow> (handy, 'req, 'o) endpoint" where
  "counted_endpoint f ctx req w = (w\<lparr>hb_calls := hb_calls w + 1\<rparr>, f req)"

lemma breaker_open:
  "limit \<le> hb_failures w \<Longrightarrow> requests (HandyBreaker (counting_breaker limit) zero e) ctx rs w
     = (w, replicate (length rs) (Reply zero (Some ErrCircuitOpen)))"
  by (induction rs) (simp_all add: HandyBreaker_def counting_breaker_def)

lemma breaker_calls:
  assumes "\<forall>r \<in> set rs. \<exists>x e. f r = Reply x (Some e)"
  shows "hb_calls (fst (requests (HandyBreaker (counting_breaker limit) zero (counted_endpoint f)) ctx rs w))
     = hb_calls w + min (length rs) (limit - hb_failures w)"
  using assms
proof (induction rs arbitrary: w)
  case (Cons r rs)
  then obtain x e where r: "f r = Reply x (Some e)" by auto
  show ?case
  proof (cases "hb_failures w < limit")
    case True
    let ?w = "w\<lparr>hb_calls := hb_calls w + 1, hb_failures := hb_failures w + 1\<rparr>"
    have "HandyBreaker (counting_breaker limit) zero (counted_endpoint f) ctx r w = (?w, Reply x (Some e))"
      using True r by (simp add: HandyBreaker_def counting_breaker_def counted_endpoint_def)
    with Cons.IH [of ?w] Cons.prems True show ?thesis by (simp add: split_beta Let_def)
  next
    case False
    then show ?thesis using breaker_open [of limit w zero _ ctx "r # rs"] by simp
  qed
qed simp

subsection \<open>Properties\<close>

text \<open>Behind a handy breaker that opens after \<open>limit\<close> failures in a row, an endpoint that always fails is
  called at most \<open>limit\<close> times however many requests come; the others are refused with
  \<open>ErrCircuitOpen\<close> and the zero response.\<close>

theorem HandyBreaker_opens:
  assumes "\<forall>r \<in> set rs. \<exists>x e. f r = Reply x (Some e)" and "hb_failures w = 0"
  shows "hb_calls (fst (requests (HandyBreaker (counting_breaker limit) zero (counted_endpoint f)) ctx rs w))
     = hb_calls w + min (length rs) limit"
  using breaker_calls [OF assms(1), of limit zero ctx w] assms(2) by simp

theorem HandyBreaker_opens_witness:
  "hb_calls (fst (requests (HandyBreaker (counting_breaker 2) 0 (counted_endpoint (\<lambda>r. Reply r (Some (ForeignError 7)))))
     [] [1 :: nat, 2, 3, 4] \<lparr>hb_failures = 0, hb_calls = 0\<rparr>)) = 2"
  using HandyBreaker_opens [of "[1 :: nat, 2, 3, 4]" "\<lambda>r. Reply r (Some (ForeignError 7))"
      "\<lparr>hb_failures = 0, hb_calls = 0\<rparr>" 2 0 "[]"] by (simp del: requests.simps)

text \<open>An endpoint that panics is counted as a success by \<open>HandyBreaker\<close>, because the deferred function
  finds a nil error: a breaker that opens after \<open>limit\<close> failures never opens for it, and every request
  reaches the endpoint and panics.\<close>

theorem HandyBreaker_panic_is_success:
  assumes "0 < limit" and "hb_failures w = 0"
  shows "requests (HandyBreaker (counting_breaker limit) zero (counted_endpoint (\<lambda>r. Panicked p))) ctx rs w
    = (w\<lparr>hb_calls := hb_calls w + length rs\<rparr>, replicate (length rs) (Panicked p))"
  using assms
proof (induction rs arbitrary: w)
  case (Cons r rs)
  let ?w = "w\<lparr>hb_calls := hb_calls w + 1\<rparr>"
  have "HandyBreaker (counting_breaker limit) zero (counted_endpoint (\<lambda>r. Panicked p)) ctx r w = (?w, Panicked p)"
    using Cons.prems by (simp add: HandyBreaker_def counting_breaker_def counted_endpoint_def)
  with Cons.IH [of ?w] Cons.prems show ?case by simp
qed simp

theorem HandyBreaker_panic_is_success_witness:
  "hb_calls (fst (requests (HandyBreaker (counting_breaker 1) () (counted_endpoint (\<lambda>r. Panicked ''boom'')))
     [] [5 :: nat, 6, 7] \<lparr>hb_failures = 0, hb_calls = 0\<rparr>)) = 3"
  using HandyBreaker_panic_is_success [of 1 "\<lparr>hb_failures = 0, hb_calls = 0\<rparr>" "()" "''boom''" "[]" "[5 :: nat, 6, 7]"]
  by (simp del: requests.simps)

text \<open>When the response type is an interface, a call that succeeds with a nil response comes out of
  \<open>Gobreaker\<close> as \<open>ConversionError\<close>, while any other successful response and every error pass
  unchanged.\<close>

theorem Gobreaker_nil_response:
  assumes "\<And>f. Execute f = f" and "next ctx req w = (w1, Reply resp err)"
  shows "Gobreaker Execute (\<lambda>x. x) (\<lambda>i. if i = None then None else Some i) None next ctx req w
    = (w1, if err \<noteq> None then Reply None err
           else if resp = None then Reply None (Some ConversionError) else Reply resp None)"
  using assms by (simp add: Gobreaker_def)

theorem Gobreaker_nil_response_witness:
  "Gobreaker (\<lambda>f. f) (\<lambda>x. x) (\<lambda>i. if i = None then None else Some i) None
     (\<lambda>ctx req w. (w, Reply None None)) [] () (0 :: nat) = (0, Reply (None :: nat option) (Some ConversionError))"
  using Gobreaker_nil_response [of "\<lambda>f. f" "\<lambda>ctx req w. (w, Reply None None)" "[]" "()" "0 :: nat" 0 None None]
  by simp

end
