(* ===== verification/Http.thy ===== *)
theory Http
  imports Endpoint
begin

text \<open>
  What the modelled code uses of package net/http, and transport/http/request_response_funcs.go:
  headers with their canonical keys, requests, responses being written, and the request functions that
  move data between a request and a context. A response commits its status and headers with the first
  \<open>WriteHeader\<close> or \<open>Write\<close>; later calls of \<open>WriteHeader\<close> have no effect, as documented.
\<close>

subsection \<open>Headers\<close>

type_synonym Header = "(string \<times> string list) list"

definition upper_char :: "char \<Rightarrow> char" where
  "upper_char c = (let n = (of_char c :: nat) in if 97 \<le> n \<and> n \<le> 122 then char_of (n - 32) else c)"

definition is_token_char :: "char \<Rightarrow> bool" where
  "is_token_char c = (let n = (of_char c :: nat) in
     (48 \<le> n \<and> n \<le> 57) \<or> (65 \<le> n \<and> n \<le> 90) \<or> (97 \<le> n \<and> n \<le> 122)
     \<or> n \<in> {33, 35, 36, 37, 38, 39, 42, 43, 45, 46, 94, 95, 96, 124, 126})"

fun canonical :: "bool \<Rightarrow> string \<Rightarrow> string" where
  "canonical start [] = []"
| "canonical start (c # cs) =
     (if start then upper_char c else lower_char c) # canonical (c = CHR ''-'') cs"

definition CanonicalHeaderKey :: "string \<Rightarrow> string" where
  "CanonicalHeaderKey s = (if list_all is_token_char s then canonical True s else s)"

definition Header_values :: "Header \<Rightarrow> string \<Rightarrow> string list" where
  "Header_values h k = (case map_of h (CanonicalHeaderKey k) of None \<Rightarrow> [] | Some vs \<Rightarrow> vs)"

definition Header_Get :: "Header \<Rightarrow> string \<Rightarrow> string" where
  "Header_Get h k = (case Header_values h k of [] \<Rightarrow> [] | v # _ \<Rightarrow> v)"

definition Header_Set :: "Header \<Rightarrow> string \<Rightarrow> string \<Rightarrow> Header" where
  "Header_Set h k v = AList.update (CanonicalHeaderKey k) [v] h"

definition Header_Add :: "Header \<Rightarrow> string \<Rightarrow> string \<Rightarrow> Header" where
  "Header_Add h k v = AList.update (CanonicalHeaderKey k) (Header_values h k @ [v]) h"

text \<open>The same key up to letter case.\<close>

definition same_key :: "string \<Rightarrow> string \<Rightarrow> bool" where
  "same_key k k' \<longleftrightarrow> CanonicalHeaderKey k = CanonicalHeaderKey k'"

lemma of_char_bound: "(of_char c :: nat) < 256"
  by simp

lemma of_upper: "(of_char (upper_char c) :: nat) = (let n = of_char c in if 97 \<le> n \<and> n \<le> 122 then n - 32 else n)"
proof (cases "97 \<le> (of_char c :: nat) \<and> (of_char c :: nat) \<le> 122")
  case True
  then have "((of_char c :: nat) - 32) mod 256 = of_char c - 32" using of_char_bound [of c] by (intro mod_less) linarith
  with True show ?thesis by (simp add: upper_char_def)
qed (auto simp: upper_char_def Let_def)

lemma of_lower: "(of_char (lower_char c) :: nat) = (let n = of_char c in if 65 \<le> n \<and> n \<le> 90 then n + 32 else n)"
  by (simp add: lower_char_def Let_def)

lemma char_by_code: "(of_char c :: nat) = of_char d \<Longrightarrow> c = d"
  by simp

lemma char_ranges: "upper_char (lower_char c) = upper_char c" "lower_char (upper_char c) = lower_char c"
  "upper_char (upper_char c) = upper_char c"
  by (rule char_by_code, simp only: of_upper of_lower Let_def, presburger)+

lemma dash_case: "upper_char c = CHR ''-'' \<longleftrightarrow> c = CHR ''-''" "lower_char c = CHR ''-'' \<longleftrightarrow> c = CHR ''-''"
proof -
  have d: "x = CHR ''-'' \<longleftrightarrow> (of_char x :: nat) = 45" for x
    using char_by_code [of x "CHR ''-''"] by auto
  show "upper_char c = CHR ''-'' \<longleftrightarrow> c = CHR ''-''" "lower_char c = CHR ''-'' \<longleftrightarrow> c = CHR ''-''"
    unfolding d by (auto simp: of_upper of_lower Let_def)
qed

lemma token_case [simp]: "is_token_char (upper_char c) = is_token_char c" "is_token_char (lower_char c) = is_token_char c"
proof -
  have u: "is_token_char x" if "65 \<le> (of_char x :: nat)" "(of_char x :: nat) \<le> 90" for x
    using that by (simp add: is_token_char_def)
  have l: "is_token_char x" if "97 \<le> (of_char x :: nat)" "(of_char x :: nat) \<le> 122" for x
    using that by (simp add: is_token_char_def)
  show "is_token_char (upper_char c) = is_token_char c"
  proof (cases "97 \<le> (of_char c :: nat) \<and> (of_char c :: nat) \<le> 122")
    case True
    then have "65 \<le> (of_char (upper_char c) :: nat)" "(of_char (upper_char c) :: nat) \<le> 90"
      by (simp_all add: of_upper Let_def) linarith+
    with u [of "upper_char c"] l [of c] True show ?thesis by simp
  qed (auto simp: upper_char_def Let_def)
  show "is_token_char (lower_char c) = is_token_char c"
  proof (cases "65 \<le> (of_char c :: nat) \<and> (of_char c :: nat) \<le> 90")
    case True
    then have "97 \<le> (of_char (lower_char c) :: nat)" "(of_char (lower_char c) :: nat) \<le> 122"
      by (simp_all add: of_lower Let_def)
    with l [of "lower_char c"] u [of c] True show ?thesis by simp
  qed (auto simp: lower_char_def Let_def)
qed

lemma canonical_idem: "canonical b (canonical b s) = canonical b s"
  by (induction s arbitrary: b) (simp_all add: char_ranges dash_case)

lemma canonical_tokens: "list_all is_token_char (canonical b s) = list_all is_token_char s"
  by (induction s arbitrary: b) simp_all

lemma canonical_lower: "canonical b (map lower_char s) = canonical b s"
  by (induction s arbitrary: b) (simp_all add: char_ranges dash_case)

lemma CanonicalHeaderKey_idem [simp]: "CanonicalHeaderKey (CanonicalHeaderKey k) = CanonicalHeaderKey k"
  by (simp add: CanonicalHeaderKey_def canonical_idem canonical_tokens)

lemma canonical_EqualFold: "EqualFold s t \<Longrightarrow> list_all is_token_char s \<Longrightarrow> CanonicalHeaderKey s = CanonicalHeaderKey t"
proof -
  assume f: "EqualFold s t" and t: "list_all is_token_char s"
  have "list_all is_token_char (map lower_char xs) = list_all is_token_char xs" for xs
    by (induction xs) simp_all
  then have "list_all is_token_char t" using f t by (metis EqualFold_def ToLower_def)
  then show ?thesis using f t canonical_lower by (metis CanonicalHeaderKey_def EqualFold_def ToLower_def)
qed

lemma Header_values_Set [simp]:
  "Header_values (Header_Set h k v) k' = (if same_key k' k then [v] else Header_values h k')"
  by (simp add: Header_values_def Header_Set_def same_key_def)

lemma Header_values_Add [simp]:
  "Header_values (Header_Add h k v) k' = (if same_key k' k then Header_values h k' @ [v] else Header_values h k')"
  by (simp add: Header_values_def Header_Add_def same_key_def)

lemma Header_Get_Set [simp]:
  "Header_Get (Header_Set h k v) k' = (if same_key k' k then v else Header_Get h k')"
  by (simp add: Header_Get_def)

lemma same_key_refl [simp]: "same_key k k"
  by (simp add: same_key_def)

subsection \<open>Requests\<close>

record http_request =
  r_Method :: string
  r_RequestURI :: string
  r_URL_Path :: string
  r_Proto :: string
  r_Host :: string
  r_RemoteAddr :: string
  r_Header :: Header
  r_Body :: string

type_synonym 'w RequestFunc = "context_values \<Rightarrow> http_request \<Rightarrow> 'w \<Rightarrow> 'w \<times> http_request \<times> context_values"

definition SetRequestHeader :: "string \<Rightarrow> string \<Rightarrow> 'w RequestFunc" where
  "SetRequestHeader key val ctx r w = (w, r\<lparr>r_Header := Header_Set (r_Header r) key val\<rparr>, ctx)"

text \<open>The keys of this package, in the order of their declaration.\<close>

definition http_context_keys :: "string list" where
  "http_context_keys =
     [''http.Method'', ''http.URI'', ''http.Path'', ''http.Proto'', ''http.Host'', ''http.RemoteAddr'',
      ''http.XForwardedFor'', ''http.XForwardedProto'', ''http.Authorization'', ''http.Referer'',
      ''http.UserAgent'', ''http.XRequestID'', ''http.Accept'']"

definition ContextKeyRequestAuthorization :: string where
  "ContextKeyRequestAuthorization = ''http.Authorization''"

definition ContextKeyResponseHeaders :: string where
  "ContextKeyResponseHeaders = ''http.ResponseHeaders''"

definition ContextKeyResponseSize :: string where
  "ContextKeyResponseSize = ''http.ResponseSize''"

definition request_values :: "http_request \<Rightarrow> (string \<times> string) list" where
  "request_values r = zip http_context_keys
     [r_Method r, r_RequestURI r, r_URL_Path r, r_Proto r, r_Host r, r_RemoteAddr r,
      Header_Get (r_Header r) ''X-Forwarded-For'', Header_Get (r_Header r) ''X-Forwarded-Proto'',
      Header_Get (r_Header r) ''Authorization'', Header_Get (r_Header r) ''Referer'',
      Header_Get (r_Header r) ''User-Agent'', Header_Get (r_Header r) ''X-Request-Id'',
      Header_Get (r_Header r) ''Accept'']"

definition PopulateRequestContext ::
  "((string \<times> string) list \<Rightarrow> (string \<times> string) list) \<Rightarrow> 'w RequestFunc" where
  "PopulateRequestContext it ctx r w =
     (w, r, fold (\<lambda>(k, v) ctx. WithValue ctx k (AnyString v)) (it (request_values r)) ctx)"

lemma request_values_keys: "map fst (request_values r) = http_context_keys"
  by (simp add: request_values_def http_context_keys_def)

lemma string_Value_WithValue [simp]:
  "string_Value (WithValue ctx a v) k
     = (if k = a then (case v of AnyString s \<Rightarrow> Some s | _ \<Rightarrow> None) else string_Value ctx k)"
  by (simp add: string_Value_def context_Value_def WithValue_def)

lemma populate_fold:
  "distinct (map fst xs) \<Longrightarrow> string_Value (fold (\<lambda>(k, v) ctx. WithValue ctx k (AnyString v)) xs ctx) k
     = (case map_of xs k of Some v \<Rightarrow> Some v | None \<Rightarrow> string_Value ctx k)"
proof (induction xs arbitrary: ctx)
  case (Cons x xs)
  obtain a b where x: "x = (a, b)" by (rule prod.exhaust)
  have "map_of xs a = None" using Cons.prems x by (auto simp: map_of_eq_None_iff)
  with Cons x show ?case by (cases "k = a") (simp_all split: option.splits)
qed simp

lemma PopulateRequestContext_value:
  assumes "iterates it" and "PopulateRequestContext it ctx r w = (w', r', ctx')"
  shows "w' = w \<and> r' = r \<and> string_Value ctx' k
    = (case map_of (request_values r) k of Some v \<Rightarrow> Some v | None \<Rightarrow> string_Value ctx k)"
proof -
  have d: "distinct (map fst (request_values r))"
    unfolding request_values_keys by (simp add: http_context_keys_def)
  have "mset (map fst (it (request_values r))) = mset (map fst (request_values r))"
    by (rule iterates_map_mset [OF assms(1)])
  then have d': "distinct (map fst (it (request_values r)))"
    using d mset_eq_imp_distinct_iff by metis
  have "map_of (it (request_values r)) = map_of (request_values r)"
    using d' iterates_mset [OF assms(1)] by (rule map_of_distinct_mset)
  then show ?thesis using assms(2) populate_fold [OF d', of ctx k] by (auto simp: PopulateRequestContext_def)
qed

lemma PopulateRequestContext_authorization:
  assumes "iterates it" and "PopulateRequestContext it ctx r w = (w', r', ctx')"
  shows "string_Value ctx' ContextKeyRequestAuthorization = Some (Header_Get (r_Header r) ''Authorization'')"
  using PopulateRequestContext_value [OF assms, of ContextKeyRequestAuthorization]
  by (simp add: request_values_def http_context_keys_def ContextKeyRequestAuthorization_def)

end
