(* ===== verification/Basic_Auth.thy ===== *)
theory Basic_Auth
  imports Http
begin

text \<open>
  Package auth/basic, file middleware.go: HTTP basic authentication as a middleware. The encoding
  base64 of the standard library is modelled (line breaks are skipped, padding is required); the hash
  SHA-256 is a parameter of which nothing is assumed.
\<close>

subsection \<open>Base64\<close>

definition b64_alphabet :: string where
  "b64_alphabet = ''ABCDEFGHIJKLMNOPQRSTUVWXYZabcdefghijklmnopqrstuvwxyz0123456789+/''"

definition b64_char :: "nat \<Rightarrow> char" where
  "b64_char n = b64_alphabet ! n"

definition b64_value :: "char \<Rightarrow> nat option" where
  "b64_value c = (if c \<in> set b64_alphabet then Some (length (takeWhile (\<lambda>x. x \<noteq> c) b64_alphabet)) else None)"

definition byte :: "nat \<Rightarrow> char" where
  "byte n = char_of n"

fun b64_encode :: "string \<Rightarrow> string" where
  "b64_encode [] = []"
| "b64_encode [x] = (let a = of_char x in
     [b64_char (a div 4), b64_char (a mod 4 * 16), CHR ''='', CHR ''=''])"
| "b64_encode [x, y] = (let a = of_char x; b = of_char y in
     [b64_char (a div 4), b64_char (a mod 4 * 16 + b div 16), b64_char (b mod 16 * 4), CHR ''=''])"
| "b64_encode (x # y # z # s) = (let a = of_char x; b = of_char y; c = of_char z in
     b64_char (a div 4) # b64_char (a mod 4 * 16 + b div 16) # b64_char (b mod 16 * 4 + c div 64)
     # b64_char (c mod 64) # b64_encode s)"

fun b64_quads :: "string \<Rightarrow> string option" where
  "b64_quads [] = Some []"
| "b64_quads (p # q # r # t # s) =
     (case (b64_value p, b64_value q) of
        (Some a, Some b) \<Rightarrow>
          if r = CHR ''='' \<and> t = CHR ''='' \<and> s = [] then Some [byte (a * 4 + b div 16)]
          else
            (case b64_value r of
               None \<Rightarrow> None
             | Some c \<Rightarrow>
                 if t = CHR ''='' \<and> s = [] then Some [byte (a * 4 + b div 16), byte (b mod 16 * 16 + c div 4)]
                 else
                   (case (b64_value t, b64_quads s) of
                      (Some d, Some rest) \<Rightarrow>
                        Some (byte (a * 4 + b div 16) # byte (b mod 16 * 16 + c div 4) # byte (c mod 4 * 64 + d) # rest)
                    | _ \<Rightarrow> None))
      | _ \<Rightarrow> None)"
| "b64_quads _ = None"

definition b64_DecodeString :: "string \<Rightarrow> string option" where
  "b64_DecodeString s = b64_quads (filter (\<lambda>c. c \<noteq> CHR 0x0A \<and> c \<noteq> CHR 0x0D) s)"

subsection \<open>The middleware\<close>

definition StatusUnauthorized :: int where "StatusUnauthorized = 401"

definition AuthError_StatusCode :: int where "AuthError_StatusCode = StatusUnauthorized"

definition AuthError_Error :: string where "AuthError_Error = ''Unauthorized''"

text \<open>\<open>quote\<close> is the verb \<open>%q\<close>.\<close>

definition AuthError_Headers :: "(string \<Rightarrow> string) \<Rightarrow> string \<Rightarrow> Header" where
  "AuthError_Headers quote realm =
     [(''Content-Type'', [''text/plain; charset=utf-8'']),
      (''X-Content-Type-Options'', [''nosniff'']),
      (''WWW-Authenticate'', [''Basic realm='' @ quote realm])]"

fun IndexByte :: "string \<Rightarrow> char \<Rightarrow> int" where
  "IndexByte s c = (if c \<in> set s then int (length (takeWhile (\<lambda>x. x \<noteq> c) s)) else -1)"

definition parseBasicAuth :: "string \<Rightarrow> (string \<times> string) option" where
  "parseBasicAuth auth =
     (let prefix = ''Basic '' in
      if \<not> HasPrefix auth prefix then None
      else case b64_DecodeString (drop (length prefix) auth) of
          None \<Rightarrow> None
        | Some c \<Rightarrow>
            let s = IndexByte c (CHR '':'') in
            if s < 0 then None else Some (take (nat s) c, drop (nat s + 1) c))"

definition toHashSlice :: "(string \<Rightarrow> string) \<Rightarrow> string \<Rightarrow> string" where
  "toHashSlice sha256 s = sha256 s"

text \<open>Both comparisons look at every byte: the differences are collected with OR.\<close>

definition ConstantTimeCompare :: "string \<Rightarrow> string \<Rightarrow> int" where
  "ConstantTimeCompare x y =
     (if length x \<noteq> length y then 0
      else
        let v = fold (\<lambda>(a, b) v. or v (xor (of_nat (of_char a) :: 8 word) (of_nat (of_char b)))) (zip x y) 0
        in if v = 0 then 1 else 0)"

definition AuthMiddleware :: "(string \<Rightarrow> string) \<Rightarrow> string \<Rightarrow> string \<Rightarrow> string \<Rightarrow> 'o \<Rightarrow> ('w, 'req, 'o) middleware" where
  "AuthMiddleware sha256 requiredUser requiredPassword realm zero =
     (let requiredUserBytes = toHashSlice sha256 requiredUser;
          requiredPasswordBytes = toHashSlice sha256 requiredPassword
      in (\<lambda>nxt ctx request w.
        case string_Value ctx ContextKeyRequestAuthorization of
          None \<Rightarrow> (w, Reply zero (Some (AuthError realm)))
        | Some auth \<Rightarrow>
            (case parseBasicAuth auth of
               None \<Rightarrow> (w, Reply zero (Some (AuthError realm)))
             | Some (givenUser, givenPassword) \<Rightarrow>
                 let givenUserBytes = toHashSlice sha256 givenUser;
                     givenPasswordBytes = toHashSlice sha256 givenPassword
                 in if ConstantTimeCompare givenUserBytes requiredUserBytes = 0
                      \<or> ConstantTimeCompare givenPasswordBytes requiredPasswordBytes = 0
                    then (w, Reply zero (Some (AuthError realm)))
                    else nxt ctx request w)))"

subsection \<open>Base64 round trip\<close>

lemma b64_table: "\<forall>n \<in> {0..<64}. b64_value (b64_char n) = Some n \<and> b64_char n \<notin> {CHR ''='', CHR 0x0A, CHR 0x0D}"
  unfolding set_upt [symmetric] by code_simp

lemma b64_value_char: "n < 64 \<Longrightarrow> b64_value (b64_char n) = Some n"
  using b64_table by (metis atLeastLessThan_iff zero_le)

lemma b64_char_plain: "n < 64 \<Longrightarrow> b64_char n \<notin> {CHR ''='', CHR 0x0A, CHR 0x0D}"
  using b64_table by (metis atLeastLessThan_iff zero_le)

lemma byte_of_char [simp]: "byte (of_char c) = c"
  by (simp add: byte_def)

lemma sextets:
  fixes a b c :: nat
  assumes "a < 256" and "b < 256" and "c < 256"
  shows "a div 4 < 64" "a mod 4 * 16 < 64" "a mod 4 * 16 + b div 16 < 64" "b mod 16 * 4 < 64"
    "b mod 16 * 4 + c div 64 < 64" "c mod 64 < 64"
    "a div 4 * 4 + (a mod 4 * 16 + b div 16) div 16 = a"
    "(a mod 4 * 16 + b div 16) mod 16 * 16 + (b mod 16 * 4 + c div 64) div 4 = b"
    "(b mod 16 * 4 + c div 64) mod 4 * 64 + c mod 64 = c"
    "(a mod 4 * 16 + b div 16) mod 16 * 16 + (b mod 16 * 4) div 4 = b"
proof -
  have b: "b div 16 < 16" "b mod 16 < 16" and c: "c div 64 < 4" "c mod 64 < 64" using assms by auto
  have m: "(k * 16 + r) div 16 = k" "(k * 16 + r) mod 16 = r" if "r < 16" for k r :: nat
    using that by simp_all
  have n: "(k * 4 + r) div 4 = k" "(k * 4 + r) mod 4 = r" if "r < 4" for k r :: nat
    using that by simp_all
  have a: "a mod 4 < 4" by simp
  show "a div 4 < 64" using assms by auto
  show "a mod 4 * 16 < 64" using a by linarith
  show "a mod 4 * 16 + b div 16 < 64" using a b by linarith
  show "b mod 16 * 4 < 64" "b mod 16 * 4 + c div 64 < 64" using b c by linarith+
  show "c mod 64 < 64" by simp
  show "a div 4 * 4 + (a mod 4 * 16 + b div 16) div 16 = a" by (simp only: m [OF b(1)] div_mult_mod_eq)
  show "(a mod 4 * 16 + b div 16) mod 16 * 16 + (b mod 16 * 4 + c div 64) div 4 = b"
    by (simp only: m [OF b(1)] n [OF c(1)] div_mult_mod_eq)
  show "(b mod 16 * 4 + c div 64) mod 4 * 64 + c mod 64 = c" by (simp only: n [OF c(1)] div_mult_mod_eq)
  show "(a mod 4 * 16 + b div 16) mod 16 * 16 + (b mod 16 * 4) div 4 = b"
    by (simp add: mod_less [OF b(1)])
qed

lemma b64_quads_encode: "b64_quads (b64_encode s) = Some s"
proof (induction s rule: b64_encode.induct)
  case (2 x)
  note s = sextets [OF of_char_bound [of x] of_char_bound of_char_bound]
  show ?case using s by (simp add: Let_def b64_value_char)
next
  case (3 x y)
  note s = sextets [OF of_char_bound [of x] of_char_bound [of y] of_char_bound]
  show ?case using s b64_char_plain [of "of_char y mod 16 * 4"] by (simp add: Let_def b64_value_char)
next
  case (4 x y z s)
  note s = sextets [OF of_char_bound [of x] of_char_bound [of y] of_char_bound [of z]]
  show ?case using s 4 b64_char_plain [of "of_char y mod 16 * 4 + of_char z div 64"]
      b64_char_plain [of "of_char z mod 64"] by (simp add: Let_def b64_value_char)
qed simp

lemma b64_encode_no_breaks: "filter (\<lambda>c. c \<noteq> CHR 0x0A \<and> c \<noteq> CHR 0x0D) (b64_encode s) = b64_encode s"
proof -
  have "n < 64 \<Longrightarrow> b64_char n \<noteq> CHR 0x0A \<and> b64_char n \<noteq> CHR 0x0D" for n
    using b64_char_plain [of n] by simp
  then show ?thesis
    by (induction s rule: b64_encode.induct)
      (simp_all add: Let_def sextets [OF of_char_bound of_char_bound of_char_bound])
qed

lemma b64_round_trip: "b64_DecodeString (b64_encode s) = Some s"
  by (simp add: b64_DecodeString_def b64_encode_no_breaks b64_quads_encode)

subsection \<open>Comparing\<close>

lemma xor_zero_iff: "xor a b = 0 \<longleftrightarrow> a = (b :: 8 word)"
  by (metis xor.assoc xor.right_neutral xor_self_eq)

lemma or_fold_zero:
  fixes v :: "8 word"
  shows "fold (\<lambda>(a, b) v. or v (xor (of_nat (of_char a)) (of_nat (of_char b)))) xs v = 0
    \<longleftrightarrow> v = 0 \<and> (\<forall>(a, b) \<in> set xs. (of_nat (of_char a) :: 8 word) = of_nat (of_char b))"
proof (induction xs arbitrary: v)
  case (Cons x xs)
  obtain a b where x: "x = (a, b)" by (rule prod.exhaust)
  have "or v (xor (of_nat (of_char a)) (of_nat (of_char b))) = 0 \<longleftrightarrow> v = 0 \<and> (of_nat (of_char a) :: 8 word) = of_nat (of_char b)"
    by (simp add: or_eq_0_iff xor_zero_iff)
  with Cons x show ?case by auto
qed simp

lemma of_char_word_inject: "(of_nat (of_char a) :: 8 word) = of_nat (of_char b) \<longleftrightarrow> a = b"
proof -
  have "unat (of_nat (of_char c) :: 8 word) = of_char c" for c :: char
    by (simp add: unat_of_nat)
  then show ?thesis by (metis of_char_eq_iff)
qed

lemma zip_all_eq: "length x = length y \<Longrightarrow> (\<forall>(a, b) \<in> set (zip x y). a = b) \<longleftrightarrow> x = y"
  by (induction x y rule: list_induct2) auto

lemma ConstantTimeCompare_iff: "ConstantTimeCompare x y = (if x = y then 1 else 0)"
proof (cases "length x = length y")
  case True
  then show ?thesis using zip_all_eq [OF True]
    by (simp add: ConstantTimeCompare_def or_fold_zero of_char_word_inject Let_def)
qed (auto simp: ConstantTimeCompare_def)

subsection \<open>Properties\<close>

lemma IndexByte_split: "CHR '':'' \<notin> set u \<Longrightarrow> IndexByte (u @ CHR '':'' # p) (CHR '':'') = int (length u)"
  by (induction u) (auto split: if_splits)

lemma parseBasicAuth_user: "parseBasicAuth auth = Some (u, p) \<Longrightarrow> CHR '':'' \<notin> set u"
  by (auto simp: parseBasicAuth_def Let_def takeWhile_eq_take [symmetric] dest!: set_takeWhileD
      split: if_splits option.splits)

definition basic_check :: "(string \<Rightarrow> string) \<Rightarrow> string \<Rightarrow> string \<Rightarrow> string \<Rightarrow> ('w, 'req) check" where
  "basic_check sha256 user pw realm ctx req w =
     (w, case string_Value ctx ContextKeyRequestAuthorization of
        None \<Rightarrow> Inl (AuthError realm)
      | Some auth \<Rightarrow> (case parseBasicAuth auth of
            None \<Rightarrow> Inl (AuthError realm)
          | Some (u, p) \<Rightarrow> if sha256 u = sha256 user \<and> sha256 p = sha256 pw then Inr ctx else Inl (AuthError realm)))"

interpretation basic: guard "AuthMiddleware sha256 user pw realm zero" "basic_check sha256 user pw realm" zero
  by unfold_locales (auto simp: AuthMiddleware_def basic_check_def guarded_def toHashSlice_def
      ConstantTimeCompare_iff Let_def split: option.splits)

definition basic_accepts :: "(string \<Rightarrow> string) \<Rightarrow> string \<Rightarrow> string \<Rightarrow> context_values \<Rightarrow> bool" where
  "basic_accepts sha256 user pw ctx \<longleftrightarrow>
     (\<exists>auth u p. string_Value ctx ContextKeyRequestAuthorization = Some auth
        \<and> parseBasicAuth auth = Some (u, p) \<and> sha256 u = sha256 user \<and> sha256 p = sha256 pw)"

lemma AuthMiddleware_result:
  "AuthMiddleware sha256 user pw realm zero next ctx req w
     = (if basic_accepts sha256 user pw ctx then next ctx req w else (w, Reply zero (Some (AuthError realm))))"
  unfolding basic.guards by (auto simp: guarded_def basic_check_def basic_accepts_def split: option.splits)

text \<open>The credentials in a header that a client builds from a user name without a colon and any password
  come out of \<open>parseBasicAuth\<close> unchanged.\<close>

theorem parseBasicAuth_round_trip:
  assumes "CHR '':'' \<notin> set user"
  shows "parseBasicAuth (''Basic '' @ b64_encode (user @ '':'' @ password)) = Some (user, password)"
proof -
  have "HasPrefix (''Basic '' @ s) ''Basic ''" for s by (rule HasPrefix_append)
  with IndexByte_split [OF assms, of password] show ?thesis
    unfolding parseBasicAuth_def Let_def by (simp add: b64_round_trip del: IndexByte.simps)
qed

theorem parseBasicAuth_round_trip_witness:
  "parseBasicAuth ''Basic QWxhZGRpbjpvcGVuIHNlc2FtZQ=='' = Some (''Aladdin'', ''open sesame'')"
proof -
  have "b64_encode (''Aladdin'' @ '':'' @ ''open sesame'') = ''QWxhZGRpbjpvcGVuIHNlc2FtZQ==''" by code_simp
  with parseBasicAuth_round_trip [of "''Aladdin''" "''open sesame''"] show ?thesis by simp
qed

text \<open>C14: The middleware passes a request on exactly if its header holds a user and a password with the
  required hashes, and otherwise refuses it with \<open>AuthError\<close> and does not call the endpoint. A required
  user name with a colon in it can only be passed with a collision of the hash.\<close>

theorem AuthMiddleware_correct:
  "AuthMiddleware sha256 user pw realm zero next ctx req w
      = (if basic_accepts sha256 user pw ctx then next ctx req w else (w, Reply zero (Some (AuthError realm))))
   \<and> (basic_accepts sha256 user pw ctx \<longrightarrow> CHR '':'' \<in> set user \<longrightarrow> (\<exists>u. u \<noteq> user \<and> sha256 u = sha256 user))"
proof (intro conjI impI)
  show "AuthMiddleware sha256 user pw realm zero next ctx req w
      = (if basic_accepts sha256 user pw ctx then next ctx req w else (w, Reply zero (Some (AuthError realm))))"
    by (rule AuthMiddleware_result)
  assume "basic_accepts sha256 user pw ctx" and "CHR '':'' \<in> set user"
  then show "\<exists>u. u \<noteq> user \<and> sha256 u = sha256 user"
    unfolding basic_accepts_def using parseBasicAuth_user by metis
qed

definition aladdin :: context_values where
  "aladdin = [(ContextKeyRequestAuthorization, AnyString ''Basic QWxhZGRpbjpvcGVuIHNlc2FtZQ=='')]"

theorem AuthMiddleware_correct_witness:
  "AuthMiddleware (\<lambda>s. s) ''Aladdin'' ''open sesame'' ''r'' 0 (\<lambda>ctx req w. (w + 1, Reply 7 None)) aladdin () 0
     = (1 :: nat, Reply (7 :: nat) None)
   \<and> \<not> basic_accepts (\<lambda>s. s) ''Ala:ddin'' ''open sesame'' aladdin"
proof -
  have "b64_DecodeString ''QWxhZGRpbjpvcGVuIHNlc2FtZQ=='' = Some ''Aladdin:open sesame''" by code_simp
  then have "parseBasicAuth ''Basic QWxhZGRpbjpvcGVuIHNlc2FtZQ=='' = Some (''Aladdin'', ''open sesame'')"
    by (simp add: parseBasicAuth_def HasPrefix_def)
  then have "basic_accepts (\<lambda>s. s) ''Aladdin'' ''open sesame'' aladdin"
    by (simp add: basic_accepts_def aladdin_def string_Value_def context_Value_def)
  then show ?thesis
    using AuthMiddleware_correct [of "\<lambda>s. s" "''Aladdin''" "''open sesame''" "''r''" "0 :: nat" "\<lambda>ctx req w. (w + 1, Reply 7 None)" aladdin "()" "0 :: nat"]
      AuthMiddleware_correct [of "\<lambda>s. s" "''Ala:ddin''" "''open sesame''" "''r''" "0 :: nat" "\<lambda>ctx req w. (w + 1, Reply 7 None)" aladdin "()" "0 :: nat"]
    by simp
qed

end
