(* ===== verification/Jwt_Auth.thy ===== *)
theory Jwt_Auth
  imports Basic_Auth Rate_Limits
begin

text \<open>
  Package auth/jwt, files middleware.go and transport.go: signing and parsing JSON web tokens in
  middlewares, and moving a token between a context and the headers of a transport. The library
  golang-jwt is a record of parameters: making, signing and parsing tokens, and the bits of its
  validation errors. What the library promises is the locale \<open>jwt_library\<close>.

  The last part composes a service of all the guards of the development.
\<close>

definition JWTContextKey :: string where "JWTContextKey = ''jwt.JWTToken''"
definition JWTClaimsContextKey :: string where "JWTClaimsContextKey = ''jwt.JWTClaims''"

datatype jwt_err = ErrTokenContextMissing | ErrTokenInvalid | ErrTokenExpired | ErrTokenMalformed
  | ErrTokenNotActive | ErrUnexpectedSigningMethod

fun jwt_error :: "jwt_err \<Rightarrow> go_error" where
  "jwt_error ErrTokenContextMissing = ErrorText ''token up for parsing was not passed through the context''"
| "jwt_error ErrTokenInvalid = ErrorText ''JWT was invalid''"
| "jwt_error ErrTokenExpired = ErrorText ''JWT is expired''"
| "jwt_error ErrTokenMalformed = ErrorText ''JWT is malformed''"
| "jwt_error ErrTokenNotActive = ErrorText ''token is not valid yet''"
| "jwt_error ErrUnexpectedSigningMethod = ErrorText ''unexpected signing method''"

type_synonym claims = "(string \<times> string) list"

record 'm token =
  tok_Method :: 'm
  tok_Header :: "(string \<times> string) list"
  tok_Claims :: claims
  tok_Valid :: bool

text \<open>An error of the library: a \<open>ValidationError\<close> with its bits and inner error, or any other.\<close>

datatype parse_error = ValidationError "32 word" "go_error option" go_error | OtherError go_error

type_synonym ('m, 'k) keyfunc = "'m token \<Rightarrow> go_error + 'k"

record ('m, 'k) jwt_lib =
  NewWithClaims :: "'m \<Rightarrow> claims \<Rightarrow> 'm token"
  SignedString :: "'m token \<Rightarrow> 'k \<Rightarrow> go_error + string"
  ParseWithClaims :: "string \<Rightarrow> claims \<Rightarrow> ('m, 'k) keyfunc \<Rightarrow> parse_error + 'm token"
  ValidationErrorMalformed :: "32 word"
  ValidationErrorExpired :: "32 word"
  ValidationErrorNotValidYet :: "32 word"

definition NewSigner :: "('m, 'k) jwt_lib \<Rightarrow> string \<Rightarrow> 'k \<Rightarrow> 'm \<Rightarrow> claims \<Rightarrow> 'o \<Rightarrow> ('w, 'req, 'o) middleware" where
  "NewSigner lib kid key method claims zero next ctx request w =
     (let token = NewWithClaims lib method claims;
          token1 = token\<lparr>tok_Header := AList.update ''kid'' kid (tok_Header token)\<rparr>
      in case SignedString lib token1 key of
           Inl err \<Rightarrow> (w, Reply zero (Some err))
         | Inr tokenString \<Rightarrow> next (WithValue ctx JWTContextKey (AnyString tokenString)) request w)"

definition MapClaimsFactory :: claims where "MapClaimsFactory = []"
definition StandardClaimsFactory :: claims where "StandardClaimsFactory = []"

definition method_keyfunc :: "('m, 'k) keyfunc \<Rightarrow> 'm \<Rightarrow> ('m, 'k) keyfunc" where
  "method_keyfunc keyFunc method token =
     (if tok_Method token \<noteq> method then Inl (jwt_error ErrUnexpectedSigningMethod) else keyFunc token)"

definition error_text :: "parse_error \<Rightarrow> go_error" where
  "error_text e = (case e of ValidationError _ _ err \<Rightarrow> err | OtherError err \<Rightarrow> err)"

definition parse_failure :: "('m, 'k) jwt_lib \<Rightarrow> parse_error \<Rightarrow> go_error" where
  "parse_failure lib e =
     (case e of
        ValidationError errs inner err \<Rightarrow>
          if and errs (ValidationErrorMalformed lib) \<noteq> 0 then jwt_error ErrTokenMalformed
          else if and errs (ValidationErrorExpired lib) \<noteq> 0 then jwt_error ErrTokenExpired
          else if and errs (ValidationErrorNotValidYet lib) \<noteq> 0 then jwt_error ErrTokenNotActive
          else (case inner of Some e1 \<Rightarrow> e1 | None \<Rightarrow> err)
      | OtherError err \<Rightarrow> err)"

definition NewParser :: "('m, 'k) jwt_lib \<Rightarrow> ('m, 'k) keyfunc \<Rightarrow> 'm \<Rightarrow> claims \<Rightarrow> 'o \<Rightarrow> ('w, 'req, 'o) middleware" where
  "NewParser lib keyFunc method newClaims zero next ctx request w =
     (case string_Value ctx JWTContextKey of
        None \<Rightarrow> (w, Reply zero (Some (jwt_error ErrTokenContextMissing)))
      | Some tokenString \<Rightarrow>
          (case ParseWithClaims lib tokenString newClaims (method_keyfunc keyFunc method) of
             Inl err \<Rightarrow> (w, Reply zero (Some (parse_failure lib err)))
           | Inr token \<Rightarrow>
               if \<not> tok_Valid token then (w, Reply zero (Some (jwt_error ErrTokenInvalid)))
               else next (WithValue ctx JWTClaimsContextKey (AnyClaims (tok_Claims token))) request w))"

subsection \<open>Tokens in headers\<close>

definition extractTokenFromAuthHeader :: "string \<Rightarrow> string \<times> bool" where
  "extractTokenFromAuthHeader val =
     (let authHeaderParts = strings_Split val (CHR '' '') in
      if length authHeaderParts \<noteq> 2 \<or> \<not> EqualFold (authHeaderParts ! 0) ''bearer'' then ([], False)
      else (authHeaderParts ! 1, True))"

definition generateAuthHeaderFromToken :: "string \<Rightarrow> string" where
  "generateAuthHeaderFromToken token = ''Bearer '' @ token"

definition HTTPToContext :: "'w RequestFunc" where
  "HTTPToContext ctx r w =
     (let (token, ok) = extractTokenFromAuthHeader (Header_Get (r_Header r) ''Authorization'') in
      (w, r, if \<not> ok then ctx else WithValue ctx JWTContextKey (AnyString token)))"

definition ContextToHTTP :: "'w RequestFunc" where
  "ContextToHTTP ctx r w =
     (case string_Value ctx JWTContextKey of
        None \<Rightarrow> (w, r, ctx)
      | Some token \<Rightarrow>
          (w, r\<lparr>r_Header := Header_Add (r_Header r) ''Authorization'' (generateAuthHeaderFromToken token)\<rparr>, ctx))"

text \<open>
  The request of package fasthttp is a list of header lines and a list of user values. \<open>FastToContext\<close>
  copies the lines into a map under the keys as they are, the last line of a key winning.
\<close>

record fast_ctx =
  fc_header :: "(string \<times> string) list"
  fc_values :: context_values

definition FastToContext :: "fast_ctx \<Rightarrow> fast_ctx" where
  "FastToContext c =
     (let header = fold (\<lambda>(key, v) h. AList.update key [v] h) (fc_header c) [];
          (token, ok) = extractTokenFromAuthHeader (Header_Get header ''Authorization'')
      in if ok then c\<lparr>fc_values := WithValue (fc_values c) JWTContextKey (AnyString token)\<rparr> else c)"

definition ContextToFast :: "(string \<Rightarrow> string) \<Rightarrow> fast_ctx \<Rightarrow> fast_ctx" where
  "ContextToFast normKey c =
     (case string_Value (fc_values c) JWTContextKey of
        None \<Rightarrow> c
      | Some token \<Rightarrow> c\<lparr>fc_header := fc_header c @ [(normKey ''Authorization'', generateAuthHeaderFromToken token)]\<rparr>)"

text \<open>Metadata of gRPC: a map from keys to lists of values. Indexing an empty list panics.\<close>

type_synonym MD = "(string \<times> string list) list"

definition GRPCToContext :: "context_values \<Rightarrow> MD \<Rightarrow> context_values outcome" where
  "GRPCToContext ctx md =
     (case map_of md ''authorization'' of
        None \<Rightarrow> Ret ctx
      | Some authHeader \<Rightarrow>
          (case authHeader of
             [] \<Rightarrow> Panic ''index out of range''
           | h # _ \<Rightarrow>
               let (token, ok) = extractTokenFromAuthHeader h in
               Ret (if ok then WithValue ctx JWTContextKey (AnyString token) else ctx)))"

definition ContextToGRPC :: "context_values \<Rightarrow> MD \<Rightarrow> MD" where
  "ContextToGRPC ctx md =
     (case string_Value ctx JWTContextKey of
        None \<Rightarrow> md
      | Some token \<Rightarrow> AList.update ''authorization'' [generateAuthHeaderFromToken token] md)"

subsection \<open>Facts about headers\<close>

lemma extract_generate:
  "extractTokenFromAuthHeader (generateAuthHeaderFromToken token)
     = (if CHR '' '' \<in> set token then ([], False) else (token, True))"
proof -
  have "strings_Split (''Bearer '' @ token) (CHR '' '') = ''Bearer'' # strings_Split token (CHR '' '')"
    using strings_Split_append [of "CHR '' ''" "''Bearer''" token] by simp
  moreover have "EqualFold ''Bearer'' ''bearer''"
    by code_simp
  moreover have "length (strings_Split token (CHR '' '')) = 1 \<longleftrightarrow> CHR '' '' \<notin> set token"
    by (simp add: length_strings_Split count_list_0_iff)
  ultimately show ?thesis
    by (auto simp: extractTokenFromAuthHeader_def generateAuthHeaderFromToken_def Let_def strings_Split_no_sep)
qed

lemma extract_ok:
  assumes "extractTokenFromAuthHeader val = (token, True)"
  shows "\<exists>scheme. val = scheme @ '' '' @ token \<and> EqualFold scheme ''bearer'' \<and> CHR '' '' \<notin> set token"
proof -
  from assms obtain a where s: "strings_Split val (CHR '' '') = [a, token]" and a: "EqualFold a ''bearer''"
    by (auto simp: extractTokenFromAuthHeader_def Let_def length_Suc_conv numeral_2_eq_2 split: if_splits)
  then have "val = a @ '' '' @ token"
    using strings_Join_Split [of val "CHR '' ''"] by simp
  moreover have "CHR '' '' \<notin> set token" by (rule strings_Split_parts [of _ val]) (simp add: s)
  ultimately show ?thesis using a by blast
qed

subsection \<open>The guards of this package\<close>

definition parser_check :: "('m, 'k) jwt_lib \<Rightarrow> ('m, 'k) keyfunc \<Rightarrow> 'm \<Rightarrow> claims \<Rightarrow> ('w, 'req) check" where
  "parser_check lib kf method new ctx req w =
     (w, case string_Value ctx JWTContextKey of
        None \<Rightarrow> Inl (jwt_error ErrTokenContextMissing)
      | Some s \<Rightarrow>
          (case ParseWithClaims lib s new (method_keyfunc kf method) of
             Inl err \<Rightarrow> Inl (parse_failure lib err)
           | Inr token \<Rightarrow> if tok_Valid token then Inr (WithValue ctx JWTClaimsContextKey (AnyClaims (tok_Claims token)))
               else Inl (jwt_error ErrTokenInvalid)))"

definition signer_check :: "('m, 'k) jwt_lib \<Rightarrow> string \<Rightarrow> 'k \<Rightarrow> 'm \<Rightarrow> claims \<Rightarrow> ('w, 'req) check" where
  "signer_check lib kid key method claims ctx req w =
     (w, let token = NewWithClaims lib method claims in
       case SignedString lib (token\<lparr>tok_Header := AList.update ''kid'' kid (tok_Header token)\<rparr>) key of
         Inl err \<Rightarrow> Inl err | Inr s \<Rightarrow> Inr (WithValue ctx JWTContextKey (AnyString s)))"

interpretation parser: guard "NewParser lib kf method new zero" "parser_check lib kf method new" zero
  by unfold_locales (auto simp: NewParser_def parser_check_def guarded_def split: option.splits sum.splits)

interpretation signer: guard "NewSigner lib kid key method claims zero" "signer_check lib kid key method claims" zero
  by unfold_locales (auto simp: NewSigner_def signer_check_def guarded_def Let_def split: option.splits sum.splits)

subsection \<open>Properties\<close>

text \<open>A token that a client puts in the headers of a request without an \<open>Authorization\<close> header comes out
  unchanged in the context of the server, over HTTP and over gRPC, unless it contains a space, in which
  case the server sees no token; and the server takes only a bearer token without spaces.\<close>

theorem jwt_headers_round_trip:
  assumes "string_Value ctx JWTContextKey = Some token" and "Header_values (r_Header r) ''Authorization'' = []"
    and "ContextToHTTP ctx r w = (w1, r1, ctx1)" and "HTTPToContext server_ctx r1 w1 = (w2, r2, ctx2)"
    and "string_Value server_ctx JWTContextKey = None"
  shows "string_Value ctx2 JWTContextKey = (if CHR '' '' \<in> set token then None else Some token)
    \<and> GRPCToContext server_ctx (ContextToGRPC ctx md) = Ret ctx2"
proof -
  have r1: "r1 = r\<lparr>r_Header := Header_Add (r_Header r) ''Authorization'' (generateAuthHeaderFromToken token)\<rparr>" "w1 = w"
    using assms(1,3) by (auto simp: ContextToHTTP_def)
  have "Header_Get (r_Header r1) ''Authorization'' = generateAuthHeaderFromToken token"
    using assms(2) r1 by (simp add: Header_Get_def)
  then have "ctx2 = (if CHR '' '' \<in> set token then server_ctx else WithValue server_ctx JWTContextKey (AnyString token))"
    using assms(4) by (auto simp: HTTPToContext_def extract_generate)
  moreover have "GRPCToContext server_ctx (ContextToGRPC ctx md)
      = Ret (if CHR '' '' \<in> set token then server_ctx else WithValue server_ctx JWTContextKey (AnyString token))"
    using assms(1) by (simp add: GRPCToContext_def ContextToGRPC_def extract_generate)
  ultimately show ?thesis using assms(5) by simp
qed

definition plain_request :: http_request where
  "plain_request = \<lparr>r_Method = ''GET'', r_RequestURI = ''/'', r_URL_Path = ''/'', r_Proto = ''HTTP/1.1'',
     r_Host = ''h'', r_RemoteAddr = [], r_Header = [], r_Body = []\<rparr>"

theorem jwt_headers_round_trip_witness:
  "GRPCToContext [] (ContextToGRPC [(JWTContextKey, AnyString ''tok'')] [])
     = Ret [(JWTContextKey, AnyString ''tok'')]"
proof -
  let ?c = "[(JWTContextKey, AnyString ''tok'')]"
  let ?r = "plain_request\<lparr>r_Header := [(''Authorization'', [''Bearer tok''])]\<rparr>"
  have k: "CanonicalHeaderKey ''Authorization'' = ''Authorization''" by code_simp
  have v: "string_Value ?c JWTContextKey = Some ''tok''" by (simp add: string_Value_def context_Value_def)
  have c: "ContextToHTTP ?c plain_request () = ((), ?r, ?c)"
    using v by (simp add: ContextToHTTP_def Header_Add_def Header_values_def k plain_request_def generateAuthHeaderFromToken_def)
  have h: "HTTPToContext [] ?r () = ((), ?r, ?c)"
    using extract_generate [of "''tok''"]
    by (simp add: HTTPToContext_def Header_Get_def Header_values_def k generateAuthHeaderFromToken_def WithValue_def)
  have n: "Header_values (r_Header plain_request) ''Authorization'' = []"
    by (simp add: plain_request_def Header_values_def)
  have e: "string_Value [] JWTContextKey = None" by (simp add: string_Value_def context_Value_def)
  show ?thesis using jwt_headers_round_trip [OF v n c h e, of "[]"] by simp
qed

text \<open>\<open>GRPCToContext\<close> panics exactly when the metadata has the key with an empty list of values, which
  an interceptor can put there; a missing or malformed header only leaves the context as it is.\<close>

theorem GRPCToContext_panics_iff:
  "panicked (GRPCToContext ctx md) \<longleftrightarrow> map_of md ''authorization'' = Some []"
  by (auto simp: GRPCToContext_def Let_def split_beta split: option.splits list.splits)

text \<open>
  What the library promises of a successful parse: the key function it was given has accepted a token
  with the method of the result.
\<close>

definition parse_asks_keyfunc :: "('m, 'k) jwt_lib \<Rightarrow> bool" where
  "parse_asks_keyfunc lib \<longleftrightarrow> (\<forall>s new f t. ParseWithClaims lib s new f = Inr t
     \<longrightarrow> (\<exists>t0 k. tok_Method t0 = tok_Method t \<and> f t0 = Inr k))"

text \<open>C15: The parser lets a request through only with a token that the library has found valid, that is
  signed with the expected method and whose key the key function has given; the endpoint then sees
  exactly the claims of that token. In all other cases the endpoint is not called.\<close>

theorem NewParser_guards:
  assumes "parse_asks_keyfunc lib"
  shows "(\<exists>e. NewParser lib kf method new zero next ctx req w = (w, Reply zero (Some e))) \<or>
    (\<exists>s t. string_Value ctx JWTContextKey = Some s
       \<and> ParseWithClaims lib s new (method_keyfunc kf method) = Inr t \<and> tok_Valid t \<and> tok_Method t = method
       \<and> (\<exists>t0 k. kf t0 = Inr k \<and> tok_Method t0 = method)
       \<and> NewParser lib kf method new zero next ctx req w
           = next (WithValue ctx JWTClaimsContextKey (AnyClaims (tok_Claims t))) req w)"
proof (cases "parser_check lib kf method new ctx req w")
  case (Pair w1 res)
  have w: "w1 = w" using Pair by (simp add: parser_check_def)
  show ?thesis
  proof (cases res)
    case (Inl e)
    with parser.refused [of lib kf "method" "new" ctx req w w1 e zero "next"] Pair w show ?thesis by auto
  next
    case (Inr ctx1)
    with Pair obtain s t where st: "string_Value ctx JWTContextKey = Some s"
      "ParseWithClaims lib s new (method_keyfunc kf method) = Inr t" "tok_Valid t"
      "ctx1 = WithValue ctx JWTClaimsContextKey (AnyClaims (tok_Claims t))"
      by (auto simp: parser_check_def split: option.splits sum.splits if_splits)
    obtain t0 k where "tok_Method t0 = tok_Method t" "method_keyfunc kf method t0 = Inr k"
      using assms st(2) unfolding parse_asks_keyfunc_def by blast
    then have "tok_Method t = method" "kf t0 = Inr k \<and> tok_Method t0 = method"
      by (auto simp: method_keyfunc_def split: if_splits)
    with st parser.passed [of lib kf "method" "new" ctx req w w1 ctx1 zero "next"] Pair Inr w show ?thesis by auto
  qed
qed

text \<open>A library for tokens \<open>alg.payload\<close>: the method is a number, the key must equal the method.\<close>

definition toy_lib :: "(nat, nat) jwt_lib" where
  "toy_lib = \<lparr>NewWithClaims = \<lambda>m c. \<lparr>tok_Method = m, tok_Header = [], tok_Claims = c, tok_Valid = False\<rparr>,
     SignedString = \<lambda>t k. if k = tok_Method t then Inr (nat_to_dec k) else Inl (ErrorText ''key is of invalid type''),
     ParseWithClaims = \<lambda>s c f.
       (let t = \<lparr>tok_Method = dec_value s, tok_Header = [], tok_Claims = [(''sub'', ''bob'')], tok_Valid = False\<rparr> in
        case f t of Inl e \<Rightarrow> Inl (ValidationError 2 (Some e) e)
        | Inr k \<Rightarrow> Inr (t\<lparr>tok_Valid := k = tok_Method t\<rparr>)),
     ValidationErrorMalformed = 1, ValidationErrorExpired = 16, ValidationErrorNotValidYet = 128\<rparr>"

lemma toy_lib_asks: "parse_asks_keyfunc toy_lib"
  unfolding parse_asks_keyfunc_def
proof (intro allI impI)
  fix s :: string and new :: claims and f :: "(nat, nat) keyfunc" and t
  let ?t = "\<lparr>tok_Method = dec_value s, tok_Header = [], tok_Claims = [(''sub'', ''bob'')], tok_Valid = False\<rparr>"
  assume "ParseWithClaims toy_lib s new f = Inr t"
  then obtain k where "f ?t = Inr k" "t = ?t\<lparr>tok_Valid := k = dec_value s\<rparr>"
    by (auto simp: toy_lib_def Let_def split: sum.splits)
  then show "\<exists>t0 k. tok_Method t0 = tok_Method t \<and> f t0 = Inr k" by (intro exI [of _ ?t] exI [of _ k]) simp
qed

theorem NewParser_guards_witness:
  "NewParser toy_lib (\<lambda>t. Inr 5) 5 [] 0 (\<lambda>ctx req w. (w, Reply 1 None)) [(JWTContextKey, AnyString ''6'')] () ()
     = ((), Reply (0 :: nat) (Some (jwt_error ErrUnexpectedSigningMethod)))"
proof -
  have p: "ParseWithClaims toy_lib ''6'' [] (method_keyfunc (\<lambda>t. Inr 5) 5)
      = Inl (ValidationError 2 (Some (jwt_error ErrUnexpectedSigningMethod)) (jwt_error ErrUnexpectedSigningMethod))"
    by (simp add: toy_lib_def method_keyfunc_def dec_value_def Let_def)
  have "parse_failure toy_lib (ValidationError 2 (Some (jwt_error ErrUnexpectedSigningMethod))
      (jwt_error ErrUnexpectedSigningMethod)) = jwt_error ErrUnexpectedSigningMethod"
    by (simp add: parse_failure_def toy_lib_def)
  with p NewParser_guards [OF toy_lib_asks, of "\<lambda>t. Inr 5" 5 "[]" 0 "\<lambda>ctx req w. (w, Reply 1 None)"
      "[(JWTContextKey, AnyString ''6'')]" "()" "()"]
  show ?thesis by (auto simp: NewParser_def string_Value_def context_Value_def)
qed

text \<open>C16: In a service behind a rate limiter, basic authentication and a token parser, in this order, a
  request reaches the endpoint exactly if the limiter admits it, the credentials are accepted and the
  parser accepts the token; otherwise the first guard that refuses it decides the error. A refused
  request has used up its share of the limiter, and wrong credentials hide a bad token.\<close>

theorem service_chain:
  fixes req :: 'req
  shows "Chain (NewErroringLimiter Allow zero) [AuthMiddleware sha256 user pw realm zero, NewParser lib kf method new zero]
     next ctx req w
   = (case Allow w of (w1, allowed) \<Rightarrow>
       if \<not> allowed then (w1, Reply zero (Some ErrLimited))
       else if \<not> basic_accepts sha256 user pw ctx then (w1, Reply zero (Some (AuthError realm)))
       else case snd (parser_check lib kf method new ctx req w1) of
           Inl e \<Rightarrow> (w1, Reply zero (Some e))
         | Inr ctx1 \<Rightarrow> next ctx1 req w1)"
proof -
  have g: "list_all2 (\<lambda>m c. guard m c zero)
      (NewErroringLimiter Allow zero # [AuthMiddleware sha256 user pw realm zero, NewParser lib kf method new zero])
      (limiter_check Allow # [basic_check sha256 user pw realm, parser_check lib kf method new])"
    by (simp add: erroring.guard_axioms basic.guard_axioms parser.guard_axioms)
  have b: "basic_check sha256 user pw realm ctx req w1
      = (w1, if basic_accepts sha256 user pw ctx then Inr ctx else Inl (AuthError realm))" for w1 
    by (auto simp: basic_check_def basic_accepts_def split: option.splits)
  obtain w1 allowed where a: "Allow w = (w1, allowed)" by (rule prod.exhaust)
  obtain r where p: "parser_check lib kf method new ctx req w1 = (w1, r)" by (simp add: parser_check_def)
  show ?thesis
    unfolding guard_Chain [OF g] guarded_def
    by (cases allowed; cases "basic_accepts sha256 user pw ctx"; cases r) (simp_all add: limiter_check_def a b p)
qed

end
