(* ===== verification/Http_Server.thy ===== *)
theory Http_Server
  imports Jwt_Auth
begin

text \<open>
  Package transport/http, files server.go and intercepting_writer.go, and the encoder of package
  transport/http/proto: the server that runs an endpoint behind net/http, and the writer that records
  the status and size of a response for the finalizers.

  A response writer is the response of net/http itself or the intercepting writer around it. User
  functions (decoder, encoder, request functions, finalizers) are arguments; they change the world
  \<open>'w\<close>, and those that Go hands a pointer to the request or the writer return the new one. What
  reflection finds out about an error or a response (whether it implements \<open>StatusCoder\<close>,
  \<open>Headerer\<close> or a marshaler) is a record, \<open>view\<close>.
\<close>

subsection \<open>Responses\<close>

record response =
  rs_header :: Header
  rs_status :: "int option"
  rs_sent :: Header
  rs_body :: string

definition new_response :: response where
  "new_response = \<lparr>rs_header = [], rs_status = None, rs_sent = [], rs_body = []\<rparr>"

definition StatusOK :: int where "StatusOK = 200"
definition StatusNoContent :: int where "StatusNoContent = 204"
definition StatusInternalServerError :: int where "StatusInternalServerError = 500"

text \<open>The codes are those of final responses: net/http sends one between 100 and 199 ahead of the response.\<close>

definition std_WriteHeader :: "int \<Rightarrow> response \<Rightarrow> response" where
  "std_WriteHeader code rs =
     (if rs_status rs = None then rs\<lparr>rs_status := Some code, rs_sent := rs_header rs\<rparr> else rs)"

definition body_allowed :: "int \<Rightarrow> bool" where
  "body_allowed code = (\<not> (100 \<le> code \<and> code \<le> 199) \<and> code \<noteq> 204 \<and> code \<noteq> 304)"

definition ErrBodyNotAllowed :: go_error where
  "ErrBodyNotAllowed = ErrorText ''http: request method or response status code does not allow body''"

definition std_Write :: "string \<Rightarrow> response \<Rightarrow> response \<times> int \<times> go_error option" where
  "std_Write p rs =
     (let rs1 = std_WriteHeader StatusOK rs in
      if \<not> body_allowed (the (rs_status rs1)) then (rs1, 0, Some ErrBodyNotAllowed)
      else (rs1\<lparr>rs_body := rs_body rs1 @ p\<rparr>, int (length p), None))"

subsection \<open>The intercepting writer\<close>

record interceptingWriter =
  iw_ResponseWriter :: response
  iw_code :: int
  iw_written :: int

definition iw_WriteHeader :: "int \<Rightarrow> interceptingWriter \<Rightarrow> interceptingWriter" where
  "iw_WriteHeader code w = w\<lparr>iw_code := code, iw_ResponseWriter := std_WriteHeader code (iw_ResponseWriter w)\<rparr>"

definition iw_Write :: "string \<Rightarrow> interceptingWriter \<Rightarrow> interceptingWriter \<times> int \<times> go_error option" where
  "iw_Write p w =
     (let (rs, n, err) = std_Write p (iw_ResponseWriter w) in
      (w\<lparr>iw_ResponseWriter := rs, iw_written := iw_written w + n\<rparr>, n, err))"

datatype iface = ResponseWriter | Hijacker | CloseNotifier | Pusher | Flusher | ReaderFrom

text \<open>
  The interfaces that the wrapped writer implements (\<open>i0\<close> to \<open>i4\<close>), and those of the wrapper; the cases of a hijacker
  come second in the switch.
\<close>

fun reimplement_hijacker :: "bool \<Rightarrow> bool \<Rightarrow> bool \<Rightarrow> bool \<Rightarrow> iface list" where
  "reimplement_hijacker False False False False = [ResponseWriter, Hijacker]"
| "reimplement_hijacker False False False True = [ResponseWriter, Hijacker, ReaderFrom]"
| "reimplement_hijacker False False True False = [ResponseWriter, Hijacker, Flusher]"
| "reimplement_hijacker False False True True = [ResponseWriter, Hijacker, Flusher, ReaderFrom]"
| "reimplement_hijacker False True False False = [ResponseWriter, Hijacker, Pusher]"
| "reimplement_hijacker False True False True = [ResponseWriter, Hijacker, Pusher, ReaderFrom]"
| "reimplement_hijacker False True True False = [ResponseWriter, Hijacker, Pusher, Flusher]"
| "reimplement_hijacker False True True True = [ResponseWriter, Hijacker, Pusher, Flusher, ReaderFrom]"
| "reimplement_hijacker True False False False = [ResponseWriter, Hijacker, CloseNotifier]"
| "reimplement_hijacker True False False True = [ResponseWriter, Hijacker, CloseNotifier, ReaderFrom]"
| "reimplement_hijacker True False True False = [ResponseWriter, Hijacker, CloseNotifier, Flusher]"
| "reimplement_hijacker True False True True = [ResponseWriter, Hijacker, CloseNotifier, Flusher, ReaderFrom]"
| "reimplement_hijacker True True False False = [ResponseWriter, Hijacker, CloseNotifier, Pusher]"
| "reimplement_hijacker True True False True = [ResponseWriter, Hijacker, CloseNotifier, Pusher, ReaderFrom]"
| "reimplement_hijacker True True True False = [ResponseWriter, Hijacker, CloseNotifier, Pusher, Flusher]"
| "reimplement_hijacker True True True True = [ResponseWriter, Hijacker, CloseNotifier, Pusher, Flusher, ReaderFrom]"

fun reimplementInterfaces :: "bool \<Rightarrow> bool \<Rightarrow> bool \<Rightarrow> bool \<Rightarrow> bool \<Rightarrow> iface list" where
  "reimplementInterfaces False False False False False = [ResponseWriter]"
| "reimplementInterfaces False False False False True = [ResponseWriter, ReaderFrom]"
| "reimplementInterfaces False False False True False = [ResponseWriter, Flusher]"
| "reimplementInterfaces False False False True True = [ResponseWriter, Flusher, ReaderFrom]"
| "reimplementInterfaces False False True False False = [ResponseWriter, Pusher]"
| "reimplementInterfaces False False True False True = [ResponseWriter, Pusher, ReaderFrom]"
| "reimplementInterfaces False False True True False = [ResponseWriter, Pusher, Flusher]"
| "reimplementInterfaces False False True True True = [ResponseWriter, Pusher, Flusher, ReaderFrom]"
| "reimplementInterfaces False True False False False = [ResponseWriter, CloseNotifier]"
| "reimplementInterfaces False True False False True = [ResponseWriter, CloseNotifier, ReaderFrom]"
| "reimplementInterfaces False True False True False = [ResponseWriter, CloseNotifier, Flusher]"
| "reimplementInterfaces False True False True True = [ResponseWriter, CloseNotifier, Flusher, ReaderFrom]"
| "reimplementInterfaces False True True False False = [ResponseWriter, CloseNotifier, Pusher]"
| "reimplementInterfaces False True True False True = [ResponseWriter, CloseNotifier, Pusher, ReaderFrom]"
| "reimplementInterfaces False True True True False = [ResponseWriter, CloseNotifier, Pusher, Flusher]"
| "reimplementInterfaces False True True True True = [ResponseWriter, CloseNotifier, Pusher, Flusher, ReaderFrom]"
| "reimplementInterfaces True i1 i2 i3 i4 = reimplement_hijacker i1 i2 i3 i4"

text \<open>
  In the wrapper \<open>ResponseWriter\<close> is the intercepting writer, but \<open>ReaderFrom\<close> is the value found in the
  wrapped writer, so \<open>ReadFrom\<close> writes past the intercepting writer.
\<close>

definition iw_ReadFrom :: "string \<Rightarrow> interceptingWriter \<Rightarrow> interceptingWriter \<times> int \<times> go_error option" where
  "iw_ReadFrom p w =
     (let (rs, n, err) = std_Write p (iw_ResponseWriter w) in (w\<lparr>iw_ResponseWriter := rs\<rparr>, n, err))"

datatype response_writer = Plain response | Intercepting interceptingWriter

primrec underlying :: "response_writer \<Rightarrow> response" where
  "underlying (Plain rs) = rs"
| "underlying (Intercepting w) = iw_ResponseWriter w"

primrec rw_map_header :: "(Header \<Rightarrow> Header) \<Rightarrow> response_writer \<Rightarrow> response_writer" where
  "rw_map_header f (Plain rs) = Plain (rs\<lparr>rs_header := f (rs_header rs)\<rparr>)"
| "rw_map_header f (Intercepting w) =
     Intercepting (w\<lparr>iw_ResponseWriter := (iw_ResponseWriter w)\<lparr>rs_header := f (rs_header (iw_ResponseWriter w))\<rparr>\<rparr>)"

primrec rw_WriteHeader :: "int \<Rightarrow> response_writer \<Rightarrow> response_writer" where
  "rw_WriteHeader code (Plain rs) = Plain (std_WriteHeader code rs)"
| "rw_WriteHeader code (Intercepting w) = Intercepting (iw_WriteHeader code w)"

primrec rw_Write :: "string \<Rightarrow> response_writer \<Rightarrow> response_writer \<times> int \<times> go_error option" where
  "rw_Write p (Plain rs) = (case std_Write p rs of (rs1, r) \<Rightarrow> (Plain rs1, r))"
| "rw_Write p (Intercepting w) = (case iw_Write p w of (w1, r) \<Rightarrow> (Intercepting w1, r))"

text \<open>Response functions.\<close>

definition SetResponseHeader :: "string \<Rightarrow> string \<Rightarrow> context_values \<Rightarrow> response_writer \<Rightarrow> 'w \<Rightarrow> 'w \<times> response_writer \<times> context_values" where
  "SetResponseHeader key val ctx rw w = (w, rw_map_header (\<lambda>h. Header_Set h key val) rw, ctx)"

definition SetContentType :: "string \<Rightarrow> context_values \<Rightarrow> response_writer \<Rightarrow> 'w \<Rightarrow> 'w \<times> response_writer \<times> context_values" where
  "SetContentType contentType = SetResponseHeader ''Content-Type'' contentType"

subsection \<open>Encoders\<close>

text \<open>What the code finds out about a value with type assertions, and its marshaled forms.\<close>

record view =
  v_StatusCode :: "int option"
  v_Headers :: "Header option"
  v_Error :: string
  v_MarshalJSON :: "string option option"

type_synonym header_order = "(string \<times> string list) list \<Rightarrow> (string \<times> string list) list"

definition add_headers :: "header_order \<Rightarrow> Header \<Rightarrow> Header \<Rightarrow> Header" where
  "add_headers it hs h = fold (\<lambda>(k, values) h. fold (\<lambda>v h. Header_Add h k v) values h) (it hs) h"

definition EncodeJSONResponse :: "header_order \<Rightarrow> ('o \<Rightarrow> view) \<Rightarrow> ('o \<Rightarrow> go_error + string)
    \<Rightarrow> response_writer \<Rightarrow> 'o \<Rightarrow> response_writer \<times> go_error option" where
  "EncodeJSONResponse it view marshal rw response =
     (let rw1 = rw_map_header (\<lambda>h. Header_Set h ''Content-Type'' ''application/json; charset=utf-8'') rw;
          rw2 = (case v_Headers (view response) of None \<Rightarrow> rw1 | Some hs \<Rightarrow> rw_map_header (add_headers it hs) rw1);
          code = (case v_StatusCode (view response) of None \<Rightarrow> StatusOK | Some c \<Rightarrow> c);
          rw3 = rw_WriteHeader code rw2
      in if code = StatusNoContent then (rw3, None)
         else case marshal response of
             Inl err \<Rightarrow> (rw3, Some err)
           | Inr json \<Rightarrow> (case rw_Write (json @ [CHR 0x0A]) rw3 of (rw4, n, err) \<Rightarrow> (rw4, err)))"

definition DefaultErrorEncoder :: "header_order \<Rightarrow> (go_error \<Rightarrow> view) \<Rightarrow> go_error \<Rightarrow> response_writer \<Rightarrow> response_writer" where
  "DefaultErrorEncoder it view err rw =
     (let (contentType, body) =
            (case v_MarshalJSON (view err) of
               Some (Some jsonBody) \<Rightarrow> (''application/json; charset=utf-8'', jsonBody)
             | _ \<Rightarrow> (''text/plain; charset=utf-8'', v_Error (view err)));
          rw1 = rw_map_header (\<lambda>h. Header_Set h ''Content-Type'' contentType) rw;
          rw2 = (case v_Headers (view err) of None \<Rightarrow> rw1 | Some hs \<Rightarrow> rw_map_header (add_headers it hs) rw1);
          code = (case v_StatusCode (view err) of None \<Rightarrow> StatusInternalServerError | Some c \<Rightarrow> c);
          rw3 = rw_WriteHeader code rw2
      in fst (rw_Write body rw3))"

text \<open>
  \<open>EncodeProtoResponse\<close> asks the writer, not the response, for the headers: \<open>writer_headers\<close> is what the
  assertion \<open>w.(Headerer)\<close> finds. The writers of net/http have no such method.
\<close>

definition EncodeProtoResponse :: "header_order \<Rightarrow> (response_writer \<Rightarrow> Header option) \<Rightarrow> ('o \<Rightarrow> view)
    \<Rightarrow> ('o \<Rightarrow> (go_error + string) option) \<Rightarrow> response_writer \<Rightarrow> 'o \<Rightarrow> response_writer \<times> go_error option" where
  "EncodeProtoResponse it writer_headers view marshal rw pres =
     (case marshal pres of
        None \<Rightarrow> (rw, Some (ErrorText ''response does not implement proto.Message''))
      | Some marshaled \<Rightarrow>
          let rw1 = rw_map_header (\<lambda>h. Header_Set h ''Content-Type'' ''application/x-protobuf'') rw;
              rw2 = (case writer_headers rw of
                  None \<Rightarrow> rw1
                | Some hs \<Rightarrow> rw_map_header (\<lambda>h. fold (\<lambda>(k, _) h. Header_Set h k (Header_Get hs k)) (it hs) h) rw1);
              code = (case v_StatusCode (view pres) of None \<Rightarrow> StatusOK | Some c \<Rightarrow> c);
              rw3 = rw_WriteHeader code rw2
          in if code = StatusNoContent then (rw3, None)
             else case marshaled of
                 Inl err \<Rightarrow> (rw3, Some err)
               | Inr b \<Rightarrow> (case rw_Write b rw3 of (rw4, n, err) \<Rightarrow> (rw4, err)))"

subsection \<open>The server\<close>

record ('w, 'i, 'o) server =
  srv_e :: "('w, 'i, 'o) endpoint"
  srv_dec :: "context_values \<Rightarrow> http_request \<Rightarrow> 'w \<Rightarrow> 'w \<times> 'i \<times> go_error option"
  srv_enc :: "context_values \<Rightarrow> response_writer \<Rightarrow> 'o \<Rightarrow> 'w \<Rightarrow> 'w \<times> response_writer \<times> go_error option"
  srv_before :: "'w RequestFunc list"
  srv_after :: "(context_values \<Rightarrow> response_writer \<Rightarrow> 'w \<Rightarrow> 'w \<times> response_writer \<times> context_values) list"
  srv_errorEncoder :: "context_values \<Rightarrow> go_error \<Rightarrow> response_writer \<Rightarrow> 'w \<Rightarrow> 'w \<times> response_writer"
  srv_finalizer :: "(context_values \<Rightarrow> int \<Rightarrow> http_request \<Rightarrow> 'w \<Rightarrow> 'w) list"
  srv_errorHandler :: "context_values \<Rightarrow> go_error \<Rightarrow> 'w \<Rightarrow> 'w"

type_synonym ('w, 'i, 'o) server_option = "('w, 'i, 'o) server \<Rightarrow> ('w, 'i, 'o) server"

definition NopErrorHandler :: "context_values \<Rightarrow> go_error \<Rightarrow> 'w \<Rightarrow> 'w" where
  "NopErrorHandler ctx err w = w"

definition NewServer :: "header_order \<Rightarrow> (go_error \<Rightarrow> view) \<Rightarrow> ('w, 'i, 'o) endpoint
    \<Rightarrow> (context_values \<Rightarrow> http_request \<Rightarrow> 'w \<Rightarrow> 'w \<times> 'i \<times> go_error option)
    \<Rightarrow> (context_values \<Rightarrow> response_writer \<Rightarrow> 'o \<Rightarrow> 'w \<Rightarrow> 'w \<times> response_writer \<times> go_error option)
    \<Rightarrow> ('w, 'i, 'o) server_option list \<Rightarrow> ('w, 'i, 'o) server" where
  "NewServer it view e dec enc options =
     fold (\<lambda>option s. option s) options
       \<lparr>srv_e = e, srv_dec = dec, srv_enc = enc, srv_before = [], srv_after = [],
        srv_errorEncoder = (\<lambda>ctx err rw w. (w, DefaultErrorEncoder it view err rw)),
        srv_finalizer = [], srv_errorHandler = NopErrorHandler\<rparr>"

definition ServerBefore :: "'w RequestFunc list \<Rightarrow> ('w, 'i, 'o) server_option" where
  "ServerBefore before s = s\<lparr>srv_before := srv_before s @ before\<rparr>"

definition ServerAfter :: "(context_values \<Rightarrow> response_writer \<Rightarrow> 'w \<Rightarrow> 'w \<times> response_writer \<times> context_values) list
    \<Rightarrow> ('w, 'i, 'o) server_option" where
  "ServerAfter after s = s\<lparr>srv_after := srv_after s @ after\<rparr>"

definition ServerErrorEncoder :: "(context_values \<Rightarrow> go_error \<Rightarrow> response_writer \<Rightarrow> 'w \<Rightarrow> 'w \<times> response_writer)
    \<Rightarrow> ('w, 'i, 'o) server_option" where
  "ServerErrorEncoder ee s = s\<lparr>srv_errorEncoder := ee\<rparr>"

definition ServerErrorHandler :: "(context_values \<Rightarrow> go_error \<Rightarrow> 'w \<Rightarrow> 'w) \<Rightarrow> ('w, 'i, 'o) server_option" where
  "ServerErrorHandler errorHandler s = s\<lparr>srv_errorHandler := errorHandler\<rparr>"

text \<open>\<open>ServerErrorLogger\<close> installs the handler of package transport that logs the error.\<close>

definition LogErrorHandler_Handle :: "(go_error \<Rightarrow> 'w \<Rightarrow> 'w) \<Rightarrow> context_values \<Rightarrow> go_error \<Rightarrow> 'w \<Rightarrow> 'w" where
  "LogErrorHandler_Handle log ctx err w = log err w"

definition ServerErrorLogger :: "(go_error \<Rightarrow> 'w \<Rightarrow> 'w) \<Rightarrow> ('w, 'i, 'o) server_option" where
  "ServerErrorLogger log s = s\<lparr>srv_errorHandler := LogErrorHandler_Handle log\<rparr>"

definition ServerFinalizer :: "(context_values \<Rightarrow> int \<Rightarrow> http_request \<Rightarrow> 'w \<Rightarrow> 'w) list \<Rightarrow> ('w, 'i, 'o) server_option" where
  "ServerFinalizer f s = s\<lparr>srv_finalizer := srv_finalizer s @ f\<rparr>"

definition run_before :: "'w RequestFunc list \<Rightarrow> context_values \<Rightarrow> http_request \<Rightarrow> 'w \<Rightarrow> 'w \<times> http_request \<times> context_values" where
  "run_before fs ctx r w = fold (\<lambda>f (w, r, ctx). f ctx r w) fs (w, r, ctx)"

definition run_after :: "(context_values \<Rightarrow> response_writer \<Rightarrow> 'w \<Rightarrow> 'w \<times> response_writer \<times> context_values) list
    \<Rightarrow> context_values \<Rightarrow> response_writer \<Rightarrow> 'w \<Rightarrow> 'w \<times> response_writer \<times> context_values" where
  "run_after fs ctx rw w = fold (\<lambda>f (w, rw, ctx). f ctx rw w) fs (w, rw, ctx)"

definition report_error :: "('w, 'i, 'o) server \<Rightarrow> context_values \<Rightarrow> go_error \<Rightarrow> response_writer \<Rightarrow> 'w \<Rightarrow> 'w \<times> response_writer" where
  "report_error s ctx err rw w = srv_errorEncoder s ctx err rw (srv_errorHandler s ctx err w)"

text \<open>The body of \<open>ServeHTTP\<close> after the request functions; it returns the context that the deferred function sees.\<close>

definition serve_decoded :: "('w, 'i, 'o) server \<Rightarrow> context_values \<Rightarrow> http_request \<Rightarrow> response_writer \<Rightarrow> 'w
    \<Rightarrow> 'w \<times> response_writer \<times> context_values \<times> unit outcome" where
  "serve_decoded s ctx r rw w =
     (case srv_dec s ctx r w of
        (w1, request, Some err) \<Rightarrow> (case report_error s ctx err rw w1 of (w2, rw2) \<Rightarrow> (w2, rw2, ctx, Ret ()))
      | (w1, request, None) \<Rightarrow>
          (case srv_e s ctx request w1 of
             (w2, Panicked p) \<Rightarrow> (w2, rw, ctx, Panic p)
           | (w2, Reply response (Some err)) \<Rightarrow>
               (case report_error s ctx err rw w2 of (w3, rw3) \<Rightarrow> (w3, rw3, ctx, Ret ()))
           | (w2, Reply response None) \<Rightarrow>
               (let (w3, rw3, ctx3) = run_after (srv_after s) ctx rw w2 in
                case srv_enc s ctx3 rw3 response w3 of
                  (w4, rw4, None) \<Rightarrow> (w4, rw4, ctx3, Ret ())
                | (w4, rw4, Some err) \<Rightarrow>
                    (case report_error s ctx3 err rw4 w4 of (w5, rw5) \<Rightarrow> (w5, rw5, ctx3, Ret ())))))"

definition run_finalizers :: "('w, 'i, 'o) server \<Rightarrow> context_values \<Rightarrow> interceptingWriter \<Rightarrow> http_request \<Rightarrow> 'w \<Rightarrow> 'w" where
  "run_finalizers s ctx iw r w =
     (let ctx1 = WithValue ctx ContextKeyResponseHeaders (AnyHeader (rs_header (iw_ResponseWriter iw)));
          ctx2 = WithValue ctx1 ContextKeyResponseSize (AnyInt (iw_written iw))
      in fold (\<lambda>f w. f ctx2 (iw_code iw) r w) (srv_finalizer s) w)"

definition ServeHTTP :: "('w, 'i, 'o) server \<Rightarrow> context_values \<Rightarrow> response \<Rightarrow> http_request \<Rightarrow> 'w
    \<Rightarrow> 'w \<times> response \<times> unit outcome" where
  "ServeHTTP s ctx rs r w =
     (let rw = (if srv_finalizer s \<noteq> [] then Intercepting \<lparr>iw_ResponseWriter = rs, iw_code = StatusOK, iw_written = 0\<rparr>
                else Plain rs);
          (w1, r1, ctx1) = run_before (srv_before s) ctx r w;
          (w2, rw2, ctx2, out) = serve_decoded s ctx1 r1 rw w1
      in case rw2 of
           Plain rs2 \<Rightarrow> (w2, rs2, out)
         | Intercepting iw \<Rightarrow> (run_finalizers s ctx2 iw r1 w2, iw_ResponseWriter iw, out))"

subsection \<open>What the intercepting writer records\<close>

datatype writer_op = WriteHeaderOp int | WriteOp string | ReadFromOp string

text \<open>A run of calls, with the number of bytes that went through \<open>ReadFrom\<close>.\<close>

fun writer_run :: "writer_op list \<Rightarrow> interceptingWriter \<Rightarrow> interceptingWriter \<times> int" where
  "writer_run [] w = (w, 0)"
| "writer_run (WriteHeaderOp c # ops) w = writer_run ops (iw_WriteHeader c w)"
| "writer_run (WriteOp p # ops) w = writer_run ops (fst (iw_Write p w))"
| "writer_run (ReadFromOp p # ops) w =
     (let (w1, n, err) = iw_ReadFrom p w; (w2, m) = writer_run ops w1 in (w2, n + m))"

fun codes :: "writer_op list \<Rightarrow> int list" where
  "codes [] = []"
| "codes (WriteHeaderOp c # ops) = c # codes ops"
| "codes (WriteOp _ # ops) = codes ops"
| "codes (ReadFromOp _ # ops) = codes ops"

fun first_status :: "writer_op list \<Rightarrow> int option" where
  "first_status [] = None"
| "first_status (WriteHeaderOp c # ops) = Some c"
| "first_status (WriteOp _ # ops) = Some StatusOK"
| "first_status (ReadFromOp _ # ops) = Some StatusOK"

lemma std_Write_props:
  assumes "std_Write p rs = (rs1, n, err)"
  shows "int (length (rs_body rs1)) = int (length (rs_body rs)) + n"
    and "rs_status rs1 = (case rs_status rs of None \<Rightarrow> Some StatusOK | Some c \<Rightarrow> Some c)"
  using assms by (auto simp: std_Write_def std_WriteHeader_def Let_def split: if_splits option.splits)

lemma writer_run_props:
  assumes "writer_run ops w = (w', m)"
  shows "iw_code w' = last (iw_code w # codes ops)
    \<and> rs_status (iw_ResponseWriter w') = (case rs_status (iw_ResponseWriter w) of Some c \<Rightarrow> Some c | None \<Rightarrow> first_status ops)
    \<and> int (length (rs_body (iw_ResponseWriter w'))) - iw_written w'
        = int (length (rs_body (iw_ResponseWriter w))) - iw_written w + m"
  using assms
proof (induction ops w arbitrary: m rule: writer_run.induct)
  case (2 c ops w)
  then show ?case by (auto simp: iw_WriteHeader_def std_WriteHeader_def split: option.splits if_splits)
next
  case (3 p ops w)
  obtain rs n err where p: "std_Write p (iw_ResponseWriter w) = (rs, n, err)" by (rule prod_cases3)
  with 3 std_Write_props [OF p] show ?case by (auto simp: iw_Write_def split: option.splits)
next
  case (4 p ops w)
  obtain rs n err where p: "std_Write p (iw_ResponseWriter w) = (rs, n, err)" by (rule prod_cases3)
  obtain w2 k where r: "writer_run ops (w\<lparr>iw_ResponseWriter := rs\<rparr>) = (w2, k)" by (rule prod.exhaust)
  have e: "iw_ReadFrom p w = (w\<lparr>iw_ResponseWriter := rs\<rparr>, n, err)" by (simp add: iw_ReadFrom_def p)
  have eq: "w2 = w'" "m = n + k" using 4(2) by (simp_all add: e r)
  have "iw_code w' = last (iw_code w # codes ops)
    \<and> rs_status (iw_ResponseWriter w') = (case rs_status rs of Some c \<Rightarrow> Some c | None \<Rightarrow> first_status ops)
    \<and> int (length (rs_body (iw_ResponseWriter w'))) - iw_written w' = int (length (rs_body rs)) - iw_written w + k"
    using 4(1) [OF e [symmetric] refl refl, of k] r eq(1) by simp
  then show ?case using std_Write_props [OF p] eq(2) by (auto split: option.splits)
qed (simp split: option.split)

subsection \<open>The order of the stages\<close>

datatype stage = BeforeS nat | DecodeS | EndpointS | AfterS nat | EncodeS
  | HandleErrorS go_error | EncodeErrorS go_error | FinalizeS nat int

text \<open>A server whose parts note their runs; a successful encoding sends \<open>ok\<close> and an error \<open>bad\<close> as status.\<close>

definition traced_server :: "nat \<Rightarrow> nat \<Rightarrow> nat \<Rightarrow> go_error option \<Rightarrow> 'o reply \<Rightarrow> go_error option \<Rightarrow> int \<Rightarrow> int
    \<Rightarrow> (stage list, unit, 'o) server" where
  "traced_server nb na nf dec_err reply enc_err ok bad =
     \<lparr>srv_e = \<lambda>ctx req w. (w @ [EndpointS], reply),
      srv_dec = \<lambda>ctx r w. (w @ [DecodeS], (), dec_err),
      srv_enc = \<lambda>ctx rw x w. (w @ [EncodeS], if enc_err = None then rw_WriteHeader ok rw else rw, enc_err),
      srv_before = map (\<lambda>i ctx r w. (w @ [BeforeS i], r, ctx)) [0..<nb],
      srv_after = map (\<lambda>i ctx rw w. (w @ [AfterS i], rw, ctx)) [0..<na],
      srv_errorEncoder = \<lambda>ctx e rw w. (w @ [EncodeErrorS e], rw_WriteHeader bad rw),
      srv_finalizer = map (\<lambda>i ctx code r w. w @ [FinalizeS i code]) [0..<nf],
      srv_errorHandler = \<lambda>ctx e w. w @ [HandleErrorS e]\<rparr>"

definition error_stages :: "go_error option \<Rightarrow> stage list" where
  "error_stages err = (case err of None \<Rightarrow> [] | Some e \<Rightarrow> [HandleErrorS e, EncodeErrorS e])"

text \<open>The stages of a request and the status it ends with.\<close>

definition expected_stages :: "nat \<Rightarrow> nat \<Rightarrow> nat \<Rightarrow> go_error option \<Rightarrow> 'o reply \<Rightarrow> go_error option \<Rightarrow> int \<Rightarrow> int \<Rightarrow> stage list \<times> int option" where
  "expected_stages nb na nf dec_err reply enc_err ok bad =
     (let (body, status) =
        (case (dec_err, reply) of
           (Some e, _) \<Rightarrow> (error_stages dec_err, Some bad)
         | (None, Panicked _) \<Rightarrow> ([EndpointS], None)
         | (None, Reply _ (Some e)) \<Rightarrow> (EndpointS # error_stages (Some e), Some bad)
         | (None, Reply _ None) \<Rightarrow>
             (EndpointS # map AfterS [0..<na] @ EncodeS # error_stages enc_err, Some (if enc_err = None then ok else bad)))
      in (map BeforeS [0..<nb] @ DecodeS # body
           @ map (\<lambda>i. FinalizeS i (case status of None \<Rightarrow> StatusOK | Some c \<Rightarrow> c)) [0..<nf], status))"

lemma fold_before: "fold (\<lambda>f (w, r, ctx). f ctx r w) (map (\<lambda>i ctx r w. (w @ [g i], r, ctx)) is) (w, r, ctx)
    = (w @ map g is, r, ctx)"
  by (induction "is" arbitrary: w) simp_all

lemma fold_snoc: "fold (\<lambda>f w. f c x r w) (map (\<lambda>i ctx code r w. w @ [g i code]) is) w = w @ map (\<lambda>i. g i x) is"
  by (induction "is" arbitrary: w) simp_all

lemma iw_WriteHeader_new:
  "iw_WriteHeader c \<lparr>iw_ResponseWriter = new_response, iw_code = k, iw_written = n\<rparr>
     = \<lparr>iw_ResponseWriter = new_response\<lparr>rs_status := Some c\<rparr>, iw_code = c, iw_written = n\<rparr>"
  by (simp add: iw_WriteHeader_def std_WriteHeader_def new_response_def)

lemma std_WriteHeader_new: "std_WriteHeader c new_response = new_response\<lparr>rs_status := Some c\<rparr>"
  by (simp add: std_WriteHeader_def new_response_def)

lemma new_response_status [simp]: "rs_status new_response = None" "rs_header new_response = []"
  by (simp_all add: new_response_def)

lemmas traced_eval = ServeHTTP_def traced_server_def run_before_def run_after_def fold_before serve_decoded_def
  report_error_def run_finalizers_def fold_snoc expected_stages_def error_stages_def iw_WriteHeader_new
  std_WriteHeader_new

subsection \<open>Properties\<close>

text \<open>C29: Whatever fails, a request goes through the stages of the server in order: request functions,
  decoder, endpoint, response functions, encoder; the first error ends this and is handled and encoded
  exactly once; the finalizers always run last, once each in order, also after a panic of the endpoint,
  and get the status that was sent.\<close>

theorem ServeHTTP_stages:
  "(case ServeHTTP (traced_server nb na nf dec_err reply enc_err ok bad) ctx new_response r [] of
      (stages, rs, out) \<Rightarrow> (stages, rs_status rs) = expected_stages nb na nf dec_err reply enc_err ok bad
        \<and> (panicked out \<longleftrightarrow> dec_err = None \<and> (\<exists>p. reply = Panicked p)))"
  by (cases "nf = 0"; cases dec_err; cases reply; cases enc_err) (simp_all add: traced_eval split: option.split)

text \<open>The finalizers' view of a response: the code is that of the last \<open>WriteHeader\<close>, which is the status the
  client gets when \<open>WriteHeader\<close> is called at most once and before any write; the size is the number of
  bytes of the body but for those that went through \<open>ReadFrom\<close>.\<close>

theorem intercepting_writer_records:
  assumes "writer_run ops \<lparr>iw_ResponseWriter = new_response, iw_code = StatusOK, iw_written = 0\<rparr> = (w, m)"
  shows "iw_code w = last (StatusOK # codes ops)
    \<and> (length (codes ops) \<le> 1 \<and> (codes ops \<noteq> [] \<longrightarrow> first_status ops = Some (hd (codes ops))) \<and> ops \<noteq> []
        \<longrightarrow> rs_status (iw_ResponseWriter w) = Some (iw_code w))
    \<and> int (length (rs_body (iw_ResponseWriter w))) = iw_written w + m"
proof -
  have "ops \<noteq> [] \<Longrightarrow> codes ops = [] \<Longrightarrow> first_status ops = Some StatusOK" by (cases ops rule: codes.cases) auto
  with writer_run_props [OF assms] show ?thesis
    by (cases "codes ops") (auto simp: new_response_def)
qed

text \<open>The response functions run before the encoder: a content type that they set does not survive the JSON encoder.\<close>

lemma SetContentType_overridden:
  "run_after (fs @ [SetContentType contentType]) ctx rw w = (w1, rw1, ctx1) \<Longrightarrow>
   \<exists>rw0. run_after fs ctx rw w = (w1, rw0, ctx1)
     \<and> EncodeJSONResponse it view marshal rw1 response = EncodeJSONResponse it view marshal rw0 response"
  by (cases "run_after fs ctx rw w"; cases "fst (snd (run_after fs ctx rw w))")
    (auto simp: run_after_def SetContentType_def SetResponseHeader_def EncodeJSONResponse_def Header_Set_def)

text \<open>The wrapper implements exactly the interfaces of the writer it wraps, in each of the 32 cases.\<close>

theorem reimplementInterfaces_exact:
  "set (reimplementInterfaces i0 i1 i2 i3 i4)
     = {ResponseWriter} \<union> (if i0 then {Hijacker} else {}) \<union> (if i1 then {CloseNotifier} else {})
       \<union> (if i2 then {Pusher} else {}) \<union> (if i3 then {Flusher} else {}) \<union> (if i4 then {ReaderFrom} else {})
   \<and> distinct (reimplementInterfaces i0 i1 i2 i3 i4)"
  by (cases i0; cases i1; cases i2; cases i3; cases i4) auto

theorem intercepting_writer_records_witness:
  "iw_code (fst (writer_run [WriteHeaderOp 404, WriteOp ''ab'', ReadFromOp ''cde'']
      \<lparr>iw_ResponseWriter = new_response, iw_code = StatusOK, iw_written = 0\<rparr>)) = 404
   \<and> iw_written (fst (writer_run [WriteHeaderOp 404, WriteOp ''ab'', ReadFromOp ''cde'']
      \<lparr>iw_ResponseWriter = new_response, iw_code = StatusOK, iw_written = 0\<rparr>)) = 2"
proof -
  let ?w = "\<lparr>iw_ResponseWriter = new_response, iw_code = StatusOK, iw_written = 0\<rparr>"
    and ?ops = "[WriteHeaderOp 404, WriteOp ''ab'', ReadFromOp ''cde'']"
  have "snd (writer_run ?ops ?w) = 3" "length (rs_body (iw_ResponseWriter (fst (writer_run ?ops ?w)))) = 5"
    by (simp_all add: iw_WriteHeader_def iw_Write_def iw_ReadFrom_def std_Write_def std_WriteHeader_def
        body_allowed_def new_response_def)
  then show ?thesis using intercepting_writer_records [of ?ops, OF surjective_pairing] by simp
qed

text \<open>When a response cannot be encoded as JSON the client and the finalizers see different codes: the
  encoder has sent its status before it marshals the response, so the client gets that status with the
  text of the error as body, while the finalizers are told the status of the error encoder.\<close>

theorem encode_failure_codes_differ:
  assumes "marshal x = Inl err" and "view_o x = \<lparr>v_StatusCode = None, v_Headers = None, v_Error = [], v_MarshalJSON = None\<rparr>"
    and "view_e err = \<lparr>v_StatusCode = None, v_Headers = None, v_Error = msg, v_MarshalJSON = None\<rparr>"
  shows "ServeHTTP (NewServer it view_e (\<lambda>ctx req w. (w, Reply x None)) (\<lambda>ctx r w. (w, (), None))
      (\<lambda>ctx rw x w. case EncodeJSONResponse it view_o marshal rw x of (rw1, e) \<Rightarrow> (w, rw1, e))
      [ServerFinalizer [\<lambda>ctx code r w. w @ [code]]]) ctx new_response r []
    = ([500], \<lparr>rs_header = [(''Content-Type'', [''text/plain; charset=utf-8''])], rs_status = Some 200,
        rs_sent = [(''Content-Type'', [''application/json; charset=utf-8''])], rs_body = msg\<rparr>, Ret ())"
proof -
  have k: "CanonicalHeaderKey ''Content-Type'' = ''Content-Type''" by code_simp
  show ?thesis
    by (simp add: NewServer_def ServerFinalizer_def ServeHTTP_def run_before_def serve_decoded_def run_after_def
        EncodeJSONResponse_def DefaultErrorEncoder_def assms StatusOK_def StatusNoContent_def
        StatusInternalServerError_def report_error_def NopErrorHandler_def iw_WriteHeader_def std_WriteHeader_def
        iw_Write_def std_Write_def body_allowed_def Header_Set_def k new_response_def run_finalizers_def)
qed

theorem encode_failure_codes_differ_witness:
  "fst (ServeHTTP (NewServer (\<lambda>xs. xs) (\<lambda>e. \<lparr>v_StatusCode = None, v_Headers = None, v_Error = ''boom'', v_MarshalJSON = None\<rparr>)
      (\<lambda>ctx req w. (w, Reply (5 :: nat) None)) (\<lambda>ctx r w. (w, (), None))
      (\<lambda>ctx rw x w. case EncodeJSONResponse (\<lambda>xs. xs)
          (\<lambda>x. \<lparr>v_StatusCode = None, v_Headers = None, v_Error = [], v_MarshalJSON = None\<rparr>)
          (\<lambda>x. Inl (ErrorText ''boom'')) rw x of (rw1, e) \<Rightarrow> (w, rw1, e))
      [ServerFinalizer [\<lambda>ctx code r w. w @ [code]]]) [] new_response plain_request []) = [500]"
  using encode_failure_codes_differ [of "\<lambda>x. Inl (ErrorText ''boom'')" "5 :: nat" "ErrorText ''boom''"
      "\<lambda>x. \<lparr>v_StatusCode = None, v_Headers = None, v_Error = [], v_MarshalJSON = None\<rparr>"
      "\<lambda>e. \<lparr>v_StatusCode = None, v_Headers = None, v_Error = ''boom'', v_MarshalJSON = None\<rparr>" "''boom''" "\<lambda>xs. xs" "[]" plain_request]
  by simp

text \<open>A request with wrong credentials to a server behind basic authentication gets status 401, the body
  \<open>Unauthorized\<close> and the challenge in \<open>WWW-Authenticate\<close>; the endpoint does not run. The content type is
  sent twice, because the error encoder sets it and then adds the one of the error.\<close>

theorem unauthorized_response:
  assumes "iterates it" and "view (AuthError realm) =
      \<lparr>v_StatusCode = Some AuthError_StatusCode, v_Headers = Some (AuthError_Headers quote realm),
       v_Error = AuthError_Error, v_MarshalJSON = None\<rparr>"
    and "dec_ok = (\<lambda>ctx r w. (w, req, None))"
    and "\<not> basic_accepts sha256 user pw [(ContextKeyRequestAuthorization, AnyString (Header_Get (r_Header r) ''Authorization''))]"
    and "ServeHTTP (NewServer (\<lambda>hs. hs) view (AuthMiddleware sha256 user pw realm zero next) dec_ok enc
      [ServerBefore [PopulateRequestContext it]]) [] new_response r w = (w', rs, out)"
  shows "w' = w \<and> out = Ret () \<and> rs_status rs = Some 401 \<and> rs_body rs = ''Unauthorized''
    \<and> Header_values (rs_sent rs) ''WWW-Authenticate'' = [''Basic realm='' @ quote realm]
    \<and> Header_values (rs_sent rs) ''Content-Type'' = [''text/plain; charset=utf-8'', ''text/plain; charset=utf-8'']"
proof -
  obtain w1 r1 ctx where p: "PopulateRequestContext it [] r w = (w1, r1, ctx)" by (rule prod_cases3)
  note pv = PopulateRequestContext_value [OF assms(1) p]
  have b: "basic_accepts sha256 user pw ctx = basic_accepts sha256 user pw
      [(ContextKeyRequestAuthorization, AnyString (Header_Get (r_Header r) ''Authorization''))]"
    using PopulateRequestContext_authorization [OF assms(1) p]
    by (simp add: basic_accepts_def string_Value_def context_Value_def)
  have a: "AuthMiddleware sha256 user pw realm zero next ctx req w = (w, Reply zero (Some (AuthError realm)))"
    using AuthMiddleware_result [of sha256 user pw realm zero "next" ctx req w] b assms(4) by simp
  have k: "CanonicalHeaderKey ''Content-Type'' = ''Content-Type''"
    "CanonicalHeaderKey ''WWW-Authenticate'' = ''Www-Authenticate''"
    "CanonicalHeaderKey ''X-Content-Type-Options'' = ''X-Content-Type-Options''" by code_simp+
  show ?thesis
    using assms(5) pv a p assms(2,3)
    by (auto simp: NewServer_def ServerBefore_def ServeHTTP_def run_before_def serve_decoded_def report_error_def
        NopErrorHandler_def DefaultErrorEncoder_def add_headers_def AuthError_Headers_def AuthError_StatusCode_def
        StatusUnauthorized_def AuthError_Error_def Header_Set_def Header_Add_def Header_values_def k std_WriteHeader_def std_Write_def
        body_allowed_def new_response_def split: prod.splits)
qed

theorem unauthorized_response_witness:
  "rs_status (fst (snd (ServeHTTP (NewServer (\<lambda>hs. hs)
      (\<lambda>e. \<lparr>v_StatusCode = Some AuthError_StatusCode, v_Headers = Some (AuthError_Headers (\<lambda>s. s) ''r''),
             v_Error = AuthError_Error, v_MarshalJSON = None\<rparr>)
      (AuthMiddleware (\<lambda>s. s) ''u'' ''p'' ''r'' () (\<lambda>ctx req w. (w + 1, Reply () None)))
      (\<lambda>ctx r w. (w, (), None)) (\<lambda>ctx rw x w. (w, rw, None)) [ServerBefore [PopulateRequestContext (\<lambda>xs. xs)]])
      [] new_response plain_request (0 :: nat)))) = Some 401"
proof -
  have n: "\<not> basic_accepts (\<lambda>s. s) ''u'' ''p''
      [(ContextKeyRequestAuthorization, AnyString (Header_Get (r_Header plain_request) ''Authorization''))]"
    by (auto simp: basic_accepts_def string_Value_def context_Value_def plain_request_def Header_Get_def
        Header_values_def parseBasicAuth_def HasPrefix_def)
  let ?view = "\<lambda>e. \<lparr>v_StatusCode = Some AuthError_StatusCode, v_Headers = Some (AuthError_Headers (\<lambda>s. s) ''r''),
             v_Error = AuthError_Error, v_MarshalJSON = None\<rparr>"
  obtain w' rs out where s: "ServeHTTP (NewServer (\<lambda>hs. hs) ?view
      (AuthMiddleware (\<lambda>s. s) ''u'' ''p'' ''r'' () (\<lambda>ctx req w. (w + 1, Reply () None)))
      (\<lambda>ctx r w. (w, (), None)) (\<lambda>ctx rw x w. (w, rw, None)) [ServerBefore [PopulateRequestContext (\<lambda>xs. xs)]])
      [] new_response plain_request (0 :: nat) = (w', rs, out)" by (rule prod_cases3)
  from unauthorized_response [OF iterates_id refl refl n s] show ?thesis by (simp only: s prod.sel)
qed

text \<open>The headers that a response declares never reach the client through \<open>EncodeProtoResponse\<close> with a
  writer of net/http: the result is the same whatever headers the response declares, and the headers
  sent are those that were set before plus the content type.\<close>

theorem proto_response_headers_ignored:
  "EncodeProtoResponse it (\<lambda>_. None) view marshal rw pres
     = EncodeProtoResponse it (\<lambda>_. None) (\<lambda>p. (view p)\<lparr>v_Headers := hs\<rparr>) marshal rw pres
   \<and> rs_header (underlying (fst (EncodeProtoResponse it (\<lambda>_. None) view marshal rw pres)))
     = (if marshal pres = None then rs_header (underlying rw)
        else Header_Set (rs_header (underlying rw)) ''Content-Type'' ''application/x-protobuf'')"
proof
  show "EncodeProtoResponse it (\<lambda>_. None) view marshal rw pres
     = EncodeProtoResponse it (\<lambda>_. None) (\<lambda>p. (view p)\<lparr>v_Headers := hs\<rparr>) marshal rw pres"
    by (cases "marshal pres") (simp_all add: EncodeProtoResponse_def Let_def)
  have h: "rs_header (std_WriteHeader c rs) = rs_header rs" for c rs by (simp add: std_WriteHeader_def)
  show "rs_header (underlying (fst (EncodeProtoResponse it (\<lambda>_. None) view marshal rw pres)))
     = (if marshal pres = None then rs_header (underlying rw)
        else Header_Set (rs_header (underlying rw)) ''Content-Type'' ''application/x-protobuf'')"
    by (cases rw) (auto simp: EncodeProtoResponse_def Let_def h iw_WriteHeader_def iw_Write_def std_Write_def
        split: option.split sum.split prod.split)
qed

end
