(* ===== verification/Http_Client.thy ===== *)
theory Http_Client
  imports Http_Server
begin

text \<open>
  Package transport/http, file client.go (with the encoder of package transport/http/proto and the
  decoder of encode_decode.go): an endpoint that sends its request to a server. What a call does to its
  context and to the body of the response is noted as a list of events, in the order in which the
  deferred functions run. The HTTP client, the encoder, the decoder and the request functions are
  arguments. A request that arrives as \<open>interface{}\<close> is an option (\<open>None\<close> is nil), and \<open>as_I\<close> is the
  assertion of its type.
\<close>

record http_response =
  resp_StatusCode :: int
  resp_Header :: Header
  resp_ContentLength :: int
  resp_Body :: string

datatype client_event = CancelContext | CloseBody | RunFinalizers "go_error option"

definition InvalidRequest :: go_error where
  "InvalidRequest = ErrorText ''invalid request''"

definition InvalidRequestCode :: int where "InvalidRequestCode = 2400"
definition InvalidRequest_StatusCode :: int where "InvalidRequest_StatusCode = 400"

text \<open>
  \<open>Do\<close> returns an error, sometimes with a response, or a response: net/http promises one when there is
  no error.
\<close>

type_synonym 'w HTTPClient =
  "context_values \<Rightarrow> http_request \<Rightarrow> 'w \<Rightarrow> 'w \<times> (go_error \<times> http_response option + http_response)"
type_synonym ('w, 'i) CreateRequestFunc = "context_values \<Rightarrow> 'i \<Rightarrow> 'w \<Rightarrow> 'w \<times> http_request \<times> go_error option"

record ('w, 'i, 'o) client =
  cl_client :: "'w HTTPClient"
  cl_req :: "('w, 'i) CreateRequestFunc"
  cl_dec :: "context_values \<Rightarrow> http_response \<Rightarrow> 'w \<Rightarrow> 'w \<times> 'o \<times> go_error option"
  cl_before :: "'w RequestFunc list"
  cl_after :: "(context_values \<Rightarrow> http_response \<Rightarrow> 'w \<Rightarrow> 'w \<times> context_values) list"
  cl_finalizer :: "(context_values \<Rightarrow> go_error option \<Rightarrow> 'w \<Rightarrow> 'w) list"
  cl_bufferedStream :: bool

type_synonym ('w, 'i, 'o) client_option = "('w, 'i, 'o) client \<Rightarrow> ('w, 'i, 'o) client"

definition new_request :: "string \<Rightarrow> string \<Rightarrow> http_request" where
  "new_request method target =
     \<lparr>r_Method = method, r_RequestURI = [], r_URL_Path = target, r_Proto = ''HTTP/1.1'', r_Host = [],
      r_RemoteAddr = [], r_Header = [], r_Body = []\<rparr>"

text \<open>\<open>http.NewRequest\<close> fails for a malformed method or target, which \<open>url_error\<close> says.\<close>

definition makeCreateRequestFunc :: "(string \<Rightarrow> string \<Rightarrow> go_error option) \<Rightarrow> string \<Rightarrow> string
    \<Rightarrow> (context_values \<Rightarrow> http_request \<Rightarrow> 'i \<Rightarrow> 'w \<Rightarrow> 'w \<times> http_request \<times> go_error option) \<Rightarrow> ('w, 'i) CreateRequestFunc" where
  "makeCreateRequestFunc url_error method target enc ctx request w =
     (case url_error method target of
        Some err \<Rightarrow> (w, new_request method target, Some err)
      | None \<Rightarrow> enc ctx (new_request method target) request w)"

definition NewExplicitClient :: "'w HTTPClient \<Rightarrow> ('w, 'i) CreateRequestFunc
    \<Rightarrow> (context_values \<Rightarrow> http_response \<Rightarrow> 'w \<Rightarrow> 'w \<times> 'o \<times> go_error option)
    \<Rightarrow> ('w, 'i, 'o) client_option list \<Rightarrow> ('w, 'i, 'o) client" where
  "NewExplicitClient DefaultClient req dec options =
     fold (\<lambda>option c. option c) options
       \<lparr>cl_client = DefaultClient, cl_req = req, cl_dec = dec, cl_before = [], cl_after = [], cl_finalizer = [],
        cl_bufferedStream = False\<rparr>"

definition NewClient :: "'w HTTPClient \<Rightarrow> (string \<Rightarrow> string \<Rightarrow> go_error option) \<Rightarrow> string \<Rightarrow> string
    \<Rightarrow> (context_values \<Rightarrow> http_request \<Rightarrow> 'i \<Rightarrow> 'w \<Rightarrow> 'w \<times> http_request \<times> go_error option)
    \<Rightarrow> (context_values \<Rightarrow> http_response \<Rightarrow> 'w \<Rightarrow> 'w \<times> 'o \<times> go_error option)
    \<Rightarrow> ('w, 'i, 'o) client_option list \<Rightarrow> ('w, 'i, 'o) client" where
  "NewClient DefaultClient url_error method tgt enc dec options =
     NewExplicitClient DefaultClient (makeCreateRequestFunc url_error method tgt enc) dec options"

definition SetClient :: "'w HTTPClient \<Rightarrow> ('w, 'i, 'o) client_option" where
  "SetClient hc c = c\<lparr>cl_client := hc\<rparr>"

definition ClientBefore :: "'w RequestFunc list \<Rightarrow> ('w, 'i, 'o) client_option" where
  "ClientBefore before c = c\<lparr>cl_before := cl_before c @ before\<rparr>"

definition ClientAfter :: "(context_values \<Rightarrow> http_response \<Rightarrow> 'w \<Rightarrow> 'w \<times> context_values) list \<Rightarrow> ('w, 'i, 'o) client_option" where
  "ClientAfter after c = c\<lparr>cl_after := cl_after c @ after\<rparr>"

definition ClientFinalizer :: "(context_values \<Rightarrow> go_error option \<Rightarrow> 'w \<Rightarrow> 'w) list \<Rightarrow> ('w, 'i, 'o) client_option" where
  "ClientFinalizer f c = c\<lparr>cl_finalizer := cl_finalizer c @ f\<rparr>"

definition BufferedStream :: "bool \<Rightarrow> ('w, 'i, 'o) client_option" where
  "BufferedStream buffered c = c\<lparr>cl_bufferedStream := buffered\<rparr>"

text \<open>The deferred function of the finalizers; \<open>ctx\<close>, \<open>resp\<close> and \<open>err\<close> are the variables it captures.\<close>

definition client_finalize :: "('w, 'i, 'o) client \<Rightarrow> context_values \<Rightarrow> http_response option \<Rightarrow> go_error option \<Rightarrow> 'w \<Rightarrow> 'w" where
  "client_finalize c ctx resp err w =
     (let ctx1 = (case resp of
          None \<Rightarrow> ctx
        | Some r \<Rightarrow> WithValue (WithValue ctx ContextKeyResponseHeaders (AnyHeader (resp_Header r)))
            ContextKeyResponseSize (AnyInt (resp_ContentLength r)))
      in fold (\<lambda>f w. f ctx1 err w) (cl_finalizer c) w)"

definition Client_Endpoint :: "('w, 'i, 'o) client \<Rightarrow> ('dyn \<Rightarrow> 'i option) \<Rightarrow> 'i \<Rightarrow> 'o \<Rightarrow> context_values \<Rightarrow> 'dyn option \<Rightarrow> 'w
    \<Rightarrow> 'w \<times> client_event list \<times> 'o \<times> go_error option" where
  "Client_Endpoint c as_I zero_i zero ctx request w =
     (let finish = (\<lambda>ctx resp err w evs x. (client_finalize c ctx resp err w, evs @ [RunFinalizers err], x, err));
          (req1, ok) = (case request of
             None \<Rightarrow> (zero_i, False)
           | Some d \<Rightarrow> (case as_I d of None \<Rightarrow> (zero_i, False) | Some i \<Rightarrow> (i, True)))
      in if \<not> ok \<and> request \<noteq> None then finish ctx None (Some InvalidRequest) w [CancelContext] zero
      else
        (case cl_req c ctx req1 w of
           (w1, hreq, Some err) \<Rightarrow> finish ctx None (Some err) w1 [CancelContext] zero
         | (w1, hreq, None) \<Rightarrow>
             (let (w2, hreq1, ctx1) = run_before (cl_before c) ctx hreq w1 in
              case cl_client c ctx1 hreq1 w2 of
                (w3, Inl (err, resp)) \<Rightarrow> finish ctx1 resp (Some err) w3 [CancelContext] zero
              | (w3, Inr resp) \<Rightarrow>
                  (let deferred = (if cl_bufferedStream c then [] else [CancelContext, CloseBody]);
                       (w4, ctx2) = fold (\<lambda>f (w, ctx). f ctx resp w) (cl_after c) (w3, ctx1);
                       (w5, response, err) = cl_dec c ctx2 resp w4
                   in finish ctx2 (Some resp) err w5 deferred response))))"

text \<open>Closing the wrapped body of a buffered stream: the error of the inner \<open>Close\<close> is dropped.\<close>

definition bodyWithCancel_Close :: "('w \<Rightarrow> 'w \<times> go_error option) \<Rightarrow> 'w \<Rightarrow> 'w \<times> client_event list \<times> go_error option" where
  "bodyWithCancel_Close inner_close w = (case inner_close w of (w1, _) \<Rightarrow> (w1, [CloseBody, CancelContext], None))"

subsection \<open>Encoders and decoders\<close>

definition set_headers :: "header_order \<Rightarrow> Header \<Rightarrow> Header \<Rightarrow> Header" where
  "set_headers it hs h = fold (\<lambda>(k, _) h. Header_Set h k (Header_Get hs k)) (it hs) h"

definition encode_body :: "string \<Rightarrow> header_order \<Rightarrow> ('i \<Rightarrow> view) \<Rightarrow> ('i \<Rightarrow> go_error + string) \<Rightarrow> http_request \<Rightarrow> 'i
    \<Rightarrow> http_request \<times> go_error option" where
  "encode_body contentType it view marshal r request =
     (let h1 = Header_Set (r_Header r) ''Content-Type'' contentType;
          h2 = (case v_Headers (view request) of None \<Rightarrow> h1 | Some hs \<Rightarrow> set_headers it hs h1)
      in case marshal request of
           Inl err \<Rightarrow> (r\<lparr>r_Header := h2, r_Body := []\<rparr>, Some err)
         | Inr b \<Rightarrow> (r\<lparr>r_Header := h2, r_Body := b\<rparr>, None))"

definition EncodeJSONRequest :: "header_order \<Rightarrow> ('i \<Rightarrow> view) \<Rightarrow> ('i \<Rightarrow> go_error + string)
    \<Rightarrow> context_values \<Rightarrow> http_request \<Rightarrow> 'i \<Rightarrow> 'w \<Rightarrow> 'w \<times> http_request \<times> go_error option" where
  "EncodeJSONRequest it view marshal ctx r request w =
     (w, encode_body ''application/json; charset=utf-8'' it view
           (\<lambda>x. case marshal x of Inl e \<Rightarrow> Inl e | Inr s \<Rightarrow> Inr (s @ [CHR 0x0A])) r request)"

definition EncodeXMLRequest :: "header_order \<Rightarrow> ('i \<Rightarrow> view) \<Rightarrow> ('i \<Rightarrow> go_error + string)
    \<Rightarrow> context_values \<Rightarrow> http_request \<Rightarrow> 'i \<Rightarrow> 'w \<Rightarrow> 'w \<times> http_request \<times> go_error option" where
  "EncodeXMLRequest it view marshal ctx r request w =
     (w, encode_body ''text/xml; charset=utf-8'' it view marshal r request)"

definition EncodeProtoRequest :: "header_order \<Rightarrow> ('i \<Rightarrow> view) \<Rightarrow> ('i \<Rightarrow> (go_error + string) option)
    \<Rightarrow> context_values \<Rightarrow> http_request \<Rightarrow> 'i \<Rightarrow> 'w \<Rightarrow> 'w \<times> http_request \<times> go_error option" where
  "EncodeProtoRequest it view marshal ctx r preq w =
     (w, encode_body ''application/x-protobuf'' it view
           (\<lambda>x. case marshal x of None \<Rightarrow> Inl (ErrorText ''response does not implement proto.Message'') | Some res \<Rightarrow> res) r preq)"

definition DefaultDecodeJson :: "(string \<Rightarrow> 'i \<times> go_error option) \<Rightarrow> context_values \<Rightarrow> http_request \<Rightarrow> 'w \<Rightarrow> 'w \<times> 'i \<times> go_error option" where
  "DefaultDecodeJson unmarshal ctx req w = (w, unmarshal (r_Body req))"

subsection \<open>Resources\<close>

definition cancels :: "client_event list \<Rightarrow> nat" where
  "cancels evs = count_list evs CancelContext"

definition closes :: "client_event list \<Rightarrow> nat" where
  "closes evs = count_list evs CloseBody"

lemmas client_cases = Client_Endpoint_def cancels_def closes_def

text \<open>Whether a call gets a response: its request is of the right type and can be built, and \<open>Do\<close> succeeds.\<close>

definition client_got_response :: "('w, 'i, 'o) client \<Rightarrow> ('dyn \<Rightarrow> 'i option) \<Rightarrow> 'i \<Rightarrow> context_values \<Rightarrow> 'dyn option \<Rightarrow> 'w \<Rightarrow> bool" where
  "client_got_response c as_I zero_i ctx request w =
     (case (case request of None \<Rightarrow> Some zero_i | Some d \<Rightarrow> as_I d) of
        None \<Rightarrow> False
      | Some i \<Rightarrow>
          (case cl_req c ctx i w of
             (w1, hreq, Some err) \<Rightarrow> False
           | (w1, hreq, None) \<Rightarrow>
               (case run_before (cl_before c) ctx hreq w1 of (w2, hreq1, ctx1) \<Rightarrow>
                  (case cl_client c ctx1 hreq1 w2 of (w3, Inl _) \<Rightarrow> False | (w3, Inr _) \<Rightarrow> True))))"

text \<open>C28: What a call does to its context and to the body of its response, exactly. A call that gets no
  response returns an error, cancels its context once and has no body to close. A call that gets one and
  does not buffer cancels its context and closes the body, each exactly once and in this order, whether
  decoding succeeds or fails. With a buffered stream such a call does neither: the caller releases
  both by closing the body. The finalizers run last, once, with the error that the call returns. A call
  that gets a response returns what its decoder makes of it.\<close>

theorem Client_Endpoint_releases:
  assumes "Client_Endpoint c as_I zero_i zero ctx request w = (w', evs, x, err)"
  shows "evs = (if \<not> client_got_response c as_I zero_i ctx request w then [CancelContext]
                else if cl_bufferedStream c then [] else [CancelContext, CloseBody]) @ [RunFinalizers err]
    \<and> closes evs = (if client_got_response c as_I zero_i ctx request w \<and> \<not> cl_bufferedStream c then 1 else 0)
    \<and> cancels evs = (if client_got_response c as_I zero_i ctx request w \<and> cl_bufferedStream c then 0 else 1)
    \<and> (case bodyWithCancel_Close inner_close w of (_, later, _) \<Rightarrow> cancels later = 1 \<and> closes later = 1)
    \<and> (if client_got_response c as_I zero_i ctx request w
       then (\<exists>resp ctx2 w4 w5. cl_dec c ctx2 resp w4 = (w5, x, err)) else x = zero \<and> err \<noteq> None)"
proof -
  let ?got = "client_got_response c as_I zero_i ctx request w"
  have "evs = (if \<not> ?got then [CancelContext] else if cl_bufferedStream c then [] else [CancelContext, CloseBody]) @ [RunFinalizers err]
    \<and> (if ?got then (\<exists>resp ctx2 w4 w5. cl_dec c ctx2 resp w4 = (w5, x, err)) else x = zero \<and> err \<noteq> None)"
  proof (cases "case request of None \<Rightarrow> Some zero_i | Some d \<Rightarrow> as_I d")
    case None
    with assms show ?thesis by (cases request) (auto simp: Client_Endpoint_def client_got_response_def)
  next
    case (Some i)
    obtain w1 hreq er where q: "cl_req c ctx i w = (w1, hreq, er)" by (rule prod_cases3)
    obtain w2 hreq1 ctx1 where b: "run_before (cl_before c) ctx hreq w1 = (w2, hreq1, ctx1)" by (rule prod_cases3)
    obtain w3 answer where a: "cl_client c ctx1 hreq1 w2 = (w3, answer)" by (rule prod.exhaust)
    have "?got = (er = None \<and> \<not> isl answer)"
      by (cases er; cases answer) (simp_all add: client_got_response_def Some q b a)
    moreover have "Client_Endpoint c as_I zero_i zero ctx request w =
      (case er of
         Some err \<Rightarrow> (client_finalize c ctx None (Some err) w1, [CancelContext, RunFinalizers (Some err)], zero, Some err)
       | None \<Rightarrow>
           (case answer of
              Inl (err, resp) \<Rightarrow> (client_finalize c ctx1 resp (Some err) w3, [CancelContext, RunFinalizers (Some err)], zero, Some err)
            | Inr resp \<Rightarrow>
                (let (w4, ctx2) = fold (\<lambda>f (w, ctx). f ctx resp w) (cl_after c) (w3, ctx1);
                     (w5, response, err) = cl_dec c ctx2 resp w4
                 in (client_finalize c ctx2 (Some resp) err w5,
                     (if cl_bufferedStream c then [] else [CancelContext, CloseBody]) @ [RunFinalizers err], response, err))))"
      using Some q b a
      by (cases request; cases er; cases answer) (simp_all add: Client_Endpoint_def Let_def split: prod.split)
    ultimately show ?thesis
      using assms by (cases er; cases answer) (auto split: prod.splits)
  qed
  then have e: "evs = (if \<not> ?got then [CancelContext] else if cl_bufferedStream c then [] else [CancelContext, CloseBody]) @ [RunFinalizers err]"
    and d: "if ?got then (\<exists>resp ctx2 w4 w5. cl_dec c ctx2 resp w4 = (w5, x, err)) else x = zero \<and> err \<noteq> None"
    by blast+
  have "case bodyWithCancel_Close inner_close w of (_, later, _) \<Rightarrow> cancels later = 1 \<and> closes later = 1"
    by (simp add: bodyWithCancel_Close_def cancels_def closes_def split: prod.split)
  with e d show ?thesis by (simp add: cancels_def closes_def)
qed

text \<open>A call whose response cannot be decoded, over a stream: nothing is cancelled or closed.\<close>

definition undecodable :: "bool \<Rightarrow> (unit, nat, nat) client" where
  "undecodable buffered = NewClient
     (\<lambda>ctx r w. (w, Inr \<lparr>resp_StatusCode = 200, resp_Header = [], resp_ContentLength = 1, resp_Body = ''x''\<rparr>))
     (\<lambda>_ _. None) ''GET'' ''/'' (\<lambda>ctx r i w. (w, r, None)) (\<lambda>ctx resp w. (w, 0, Some (ErrorText ''bad'')))
     [BufferedStream buffered]"

theorem Client_Endpoint_releases_witness:
  "fst (snd (Client_Endpoint (undecodable True) Some 0 0 [] (Some (1 :: nat)) ())) = [RunFinalizers (Some (ErrorText ''bad''))]
   \<and> closes (fst (snd (Client_Endpoint (undecodable False) Some 0 0 [] (Some (1 :: nat)) ()))) = 1"
proof -
  have e: "Client_Endpoint (undecodable b) Some 0 0 [] (Some (1 :: nat)) ()
      = ((), (if b then [] else [CancelContext, CloseBody]) @ [RunFinalizers (Some (ErrorText ''bad''))], 0, Some (ErrorText ''bad''))" for b
    by (simp add: undecodable_def NewClient_def NewExplicitClient_def makeCreateRequestFunc_def BufferedStream_def
        Client_Endpoint_def run_before_def client_finalize_def)
  have t: "cl_bufferedStream (undecodable b) = b" "client_got_response (undecodable b) Some 0 [] (Some (1 :: nat)) () = True" for b
    by (simp_all add: undecodable_def NewClient_def NewExplicitClient_def BufferedStream_def makeCreateRequestFunc_def
        client_got_response_def run_before_def)
  have "closes (fst (snd (Client_Endpoint (undecodable False) Some 0 0 [] (Some (1 :: nat)) ()))) = 1"
    using Client_Endpoint_releases [OF e [of False], where inner_close = "\<lambda>u. (u, None)"] unfolding e t fst_conv snd_conv by simp
  then show ?thesis by (simp only: e) simp
qed

subsection \<open>A client of a server\<close>

text \<open>The network between a client and a server of the model: the connection fails if the handler panics. Redirects are
  not followed.\<close>

definition sent_response :: "response \<Rightarrow> http_response" where
  "sent_response rs =
     (let rs1 = std_WriteHeader StatusOK rs in
      \<lparr>resp_StatusCode = the (rs_status rs1), resp_Header = rs_sent rs1,
       resp_ContentLength = int (length (rs_body rs1)), resp_Body = rs_body rs1\<rparr>)"

definition serve_over :: "('w, 'i, 'o) server \<Rightarrow> 'w HTTPClient" where
  "serve_over s ctx hreq w =
     (case ServeHTTP s [] new_response hreq w of
        (w1, rs, Ret _) \<Rightarrow> (w1, Inr (sent_response rs))
      | (w1, rs, Panic _) \<Rightarrow> (w1, Inl (ErrorText ''EOF'', None)))"

definition plain_view :: "'a \<Rightarrow> view" where
  "plain_view x = \<lparr>v_StatusCode = None, v_Headers = None, v_Error = [], v_MarshalJSON = None\<rparr>"

definition json_server :: "('w, 'i, 'o) endpoint \<Rightarrow> (string \<Rightarrow> 'i \<times> go_error option) \<Rightarrow> ('o \<Rightarrow> go_error + string)
    \<Rightarrow> (go_error \<Rightarrow> view) \<Rightarrow> ('w, 'i, 'o) server" where
  "json_server e unmarshal marshal view_e =
     NewServer (\<lambda>hs. hs) view_e e (DefaultDecodeJson unmarshal)
       (\<lambda>ctx rw x w. case EncodeJSONResponse (\<lambda>hs. hs) plain_view marshal rw x of (rw1, err) \<Rightarrow> (w, rw1, err)) []"

definition json_client :: "'w HTTPClient \<Rightarrow> ('i \<Rightarrow> go_error + string) \<Rightarrow> (string \<Rightarrow> 'o \<times> go_error option) \<Rightarrow> ('w, 'i, 'o) client" where
  "json_client http marshal unmarshal =
     NewClient http (\<lambda>_ _. None) ''POST'' ''/'' (EncodeJSONRequest (\<lambda>hs. hs) plain_view marshal)
       (\<lambda>ctx resp w. (w, unmarshal (resp_Body resp))) []"

text \<open>What \<open>DefaultErrorEncoder\<close> sends for an error: the status, and the body where the status allows one.\<close>

definition error_status :: "view \<Rightarrow> int" where
  "error_status v = (case v_StatusCode v of None \<Rightarrow> StatusInternalServerError | Some code \<Rightarrow> code)"

definition error_body :: "view \<Rightarrow> string" where
  "error_body v =
     (if body_allowed (error_status v)
      then (case v_MarshalJSON v of Some (Some jsonBody) \<Rightarrow> jsonBody | _ \<Rightarrow> v_Error v) else [])"

lemma DefaultErrorEncoder_sends:
  "\<exists>rs1. DefaultErrorEncoder it v err (Plain new_response) = Plain rs1
     \<and> resp_StatusCode (sent_response rs1) = error_status (v err) \<and> resp_Body (sent_response rs1) = error_body (v err)"
  by (cases "v_Headers (v err)")
    (auto simp: DefaultErrorEncoder_def error_status_def error_body_def sent_response_def std_WriteHeader_def
      std_Write_def new_response_def Let_def split: prod.splits option.splits)

lemma json_server_serves:
  assumes "unmarshal (r_Body r) = (x, None)"
  shows "e [] x w = (w1, Panicked p)
      \<Longrightarrow> ServeHTTP (json_server e unmarshal marshal view_e) [] new_response r w = (w1, new_response, Panic p)"
    and "e [] x w = (w1, Reply y (Some err))
      \<Longrightarrow> \<exists>rs. ServeHTTP (json_server e unmarshal marshal view_e) [] new_response r w = (w1, rs, Ret ())
        \<and> resp_StatusCode (sent_response rs) = error_status (view_e err)
        \<and> resp_Body (sent_response rs) = error_body (view_e err)"
    and "e [] x w = (w1, Reply y None) \<Longrightarrow> marshal y = Inr j
      \<Longrightarrow> \<exists>rs. ServeHTTP (json_server e unmarshal marshal view_e) [] new_response r w = (w1, rs, Ret ())
        \<and> resp_Body (sent_response rs) = j @ [CHR 0x0A]"
proof -
  note defs = json_server_def NewServer_def ServeHTTP_def run_before_def serve_decoded_def DefaultDecodeJson_def
  show "e [] x w = (w1, Panicked p)
      \<Longrightarrow> ServeHTTP (json_server e unmarshal marshal view_e) [] new_response r w = (w1, new_response, Panic p)"
    by (simp add: defs assms)
  obtain rs1 where "DefaultErrorEncoder (\<lambda>hs. hs) view_e err (Plain new_response) = Plain rs1"
    "resp_StatusCode (sent_response rs1) = error_status (view_e err)" "resp_Body (sent_response rs1) = error_body (view_e err)"
    using DefaultErrorEncoder_sends [of "\<lambda>hs. hs" view_e err] by blast
  then show "e [] x w = (w1, Reply y (Some err))
      \<Longrightarrow> \<exists>rs. ServeHTTP (json_server e unmarshal marshal view_e) [] new_response r w = (w1, rs, Ret ())
        \<and> resp_StatusCode (sent_response rs) = error_status (view_e err)
        \<and> resp_Body (sent_response rs) = error_body (view_e err)"
    by (simp add: defs assms report_error_def NopErrorHandler_def)
  show "e [] x w = (w1, Reply y None) \<Longrightarrow> marshal y = Inr j
      \<Longrightarrow> \<exists>rs. ServeHTTP (json_server e unmarshal marshal view_e) [] new_response r w = (w1, rs, Ret ())
        \<and> resp_Body (sent_response rs) = j @ [CHR 0x0A]"
    by (simp add: defs assms run_after_def EncodeJSONResponse_def plain_view_def StatusOK_def StatusNoContent_def
        std_WriteHeader_def std_Write_def body_allowed_def new_response_def sent_response_def)
qed

text \<open>C5: Transport over HTTP: with codecs that read back what they write, a call of the endpoint of a JSON
  client that is connected to a JSON server makes exactly the change to the world that the served
  endpoint makes. If the endpoint succeeds the client returns its response and no error. If the endpoint
  panics the client returns the zero response and the error of the broken connection. If the endpoint
  returns an error, the client does not look at the status of the response: it returns exactly what its decoder makes
  of the body that the error was encoded to, so an error whose text decodes comes back as a success.\<close>

theorem http_transport_transparent:
  assumes "\<And>x. \<exists>j. marshal_i x = Inr j \<and> unmarshal_i (j @ [CHR 0x0A]) = (x, None)"
    and "\<And>y. \<exists>j. marshal_o y = Inr j \<and> unmarshal_o (j @ [CHR 0x0A]) = (y, None)"
    and "as_I d = Some x" and "e [] x w = (w1, r)"
    and "Client_Endpoint (json_client (serve_over (json_server e unmarshal_i marshal_o view_e)) marshal_i unmarshal_o)
      as_I zero_i zero ctx (Some d) w = (w2, evs, z, err)"
  shows "case r of
      Reply y None \<Rightarrow> w2 = w1 \<and> z = y \<and> err = None
    | Reply y (Some e1) \<Rightarrow> w2 = w1 \<and> (z, err) = unmarshal_o (error_body (view_e e1))
    | Panicked _ \<Rightarrow> w2 = w1 \<and> z = zero \<and> err = Some (ErrorText ''EOF'')"
proof -
  from assms(1) obtain j where j: "marshal_i x = Inr j" "unmarshal_i (j @ [CHR 0x0A]) = (x, None)" by blast
  let ?hreq = "(new_request ''POST'' ''/'')\<lparr>r_Header := Header_Set [] ''Content-Type'' ''application/json; charset=utf-8'',
    r_Body := j @ [CHR 0x0A]\<rparr>"
  let ?s = "json_server e unmarshal_i marshal_o view_e"
  have q: "EncodeJSONRequest (\<lambda>hs. hs) plain_view marshal_i ctx (new_request ''POST'' ''/'') x w = (w, ?hreq, None)"
    by (simp add: EncodeJSONRequest_def encode_body_def plain_view_def j(1) new_request_def)
  have c: "(w2, z, err) = (case serve_over ?s ctx ?hreq w of
      (w3, Inl (err, _)) \<Rightarrow> (w3, zero, Some err)
    | (w3, Inr resp) \<Rightarrow> (w3, unmarshal_o (resp_Body resp)))"
    using assms(3,5) q
    by (auto simp: json_client_def NewClient_def NewExplicitClient_def makeCreateRequestFunc_def Client_Endpoint_def
        run_before_def client_finalize_def Let_def split: prod.splits sum.splits)
  have u: "unmarshal_i (r_Body ?hreq) = (x, None)" using j(2) by simp
  note serves = json_server_serves [where unmarshal = unmarshal_i and r = ?hreq and x = x and e = e and w = w and ?w1.0 = w1, OF u]
  show ?thesis
  proof (cases r)
    case (Panicked p)
    then show ?thesis using c serves(1) [of p marshal_o view_e] assms(4) by (simp add: serve_over_def)
  next
    case (Reply y er)
    show ?thesis
    proof (cases er)
      case None
      from assms(2) obtain jo where jo: "marshal_o y = Inr jo" "unmarshal_o (jo @ [CHR 0x0A]) = (y, None)" by blast
      obtain rs where "ServeHTTP ?s [] new_response ?hreq w = (w1, rs, Ret ())"
        "resp_Body (sent_response rs) = jo @ [CHR 0x0A]"
        using serves(3) [of y marshal_o jo view_e] jo(1) assms(4) Reply None by blast
      then show ?thesis using c Reply None jo(2) by (simp add: serve_over_def)
    next
      case (Some err1)
      then obtain rs where "ServeHTTP ?s [] new_response ?hreq w = (w1, rs, Ret ())"
        "resp_Body (sent_response rs) = error_body (view_e err1)"
        using serves(2) [of y err1 marshal_o view_e] assms(4) Reply by blast
      then show ?thesis using c Reply Some by (simp add: serve_over_def)
    qed
  qed
qed

text \<open>A codec for strings: JSON text in which nothing needs to be escaped.\<close>

definition line_unmarshal :: "string \<Rightarrow> string \<times> go_error option" where
  "line_unmarshal s = (butlast s, None)"

theorem http_transport_transparent_witness:
  "fst (snd (snd (Client_Endpoint (json_client (serve_over (json_server (\<lambda>ctx x w. (w + 1, Reply (x @ ''!'') None))
      line_unmarshal Inr plain_view)) Inr line_unmarshal) Some [] [] [] (Some ''hi'') (0 :: nat)))) = ''hi!''
   \<and> snd (snd (snd (Client_Endpoint (json_client (serve_over (json_server
        (\<lambda>ctx x w. (w + 1, Reply [] (Some (ErrorText ''busy'')))) line_unmarshal Inr plain_view)) Inr line_unmarshal)
        Some [] [] [] (Some ''hi'') (0 :: nat)))) = None"
proof -
  let ?c = "Client_Endpoint (json_client (serve_over (json_server (\<lambda>ctx x w. (w + 1, Reply (x @ ''!'') None))
      line_unmarshal Inr plain_view)) Inr line_unmarshal) Some [] [] [] (Some ''hi'') (0 :: nat)"
  let ?b = "Client_Endpoint (json_client (serve_over (json_server (\<lambda>ctx x w. (w + 1, Reply [] (Some (ErrorText ''busy''))))
      line_unmarshal Inr plain_view)) Inr line_unmarshal) Some [] [] [] (Some ''hi'') (0 :: nat)"
  obtain w2 evs z err where r: "?c = (w2, evs, z, err)" by (rule prod_cases4)
  obtain w3 evs3 z3 err3 where b: "?b = (w3, evs3, z3, err3)" by (rule prod_cases4)
  have codec: "\<exists>j. (Inr x :: go_error + string) = Inr j \<and> line_unmarshal (j @ [CHR 0x0A]) = (x, None)" for x
    by (simp add: line_unmarshal_def)
  have "z = ''hi!''" using http_transport_transparent [OF codec codec refl refl r] by simp
  moreover have "err3 = None" using http_transport_transparent [OF codec codec refl refl b] by (simp add: line_unmarshal_def)
  ultimately show ?thesis by (simp only: r b) simp
qed

end
