(* ===== verification/Jsonrpc.thy ===== *)
theory Jsonrpc
  imports Http_Client Float64
begin

text \<open>
  Package transport/http/jsonrpc: a server that dispatches JSON-RPC requests to endpoints by method
  name, a client, the ids of requests and the errors of the protocol. The JSON codec is a parameter
  (\<open>decode\<close>, \<open>encode\<close>) but for the ids, whose decoding into an integer, a float32 and a string is
  what \<open>RequestID\<close> is about; there the rounding of numbers to float32 is a parameter, \<open>round32\<close>.
\<close>

subsection \<open>Request ids\<close>

text \<open>JSON values as ids: a number (and whether it is written as an integer), a string, anything else.\<close>

datatype json_id = JNumber rat bool | JString string | JOther

record RequestID =
  rid_int :: int
  rid_intError :: bool
  rid_float :: rat
  rid_floatError :: bool
  rid_string :: string
  rid_stringError :: bool

definition in_int64 :: "rat \<Rightarrow> bool" where
  "in_int64 q = (- (2 ^ 63) \<le> q \<and> q < 2 ^ 63)"

definition unmarshal_int :: "json_id \<Rightarrow> int option" where
  "unmarshal_int j = (case j of JNumber q True \<Rightarrow> if in_int64 q then Some \<lfloor>q\<rfloor> else None | _ \<Rightarrow> None)"

definition unmarshal_float32 :: "(rat \<Rightarrow> rat option) \<Rightarrow> json_id \<Rightarrow> rat option" where
  "unmarshal_float32 round32 j = (case j of JNumber q _ \<Rightarrow> round32 q | _ \<Rightarrow> None)"

definition unmarshal_string :: "json_id \<Rightarrow> string option" where
  "unmarshal_string j = (case j of JString s \<Rightarrow> Some s | _ \<Rightarrow> None)"

definition RequestID_UnmarshalJSON :: "(rat \<Rightarrow> rat option) \<Rightarrow> json_id \<Rightarrow> RequestID" where
  "RequestID_UnmarshalJSON round32 b =
     \<lparr>rid_int = (case unmarshal_int b of None \<Rightarrow> 0 | Some i \<Rightarrow> i), rid_intError = (unmarshal_int b = None),
      rid_float = (case unmarshal_float32 round32 b of None \<Rightarrow> 0 | Some q \<Rightarrow> q),
      rid_floatError = (unmarshal_float32 round32 b = None),
      rid_string = (case unmarshal_string b of None \<Rightarrow> [] | Some s \<Rightarrow> s),
      rid_stringError = (unmarshal_string b = None)\<rparr>"

definition RequestID_MarshalJSON :: "RequestID \<Rightarrow> json_id" where
  "RequestID_MarshalJSON r =
     (if \<not> rid_intError r then JNumber (of_int (rid_int r)) True
      else if \<not> rid_floatError r then JNumber (rid_float r) (rid_float r \<in> \<int>)
      else JString (rid_string r))"

definition RequestID_Int :: "RequestID \<Rightarrow> int \<times> bool" where
  "RequestID_Int r = (rid_int r, rid_intError r)"

definition RequestID_Float32 :: "RequestID \<Rightarrow> rat \<times> bool" where
  "RequestID_Float32 r = (rid_float r, rid_floatError r)"

definition RequestID_String :: "RequestID \<Rightarrow> string \<times> bool" where
  "RequestID_String r = (rid_string r, rid_stringError r)"

text \<open>Ids with the same JSON value.\<close>

fun same_id :: "json_id \<Rightarrow> json_id \<Rightarrow> bool" where
  "same_id (JNumber p _) (JNumber q _) = (p = q)"
| "same_id (JString s) (JString t) = (s = t)"
| "same_id _ _ = False"

subsection \<open>Errors\<close>

record rpc_error =
  e_Code :: int
  e_Message :: string
  e_Data :: "string option"

definition ParseError :: int where "ParseError = -32700"
definition InvalidRequestError :: int where "InvalidRequestError = -32600"
definition MethodNotFoundError :: int where "MethodNotFoundError = -32601"
definition InvalidParamsError :: int where "InvalidParamsError = -32602"
definition InternalError :: int where "InternalError = -32603"

definition errorMessage :: "(int \<times> string) list" where
  "errorMessage =
     [(ParseError, ''An error occurred on the server while parsing the JSON text.''),
      (InvalidRequestError, ''The JSON sent is not a valid Request object.''),
      (MethodNotFoundError, ''The method does not exist / is not available.''),
      (InvalidParamsError, ''Invalid method parameter(s).''),
      (InternalError, ''Internal JSON-RPC error.'')]"

definition ErrorMessage :: "int \<Rightarrow> string" where
  "ErrorMessage code = (case map_of errorMessage code of None \<Rightarrow> [] | Some s \<Rightarrow> s)"

definition Error_Error :: "rpc_error \<Rightarrow> string" where
  "Error_Error e = (if e_Message e \<noteq> [] then e_Message e else ErrorMessage (e_Code e))"

definition Error_ErrorCode :: "rpc_error \<Rightarrow> int" where
  "Error_ErrorCode e = e_Code e"

text \<open>The errors that the server handles: its own, and those of codecs and endpoints.\<close>

datatype server_error = parseError string | invalidRequestError string | methodNotFoundError string
  | invalidParamsError string | internalError string | AppError go_error

record error_view =
  ev_Error :: string
  ev_ErrorCode :: "int option"
  ev_Headers :: "Header option"

primrec server_error_view :: "(go_error \<Rightarrow> error_view) \<Rightarrow> server_error \<Rightarrow> error_view" where
  "server_error_view view (parseError s) = \<lparr>ev_Error = s, ev_ErrorCode = Some ParseError, ev_Headers = None\<rparr>"
| "server_error_view view (invalidRequestError s) = \<lparr>ev_Error = s, ev_ErrorCode = Some InvalidRequestError, ev_Headers = None\<rparr>"
| "server_error_view view (methodNotFoundError s) = \<lparr>ev_Error = s, ev_ErrorCode = Some MethodNotFoundError, ev_Headers = None\<rparr>"
| "server_error_view view (invalidParamsError s) = \<lparr>ev_Error = s, ev_ErrorCode = Some InvalidParamsError, ev_Headers = None\<rparr>"
| "server_error_view view (internalError s) = \<lparr>ev_Error = s, ev_ErrorCode = Some InternalError, ev_Headers = None\<rparr>"
| "server_error_view view (AppError e) = view e"

subsection \<open>Messages\<close>

record rpc_request =
  q_JSONRPC :: string
  q_Method :: string
  q_Params :: string
  q_ID :: "RequestID option"

record rpc_response =
  a_JSONRPC :: string
  a_Result :: "string option"
  a_Error :: "rpc_error option"
  a_ID :: "RequestID option"

definition Version :: string where "Version = ''2.0''"
definition ContentType :: string where "ContentType = ''application/json; charset=utf-8''"

subsection \<open>The server\<close>

text \<open>The writer: the response and the code that the intercepting writer of this package holds.\<close>

record rpc_writer =
  jw_rs :: response
  jw_code :: int

definition jw_WriteHeader :: "int \<Rightarrow> rpc_writer \<Rightarrow> rpc_writer" where
  "jw_WriteHeader code w = w\<lparr>jw_code := code, jw_rs := std_WriteHeader code (jw_rs w)\<rparr>"

definition jw_Write :: "string \<Rightarrow> rpc_writer \<Rightarrow> rpc_writer" where
  "jw_Write p w = w\<lparr>jw_rs := fst (std_Write p (jw_rs w))\<rparr>"

definition jw_map_header :: "(Header \<Rightarrow> Header) \<Rightarrow> rpc_writer \<Rightarrow> rpc_writer" where
  "jw_map_header f w = w\<lparr>jw_rs := (jw_rs w)\<lparr>rs_header := f (rs_header (jw_rs w))\<rparr>\<rparr>"

text \<open>The id in the context is kept apart from the other values, as its key is private to the package.\<close>

definition DefaultRPCErrorEncoder :: "header_order \<Rightarrow> (go_error \<Rightarrow> error_view) \<Rightarrow> (rpc_response \<Rightarrow> string)
    \<Rightarrow> RequestID option \<Rightarrow> server_error \<Rightarrow> rpc_writer \<Rightarrow> rpc_writer" where
  "DefaultRPCErrorEncoder it view encode requestID err w =
     (let v = server_error_view view err;
          w1 = jw_map_header (\<lambda>h. Header_Set h ''Content-Type'' ContentType) w;
          w2 = (case ev_Headers v of None \<Rightarrow> w1 | Some hs \<Rightarrow> jw_map_header (set_headers it hs) w1);
          e = \<lparr>e_Code = (case ev_ErrorCode v of None \<Rightarrow> InternalError | Some c \<Rightarrow> c),
               e_Message = ev_Error v, e_Data = None\<rparr>;
          w3 = jw_WriteHeader StatusOK w2
      in jw_Write (encode \<lparr>a_JSONRPC = Version, a_Result = None, a_Error = Some e, a_ID = requestID\<rparr>) w3)"

record ('w, 'q, 'o) endpoint_codec =
  ec_Endpoint :: "('w, 'q, 'o) endpoint"
  ec_Decode :: "context_values \<Rightarrow> string \<Rightarrow> 'w \<Rightarrow> 'w \<times> (server_error + 'q)"
  ec_Encode :: "context_values \<Rightarrow> 'o \<Rightarrow> 'w \<Rightarrow> 'w \<times> (server_error + string)"

type_synonym ('w, 'q, 'o) EndpointCodecMap = "(string \<times> ('w, 'q, 'o) endpoint_codec) list"

type_synonym 'w rpc_RequestFunc = "context_values \<Rightarrow> http_request \<Rightarrow> rpc_request \<Rightarrow> 'w \<Rightarrow> 'w \<times> context_values"

record ('w, 'q, 'o) rpc_server =
  rs_ecm :: "('w, 'q, 'o) EndpointCodecMap"
  rs_before :: "'w RequestFunc list"
  rs_beforeCodec :: "'w rpc_RequestFunc list"
  rs_after :: "(context_values \<Rightarrow> rpc_writer \<Rightarrow> 'w \<Rightarrow> 'w \<times> rpc_writer \<times> context_values) list"
  rs_errorEncoder :: "RequestID option \<Rightarrow> server_error \<Rightarrow> rpc_writer \<Rightarrow> rpc_writer"
  rs_finalizer :: "(context_values \<Rightarrow> int \<Rightarrow> http_request \<Rightarrow> 'w \<Rightarrow> 'w) option"
  rs_logger :: "server_error \<Rightarrow> 'w \<Rightarrow> 'w"

type_synonym ('w, 'q, 'o) rpc_server_option = "('w, 'q, 'o) rpc_server \<Rightarrow> ('w, 'q, 'o) rpc_server"

definition rpc_NewServer :: "header_order \<Rightarrow> (go_error \<Rightarrow> error_view) \<Rightarrow> (rpc_response \<Rightarrow> string)
    \<Rightarrow> ('w, 'q, 'o) EndpointCodecMap \<Rightarrow> ('w, 'q, 'o) rpc_server_option list \<Rightarrow> ('w, 'q, 'o) rpc_server" where
  "rpc_NewServer it view encode ecm options =
     fold (\<lambda>option s. option s) options
       \<lparr>rs_ecm = ecm, rs_before = [], rs_beforeCodec = [], rs_after = [],
        rs_errorEncoder = DefaultRPCErrorEncoder it view encode, rs_finalizer = None, rs_logger = (\<lambda>err w. w)\<rparr>"

definition rpc_ServerBefore :: "'w RequestFunc list \<Rightarrow> ('w, 'q, 'o) rpc_server_option" where
  "rpc_ServerBefore before s = s\<lparr>rs_before := rs_before s @ before\<rparr>"

definition rpc_ServerBeforeCodec :: "'w rpc_RequestFunc list \<Rightarrow> ('w, 'q, 'o) rpc_server_option" where
  "rpc_ServerBeforeCodec beforeCodec s = s\<lparr>rs_beforeCodec := rs_beforeCodec s @ beforeCodec\<rparr>"

definition rpc_ServerAfter :: "(context_values \<Rightarrow> rpc_writer \<Rightarrow> 'w \<Rightarrow> 'w \<times> rpc_writer \<times> context_values) list
    \<Rightarrow> ('w, 'q, 'o) rpc_server_option" where
  "rpc_ServerAfter after s = s\<lparr>rs_after := rs_after s @ after\<rparr>"

definition rpc_ServerErrorEncoder :: "(RequestID option \<Rightarrow> server_error \<Rightarrow> rpc_writer \<Rightarrow> rpc_writer)
    \<Rightarrow> ('w, 'q, 'o) rpc_server_option" where
  "rpc_ServerErrorEncoder ee s = s\<lparr>rs_errorEncoder := ee\<rparr>"

definition rpc_ServerErrorLogger :: "(server_error \<Rightarrow> 'w \<Rightarrow> 'w) \<Rightarrow> ('w, 'q, 'o) rpc_server_option" where
  "rpc_ServerErrorLogger logger s = s\<lparr>rs_logger := logger\<rparr>"

definition rpc_ServerFinalizer :: "(context_values \<Rightarrow> int \<Rightarrow> http_request \<Rightarrow> 'w \<Rightarrow> 'w) \<Rightarrow> ('w, 'q, 'o) rpc_server_option" where
  "rpc_ServerFinalizer f s = s\<lparr>rs_finalizer := Some f\<rparr>"

definition rpc_fail :: "('w, 'q, 'o) rpc_server \<Rightarrow> RequestID option \<Rightarrow> server_error \<Rightarrow> rpc_writer \<Rightarrow> 'w \<Rightarrow> 'w \<times> rpc_writer" where
  "rpc_fail s requestID err jw w = (rs_logger s err w, rs_errorEncoder s requestID err jw)"

definition ContextKeyRequestMethod :: string where "ContextKeyRequestMethod = ''jsonrpc.Method''"

text \<open>The part of \<open>ServeHTTP\<close> after the body was decoded.\<close>

definition rpc_dispatch :: "('w, 'q, 'o) rpc_server \<Rightarrow> (rpc_response \<Rightarrow> string) \<Rightarrow> context_values \<Rightarrow> http_request
    \<Rightarrow> rpc_request \<Rightarrow> rpc_writer \<Rightarrow> 'w \<Rightarrow> 'w \<times> rpc_writer \<times> context_values \<times> unit outcome" where
  "rpc_dispatch s encode ctx0 r req jw w0 =
     (let (w, ctx) = fold (\<lambda>f (w, ctx). f ctx r req w) (rs_beforeCodec s)
            (w0, WithValue ctx0 ContextKeyRequestMethod (AnyString (q_Method req)));
          fail = (\<lambda>err jw w ctx. case rpc_fail s (q_ID req) err jw w of (w1, jw1) \<Rightarrow> (w1, jw1, ctx, Ret ()))
      in case map_of (rs_ecm s) (q_Method req) of
           None \<Rightarrow> fail (methodNotFoundError (''Method '' @ q_Method req @ '' was not found.'')) jw w ctx
         | Some ec \<Rightarrow>
             (case ec_Decode ec ctx (q_Params req) w of
                (w1, Inl err) \<Rightarrow> fail err jw w1 ctx
              | (w1, Inr reqParams) \<Rightarrow>
                  (case ec_Endpoint ec ctx reqParams w1 of
                     (w2, Panicked p) \<Rightarrow> (w2, jw, ctx, Panic p)
                   | (w2, Reply response (Some err)) \<Rightarrow> fail (AppError err) jw w2 ctx
                   | (w2, Reply response None) \<Rightarrow>
                       (let (w3, jw3, ctx3) = fold (\<lambda>f (w, jw, ctx). f ctx jw w) (rs_after s) (w2, jw, ctx) in
                        case ec_Encode ec ctx3 response w3 of
                          (w4, Inl err) \<Rightarrow> fail err jw3 w4 ctx3
                        | (w4, Inr resParams) \<Rightarrow>
                            (w4, jw_Write (encode \<lparr>a_JSONRPC = Version, a_Result = Some resParams, a_Error = None, a_ID = q_ID req\<rparr>)
                               (jw_map_header (\<lambda>h. Header_Set h ''Content-Type'' ContentType) jw3), ctx3, Ret ())))))"

definition rpc_ServeHTTP :: "('w, 'q, 'o) rpc_server \<Rightarrow> (string \<Rightarrow> string + rpc_request) \<Rightarrow> (rpc_response \<Rightarrow> string)
    \<Rightarrow> context_values \<Rightarrow> response \<Rightarrow> http_request \<Rightarrow> 'w \<Rightarrow> 'w \<times> response \<times> unit outcome" where
  "rpc_ServeHTTP s decode encode ctx rs r w =
     (if r_Method r \<noteq> ''POST'' then
        (let rs1 = rs\<lparr>rs_header := Header_Set (rs_header rs) ''Content-Type'' ''text/plain; charset=utf-8''\<rparr> in
         (w, fst (std_Write (''405 must POST'' @ [CHR 0x0A]) (std_WriteHeader 405 rs1)), Ret ()))
      else
        (let (w1, r1, ctx1) = run_before (rs_before s) ctx r w;
             jw = \<lparr>jw_rs = rs, jw_code = StatusOK\<rparr>;
             (w2, jw2, ctx2, out) =
               (case decode (r_Body r1) of
                  Inl msg \<Rightarrow>
                    (case rpc_fail s None (parseError (''JSON could not be decoded: '' @ msg)) jw w1 of
                       (w2, jw2) \<Rightarrow> (w2, jw2, ctx1, Ret ()))
                | Inr req \<Rightarrow> rpc_dispatch s encode ctx1 r1 req jw w1);
             w3 = (case rs_finalizer s of None \<Rightarrow> w2 | Some f \<Rightarrow> f ctx2 (jw_code jw2) r1 w2)
         in (w3, jw_rs jw2, out)))"

subsection \<open>The client\<close>

record 'id clientRequest =
  cq_JSONRPC :: string
  cq_Method :: string
  cq_Params :: string
  cq_ID :: 'id

record ('w, 'i, 'o, 'id) rpc_client =
  rc_client :: "'w HTTPClient"
  rc_tgt :: string
  rc_method :: string
  rc_enc :: "context_values \<Rightarrow> 'i \<Rightarrow> 'w \<Rightarrow> 'w \<times> (go_error + string)"
  rc_dec :: "context_values \<Rightarrow> rpc_response \<Rightarrow> 'w \<Rightarrow> 'w \<times> 'o \<times> go_error option"
  rc_before :: "'w RequestFunc list"
  rc_after :: "(context_values \<Rightarrow> http_response \<Rightarrow> 'w \<Rightarrow> 'w \<times> context_values) list"
  rc_finalizer :: "(context_values \<Rightarrow> go_error option \<Rightarrow> 'w \<Rightarrow> 'w) option"
  rc_requestID :: "'w \<Rightarrow> 'w \<times> 'id"
  rc_bufferedStream :: bool

type_synonym ('w, 'i, 'o, 'id) rpc_client_option = "('w, 'i, 'o, 'id) rpc_client \<Rightarrow> ('w, 'i, 'o, 'id) rpc_client"

definition DefaultRequestEncoder :: "('i \<Rightarrow> go_error + string) \<Rightarrow> context_values \<Rightarrow> 'i \<Rightarrow> 'w \<Rightarrow> 'w \<times> (go_error + string)" where
  "DefaultRequestEncoder marshal ctx req w = (w, marshal req)"

text \<open>An error of the response is returned as it is, an error of this package wrapped by \<open>wrap\<close>.\<close>

definition DefaultResponseDecoder :: "(rpc_error \<Rightarrow> go_error) \<Rightarrow> (string option \<Rightarrow> 'o \<times> go_error option) \<Rightarrow> 'o
    \<Rightarrow> context_values \<Rightarrow> rpc_response \<Rightarrow> 'w \<Rightarrow> 'w \<times> 'o \<times> go_error option" where
  "DefaultResponseDecoder wrap unmarshal zero ctx resp w =
     (case a_Error resp of
        Some e \<Rightarrow> (w, zero, Some (wrap e))
      | None \<Rightarrow> (w, unmarshal (a_Result resp)))"

definition rpc_NewClient :: "'w HTTPClient \<Rightarrow> ('i \<Rightarrow> go_error + string) \<Rightarrow> (rpc_error \<Rightarrow> go_error)
    \<Rightarrow> (string option \<Rightarrow> 'o \<times> go_error option) \<Rightarrow> 'o \<Rightarrow> ('w \<Rightarrow> 'w \<times> 'id) \<Rightarrow> string \<Rightarrow> string
    \<Rightarrow> ('w, 'i, 'o, 'id) rpc_client_option list \<Rightarrow> ('w, 'i, 'o, 'id) rpc_client" where
  "rpc_NewClient DefaultClient marshal wrap unmarshal zero autoID tgt method options =
     fold (\<lambda>option c. option c) options
       \<lparr>rc_client = DefaultClient, rc_tgt = tgt, rc_method = method, rc_enc = DefaultRequestEncoder marshal,
        rc_dec = DefaultResponseDecoder wrap unmarshal zero, rc_before = [], rc_after = [], rc_finalizer = None,
        rc_requestID = autoID, rc_bufferedStream = False\<rparr>"

definition rpc_SetClient :: "'w HTTPClient \<Rightarrow> ('w, 'i, 'o, 'id) rpc_client_option" where
  "rpc_SetClient hc c = c\<lparr>rc_client := hc\<rparr>"

definition rpc_ClientBefore :: "'w RequestFunc list \<Rightarrow> ('w, 'i, 'o, 'id) rpc_client_option" where
  "rpc_ClientBefore before c = c\<lparr>rc_before := rc_before c @ before\<rparr>"

definition rpc_ClientAfter :: "(context_values \<Rightarrow> http_response \<Rightarrow> 'w \<Rightarrow> 'w \<times> context_values) list
    \<Rightarrow> ('w, 'i, 'o, 'id) rpc_client_option" where
  "rpc_ClientAfter after c = c\<lparr>rc_after := rc_after c @ after\<rparr>"

definition rpc_ClientFinalizer :: "(context_values \<Rightarrow> go_error option \<Rightarrow> 'w \<Rightarrow> 'w) \<Rightarrow> ('w, 'i, 'o, 'id) rpc_client_option" where
  "rpc_ClientFinalizer f c = c\<lparr>rc_finalizer := Some f\<rparr>"

definition rpc_ClientRequestEncoder :: "(context_values \<Rightarrow> 'i \<Rightarrow> 'w \<Rightarrow> 'w \<times> (go_error + string)) \<Rightarrow> ('w, 'i, 'o, 'id) rpc_client_option" where
  "rpc_ClientRequestEncoder enc c = c\<lparr>rc_enc := enc\<rparr>"

definition rpc_ClientResponseDecoder :: "(context_values \<Rightarrow> rpc_response \<Rightarrow> 'w \<Rightarrow> 'w \<times> 'o \<times> go_error option)
    \<Rightarrow> ('w, 'i, 'o, 'id) rpc_client_option" where
  "rpc_ClientResponseDecoder dec c = c\<lparr>rc_dec := dec\<rparr>"

definition rpc_ClientRequestIDGenerator :: "('w \<Rightarrow> 'w \<times> 'id) \<Rightarrow> ('w, 'i, 'o, 'id) rpc_client_option" where
  "rpc_ClientRequestIDGenerator g c = c\<lparr>rc_requestID := g\<rparr>"

definition rpc_BufferedStream :: "bool \<Rightarrow> ('w, 'i, 'o, 'id) rpc_client_option" where
  "rpc_BufferedStream buffered c = c\<lparr>rc_bufferedStream := buffered\<rparr>"

definition rpc_finalize :: "('w, 'i, 'o, 'id) rpc_client \<Rightarrow> context_values \<Rightarrow> http_response option \<Rightarrow> go_error option \<Rightarrow> 'w \<Rightarrow> 'w" where
  "rpc_finalize c ctx resp err w =
     (case rc_finalizer c of
        None \<Rightarrow> w
      | Some f \<Rightarrow>
          f (case resp of
               None \<Rightarrow> ctx
             | Some r \<Rightarrow> WithValue (WithValue ctx ContextKeyResponseHeaders (AnyHeader (resp_Header r)))
                 ContextKeyResponseSize (AnyInt (resp_ContentLength r))) err w)"

definition rpc_Client_Endpoint :: "('w, 'i, 'o, 'id) rpc_client \<Rightarrow> (string \<Rightarrow> string \<Rightarrow> go_error option)
    \<Rightarrow> ('id clientRequest \<Rightarrow> go_error + string) \<Rightarrow> (string \<Rightarrow> go_error + rpc_response) \<Rightarrow> ('dyn \<Rightarrow> 'i option) \<Rightarrow> 'o
    \<Rightarrow> context_values \<Rightarrow> 'dyn option \<Rightarrow> 'w \<Rightarrow> 'w \<times> client_event list \<times> 'o \<times> go_error option" where
  "rpc_Client_Endpoint c url_error encode decode as_I zero ctx0 request w =
     (let ctx = WithValue ctx0 ContextKeyRequestMethod (AnyString (rc_method c));
          finish = (\<lambda>ctx resp err w evs x.
            (rpc_finalize c ctx resp err w, evs @ [RunFinalizers err, CancelContext], x, err))
      in case Option.bind request as_I of
           None \<Rightarrow> finish ctx None (Some InvalidRequest) w [] zero
         | Some i \<Rightarrow>
             (case rc_enc c ctx i w of
                (w1, Inl err) \<Rightarrow> finish ctx None (Some err) w1 [] zero
              | (w1, Inr params) \<Rightarrow>
                  (let (w2, rid) = rc_requestID c w1;
                       rpcReq = \<lparr>cq_JSONRPC = Version, cq_Method = rc_method c, cq_Params = params, cq_ID = rid\<rparr>
                   in case url_error ''POST'' (rc_tgt c) of
                        Some err \<Rightarrow> finish ctx None (Some err) w2 [] zero
                      | None \<Rightarrow>
                          (case encode rpcReq of
                             Inl err \<Rightarrow> finish ctx None (Some err) w2 [] zero
                           | Inr b \<Rightarrow>
                               (let req = (new_request ''POST'' (rc_tgt c))\<lparr>r_Header :=
                                      Header_Set [] ''Content-Type'' ''application/json; charset=utf-8'', r_Body := b\<rparr>;
                                    (w3, req1, ctx1) = run_before (rc_before c) ctx req w2
                                in case rc_client c ctx1 req1 w3 of
                                     (w4, Inl (err, resp)) \<Rightarrow> finish ctx1 resp (Some err) w4 [] zero
                                   | (w4, Inr resp) \<Rightarrow>
                                       (let deferred = (if rc_bufferedStream c then [] else [CloseBody]);
                                            (w5, ctx2) = fold (\<lambda>f (w, ctx). f ctx resp w) (rc_after c) (w4, ctx1)
                                        in case decode (resp_Body resp) of
                                             Inl err \<Rightarrow> finish ctx2 (Some resp) (Some err) w5 deferred zero
                                           | Inr rpcRes \<Rightarrow>
                                               (let (w6, response, err) = rc_dec c ctx2 rpcRes w5 in
                                                finish ctx2 (Some resp) err w6 deferred
                                                  (if err \<noteq> None then zero else response))))))))"

text \<open>The generator of ids: a shared 64-bit counter.\<close>

definition NewAutoIncrementID :: "64 word \<Rightarrow> 64 word" where
  "NewAutoIncrementID init = init - 1"

definition autoIncrementID_Generate :: "64 word \<Rightarrow> 64 word \<times> 64 word" where
  "autoIncrementID_Generate v = (v + 1, v + 1)"

fun generate_ids :: "nat \<Rightarrow> 64 word \<Rightarrow> 64 word \<times> 64 word list" where
  "generate_ids 0 v = (v, [])"
| "generate_ids (Suc n) v =
     (let (v1, i) = autoIncrementID_Generate v; (v2, is) = generate_ids n v1 in (v2, i # is))"

subsection \<open>Properties\<close>

text \<open>The id of a response is that of the request for every string and for every integer that fits 64 bits;
  any other number comes back as its nearest float32 and so is preserved only if it is one, and other
  values never come back.\<close>

theorem request_id_echo:
  assumes "\<And>q. j = JNumber q True \<Longrightarrow> q \<in> \<int>"
  shows "same_id (RequestID_MarshalJSON (RequestID_UnmarshalJSON round32 j)) j \<longleftrightarrow>
    (case j of
       JNumber q written_as_int \<Rightarrow> written_as_int \<and> in_int64 q \<or> round32 q = Some q
     | JString _ \<Rightarrow> True
     | JOther \<Rightarrow> False)"
proof (cases j)
  case (JNumber q lit)
  have "of_int \<lfloor>q\<rfloor> = q" if lit using assms [of q] JNumber that by (auto simp: Ints_def)
  then show ?thesis using JNumber
    by (cases lit; cases "round32 q") (auto simp: RequestID_UnmarshalJSON_def RequestID_MarshalJSON_def
        unmarshal_int_def unmarshal_float32_def unmarshal_string_def)
qed (simp_all add: RequestID_UnmarshalJSON_def RequestID_MarshalJSON_def unmarshal_int_def
    unmarshal_float32_def unmarshal_string_def)

text \<open>The float32 nearest to 0.1 is 13421773 / 134217728.\<close>

theorem request_id_echo_witness:
  "\<not> same_id (RequestID_MarshalJSON (RequestID_UnmarshalJSON (\<lambda>q. Some (13421773 / 134217728)) (JNumber (1 / 10) False)))
     (JNumber (1 / 10) False)"
  using request_id_echo [of "JNumber (1 / 10) False" "\<lambda>q. Some (13421773 / 134217728)"] by simp

lemma generate_ids_list: "snd (generate_ids n v) = map (\<lambda>k. v + of_nat (Suc k)) [0..<n]"
proof (induction n arbitrary: v)
  case (Suc n)
  have "[0..<Suc n] = 0 # map Suc [0..<n]" by (simp add: map_Suc_upt upt_conv_Cons)
  with Suc [of "v + 1"] show ?case
    by (simp add: autoIncrementID_Generate_def split_beta Let_def add.assoc [symmetric] o_def)
qed simp

text \<open>The ids that a client generates count up from the initial value modulo \<open>2^64\<close>: the first is that
  value and no id comes twice within \<open>2^64\<close> calls.\<close>

theorem auto_ids_distinct:
  assumes "n \<le> 2 ^ 64" and "generate_ids n (NewAutoIncrementID init) = (v, ids)"
  shows "distinct ids \<and> length ids = n \<and> (\<forall>k < n. unat (ids ! k) = (unat init + k) mod 2 ^ 64)"
proof -
  have ids: "ids = map (\<lambda>k. init + of_nat k) [0..<n]"
    using generate_ids_list [of n "init - 1"] assms(2) by (simp add: NewAutoIncrementID_def)
  have "inj_on (\<lambda>k. init + of_nat k :: 64 word) {0..<n}"
  proof (rule inj_onI)
    fix i j assume "i \<in> {0..<n}" "j \<in> {0..<n}" "init + of_nat i = (init + of_nat j :: 64 word)"
    then have "i < 2 ^ 64" "j < 2 ^ 64" "unat (of_nat i :: 64 word) = unat (of_nat j :: 64 word)"
      using assms(1) by auto
    then show "i = j" by (simp add: unat_of_nat)
  qed
  then show ?thesis by (simp add: ids distinct_map unat_word_ariths unat_of_nat mod_add_right_eq)
qed

theorem auto_ids_distinct_witness:
  "snd (generate_ids 3 (NewAutoIncrementID 18446744073709551615)) ! 1 = 0"
proof -
  have "generate_ids 3 (NewAutoIncrementID 18446744073709551615)
      = (1, snd (generate_ids 3 (NewAutoIncrementID 18446744073709551615)))"
    by (simp add: NewAutoIncrementID_def autoIncrementID_Generate_def numeral_3_eq_3)
  from auto_ids_distinct [OF _ this] have "unat (snd (generate_ids 3 (NewAutoIncrementID 18446744073709551615)) ! 1)
      = (unat (18446744073709551615 :: 64 word) + 1) mod 2 ^ 64" by simp
  also have "\<dots> = 0" by simp
  finally show ?thesis by (simp only: unat_eq_zero)
qed

text \<open>What the server says of a request that it has decoded.\<close>

definition rpc_result :: "('w, 'q, 'o) EndpointCodecMap \<Rightarrow> context_values \<Rightarrow> rpc_request \<Rightarrow> 'w \<Rightarrow> 'w \<times> (server_error + string) outcome" where
  "rpc_result ecm ctx req w =
     (case map_of ecm (q_Method req) of
        None \<Rightarrow> (w, Ret (Inl (methodNotFoundError (''Method '' @ q_Method req @ '' was not found.''))))
      | Some ec \<Rightarrow>
          (case ec_Decode ec ctx (q_Params req) w of
             (w1, Inl err) \<Rightarrow> (w1, Ret (Inl err))
           | (w1, Inr q) \<Rightarrow>
               (case ec_Endpoint ec ctx q w1 of
                  (w2, Panicked p) \<Rightarrow> (w2, Panic p)
                | (w2, Reply _ (Some err)) \<Rightarrow> (w2, Ret (Inl (AppError err)))
                | (w2, Reply x None) \<Rightarrow> (case ec_Encode ec ctx x w2 of (w3, r) \<Rightarrow> (w3, Ret r)))))"

definition rpc_answer :: "(go_error \<Rightarrow> error_view) \<Rightarrow> RequestID option \<Rightarrow> server_error + string \<Rightarrow> rpc_response" where
  "rpc_answer view rid r =
     (case r of
        Inr result \<Rightarrow> \<lparr>a_JSONRPC = Version, a_Result = Some result, a_Error = None, a_ID = rid\<rparr>
      | Inl err \<Rightarrow>
          \<lparr>a_JSONRPC = Version, a_Result = None,
           a_Error = Some \<lparr>e_Code = (case ev_ErrorCode (server_error_view view err) of None \<Rightarrow> InternalError | Some c \<Rightarrow> c),
             e_Message = ev_Error (server_error_view view err), e_Data = None\<rparr>, a_ID = rid\<rparr>)"

lemma jw_Write_fresh: "rs_status (jw_rs w) \<in> {None, Some 200} \<Longrightarrow>
    rs_body (jw_rs (jw_Write p w)) = rs_body (jw_rs w) @ p \<and> rs_status (jw_rs (jw_Write p w)) = Some 200"
  by (auto simp: jw_Write_def std_Write_def std_WriteHeader_def body_allowed_def StatusOK_def Let_def)

lemma jw_header_keeps [simp]:
  "rs_body (jw_rs (jw_map_header f w)) = rs_body (jw_rs w)" "rs_status (jw_rs (jw_map_header f w)) = rs_status (jw_rs w)"
  by (simp_all add: jw_map_header_def)

lemma DefaultRPCErrorEncoder_answer:
  assumes "rs_status (jw_rs w) = None" and "rs_body (jw_rs w) = []"
  shows "rs_body (jw_rs (DefaultRPCErrorEncoder it view encode rid err w)) = encode (rpc_answer view rid (Inl err))
    \<and> rs_status (jw_rs (DefaultRPCErrorEncoder it view encode rid err w)) = Some 200"
proof -
  have h: "rs_status (jw_rs (jw_WriteHeader StatusOK w1)) = Some 200 \<and> rs_body (jw_rs (jw_WriteHeader StatusOK w1)) = []"
    if "rs_status (jw_rs w1) = None" "rs_body (jw_rs w1) = []" for w1
    using that by (simp add: jw_WriteHeader_def std_WriteHeader_def StatusOK_def)
  let ?w1 = "jw_map_header (\<lambda>h. Header_Set h ''Content-Type'' ContentType) w"
  define w2 where "w2 = (case ev_Headers (server_error_view view err) of None \<Rightarrow> ?w1 | Some hs \<Rightarrow> jw_map_header (set_headers it hs) ?w1)"
  have "rs_status (jw_rs w2) = None" "rs_body (jw_rs w2) = []"
    using assms by (auto simp: w2_def split: option.split)
  from h [OF this] have "rs_body (jw_rs (jw_Write p (jw_WriteHeader StatusOK w2))) = p
      \<and> rs_status (jw_rs (jw_Write p (jw_WriteHeader StatusOK w2))) = Some 200" for p
    using jw_Write_fresh [of "jw_WriteHeader StatusOK w2" p] by simp
  then show ?thesis
    by (simp add: DefaultRPCErrorEncoder_def Let_def rpc_answer_def w2_def [symmetric])
qed

text \<open>C18: Every posted request gets exactly one response, with status 200 and the id of the request: the result
  of its method, or an error with the code of the error that stopped it (-32601 for an unknown method,
  the code of an \<open>ErrorCoder\<close>, -32603 otherwise). Text that is not JSON gets the error -32700 without an
  id. A panic of the endpoint leaves the response unwritten.\<close>

theorem rpc_replies:
  assumes "r_Method r = ''POST''"
    and "rpc_ServeHTTP (rpc_NewServer it view encode ecm []) decode encode ctx new_response r w = (w', rs, out)"
  shows "case decode (r_Body r) of
      Inl msg \<Rightarrow> w' = w \<and> out = Ret () \<and> rs_status rs = Some 200 \<and>
        rs_body rs = encode (rpc_answer view None (Inl (parseError (''JSON could not be decoded: '' @ msg))))
    | Inr req \<Rightarrow>
        (case rpc_result ecm (WithValue ctx ContextKeyRequestMethod (AnyString (q_Method req))) req w of
           (w1, Panic p) \<Rightarrow> w' = w1 \<and> out = Panic p \<and> rs = new_response
         | (w1, Ret x) \<Rightarrow> w' = w1 \<and> out = Ret () \<and> rs_status rs = Some 200 \<and> rs_body rs = encode (rpc_answer view (q_ID req) x))"
proof -
  let ?s = "rpc_NewServer it view encode ecm []" and ?jw = "\<lparr>jw_rs = new_response, jw_code = StatusOK\<rparr>"
  have f: "rs_status (jw_rs ?jw) = None" "rs_body (jw_rs ?jw) = []" by (simp_all add: new_response_def)
  note e = DefaultRPCErrorEncoder_answer [OF f, of it view encode]
  have ok: "rs_body (jw_rs (jw_Write p (jw_map_header g ?jw))) = p \<and> rs_status (jw_rs (jw_Write p (jw_map_header g ?jw))) = Some 200" for p g
    using jw_Write_fresh [of "jw_map_header g ?jw" p] f by simp
  show ?thesis
    using assms e ok
    by (auto simp: rpc_ServeHTTP_def rpc_NewServer_def run_before_def rpc_fail_def rpc_dispatch_def rpc_result_def Let_def
        split: sum.splits option.splits prod.splits reply.splits) (auto simp: rpc_answer_def)
qed

theorem rpc_replies_witness:
  "rs_status (fst (snd (rpc_ServeHTTP (rpc_NewServer (\<lambda>hs. hs) (\<lambda>e. \<lparr>ev_Error = ''x'', ev_ErrorCode = None, ev_Headers = None\<rparr>)
      (\<lambda>a. case a_Error a of Some e \<Rightarrow> Itoa (e_Code e) | None \<Rightarrow> []) ([] :: (unit, unit, unit) EndpointCodecMap) [])
      (\<lambda>b. Inr \<lparr>q_JSONRPC = ''2.0'', q_Method = ''m'', q_Params = [], q_ID = None\<rparr>)
      (\<lambda>a. case a_Error a of Some e \<Rightarrow> Itoa (e_Code e) | None \<Rightarrow> []) [] new_response (new_request ''POST'' ''/'') ()))) = Some 200"
proof -
  let ?enc = "\<lambda>a. case a_Error a of Some e \<Rightarrow> Itoa (e_Code e) | None \<Rightarrow> []"
    and ?view = "\<lambda>e. \<lparr>ev_Error = ''x'', ev_ErrorCode = None, ev_Headers = None\<rparr>"
    and ?dec = "\<lambda>b. Inr \<lparr>q_JSONRPC = ''2.0'', q_Method = ''m'', q_Params = [], q_ID = None\<rparr> :: string + rpc_request"
  obtain w' rs out where r: "rpc_ServeHTTP (rpc_NewServer (\<lambda>hs. hs) ?view ?enc ([] :: (unit, unit, unit) EndpointCodecMap) [])
      ?dec ?enc [] new_response (new_request ''POST'' ''/'') () = (w', rs, out)" by (rule prod_cases3)
  have "rs_status rs = Some 200"
    using rpc_replies [OF _ r] by (simp add: new_request_def rpc_result_def)
  then show ?thesis by (simp only: r prod.sel)
qed

text \<open>The finalizer is not run for a request that is not a \<open>POST\<close>: the answer 405 changes nothing in the
  world, whatever the options of the server.\<close>

theorem rpc_method_not_allowed:
  assumes "r_Method r \<noteq> ''POST''"
  shows "\<exists>rs. rpc_ServeHTTP s decode encode ctx new_response r w = (w, rs, Ret ())
    \<and> rs_status rs = Some 405 \<and> rs_body rs = ''405 must POST'' @ [CHR 0x0A]"
  using assms by (simp add: rpc_ServeHTTP_def std_WriteHeader_def std_Write_def body_allowed_def new_response_def Let_def)

theorem rpc_method_not_allowed_witness:
  "fst (rpc_ServeHTTP (rpc_NewServer (\<lambda>hs. hs) (\<lambda>e. \<lparr>ev_Error = ''x'', ev_ErrorCode = None, ev_Headers = None\<rparr>) (\<lambda>a. [])
      ([] :: (nat, unit, unit) EndpointCodecMap) [rpc_ServerFinalizer (\<lambda>ctx code r w. w + 1)])
      (\<lambda>b. Inl []) (\<lambda>a. []) [] new_response (new_request ''GET'' ''/'') 0) = 0"
  using rpc_method_not_allowed [of "new_request ''GET'' ''/''"
      "rpc_NewServer (\<lambda>hs. hs) (\<lambda>e. \<lparr>ev_Error = ''x'', ev_ErrorCode = None, ev_Headers = None\<rparr>) (\<lambda>a. [])
        ([] :: (nat, unit, unit) EndpointCodecMap) [rpc_ServerFinalizer (\<lambda>ctx code r w. w + 1)]" "\<lambda>b. Inl []" "\<lambda>a. []" "[]" 0]
  by (auto simp: new_request_def)

text \<open>With a buffered stream the body of the response is never closed, though the call returns nothing
  that the caller could close it through, and the context is cancelled all the same.\<close>

theorem rpc_stream_leaks:
  assumes "rc_bufferedStream c" and "rpc_Client_Endpoint c url_error enc dec as_I zero ctx request w = (w', evs, x, err)"
  shows "evs = [RunFinalizers err, CancelContext]"
  using assms unfolding rpc_Client_Endpoint_def Let_def
  by (auto split: option.splits sum.splits prod.splits)

theorem rpc_stream_leaks_witness:
  "fst (snd (rpc_Client_Endpoint (rpc_NewClient
      (\<lambda>ctx r w. (w, Inr \<lparr>resp_StatusCode = 200, resp_Header = [], resp_ContentLength = 1, resp_Body = ''x''\<rparr>))
      (\<lambda>i. Inr []) (\<lambda>e. ErrorText ''rpc'') (\<lambda>r. (5 :: nat, None)) 0 (\<lambda>w. (w, ())) ''/'' ''m'' [rpc_BufferedStream True])
      (\<lambda>_ _. None) (\<lambda>q. Inr []) (\<lambda>b. Inr \<lparr>a_JSONRPC = Version, a_Result = Some [], a_Error = None, a_ID = None\<rparr>)
      Some 0 [] (Some (1 :: nat)) ())) = [RunFinalizers None, CancelContext]"
proof -
  let ?c = "rpc_NewClient
      (\<lambda>ctx r w. (w, Inr \<lparr>resp_StatusCode = 200, resp_Header = [], resp_ContentLength = 1, resp_Body = ''x''\<rparr>))
      (\<lambda>i. Inr []) (\<lambda>e. ErrorText ''rpc'') (\<lambda>r. (5 :: nat, None)) 0 (\<lambda>w. (w, ())) ''/'' ''m'' [rpc_BufferedStream True]"
  let ?r = "rpc_Client_Endpoint ?c (\<lambda>_ _. None) (\<lambda>q. Inr [])
      (\<lambda>b. Inr \<lparr>a_JSONRPC = Version, a_Result = Some [], a_Error = None, a_ID = None\<rparr>) Some 0 [] (Some (1 :: nat)) ()"
  obtain w' evs x err where r: "?r = (w', evs, x, err)" by (rule prod_cases4)
  have b: "rc_bufferedStream ?c" by (simp add: rpc_NewClient_def rpc_BufferedStream_def)
  have "err = None" using r
    by (simp add: rpc_NewClient_def rpc_BufferedStream_def rpc_Client_Endpoint_def DefaultRequestEncoder_def
        DefaultResponseDecoder_def run_before_def)
  with rpc_stream_leaks [OF b r] r show ?thesis by simp
qed

end
