(* ===== verification/Grpc.thy ===== *)
theory Grpc
  imports Http_Server
begin

text \<open>
  Package transport/grpc: a server that runs an endpoint as a gRPC handler, a client endpoint, and the
  functions that set metadata. Metadata is a Go map, \<open>None\<close> the nil map, on which an assignment panics.
  The library grpc (sending headers, invoking a method) and the user's functions are arguments.
\<close>

type_synonym md = "MD option"

definition md_entries :: "md \<Rightarrow> MD" where
  "md_entries m = (case m of None \<Rightarrow> [] | Some al \<Rightarrow> al)"

text \<open>\<open>(*md)[key] = append((*md)[key], val)\<close>\<close>

definition md_append :: "string \<Rightarrow> string \<Rightarrow> md \<Rightarrow> md outcome" where
  "md_append key val m =
     (case m of
        None \<Rightarrow> Panic ''assignment to entry in nil map''
      | Some al \<Rightarrow> Ret (Some (AList.update key ((case map_of al key of None \<Rightarrow> [] | Some vs \<Rightarrow> vs) @ [val]) al)))"

definition EncodeKeyValue :: "string \<Rightarrow> string \<Rightarrow> string \<times> string" where
  "EncodeKeyValue key val =
     (let key1 = ToLower key in (key1, if HasSuffix key1 ''-bin'' then b64_encode val else val))"

type_synonym 'w ClientRequestFunc = "context_values \<Rightarrow> md \<Rightarrow> 'w \<Rightarrow> 'w \<times> (context_values \<times> md) outcome"
type_synonym 'w ServerRequestFunc = "context_values \<Rightarrow> MD \<Rightarrow> 'w \<Rightarrow> 'w \<times> context_values outcome"
type_synonym 'w GrpcServerResponseFunc = "context_values \<Rightarrow> md \<Rightarrow> md \<Rightarrow> 'w \<Rightarrow> 'w \<times> (context_values \<times> md \<times> md) outcome"
type_synonym 'w GrpcClientResponseFunc = "context_values \<Rightarrow> MD \<Rightarrow> MD \<Rightarrow> 'w \<Rightarrow> 'w \<times> context_values outcome"

definition grpc_SetRequestHeader :: "string \<Rightarrow> string \<Rightarrow> 'w ClientRequestFunc" where
  "grpc_SetRequestHeader key val ctx m w =
     (let (key1, val1) = EncodeKeyValue key val in
      (w, case md_append key1 val1 m of Panic p \<Rightarrow> Panic p | Ret m1 \<Rightarrow> Ret (ctx, m1)))"

definition grpc_SetResponseHeader :: "string \<Rightarrow> string \<Rightarrow> 'w GrpcServerResponseFunc" where
  "grpc_SetResponseHeader key val ctx header trailer w =
     (let (key1, val1) = EncodeKeyValue key val in
      (w, case md_append key1 val1 header of Panic p \<Rightarrow> Panic p | Ret m1 \<Rightarrow> Ret (ctx, m1, trailer)))"

definition grpc_SetResponseTrailer :: "string \<Rightarrow> string \<Rightarrow> 'w GrpcServerResponseFunc" where
  "grpc_SetResponseTrailer key val ctx header trailer w =
     (let (key1, val1) = EncodeKeyValue key val in
      (w, case md_append key1 val1 trailer of Panic p \<Rightarrow> Panic p | Ret m1 \<Rightarrow> Ret (ctx, header, m1)))"

text \<open>The loops \<open>ctx = f(ctx, ...)\<close>, which a panic leaves with the context that was reached.\<close>

fun grpc_run_contexts :: "(context_values \<Rightarrow> 'w \<Rightarrow> 'w \<times> context_values outcome) list \<Rightarrow> context_values \<Rightarrow> 'w
    \<Rightarrow> 'w \<times> context_values \<times> unit outcome" where
  "grpc_run_contexts [] ctx w = (w, ctx, Ret ())"
| "grpc_run_contexts (f # fs) ctx w =
     (case f ctx w of
        (w1, Panic p) \<Rightarrow> (w1, ctx, Panic p)
      | (w1, Ret ctx1) \<Rightarrow> grpc_run_contexts fs ctx1 w1)"

subsection \<open>The server\<close>

record ('w, 'm, 'i, 'o, 'r) grpc_server =
  gs_e :: "('w, 'i, 'o) endpoint"
  gs_dec :: "context_values \<Rightarrow> 'm \<Rightarrow> 'w \<Rightarrow> 'w \<times> (go_error + 'i)"
  gs_enc :: "context_values \<Rightarrow> 'o \<Rightarrow> 'w \<Rightarrow> 'w \<times> (go_error + 'r)"
  gs_before :: "'w ServerRequestFunc list"
  gs_after :: "'w GrpcServerResponseFunc list"
  gs_finalizer :: "(context_values \<Rightarrow> go_error option \<Rightarrow> 'w \<Rightarrow> 'w) list"
  gs_errorHandler :: "context_values \<Rightarrow> go_error \<Rightarrow> 'w \<Rightarrow> 'w"

type_synonym ('w, 'm, 'i, 'o, 'r) grpc_server_option = "('w, 'm, 'i, 'o, 'r) grpc_server \<Rightarrow> ('w, 'm, 'i, 'o, 'r) grpc_server"

definition grpc_NewServer :: "('w, 'i, 'o) endpoint \<Rightarrow> (context_values \<Rightarrow> 'm \<Rightarrow> 'w \<Rightarrow> 'w \<times> (go_error + 'i))
    \<Rightarrow> (context_values \<Rightarrow> 'o \<Rightarrow> 'w \<Rightarrow> 'w \<times> (go_error + 'r)) \<Rightarrow> ('w, 'm, 'i, 'o, 'r) grpc_server_option list
    \<Rightarrow> ('w, 'm, 'i, 'o, 'r) grpc_server" where
  "grpc_NewServer e dec enc options =
     fold (\<lambda>option s. option s) options
       \<lparr>gs_e = e, gs_dec = dec, gs_enc = enc, gs_before = [], gs_after = [], gs_finalizer = [],
        gs_errorHandler = NopErrorHandler\<rparr>"

definition grpc_ServerBefore :: "'w ServerRequestFunc list \<Rightarrow> ('w, 'm, 'i, 'o, 'r) grpc_server_option" where
  "grpc_ServerBefore before s = s\<lparr>gs_before := gs_before s @ before\<rparr>"

definition grpc_ServerAfter :: "'w GrpcServerResponseFunc list \<Rightarrow> ('w, 'm, 'i, 'o, 'r) grpc_server_option" where
  "grpc_ServerAfter after s = s\<lparr>gs_after := gs_after s @ after\<rparr>"

definition grpc_ServerErrorLogger :: "(go_error \<Rightarrow> 'w \<Rightarrow> 'w) \<Rightarrow> ('w, 'm, 'i, 'o, 'r) grpc_server_option" where
  "grpc_ServerErrorLogger log s = s\<lparr>gs_errorHandler := LogErrorHandler_Handle log\<rparr>"

definition grpc_ServerErrorHandler :: "(context_values \<Rightarrow> go_error \<Rightarrow> 'w \<Rightarrow> 'w) \<Rightarrow> ('w, 'm, 'i, 'o, 'r) grpc_server_option" where
  "grpc_ServerErrorHandler errorHandler s = s\<lparr>gs_errorHandler := errorHandler\<rparr>"

definition grpc_ServerFinalizer :: "(context_values \<Rightarrow> go_error option \<Rightarrow> 'w \<Rightarrow> 'w) list \<Rightarrow> ('w, 'm, 'i, 'o, 'r) grpc_server_option" where
  "grpc_ServerFinalizer f s = s\<lparr>gs_finalizer := gs_finalizer s @ f\<rparr>"

text \<open>The loop over the response functions, which a panic leaves.\<close>

fun grpc_run_after :: "'w GrpcServerResponseFunc list \<Rightarrow> context_values \<Rightarrow> md \<Rightarrow> md \<Rightarrow> 'w
    \<Rightarrow> 'w \<times> context_values \<times> (md \<times> md) outcome" where
  "grpc_run_after [] ctx header trailer w = (w, ctx, Ret (header, trailer))"
| "grpc_run_after (f # fs) ctx header trailer w =
     (case f ctx header trailer w of
        (w1, Panic p) \<Rightarrow> (w1, ctx, Panic p)
      | (w1, Ret (ctx1, header1, trailer1)) \<Rightarrow> grpc_run_after fs ctx1 header1 trailer1 w1)"

text \<open>\<open>grpc.SendHeader\<close> and \<open>grpc.SetTrailer\<close>, for metadata that is not empty.\<close>

definition send_md :: "(context_values \<Rightarrow> MD \<Rightarrow> 'w \<Rightarrow> 'w \<times> go_error option) \<Rightarrow> context_values \<Rightarrow> md \<Rightarrow> 'w \<Rightarrow> 'w \<times> go_error option" where
  "send_md send ctx m w = (if length (md_entries m) > 0 then send ctx (md_entries m) w else (w, None))"

text \<open>The body of \<open>ServeGRPC\<close> up to the deferred function: the context and the error are its captured variables.\<close>

definition grpc_serve :: "('w, 'm, 'i, 'o, 'r) grpc_server \<Rightarrow> (context_values \<Rightarrow> MD \<Rightarrow> 'w \<Rightarrow> 'w \<times> go_error option)
    \<Rightarrow> (context_values \<Rightarrow> MD \<Rightarrow> 'w \<Rightarrow> 'w \<times> go_error option) \<Rightarrow> context_values \<Rightarrow> 'm \<Rightarrow> 'w
    \<Rightarrow> 'w \<times> context_values \<times> (go_error + 'r) outcome" where
  "grpc_serve s SendHeader SetTrailer ctx req w =
     (let fail = (\<lambda>ctx err w. (gs_errorHandler s ctx err w, ctx, Ret (Inl err))) in
      case gs_dec s ctx req w of
        (w1, Inl err) \<Rightarrow> fail ctx err w1
      | (w1, Inr request) \<Rightarrow>
          (case gs_e s ctx request w1 of
             (w2, Panicked p) \<Rightarrow> (w2, ctx, Panic p)
           | (w2, Reply _ (Some err)) \<Rightarrow> fail ctx err w2
           | (w2, Reply response None) \<Rightarrow>
               (case grpc_run_after (gs_after s) ctx None None w2 of
                  (w3, ctx3, Panic p) \<Rightarrow> (w3, ctx3, Panic p)
                | (w3, ctx3, Ret (mdHeader, mdTrailer)) \<Rightarrow>
                    (case gs_enc s ctx3 response w3 of
                       (w4, Inl err) \<Rightarrow> fail ctx3 err w4
                     | (w4, Inr grpcResp) \<Rightarrow>
                         (case send_md SendHeader ctx3 mdHeader w4 of
                            (w5, Some err) \<Rightarrow> fail ctx3 err w5
                          | (w5, None) \<Rightarrow>
                              (case send_md SetTrailer ctx3 mdTrailer w5 of
                                 (w6, Some err) \<Rightarrow> fail ctx3 err w6
                               | (w6, None) \<Rightarrow> (w6, ctx3, Ret (Inr grpcResp))))))))"

definition ServeGRPC :: "('w, 'm, 'i, 'o, 'r) grpc_server \<Rightarrow> (context_values \<Rightarrow> MD \<Rightarrow> 'w \<Rightarrow> 'w \<times> go_error option)
    \<Rightarrow> (context_values \<Rightarrow> MD \<Rightarrow> 'w \<Rightarrow> 'w \<times> go_error option) \<Rightarrow> md \<Rightarrow> context_values \<Rightarrow> 'm \<Rightarrow> 'w
    \<Rightarrow> 'w \<times> context_values \<times> (go_error + 'r) outcome" where
  "ServeGRPC s SendHeader SetTrailer incoming ctx req w =
     (let (w1, ctx1, before) = grpc_run_contexts (map (\<lambda>f ctx. f ctx (md_entries incoming)) (gs_before s)) ctx w;
          (w2, ctx2, out) = (case before of
              Panic p \<Rightarrow> (w1, ctx1, Panic p)
            | Ret _ \<Rightarrow> grpc_serve s SendHeader SetTrailer ctx1 req w1);
          err = (case out of Ret (Inl e) \<Rightarrow> Some e | _ \<Rightarrow> None)
      in (fold (\<lambda>f w. f ctx2 err w) (gs_finalizer s) w2, ctx2, out))"

definition grpc_ContextKeyRequestMethod :: string where "grpc_ContextKeyRequestMethod = ''grpc.Method''"

definition Interceptor :: "context_values \<Rightarrow> 'm \<Rightarrow> string \<Rightarrow> (context_values \<Rightarrow> 'm \<Rightarrow> 'w \<Rightarrow> 'w \<times> 'x) \<Rightarrow> 'w \<Rightarrow> 'w \<times> 'x" where
  "Interceptor ctx req FullMethod handler w =
     handler (WithValue ctx grpc_ContextKeyRequestMethod (AnyString FullMethod)) req w"

subsection \<open>The client\<close>

record ('w, 'i, 'o, 'm, 'r) grpc_client =
  gc_client :: "context_values \<Rightarrow> string \<Rightarrow> 'm \<Rightarrow> MD \<Rightarrow> 'w \<Rightarrow> 'w \<times> (go_error + 'r \<times> MD \<times> MD)"
  gc_method :: string
  gc_enc :: "context_values \<Rightarrow> 'i \<Rightarrow> 'w \<Rightarrow> 'w \<times> (go_error + 'm)"
  gc_dec :: "context_values \<Rightarrow> 'r \<Rightarrow> 'w \<Rightarrow> 'w \<times> 'o \<times> go_error option"
  gc_before :: "'w ClientRequestFunc list"
  gc_after :: "'w GrpcClientResponseFunc list"
  gc_finalizer :: "(context_values \<Rightarrow> go_error option \<Rightarrow> 'w \<Rightarrow> 'w) list"

type_synonym ('w, 'i, 'o, 'm, 'r) grpc_client_option = "('w, 'i, 'o, 'm, 'r) grpc_client \<Rightarrow> ('w, 'i, 'o, 'm, 'r) grpc_client"

definition grpc_NewClient ::
  "(context_values \<Rightarrow> string \<Rightarrow> 'm \<Rightarrow> MD \<Rightarrow> 'w \<Rightarrow> 'w \<times> (go_error + 'r \<times> MD \<times> MD)) \<Rightarrow> string \<Rightarrow> string
    \<Rightarrow> (context_values \<Rightarrow> 'i \<Rightarrow> 'w \<Rightarrow> 'w \<times> (go_error + 'm)) \<Rightarrow> (context_values \<Rightarrow> 'r \<Rightarrow> 'w \<Rightarrow> 'w \<times> 'o \<times> go_error option)
    \<Rightarrow> ('w, 'i, 'o, 'm, 'r) grpc_client_option list \<Rightarrow> ('w, 'i, 'o, 'm, 'r) grpc_client" where
  "grpc_NewClient cc serviceName method enc dec options =
     fold (\<lambda>option c. option c) options
       \<lparr>gc_client = cc, gc_method = ''/'' @ serviceName @ ''/'' @ method, gc_enc = enc, gc_dec = dec,
        gc_before = [], gc_after = [], gc_finalizer = []\<rparr>"

definition grpc_ClientBefore :: "'w ClientRequestFunc list \<Rightarrow> ('w, 'i, 'o, 'm, 'r) grpc_client_option" where
  "grpc_ClientBefore before c = c\<lparr>gc_before := gc_before c @ before\<rparr>"

definition grpc_ClientAfter :: "'w GrpcClientResponseFunc list \<Rightarrow> ('w, 'i, 'o, 'm, 'r) grpc_client_option" where
  "grpc_ClientAfter after c = c\<lparr>gc_after := gc_after c @ after\<rparr>"

definition grpc_ClientFinalizer :: "(context_values \<Rightarrow> go_error option \<Rightarrow> 'w \<Rightarrow> 'w) list \<Rightarrow> ('w, 'i, 'o, 'm, 'r) grpc_client_option" where
  "grpc_ClientFinalizer f c = c\<lparr>gc_finalizer := gc_finalizer c @ f\<rparr>"

fun grpc_run_before :: "'w ClientRequestFunc list \<Rightarrow> context_values \<Rightarrow> md \<Rightarrow> 'w \<Rightarrow> 'w \<times> context_values \<times> md outcome" where
  "grpc_run_before [] ctx m w = (w, ctx, Ret m)"
| "grpc_run_before (f # fs) ctx m w =
     (case f ctx m w of
        (w1, Panic p) \<Rightarrow> (w1, ctx, Panic p)
      | (w1, Ret (ctx1, m1)) \<Rightarrow> grpc_run_before fs ctx1 m1 w1)"

text \<open>\<open>type_error\<close> is the text about a request of another type.\<close>

definition grpc_Client_Endpoint :: "('w, 'i, 'o, 'm, 'r) grpc_client \<Rightarrow> ('dyn \<Rightarrow> go_error) \<Rightarrow> ('dyn \<Rightarrow> 'i option) \<Rightarrow> 'i \<Rightarrow> 'o
    \<Rightarrow> context_values \<Rightarrow> 'dyn option \<Rightarrow> 'w \<Rightarrow> 'w \<times> 'o reply" where
  "grpc_Client_Endpoint c type_error as_I zero_i zero ctx0 request w =
     (let ctx = WithValue ctx0 grpc_ContextKeyRequestMethod (AnyString (gc_method c));
          finish = (\<lambda>ctx err x w. (fold (\<lambda>f w. f ctx err w) (gc_finalizer c) w, Reply x err));
          typed = (case request of None \<Rightarrow> Inr zero_i | Some d \<Rightarrow> (case as_I d of None \<Rightarrow> Inl (type_error d) | Some i \<Rightarrow> Inr i))
      in case typed of
           Inl err \<Rightarrow> finish ctx (Some err) zero w
         | Inr i \<Rightarrow>
             (case gc_enc c ctx i w of
                (w1, Inl err) \<Rightarrow> finish ctx (Some err) zero w1
              | (w1, Inr req) \<Rightarrow>
                  (case grpc_run_before (gc_before c) ctx (Some []) w1 of
                     (w2, ctx2, Panic p) \<Rightarrow> (fold (\<lambda>f w. f ctx2 None w) (gc_finalizer c) w2, Panicked p)
                   | (w2, ctx2, Ret m) \<Rightarrow>
                       (case gc_client c ctx2 (gc_method c) req (md_entries m) w2 of
                          (w3, Inl err) \<Rightarrow> finish ctx2 (Some err) zero w3
                        | (w3, Inr (grpcReply, header, trailer)) \<Rightarrow>
                            (case grpc_run_contexts (map (\<lambda>f ctx. f ctx header trailer) (gc_after c)) ctx2 w3 of
                               (w4, ctx4, Panic p) \<Rightarrow> (fold (\<lambda>f w. f ctx4 None w) (gc_finalizer c) w4, Panicked p)
                             | (w4, ctx4, Ret _) \<Rightarrow>
                                 (let (w5, response, err) = gc_dec c ctx4 grpcReply w4
                                  in finish ctx4 err response w5))))))"

subsection \<open>A client of a server\<close>

text \<open>
  The connection between a client and a server of the model. Headers and trailers are not carried back;
  \<open>status\<close> is what the library makes of an error of the handler. A panic takes the server down.
\<close>

definition grpc_over :: "('w, 'm, 'i, 'o, 'r) grpc_server \<Rightarrow> (go_error \<Rightarrow> go_error) \<Rightarrow> context_values \<Rightarrow> string \<Rightarrow> 'm \<Rightarrow> MD \<Rightarrow> 'w
    \<Rightarrow> 'w \<times> (go_error + 'r \<times> MD \<times> MD)" where
  "grpc_over s status ctx method req m w =
     (case ServeGRPC s (\<lambda>ctx m w. (w, None)) (\<lambda>ctx m w. (w, None)) (Some m) [] req w of
        (w1, _, Ret (Inr r)) \<Rightarrow> (w1, Inr (r, [], []))
      | (w1, _, Ret (Inl err)) \<Rightarrow> (w1, Inl (status err))
      | (w1, _, Panic p) \<Rightarrow> (w1, Inl (ErrorText ''Unavailable'')))"

subsection \<open>Properties\<close>

text \<open>What \<open>EncodeKeyValue\<close> gives is ready for the wire and can be read back: the key is in lower case, and
  the value of a binary key decodes to the original value; encoding a pair twice changes its key no
  further.\<close>

theorem EncodeKeyValue_round_trip:
  "(case EncodeKeyValue key val of (k, v) \<Rightarrow>
      k = ToLower key \<and> fst (EncodeKeyValue k v) = k
      \<and> (if HasSuffix k ''-bin'' then b64_DecodeString v = Some val else v = val))"
  by (simp add: EncodeKeyValue_def Let_def b64_round_trip)

text \<open>C17: Transport over gRPC is transparent: with codecs that read back what they write, a client endpoint
  connected to a server behaves as the endpoint behind it, response, error (as a status) and effects;
  a header that the client sets reaches the request functions of the server.\<close>

theorem grpc_transport_transparent:
  assumes "\<And>ctx x w. \<exists>m. enc_i ctx x w = (w, Inr m) \<and> (\<forall>ctx. dec_i ctx m w = (w, Inr x))"
    and "\<And>ctx y w. \<exists>r. enc_o ctx y w = (w, Inr r) \<and> (\<forall>ctx. dec_o ctx r w = (w, y, None))"
    and "as_I d = Some x" and "EncodeKeyValue key val = (k, v)"
    and "s = grpc_NewServer e dec_i enc_o [grpc_ServerBefore [\<lambda>ctx m w. (w, Ret (WithValue ctx k (AnyString (hd (the (map_of m k))))))]]"
    and "e [(k, AnyString v)] x w = (w1, r)"
    and "c = grpc_NewClient (grpc_over s status) service method enc_i dec_o [grpc_ClientBefore [grpc_SetRequestHeader key val]]"
  shows "grpc_Client_Endpoint c type_error as_I zero_i zero ctx (Some d) w
    = (w1, case r of
        Reply y None \<Rightarrow> Reply y None
      | Reply y (Some err) \<Rightarrow> Reply zero (Some (status err))
      | Panicked p \<Rightarrow> Reply zero (Some (ErrorText ''Unavailable'')))"
proof -
  let ?ctx = "WithValue ctx grpc_ContextKeyRequestMethod (AnyString (''/'' @ service @ ''/'' @ method))"
  obtain m where m: "enc_i ?ctx x w = (w, Inr m)" "\<And>ctx. dec_i ctx m w = (w, Inr x)"
    using assms(1) by blast
  have b: "grpc_run_before [grpc_SetRequestHeader key val] ?ctx (Some []) w = (w, ?ctx, Ret (Some [(k, [v])]))"
    by (simp add: grpc_SetRequestHeader_def assms(4) md_append_def)
  have r: "\<exists>g. enc_o cx y w1 = (w1, Inr g) \<and> (\<forall>ctx. dec_o ctx g w1 = (w1, y, None))" for cx y
    using assms(2) by blast
  show ?thesis
  proof (cases r)
    case (Panicked p)
    then show ?thesis
      using assms(3,5-7) m b
      by (simp add: grpc_Client_Endpoint_def grpc_NewClient_def grpc_ClientBefore_def grpc_over_def ServeGRPC_def
          grpc_NewServer_def grpc_ServerBefore_def grpc_serve_def md_entries_def WithValue_def)
  next
    case (Reply y er)
    obtain g where g: "enc_o [(k, AnyString v)] y w1 = (w1, Inr g)" "\<And>ctx. dec_o ctx g w1 = (w1, y, None)"
      using r by blast
    show ?thesis
      using assms(3,5-7) m b g Reply
      by (cases er) (simp_all add: grpc_Client_Endpoint_def grpc_NewClient_def grpc_ClientBefore_def grpc_over_def ServeGRPC_def
          grpc_NewServer_def grpc_ServerBefore_def grpc_serve_def md_entries_def WithValue_def send_md_def NopErrorHandler_def)
  qed
qed

theorem grpc_transport_transparent_witness:
  "grpc_Client_Endpoint
     (grpc_NewClient
        (grpc_over
           (grpc_NewServer (\<lambda>ctx x w. (w + 1, if context_Value ctx ''user'' = Some (AnyString ''root'') then Reply (x * 2) None else Reply 0 (Some (ErrorText ''who''))))
             (\<lambda>ctx m w. (w, Inr m)) (\<lambda>ctx y w. (w, Inr y))
             [grpc_ServerBefore [\<lambda>ctx m w. (w, Ret (WithValue ctx ''user'' (AnyString (hd (the (map_of m ''user''))))))]]) id)
        ''calc'' ''Double'' (\<lambda>ctx x w. (w, Inr x)) (\<lambda>ctx r w. (w, r, None)) [grpc_ClientBefore [grpc_SetRequestHeader ''User'' ''root'']])
     (\<lambda>d. ErrorText ''type'') Some 0 0 [] (Some (21 :: nat)) (0 :: nat)
   = (1, Reply 42 None)" (is "grpc_Client_Endpoint (grpc_NewClient (grpc_over (grpc_NewServer ?e _ _ _) _) _ _ _ _ _) _ _ _ _ _ _ _ = _")
proof -
  have k: "EncodeKeyValue ''User'' ''root'' = (''user'', ''root'')"
    by code_simp
  have e: "?e [(''user'', AnyString ''root'')] 21 0 = (1, Reply 42 None)"
    by (simp add: context_Value_def)
  show ?thesis
    by (rule trans [OF grpc_transport_transparent [where x = 21 and r = "Reply 42 None" and key = "''User''" and val = "''root''"
        and enc_i = "\<lambda>ctx x w. (w, Inr x)" and dec_i = "\<lambda>ctx m w. (w, Inr m)" and enc_o = "\<lambda>ctx y w. (w, Inr y)"
        and dec_o = "\<lambda>ctx r w. (w, r, None)" and k = "''user''" and v = "''root''" and e = ?e and w = 0 and as_I = Some,
        OF _ _ _ k refl e refl]]) simp_all
qed

text \<open>\<open>SetResponseHeader\<close> and \<open>SetResponseTrailer\<close> cannot be used as response functions: the server hands them
  nil maps, so every request that the endpoint answers without an error panics, and the finalizers are
  told that there was no error.\<close>

theorem grpc_set_response_header_panics:
  assumes "s = grpc_NewServer e dec enc [grpc_ServerAfter [f]]"
    and "f = grpc_SetResponseHeader key val \<or> f = grpc_SetResponseTrailer key val"
    and "dec ctx req w = (w1, Inr x)" and "e ctx x w1 = (w2, Reply y None)"
  shows "ServeGRPC (grpc_ServerFinalizer [fin] s) send trail incoming ctx req w
    = (fin ctx None w2, ctx, Panic ''assignment to entry in nil map'')"
  using assms
  by (auto simp: ServeGRPC_def grpc_NewServer_def grpc_ServerAfter_def grpc_ServerFinalizer_def grpc_serve_def
      grpc_SetResponseHeader_def grpc_SetResponseTrailer_def md_append_def split: prod.splits)

theorem grpc_set_response_header_panics_witness:
  "ServeGRPC (grpc_ServerFinalizer [\<lambda>ctx err w. w + 1]
      (grpc_NewServer (\<lambda>ctx x w. (w, Reply (x + 1) None)) (\<lambda>ctx m w. (w, Inr m)) (\<lambda>ctx y w. (w, Inr y))
        [grpc_ServerAfter [grpc_SetResponseHeader ''k'' ''v'']]))
      (\<lambda>ctx m w. (w, None)) (\<lambda>ctx m w. (w, None)) None [] (5 :: nat) (0 :: nat)
   = (1, [], Panic ''assignment to entry in nil map'')"
proof -
  have "ServeGRPC (grpc_ServerFinalizer [fin] (grpc_NewServer (\<lambda>ctx x w. (w, Reply (x + 1) None)) (\<lambda>ctx m w. (w, Inr m))
      (\<lambda>ctx y w. (w, Inr y)) [grpc_ServerAfter [grpc_SetResponseHeader ''k'' ''v'']])) send trail incoming [] (5 :: nat) (0 :: nat)
    = (fin [] None 0, [], Panic ''assignment to entry in nil map'')" for fin send trail incoming
    by (rule grpc_set_response_header_panics [OF refl disjI1 [OF refl]]) auto
  then show ?thesis
    by simp
qed

end
