(* ===== verification/Instancers.thy ===== *)
theory Instancers
  imports Endpoint_Cache Endpoint
begin

text \<open>
  Packages sd/dnssrv, sd/etcd, sd/etcdv3 and sd/eureka, files instancer.go, and the part of the etcd
  clients that they use. An instancer owns an instance cache, fills it when it is made, and runs a
  loop that asks its client again whenever something happens, until it is stopped. \<open>instancer_run\<close> is
  the relation of all runs of such a loop, with the observers that register and deregister meanwhile
  and with the answers of the client as the labels; what differs between the packages are the
  functions it is given: how the constructor treats the first answer, on what the loop can wake up,
  and what one pass of the loop makes of an answer. The packages sd/consul and sd/zk use the same
  relation in theories of their own.

  The interface \<open>instancer_loop\<close> says that the loop keeps a relation between the answers so far, its
  variables and what it publishes; every reachable state then satisfies it, and every registered
  channel has last received what the relation says. Log output is not modelled.
\<close>

subsection \<open>The parts that instancers share\<close>

record ('l, 'e) instancer =
  in_source :: "'e source"
  in_vars :: 'l
  in_quit :: bool
  in_looping :: bool

definition new_instancer :: "(chan list \<Rightarrow> chan list) \<Rightarrow> 'l \<Rightarrow> 'e evalue \<Rightarrow> ('l, 'e) instancer" where
  "new_instancer it l event =
     \<lparr>in_source = fst (source_publish event (it, [], NewCache)), in_vars = l, in_quit = False, in_looping = True\<rparr>"

definition Instancer_Register :: "chan \<Rightarrow> ('l, 'e) instancer \<Rightarrow> ('l, 'e) instancer \<times> (chan \<times> 'e evalue) list" where
  "Instancer_Register ch s = (let (src, out) = source_listen ch (in_source s) in (s\<lparr>in_source := src\<rparr>, out))"

definition Instancer_Deregister :: "chan \<Rightarrow> ('l, 'e) instancer \<Rightarrow> ('l, 'e) instancer" where
  "Instancer_Deregister ch s = s\<lparr>in_source := source_unlisten ch (in_source s)\<rparr>"

text \<open>\<open>Stop\<close> closes the channel that the loop waits on.\<close>

definition Instancer_Stop :: "('l, 'e) instancer \<Rightarrow> ('l, 'e) instancer \<times> unit outcome" where
  "Instancer_Stop s = (if in_quit s then (s, Panic ''close of closed channel'') else (s\<lparr>in_quit := True\<rparr>, Ret ()))"

type_synonym ('l, 'a, 'e) loop_body = "'l \<Rightarrow> 'a \<Rightarrow> 'l \<times> 'e evalue option"

definition loop_pass :: "('l, 'a, 'e) loop_body \<Rightarrow> 'a \<Rightarrow> ('l, 'e) instancer \<Rightarrow> ('l, 'e) instancer \<times> (chan \<times> 'e evalue) list" where
  "loop_pass body a s =
     (case body (in_vars s) a of
        (l, None) \<Rightarrow> (s\<lparr>in_vars := l\<rparr>, [])
      | (l, Some event) \<Rightarrow>
          (let (src, out) = source_publish event (in_source s) in (s\<lparr>in_vars := l, in_source := src\<rparr>, out)))"

inductive instancer_run :: "('a \<Rightarrow> ('l \<times> 'e evalue) option) \<Rightarrow> ('l \<Rightarrow> bool) \<Rightarrow> ('l, 'a, 'e) loop_body
    \<Rightarrow> (chan list \<Rightarrow> chan list) \<Rightarrow> 'a list \<Rightarrow> ('l, 'e) instancer \<Rightarrow> (chan \<times> 'e evalue) list \<Rightarrow> bool"
  for start wakes body it where
  run_start: "start a = Some (l, event) \<Longrightarrow> instancer_run start wakes body it [a] (new_instancer it l event) []"
| run_pass: "instancer_run start wakes body it as s sent \<Longrightarrow> in_looping s \<Longrightarrow> wakes (in_vars s)
    \<Longrightarrow> loop_pass body a s = (s', out) \<Longrightarrow> instancer_run start wakes body it (as @ [a]) s' (sent @ out)"
| run_register: "instancer_run start wakes body it as s sent \<Longrightarrow> Instancer_Register ch s = (s', out)
    \<Longrightarrow> instancer_run start wakes body it as s' (sent @ out)"
| run_deregister: "instancer_run start wakes body it as s sent
    \<Longrightarrow> instancer_run start wakes body it as (Instancer_Deregister ch s) sent"
| run_stop: "instancer_run start wakes body it as s sent \<Longrightarrow> Instancer_Stop s = (s', Ret ())
    \<Longrightarrow> instancer_run start wakes body it as s' sent"
| run_quit: "instancer_run start wakes body it as s sent \<Longrightarrow> in_looping s \<Longrightarrow> in_quit s
    \<Longrightarrow> instancer_run start wakes body it as (s\<lparr>in_looping := False\<rparr>) sent"

text \<open>What the observers of an instancer can rely on in a state.\<close>

definition in_step :: "('l, 'e) instancer \<Rightarrow> (chan \<times> 'e evalue) list \<Rightarrow> bool" where
  "in_step s sent \<longleftrightarrow> source_inv (in_source s) \<and>
     (\<forall>ch \<in> source_listens (in_source s). last_for ch sent = Some (source_value (in_source s)))"

lemma in_step_new:
  "iterates it \<Longrightarrow> in_step (new_instancer it l event) [] \<and>
     source_value (in_source (new_instancer it l event)) = sorted_value event"
proof -
  assume "iterates it"
  then have i: "source_inv (it, [], NewCache :: 'e Cache)"
    by (simp add: source_inv_def NewCache_def)
  obtain src out where p: "source_publish event (it, [], NewCache) = (src, out)"
    by (cases "source_publish event (it, [], NewCache)")
  have "source_listens (it, [], NewCache :: 'e Cache) = {}"
    by (simp add: source_listens_def NewCache_def)
  with source_publish_law [OF i p] show ?thesis
    by (simp add: in_step_def new_instancer_def p)
qed

lemma new_instancer_inv: "iterates it \<Longrightarrow> source_inv (in_source (new_instancer it l event))"
  using in_step_new [of it l event] by (simp add: in_step_def)

lemma in_step_op:
  assumes "in_step s sent" and "cache_source.do_op x (in_source s) = (src, out)"
  shows "in_step (s\<lparr>in_source := src\<rparr>) (sent @ out)"
proof -
  have i: "source_inv (in_source s)" using assms(1) by (simp add: in_step_def)
  have "last_for ch (sent @ out) = Some (source_value src)" if "ch \<in> source_listens src" for ch
    using cache_source.do_op_step(2) [OF i assms(2) that] assms(1)
    by (auto simp: in_step_def last_for_append)
  then show ?thesis
    using cache_source.do_op_step(1) [OF i assms(2)] by (simp add: in_step_def)
qed

locale instancer_loop =
  fixes start :: "'a \<Rightarrow> ('l \<times> 'e evalue) option" and wakes :: "'l \<Rightarrow> bool"
    and body :: "('l, 'a, 'e) loop_body"
    and rel :: "'a list \<Rightarrow> 'l \<Rightarrow> 'e evalue \<Rightarrow> bool"
  assumes start_law: "start a = Some (l, event) \<Longrightarrow> rel [a] l (sorted_value event)"
    and pass_law: "rel as l v \<Longrightarrow> wakes l \<Longrightarrow> body l a = (l', e)
      \<Longrightarrow> rel (as @ [a]) l' (case e of None \<Rightarrow> v | Some event \<Rightarrow> sorted_value event)"
begin

lemma run_in_step:
  "instancer_run start wakes body it as s sent \<Longrightarrow> iterates it
     \<Longrightarrow> in_step s sent \<and> rel as (in_vars s) (source_value (in_source s))"
proof (induction rule: instancer_run.induct)
  case (run_start a l event)
  with in_step_new [of it l event] start_law [OF run_start.hyps] show ?case
    by (simp add: new_instancer_def)
next
  case (run_pass as s sent a s' out)
  then have i: "in_step s sent" "rel as (in_vars s) (source_value (in_source s))" by auto
  obtain l e where b: "body (in_vars s) a = (l, e)" by (cases "body (in_vars s) a")
  note r = pass_law [OF i(2) run_pass.hyps(3) b]
  show ?case
  proof (cases e)
    case None
    with run_pass.hyps(4) b i r show ?thesis by (simp add: loop_pass_def in_step_def split: prod.splits) auto
  next
    case (Some event)
    obtain src out' where p: "source_publish event (in_source s) = (src, out')"
      by (cases "source_publish event (in_source s)")
    have s': "s' = s\<lparr>in_vars := l, in_source := src\<rparr>" "out' = out"
      using run_pass.hyps(4) by (simp_all add: loop_pass_def b Some p)
    have "source_inv (in_source s)" using i(1) by (simp add: in_step_def)
    from source_publish_law [OF this p] have "source_value src = sorted_value event" by blast
    moreover have "in_step (s\<lparr>in_source := src\<rparr>) (sent @ out)"
      using in_step_op [OF i(1), of "Publish event"] p s'(2) by simp
    ultimately show ?thesis using r by (simp add: s' Some in_step_def)
  qed
next
  case (run_register as s sent ch s' out)
  obtain src out' where p: "source_listen ch (in_source s) = (src, out')" by (cases "source_listen ch (in_source s)")
  have s': "s' = s\<lparr>in_source := src\<rparr>" "out' = out"
    using run_register.hyps(2) by (simp_all add: Instancer_Register_def p)
  from run_register have i: "in_step s sent" "rel as (in_vars s) (source_value (in_source s))" by auto
  have "source_inv (in_source s)" using i(1) by (simp add: in_step_def)
  from source_listen_law [OF this p] have "source_value src = source_value (in_source s)" by blast
  with in_step_op [OF i(1), of "Listen ch"] p i(2) show ?case by (simp add: s')
next
  case (run_deregister as s sent ch)
  then have i: "in_step s sent" "rel as (in_vars s) (source_value (in_source s))" by auto
  then have "source_inv (in_source s)" by (simp add: in_step_def)
  from source_unlisten_law [OF this, of ch] in_step_op [OF i(1), of "Unlisten ch"] i(2)
  show ?case by (simp add: Instancer_Deregister_def)
qed (auto simp: Instancer_Stop_def in_step_def split: if_splits)

lemma run_value:
  "instancer_run start wakes body it as s sent \<Longrightarrow> iterates it \<Longrightarrow> rel as (in_vars s) (source_value (in_source s))"
  using run_in_step by blast

lemma run_received:
  "instancer_run start wakes body it as s sent \<Longrightarrow> iterates it \<Longrightarrow> ch \<in> source_listens (in_source s)
     \<Longrightarrow> last_for ch sent = Some (source_value (in_source s))"
  using run_in_step by (simp add: in_step_def)

end

end
