(* ===== verification/Dns_Srv.thy ===== *)
theory Dns_Srv
  imports Instancers
begin

text \<open>
  Package sd/dnssrv, files instancer.go and lookup.go: an instancer that resolves a DNS SRV name on
  every tick of a timer. The resolver is a value of type \<open>Lookup\<close>, the answer of a pass of the loop:
  it may be another function every time. \<open>JoinHostPort\<close> is that of package net.
\<close>

record SRV =
  srv_Target :: string
  srv_Port :: "16 word"
  srv_Priority :: "16 word"
  srv_Weight :: "16 word"

type_synonym Lookup = "string \<Rightarrow> string \<Rightarrow> string \<Rightarrow> string \<times> SRV list \<times> go_error option"

definition ErrPortZero :: go_error where
  "ErrPortZero = ErrorText ''resolver returned SRV record with port 0''"

definition JoinHostPort :: "string \<Rightarrow> string \<Rightarrow> string" where
  "JoinHostPort host port =
     (if CHR '':'' \<in> set host then ''['' @ host @ '']:'' @ port else host @ '':'' @ port)"

text \<open>The loop over the records, which the first port zero leaves.\<close>

fun resolve_addrs :: "SRV list \<Rightarrow> go_error + string list" where
  "resolve_addrs [] = Inr []"
| "resolve_addrs (addr # recs) =
     (if srv_Port addr = 0 then Inl ErrPortZero
      else case resolve_addrs recs of
             Inl err \<Rightarrow> Inl err
           | Inr instances \<Rightarrow> Inr (JoinHostPort (srv_Target addr) (Itoa (uint (srv_Port addr))) # instances))"

definition dns_resolve :: "string \<Rightarrow> Lookup \<Rightarrow> go_error + string list" where
  "dns_resolve name lookup =
     (case lookup '''' '''' name of
        (_, _, Some err) \<Rightarrow> Inl err
      | (_, recs, None) \<Rightarrow> resolve_addrs recs)"

text \<open>The event that a constructor or a loop makes of instances or an error.\<close>

definition event_of :: "go_error + string list \<Rightarrow> go_error evalue" where
  "event_of r = (case r of Inl err \<Rightarrow> (None, Some err) | Inr instances \<Rightarrow> (Some instances, None))"

definition dns_NewInstancerDetailed :: "string \<Rightarrow> Lookup \<Rightarrow> (unit \<times> go_error evalue) option" where
  "dns_NewInstancerDetailed name lookup = Some ((), event_of (dns_resolve name lookup))"

definition dns_loop :: "string \<Rightarrow> (unit, Lookup, go_error) loop_body" where
  "dns_loop name _ lookup =
     (case dns_resolve name lookup of
        Inl err \<Rightarrow> ((), Some (None, Some err))
      | Inr instances \<Rightarrow> ((), Some (Some instances, None)))"

abbreviation dns_run :: "string \<Rightarrow> (chan list \<Rightarrow> chan list) \<Rightarrow> Lookup list \<Rightarrow> (unit, go_error) instancer
    \<Rightarrow> (chan \<times> go_error evalue) list \<Rightarrow> bool" where
  "dns_run name \<equiv> instancer_run (dns_NewInstancerDetailed name) (\<lambda>_. True) (dns_loop name)"

lemma event_of_simps [simp]: "event_of (Inl err) = (None, Some err)" "event_of (Inr xs) = (Some xs, None)"
  by (simp_all add: event_of_def)

lemma sorted_value_simps [simp]: "sorted_value (Some xs, e) = (Some (sort xs), e)" "sorted_value (None, e) = (None, e)"
  by (simp_all add: sorted_value_def)

lemma dns_loop_event: "dns_loop name l a = ((), Some (event_of (dns_resolve name a)))"
  by (simp add: dns_loop_def split: sum.splits)

interpretation dns: instancer_loop "dns_NewInstancerDetailed name" "\<lambda>_. True" "dns_loop name"
  "\<lambda>as l v. as \<noteq> [] \<and> v = sorted_value (event_of (dns_resolve name (last as)))"
  by unfold_locales (auto simp: dns_NewInstancerDetailed_def dns_loop_event)

subsection \<open>Addresses\<close>

definition srv_instance :: "SRV \<Rightarrow> string" where
  "srv_instance addr = JoinHostPort (srv_Target addr) (Itoa (uint (srv_Port addr)))"

lemma resolve_addrs_iff:
  "resolve_addrs recs = (if \<exists>addr \<in> set recs. srv_Port addr = 0 then Inl ErrPortZero else Inr (map srv_instance recs))"
  by (induction recs) (auto simp: srv_instance_def)

lemma Itoa_word_digits: "\<forall>c \<in> set (Itoa (uint (p :: 'w :: len word))). is_digit c"
  by (simp add: Itoa_def nat_to_dec_digits)

lemma digit_not_colon: "is_digit c \<Longrightarrow> c \<noteq> CHR '':''"
  by (auto simp: is_digit_def)

lemma host_port_inject:
  fixes p p' :: "'w :: len word"
  assumes "h @ '':'' @ Itoa (uint p) = h' @ '':'' @ Itoa (uint p')"
  shows "h = h' \<and> p = p'"
proof -
  have no: "CHR '':'' \<notin> set (Itoa (uint q))" for q :: "'w word"
    using Itoa_word_digits [of q] digit_not_colon by blast
  have "takeWhile (\<lambda>c. c \<noteq> CHR '':'') (rev (g @ '':'' @ Itoa (uint q))) = rev (Itoa (uint q))" for g and q :: "'w word"
    using no [of q] by (simp add: takeWhile_append takeWhile_eq_all_conv)
  then have "rev (Itoa (uint p)) = rev (Itoa (uint p'))"
    using assms by (metis (no_types, lifting))
  then have "p = p'" by (simp add: Itoa_inject word_uint_eq_iff)
  with assms show ?thesis by simp
qed

lemma JoinHostPort_inject:
  fixes p p' :: "'w :: len word"
  assumes "JoinHostPort h (Itoa (uint p)) = JoinHostPort h' (Itoa (uint p'))"
    and "CHR ''['' \<notin> set h" and "CHR ''['' \<notin> set h'"
  shows "h = h' \<and> p = p'"
proof -
  define b where "b g = (if CHR '':'' \<in> set g then ''['' @ g @ '']'' else g)" for g :: string
  have "JoinHostPort g q = b g @ '':'' @ q" for g q
    by (simp add: JoinHostPort_def b_def)
  with assms(1) host_port_inject [of "b h" p "b h'" p'] have "b h = b h' \<and> p = p'" by simp
  then show ?thesis
    using assms(2,3) by (auto simp: b_def split: if_splits)
qed

text \<open>What the endpointer of a name has received in the end.\<close>

lemma dns_last_for:
  assumes "dns_run name order as s sent" and "iterates order" and "ch \<in> source_listens (in_source s)"
    and "last as '''' '''' name = (cname, recs, None)" and "\<forall>addr \<in> set recs. srv_Port addr \<noteq> 0"
  shows "last_for ch sent = Some (Some (sort (map srv_instance recs)), None)"
proof -
  have "dns_resolve name (last as) = Inr (map srv_instance recs)"
    using assms(4,5) by (simp add: dns_resolve_def resolve_addrs_iff)
  with dns.run_received [OF assms(1-3)] dns.run_value [OF assms(1,2)] show ?thesis by simp
qed

subsection \<open>Properties\<close>

text \<open>C6: The endpoints of a DNS name are those of its last lookup: whatever the earlier lookups were and
  whoever registered meanwhile, once an endpointer has received what the instancer sent to it, and if the
  last lookup has succeeded with no port zero and the factory does not fail, it holds an endpoint for exactly
  the addresses of the records, which are distinct when the records are.\<close>

theorem dns_endpoints_follow:
  assumes "dns_run name order as s sent" and "iterates order" and "ch \<in> source_listens (in_source s)"
    and "length ts = length (filter (\<lambda>p. fst p = ch) sent)" and "\<And>tr i. \<exists>p. f tr i = Inr p"
    and "c = de_cache (DefaultEndpointer_receive it (inbox ch ts sent) \<lparr>de_cache = newEndpointCache f opts, de_ch = ch\<rparr>)"
    and "last as '''' '''' name = (cname, recs, None)" and "\<forall>addr \<in> set recs. srv_Port addr \<noteq> 0"
  shows "ec_err c = None \<and> fst ` set (ecache c) = srv_instance ` set recs
    \<and> endpoints c = map (\<lambda>i. Endpoint (the (map_of (ecache c) i))) (sort (map srv_instance recs))
    \<and> (distinct (map (\<lambda>addr. (srv_Target addr, srv_Port addr)) recs)
        \<and> (\<forall>addr \<in> set recs. CHR ''['' \<notin> set (srv_Target addr)) \<longrightarrow> distinct (map srv_instance recs))"
proof -
  note r = endpointer_receives [OF dns_last_for [OF assms(1-3,7,8)] assms(4) _ assms(6)]
  have "inj_on srv_instance (set recs) \<or> \<not> distinct (map (\<lambda>addr. (srv_Target addr, srv_Port addr)) recs)"
    if "\<forall>addr \<in> set recs. CHR ''['' \<notin> set (srv_Target addr)"
  proof -
    have "a = b" if "distinct (map (\<lambda>addr. (srv_Target addr, srv_Port addr)) recs)"
      "a \<in> set recs" "b \<in> set recs" "srv_instance a = srv_instance b" for a b
      using that JoinHostPort_inject [of "srv_Target a" "srv_Port a" "srv_Target b" "srv_Port b"]
        \<open>\<forall>addr \<in> set recs. CHR ''['' \<notin> set (srv_Target addr)\<close>
      by (auto simp: srv_instance_def distinct_map dest: inj_onD)
    then show ?thesis by (auto intro: inj_onI)
  qed
  then have "distinct (map srv_instance recs)"
    if "distinct (map (\<lambda>addr. (srv_Target addr, srv_Port addr)) recs)"
      "\<forall>addr \<in> set recs. CHR ''['' \<notin> set (srv_Target addr)"
    using that by (auto simp: distinct_map)
  with r assms(5) show ?thesis by (simp add: newEndpointCache_def)
qed

theorem dns_endpoints_follow_witness:
  "\<exists>c :: (string, string, go_error) endpointCache. ec_err c = None \<and> fst ` set (ecache c) = {''a:80'', ''[::1]:53''}"
proof -
  let ?rs = "[\<lparr>srv_Target = ''a'', srv_Port = 80, srv_Priority = 0, srv_Weight = 0\<rparr>, \<lparr>srv_Target = ''::1'', srv_Port = 53, srv_Priority = 0, srv_Weight = 0\<rparr>]"
  let ?a = "\<lambda>service proto name. (''c'', ?rs, None)" and ?f = "\<lambda>tr i. Inr (i, Some i) :: go_error + string \<times> string option"
  let ?s = "new_instancer (\<lambda>xs. xs) () (event_of (dns_resolve ''n'' ?a))"
  obtain s sent where l: "Instancer_Register 3 ?s = (s, sent)" by (rule prod.exhaust)
  have "dns_run ''n'' (\<lambda>xs. xs) [?a] ?s []"
    by (rule run_start) (simp add: dns_NewInstancerDetailed_def)
  from run_register [OF this l] have r: "dns_run ''n'' (\<lambda>xs. xs) [?a] s sent" by simp
  obtain src out where src: "source_listen 3 (in_source ?s) = (src, out)" by (rule prod.exhaust)
  have "source_inv (in_source ?s)" by (intro new_instancer_inv iterates_id)
  from source_listen_law [OF this src] l have ch: "3 \<in> source_listens (in_source s)" "length (filter (\<lambda>p. fst p = 3) sent) = 1"
    by (auto simp: Instancer_Register_def src)
  let ?c = "de_cache (DefaultEndpointer_receive (\<lambda>xs. xs) (inbox 3 [1] sent) \<lparr>de_cache = newEndpointCache ?f \<lparr>invalidateOnError = False, invalidateTimeout = 0\<rparr>, de_ch = 3\<rparr>)"
  have n: "nat_to_dec 80 = ''80''" "nat_to_dec 53 = ''53''" by code_simp+
  have "ec_err ?c = None \<and> fst ` set (ecache ?c) = srv_instance ` set ?rs"
    using dns_endpoints_follow [OF r iterates_id ch(1), of "[1]" ?f ?c "\<lambda>xs. xs" "\<lparr>invalidateOnError = False, invalidateTimeout = 0\<rparr>" "''c''" ?rs] ch(2)
    by simp
  then show ?thesis by (intro exI [of _ ?c]) (simp add: srv_instance_def JoinHostPort_def Itoa_def n)
qed

end
