(* ===== verification/Consul.thy ===== *)
theory Consul
  imports Dns_Srv Conn_Manager
begin

text \<open>
  Package sd/consul: an instancer that asks the agent with blocking queries, and a registrar. The query
  passes the index of the last answer and returns when the agent has a newer one; the variables of the
  loop are that index and the time to sleep after a failure. A label of a run is an answer of the client
  to the query of that pass together with the random number of \<open>Exponential\<close>. The loop notices \<open>Stop\<close> by
  \<open>errStopped\<close>, which \<open>getInstances\<close> returns when it is interrupted: the step \<open>run_quit\<close>.
\<close>

record ServiceEntry =
  node_Address :: string
  service_Address :: string
  service_Port :: int
  service_Tags :: "string list"

type_synonym consul_answer = "go_error + ServiceEntry list \<times> 64 word"

definition defaultIndex :: "64 word" where "defaultIndex = 0"
definition Millisecond :: int where "Millisecond = 1000000"

definition filterEntries :: "ServiceEntry list \<Rightarrow> string list \<Rightarrow> ServiceEntry list" where
  "filterEntries entries tags =
     filter (\<lambda>entry. let ts = set (service_Tags entry) in list_all (\<lambda>tag. tag \<in> ts) tags) entries"

definition makeInstances :: "ServiceEntry list \<Rightarrow> string list" where
  "makeInstances entries =
     map (\<lambda>entry. let addr = (if service_Address entry \<noteq> '''' then service_Address entry else node_Address entry)
                  in addr @ '':'' @ Itoa (service_Port entry)) entries"

text \<open>The part of \<open>getInstances\<close> that a \<open>Service\<close> call runs: the client filters by the first tag only.\<close>

definition getInstances :: "(string \<Rightarrow> string \<Rightarrow> bool \<Rightarrow> 64 word \<Rightarrow> consul_answer) \<Rightarrow> string \<Rightarrow> string list \<Rightarrow> bool
    \<Rightarrow> 64 word \<Rightarrow> go_error + string list \<times> 64 word" where
  "getInstances Service service tags passingOnly lastIndex =
     (let tag = (if length tags > 0 then tags ! 0 else '''') in
      case Service service tag passingOnly lastIndex of
        Inl err \<Rightarrow> Inl err
      | Inr (entries, LastIndex) \<Rightarrow>
          (let entries1 = (if length tags > 1 then filterEntries entries (drop 1 tags) else entries)
           in Inr (makeInstances entries1, LastIndex)))"

definition consul_NewInstancer :: "string \<Rightarrow> string list \<Rightarrow> bool \<Rightarrow> consul_answer \<times> rat
    \<Rightarrow> ((64 word \<times> int) \<times> go_error evalue) option" where
  "consul_NewInstancer service tags passingOnly a =
     (case getInstances (\<lambda>_ _ _ _. fst a) service tags passingOnly defaultIndex of
        Inl err \<Rightarrow> Some ((0, 10 * Millisecond), (None, Some err))
      | Inr (instances, index) \<Rightarrow> Some ((index, 10 * Millisecond), (Some instances, None)))"

definition consul_loop :: "(float64 \<Rightarrow> int) \<Rightarrow> string \<Rightarrow> string list \<Rightarrow> bool \<Rightarrow> (64 word \<times> int, consul_answer \<times> rat, go_error) loop_body" where
  "consul_loop impl service tags passingOnly vars a =
     (case vars of (lastIndex, d) \<Rightarrow>
        (case getInstances (\<lambda>_ _ _ _. fst a) service tags passingOnly lastIndex of
           Inl err \<Rightarrow> ((lastIndex, Exponential impl (snd a) d), Some (None, Some err))
         | Inr (instances, index) \<Rightarrow>
             if index = defaultIndex then ((lastIndex, Exponential impl (snd a) d), None)
             else if index < lastIndex then ((defaultIndex, Exponential impl (snd a) d), None)
             else ((index, 10 * Millisecond), Some (Some instances, None))))"

abbreviation consul_run :: "(float64 \<Rightarrow> int) \<Rightarrow> string \<Rightarrow> string list \<Rightarrow> bool \<Rightarrow> (chan list \<Rightarrow> chan list)
    \<Rightarrow> (consul_answer \<times> rat) list \<Rightarrow> (64 word \<times> int, go_error) instancer \<Rightarrow> (chan \<times> go_error evalue) list \<Rightarrow> bool" where
  "consul_run impl service tags passingOnly \<equiv>
     instancer_run (consul_NewInstancer service tags passingOnly) (\<lambda>_. True) (consul_loop impl service tags passingOnly)"

subsection \<open>The registrar\<close>

record AgentServiceRegistration =
  asr_ID :: string
  asr_Name :: string
  asr_Tags :: "string list"
  asr_Port :: int
  asr_Address :: string

record 'w consul_agent =
  ServiceRegister :: "AgentServiceRegistration \<Rightarrow> 'w \<Rightarrow> 'w \<times> go_error option"
  ServiceDeregister :: "string \<Rightarrow> 'w \<Rightarrow> 'w \<times> go_error option"

definition consul_client_Register :: "'w consul_agent \<Rightarrow> AgentServiceRegistration \<Rightarrow> 'w \<Rightarrow> 'w \<times> go_error option" where
  "consul_client_Register agent r = ServiceRegister agent r"

definition consul_client_Deregister :: "'w consul_agent \<Rightarrow> AgentServiceRegistration \<Rightarrow> 'w \<Rightarrow> 'w \<times> go_error option" where
  "consul_client_Deregister agent r = ServiceDeregister agent (asr_ID r)"

text \<open>The registrar logs the error of the client and returns nothing.\<close>

definition consul_Registrar_Register :: "'w consul_agent \<Rightarrow> AgentServiceRegistration \<Rightarrow> 'w \<Rightarrow> 'w" where
  "consul_Registrar_Register agent registration w = fst (consul_client_Register agent registration w)"

definition consul_Registrar_Deregister :: "'w consul_agent \<Rightarrow> AgentServiceRegistration \<Rightarrow> 'w \<Rightarrow> 'w" where
  "consul_Registrar_Deregister agent registration w = fst (consul_client_Deregister agent registration w)"

subsection \<open>What a run publishes\<close>

definition consul_instances :: "string list \<Rightarrow> ServiceEntry list \<Rightarrow> string list" where
  "consul_instances tags entries = makeInstances (filter (\<lambda>entry. set (drop 1 tags) \<subseteq> set (service_Tags entry)) entries)"

lemma getInstances_answer:
  "getInstances (\<lambda>_ _ _ _. ans) service tags passingOnly i
     = (case ans of Inl err \<Rightarrow> Inl err | Inr (entries, index) \<Rightarrow> Inr (consul_instances tags entries, index))"
  by (auto simp: getInstances_def consul_instances_def filterEntries_def list_all_iff subset_eq split: sum.splits)

definition consul_value :: "string list \<Rightarrow> consul_answer \<Rightarrow> go_error evalue" where
  "consul_value tags ans = event_of (map_sum id (\<lambda>(entries, _). consul_instances tags entries) ans)"

text \<open>The index of an answer. An answer is dropped when it has no error and its index is zero or smaller than that of
  the query; one with an index is dropped at most once in a row, since the next query asks with index zero.\<close>

definition answer_index :: "consul_answer \<Rightarrow> 64 word" where
  "answer_index ans = (case ans of Inl err \<Rightarrow> 0 | Inr (entries, index) \<Rightarrow> index)"

lemma answer_index_Inr [simp]: "answer_index (Inr (entries, index)) = index"
  by (simp add: answer_index_def)

definition consul_rel :: "string list \<Rightarrow> (consul_answer \<times> rat) list \<Rightarrow> 64 word \<times> int \<Rightarrow> go_error evalue \<Rightarrow> bool" where
  "consul_rel tags as l v \<longleftrightarrow>
     ((\<forall>a \<in> set as. is_random (snd a)) \<longrightarrow> 10 * Millisecond \<le> snd l \<and> snd l \<le> Minute) \<and>
     (\<exists>pre b post. as = pre @ b # post \<and> v = sorted_value (consul_value tags (fst b))
        \<and> (\<forall>a \<in> set post. \<not> isl (fst a))
        \<and> (filter (\<lambda>a. answer_index (fst a) \<noteq> 0) post = []
             \<and> (isl (fst b) \<or> fst l = answer_index (fst b))
           \<or> (\<exists>a. filter (\<lambda>a. answer_index (fst a) \<noteq> 0) post = [a]
             \<and> (isl (fst b) \<or> answer_index (fst a) < answer_index (fst b)) \<and> fst l = 0)))"

lemma consul_sleep:
  "is_random rnd \<Longrightarrow> 10 * Millisecond \<le> d \<Longrightarrow> d \<le> Minute
     \<Longrightarrow> 10 * Millisecond \<le> Exponential impl rnd d \<and> Exponential impl rnd d \<le> Minute"
  using Exponential_bounds [of rnd d impl] by (simp add: Millisecond_def)

lemma consul_rel_publish:
  assumes "(\<forall>a \<in> set (as @ [a]). is_random (snd a)) \<longrightarrow> 10 * Millisecond \<le> snd l \<and> snd l \<le> Minute"
    and "isl (fst a) \<or> fst l = answer_index (fst a)"
  shows "consul_rel tags (as @ [a]) l (sorted_value (consul_value tags (fst a)))"
  unfolding consul_rel_def using assms by (intro conjI exI [of _ as] exI [of _ a] exI [of _ "[]"]) auto

lemma consul_rel_drop:
  assumes "consul_rel tags as (i, d) v" and "fst a = Inr (entries, index)"
    and "index = 0 \<and> i' = i \<or> index \<noteq> 0 \<and> index < i \<and> i' = 0"
  shows "consul_rel tags (as @ [a]) (i', Exponential impl (snd a) d) v"
proof -
  let ?ix = "\<lambda>a. answer_index (fst a) \<noteq> 0"
  from assms(1) obtain pre b post where r: "as = pre @ b # post" "v = sorted_value (consul_value tags (fst b))"
    "\<forall>a \<in> set post. \<not> isl (fst a)"
    "filter ?ix post = [] \<and> (isl (fst b) \<or> i = answer_index (fst b))
     \<or> (\<exists>a. filter ?ix post = [a] \<and> (isl (fst b) \<or> answer_index (fst a) < answer_index (fst b)) \<and> i = 0)"
    unfolding consul_rel_def fst_conv by blast
  have f: "filter ?ix (post @ [a]) = [] \<and> (isl (fst b) \<or> i' = answer_index (fst b))
     \<or> (\<exists>a'. filter ?ix (post @ [a]) = [a'] \<and> (isl (fst b) \<or> answer_index (fst a') < answer_index (fst b)) \<and> i' = 0)"
  proof (cases "index = 0")
    case True
    with assms(2,3) r(4) show ?thesis by auto
  next
    case False
    with assms(3) have "index < i" "i' = 0" by simp_all
    then have "i \<noteq> 0" by auto
    with r(4) have "filter ?ix post = []" "isl (fst b) \<or> i = answer_index (fst b)" by auto
    with False assms(2) \<open>index < i\<close> \<open>i' = 0\<close> show ?thesis by auto
  qed
  moreover have "\<forall>a \<in> set (as @ [a]). is_random (snd a) \<Longrightarrow>
      10 * Millisecond \<le> Exponential impl (snd a) d \<and> Exponential impl (snd a) d \<le> Minute"
    using assms(1) consul_sleep [of "snd a" d impl] by (simp add: consul_rel_def)
  ultimately show ?thesis
    unfolding consul_rel_def using r(1-3) assms(2)
    by (intro conjI impI exI [of _ pre] exI [of _ b] exI [of _ "post @ [a]"]) auto
qed

interpretation consul: instancer_loop "consul_NewInstancer service tags passingOnly" "\<lambda>_. True"
  "consul_loop impl service tags passingOnly" "consul_rel tags"
proof unfold_locales
  fix a l event
  assume s: "consul_NewInstancer service tags passingOnly a = Some (l, event)"
  have "event = consul_value tags (fst a)"
    using s by (auto simp: consul_NewInstancer_def getInstances_answer consul_value_def split: sum.splits prod.splits)
  moreover have "snd l = 10 * Millisecond"
    using s by (auto simp: consul_NewInstancer_def split: sum.splits prod.splits)
  moreover have "isl (fst a) \<or> fst l = answer_index (fst a)"
    using s by (auto simp: consul_NewInstancer_def getInstances_answer split: sum.splits prod.splits)
  ultimately show "consul_rel tags [a] l (sorted_value event)"
    using consul_rel_publish [of "[]" a l tags] by (simp add: Millisecond_def Minute_def Second_def)
next
  fix as l v a l' e
  assume r: "consul_rel tags as l v" and b: "consul_loop impl service tags passingOnly l a = (l', e)"
  obtain i d where l: "l = (i, d)" by (cases l)
  show "consul_rel tags (as @ [a]) l' (case e of None \<Rightarrow> v | Some event \<Rightarrow> sorted_value event)"
  proof (cases "fst a")
    case (Inl err)
    then have "l' = (i, Exponential impl (snd a) d)" "e = Some (consul_value tags (fst a))"
      using b by (simp_all add: consul_loop_def getInstances_answer l consul_value_def)
    moreover from r have "(\<forall>a \<in> set (as @ [a]). is_random (snd a)) \<longrightarrow>
        10 * Millisecond \<le> Exponential impl (snd a) d \<and> Exponential impl (snd a) d \<le> Minute"
      using consul_sleep [of "snd a" d impl] by (simp add: consul_rel_def l)
    ultimately show ?thesis using consul_rel_publish [of as a l' tags] Inl by simp
  next
    case (Inr p)
    obtain entries index where p: "p = (entries, index)" by (cases p)
    show ?thesis
    proof (cases "index = 0 \<or> index < i")
      case True
      then have "l' = (if index = 0 then i else 0, Exponential impl (snd a) d)" "e = None"
        using b True by (auto simp: consul_loop_def getInstances_answer l Inr p defaultIndex_def split: if_splits)
      with consul_rel_drop [OF r [unfolded l], of a entries index "if index = 0 then i else 0" impl] True
      show ?thesis by (cases "index = 0") (simp_all add: Inr p)
    next
      case False
      then have "l' = (index, 10 * Millisecond)" "e = Some (consul_value tags (fst a))"
        using b by (auto simp: consul_loop_def getInstances_answer l Inr p defaultIndex_def consul_value_def)
      with consul_rel_publish [of as a l' tags] show ?thesis
        by (simp add: Millisecond_def Minute_def Second_def Inr p)
    qed
  qed
qed

subsection \<open>Properties\<close>

text \<open>C7: Whatever the agent answers, the instancer publishes the last answer that was not dropped: the instances of an answer,
  or its error. What has come after it are answers without an error that were dropped: any number with index 0,
  and at most one with another index, which is smaller than that of the published answer. A dropped
  answer may well have changed instances; after the drop of one with an index the next query asks
  with index 0, and otherwise with that of the published answer. The sleep between failing queries stays between
  ten milliseconds and a minute.\<close>

theorem consul_follows_agent:
  assumes "consul_run impl service tags passingOnly order as s sent" and "iterates order"
    and "\<forall>a \<in> set as. is_random (snd a)"
  shows "\<exists>pre b post. as = pre @ b # post
    \<and> source_value (in_source s) = sorted_value (consul_value tags (fst b))
    \<and> (\<forall>ch \<in> source_listens (in_source s). last_for ch sent = Some (sorted_value (consul_value tags (fst b))))
    \<and> (\<forall>a \<in> set post. \<not> isl (fst a))
    \<and> (case in_vars s of (lastIndex, d) \<Rightarrow> 10 * Millisecond \<le> d \<and> d \<le> Minute
        \<and> (filter (\<lambda>a. answer_index (fst a) \<noteq> 0) post = [] \<and> (isl (fst b) \<or> lastIndex = answer_index (fst b))
           \<or> (\<exists>a. filter (\<lambda>a. answer_index (fst a) \<noteq> 0) post = [a]
               \<and> (isl (fst b) \<or> answer_index (fst a) < answer_index (fst b)) \<and> lastIndex = 0)))"
  using consul.run_value [OF assms(1,2)] consul.run_received [OF assms(1,2)] assms(3)
  by (fastforce simp: consul_rel_def split: prod.splits)

theorem consul_follows_agent_witness:
  "\<exists>s sent. consul_run (\<lambda>_. 0) ''db'' [] True (\<lambda>xs. xs)
      [(Inr ([\<lparr>node_Address = ''n'', service_Address = '''', service_Port = 80, service_Tags = []\<rparr>], 5), 0),
       (Inr ([\<lparr>node_Address = ''n'', service_Address = '''', service_Port = 80, service_Tags = []\<rparr>], 0), 1 / 2)] s sent
    \<and> source_value (in_source s) = (Some [''n:80''], None)"
proof -
  let ?e = "[\<lparr>node_Address = ''n'', service_Address = '''', service_Port = 80, service_Tags = []\<rparr>]"
  let ?a = "(Inr (?e, 5), 0) :: consul_answer \<times> rat" and ?b = "(Inr (?e, 0), 1 / 2) :: consul_answer \<times> rat"
  have n: "nat_to_dec 80 = ''80''" by code_simp
  obtain l event where a: "consul_NewInstancer ''db'' [] True ?a = Some (l, event)"
    by (auto simp: consul_NewInstancer_def getInstances_answer)
  obtain s out where p: "loop_pass (consul_loop (\<lambda>_. 0) ''db'' [] True) ?b (new_instancer (\<lambda>xs. xs) l event) = (s, out)"
    by (rule prod.exhaust)
  have "consul_run (\<lambda>_. 0) ''db'' [] True (\<lambda>xs. xs) [?a] (new_instancer (\<lambda>xs. xs) l event) []"
    using a by (rule run_start)
  from run_pass [OF this _ _ p] have r: "consul_run (\<lambda>_. 0) ''db'' [] True (\<lambda>xs. xs) [?a, ?b] s out"
    by (simp add: new_instancer_def)
  have v: "sorted_value (consul_value [] (Inr (?e, i))) = (Some [''n:80''], None)" for i
    by (simp add: consul_value_def consul_instances_def makeInstances_def Itoa_def n)
  from consul_follows_agent [OF r iterates_id] obtain pre b post where
    b: "[?a, ?b] = pre @ b # post" and val: "source_value (in_source s) = sorted_value (consul_value [] (fst b))"
    by (auto simp: is_random_def)
  have "b \<in> set [?a, ?b]" by (subst b) simp
  with val v have "source_value (in_source s) = (Some [''n:80''], None)" by auto
  with r show ?thesis by blast
qed

text \<open>The instances of an answer are the addresses of exactly the entries that carry all the tags, given
  that the agent returns only entries with the first one.\<close>

theorem consul_instances_by_tags:
  assumes "\<And>i. Service service (if tags = [] then '''' else hd tags) passingOnly i = Inr (entries, index)"
    and "\<forall>entry \<in> set entries. tags \<noteq> [] \<longrightarrow> hd tags \<in> set (service_Tags entry)"
    and "addr = (\<lambda>entry. if service_Address entry = '''' then node_Address entry else service_Address entry)"
  shows "getInstances Service service tags passingOnly i
    = Inr (map (\<lambda>entry. addr entry @ '':'' @ Itoa (service_Port entry))
        (filter (\<lambda>entry. set tags \<subseteq> set (service_Tags entry)) entries), index)"
proof -
  have "filter (\<lambda>entry. set (drop 1 tags) \<subseteq> set (service_Tags entry)) entries
    = filter (\<lambda>entry. set tags \<subseteq> set (service_Tags entry)) entries"
    using assms(2) by (cases tags) (auto intro!: filter_cong)
  moreover have "getInstances Service service tags passingOnly i = Inr (consul_instances tags entries, index)"
    using assms(1) by (cases tags) (auto simp: getInstances_def consul_instances_def filterEntries_def list_all_iff subset_eq Let_def)
  ultimately show ?thesis
    by (simp add: consul_instances_def makeInstances_def assms(3) Let_def if_distrib [of "\<lambda>x. x @ _"] cong: if_cong)
qed

theorem consul_instances_by_tags_witness:
  "getInstances (\<lambda>service tag passingOnly i.
      Inr ([\<lparr>node_Address = ''n'', service_Address = '''', service_Port = 80, service_Tags = [''a'']\<rparr>,
            \<lparr>node_Address = ''n'', service_Address = ''m'', service_Port = 80, service_Tags = [''b'', ''a'']\<rparr>], 7)) ''db'' [''a'', ''b''] True 0
   = Inr ([''m:80''], 7)"
proof -
  have n: "nat_to_dec 80 = ''80''" by code_simp
  show ?thesis
    by (subst consul_instances_by_tags [OF refl _ refl]) (simp_all add: Itoa_def n)
qed

end
