(* ===== verification/Zookeeper.thy ===== *)
theory Zookeeper
  imports Dns_Srv Conn_Manager
begin

text \<open>
  Package sd/zk: the client for ZooKeeper (client.go), the instancer and the registrar. The connection of
  the library is a record of functions on the world \<open>'w\<close>; a watch is known only by whether its channel is
  nil. The instancer runs in the relation of theory Instancers: the variable of its loop is the channel of
  the last watch, and on a nil channel the loop waits for ever. The service that a registrar holds is
  changed by the client, so the operations return it.
\<close>

subsection \<open>The library\<close>

definition zk_ErrNodeExists :: go_error where "zk_ErrNodeExists = ForeignError 1"
definition zk_ErrNoAuth :: go_error where "zk_ErrNoAuth = ForeignError 2"
definition zk_ErrInvalidPath :: go_error where "zk_ErrInvalidPath = ForeignError 3"
definition zk_ErrNotEmpty :: go_error where "zk_ErrNotEmpty = ForeignError 4"

record ('w, 'acl) zk_conn =
  zk_Create :: "string \<Rightarrow> string \<Rightarrow> int \<Rightarrow> 'acl list \<Rightarrow> 'w \<Rightarrow> 'w \<times> go_error option"
  zk_ChildrenW :: "string \<Rightarrow> 'w \<Rightarrow> 'w \<times> string list \<times> bool \<times> go_error option"
  zk_Get :: "string \<Rightarrow> 'w \<Rightarrow> 'w \<times> (go_error + string)"
  zk_CreateProtectedEphemeralSequential :: "string \<Rightarrow> string \<Rightarrow> 'acl list \<Rightarrow> 'w \<Rightarrow> 'w \<times> (go_error + string)"
  zk_Exists :: "string \<Rightarrow> 'w \<Rightarrow> 'w \<times> (go_error + bool \<times> int)"
  zk_Delete :: "string \<Rightarrow> int \<Rightarrow> 'w \<Rightarrow> 'w \<times> go_error option"
  zk_Close :: "'w \<Rightarrow> 'w"

subsection \<open>The client and its options\<close>

text \<open>What the program sees of an event of the connection.\<close>

record zk_Event =
  ze_Type :: int
  ze_State :: int
  ze_Server :: string
  ze_Err :: "go_error option"

record ('w, 'acl) clientConfig =
  cc_acl :: "'acl list"
  cc_credentials :: string
  cc_connectTimeout :: int
  cc_sessionTimeout :: int
  cc_rootNodePayload :: "string list"
  cc_eventHandler :: "zk_Event \<Rightarrow> 'w \<Rightarrow> 'w"

type_synonym ('w, 'acl) zk_option = "('w, 'acl) clientConfig \<Rightarrow> go_error + ('w, 'acl) clientConfig"

record ('w, 'acl) zk_client =
  zc_Conn :: "('w, 'acl) zk_conn"
  zc_config :: "('w, 'acl) clientConfig"
  zc_active :: bool
  zc_quit :: bool

definition ErrInvalidCredentials :: go_error where "ErrInvalidCredentials = ErrorText ''invalid credentials provided''"
definition ErrClientClosed :: go_error where "ErrClientClosed = ErrorText ''client service closed''"
definition ErrNotRegistered :: go_error where "ErrNotRegistered = ErrorText ''not registered''"
definition ErrNodeNotFound :: go_error where "ErrNodeNotFound = ErrorText ''node not found''"
definition DefaultConnectTimeout :: int where "DefaultConnectTimeout = 2 * Second"
definition DefaultSessionTimeout :: int where "DefaultSessionTimeout = 5 * Second"

definition zk_ACL :: "'acl list \<Rightarrow> ('w, 'acl) zk_option" where
  "zk_ACL acl c = Inr (c\<lparr>cc_acl := acl\<rparr>)"

definition Credentials :: "string \<Rightarrow> string \<Rightarrow> ('w, 'acl) zk_option" where
  "Credentials user pass c =
     (if user = '''' \<or> pass = '''' then Inl ErrInvalidCredentials else Inr (c\<lparr>cc_credentials := user @ '':'' @ pass\<rparr>))"

text \<open>A duration in nanoseconds has less than one second as a number of seconds exactly if it is less than a second.\<close>

definition ConnectTimeout :: "int \<Rightarrow> ('w, 'acl) zk_option" where
  "ConnectTimeout t c =
     (if t < Second then Inl (ErrorText ''invalid connect timeout (minimum value is 1 second)'')
      else Inr (c\<lparr>cc_connectTimeout := t\<rparr>))"

definition SessionTimeout :: "int \<Rightarrow> ('w, 'acl) zk_option" where
  "SessionTimeout t c =
     (if t < Second then Inl (ErrorText ''invalid session timeout (minimum value is 1 second)'')
      else Inr (c\<lparr>cc_sessionTimeout := t\<rparr>))"

definition Payload :: "string list \<Rightarrow> ('w, 'acl) zk_option" where
  "Payload payload c = Inr (c\<lparr>cc_rootNodePayload := payload\<rparr>)"

definition EventHandler :: "(zk_Event \<Rightarrow> 'w \<Rightarrow> 'w) \<Rightarrow> ('w, 'acl) zk_option" where
  "EventHandler handler c = Inr (c\<lparr>cc_eventHandler := handler\<rparr>)"

fun apply_options :: "('w, 'acl) zk_option list \<Rightarrow> ('w, 'acl) clientConfig \<Rightarrow> go_error + ('w, 'acl) clientConfig" where
  "apply_options [] c = Inr c"
| "apply_options (option # opts) c =
     (case option c of Inl err \<Rightarrow> Inl err | Inr c1 \<Rightarrow> apply_options opts c1)"

definition zk_NewClient :: "'acl list \<Rightarrow> (string list \<Rightarrow> int \<Rightarrow> int \<Rightarrow> 'w \<Rightarrow> 'w \<times> (go_error + ('w, 'acl) zk_conn))
    \<Rightarrow> (string \<Rightarrow> string \<Rightarrow> 'w \<Rightarrow> 'w \<times> go_error option)
    \<Rightarrow> string list \<Rightarrow> ('w, 'acl) zk_option list \<Rightarrow> 'w \<Rightarrow> 'w \<times> (go_error + ('w, 'acl) zk_client)" where
  "zk_NewClient DefaultACL Connect AddAuth servers opts w =
     (let config = \<lparr>cc_acl = DefaultACL, cc_credentials = '''', cc_connectTimeout = DefaultConnectTimeout,
                    cc_sessionTimeout = DefaultSessionTimeout, cc_rootNodePayload = [], cc_eventHandler = \<lambda>event w. w\<rparr> in
      case apply_options opts config of
        Inl err \<Rightarrow> (w, Inl err)
      | Inr config \<Rightarrow>
          (case Connect servers (cc_sessionTimeout config) (cc_connectTimeout config) w of
             (w1, Inl err) \<Rightarrow> (w1, Inl err)
           | (w1, Inr conn) \<Rightarrow>
               (let client = \<lparr>zc_Conn = conn, zc_config = config, zc_active = True, zc_quit = False\<rparr> in
                if length (cc_credentials config) > 0 then
                  (case AddAuth ''digest'' (cc_credentials config) w1 of
                     (w2, Some err) \<Rightarrow> (w2, Inl err)
                   | (w2, None) \<Rightarrow> (w2, Inr client))
                else (w1, Inr client))))"

text \<open>
  The goroutine that \<open>NewClient\<close> starts, over what its select receives: an event of the connection, or, as None, that the
  channel \<open>quit\<close> is closed. The handler of the program is called; the default handler only logs.
\<close>

fun zk_event_loop :: "('w, 'acl) zk_client \<Rightarrow> zk_Event option list \<Rightarrow> 'w \<Rightarrow> 'w" where
  "zk_event_loop c [] w = w"
| "zk_event_loop c (Some event # picks) w = zk_event_loop c picks (cc_eventHandler (zc_config c) event w)"
| "zk_event_loop c (None # picks) w = w"

text \<open>The loop of \<open>CreateParentNodes\<close> from the node with index \<open>i\<close>.\<close>

fun create_nodes :: "('w, 'acl) zk_client \<Rightarrow> nat \<Rightarrow> string \<Rightarrow> string list \<Rightarrow> 'w \<Rightarrow> 'w \<times> go_error option" where
  "create_nodes c i pathString [] w = (w, None)"
| "create_nodes c i pathString (pathNode # pathNodes) w =
     (let root = cc_rootNodePayload (zc_config c);
          payload = (if i \<le> length root then root ! (i - 1) else '''');
          pathString1 = pathString @ ''/'' @ pathNode;
          (w1, err) = zk_Create (zc_Conn c) pathString1 payload 0 (cc_acl (zc_config c)) w
      in if err \<noteq> None \<and> err \<noteq> Some zk_ErrNodeExists \<and> err \<noteq> Some zk_ErrNoAuth then (w1, err)
         else create_nodes c (i + 1) pathString1 pathNodes w1)"

definition CreateParentNodes :: "('w, 'acl) zk_client \<Rightarrow> string \<Rightarrow> 'w \<Rightarrow> 'w \<times> go_error option outcome" where
  "CreateParentNodes c path w =
     (if \<not> zc_active c then (w, Ret (Some ErrClientClosed))
      else case path of
        [] \<Rightarrow> (w, Panic ''index out of range'')
      | p0 # _ \<Rightarrow>
          if p0 \<noteq> CHR ''/'' then (w, Ret (Some zk_ErrInvalidPath))
          else (case create_nodes c 1 '''' (tl (strings_Split path CHR ''/'')) w of (w1, err) \<Rightarrow> (w1, Ret err)))"

fun get_nodes :: "('w, 'acl) zk_client \<Rightarrow> string \<Rightarrow> string list \<Rightarrow> 'w \<Rightarrow> 'w \<times> string list" where
  "get_nodes c path [] w = (w, [])"
| "get_nodes c path (znode # znodes) w =
     (case zk_Get (zc_Conn c) (path @ ''/'' @ znode) w of
        (w1, Inl _) \<Rightarrow> get_nodes c path znodes w1
      | (w1, Inr data) \<Rightarrow> (case get_nodes c path znodes w1 of (w2, resp) \<Rightarrow> (w2, data # resp)))"

text \<open>\<open>GetEntries\<close> returns a nil slice if there is nothing in it.\<close>

definition zk_GetEntries :: "('w, 'acl) zk_client \<Rightarrow> string \<Rightarrow> 'w \<Rightarrow> 'w \<times> string list option \<times> bool \<times> go_error option" where
  "zk_GetEntries c path w =
     (case zk_ChildrenW (zc_Conn c) path w of
        (w1, _, eventc, Some err) \<Rightarrow> (w1, None, eventc, Some err)
      | (w1, znodes, eventc, None) \<Rightarrow>
          (case get_nodes c path znodes w1 of
             (w2, resp) \<Rightarrow> (w2, if resp = [] then None else Some resp, eventc, None)))"

record zk_Service =
  zs_Path :: string
  zs_Name :: string
  zs_Data :: string
  zs_node :: string

definition zk_Register :: "('w, 'acl) zk_client \<Rightarrow> zk_Service \<Rightarrow> 'w \<Rightarrow> 'w \<times> zk_Service \<times> go_error option outcome" where
  "zk_Register c s0 w =
     (if zs_Path s0 = '''' then (w, s0, Panic ''index out of range'')
      else
        let s = (if last (zs_Path s0) \<noteq> CHR ''/'' then s0\<lparr>zs_Path := zs_Path s0 @ ''/''\<rparr> else s0);
            path = zs_Path s @ zs_Name s
        in case CreateParentNodes c path w of
             (w1, Panic p) \<Rightarrow> (w1, s, Panic p)
           | (w1, Ret (Some err)) \<Rightarrow> (w1, s, Ret (Some err))
           | (w1, Ret None) \<Rightarrow>
               (let path1 = (if last path \<noteq> CHR ''/'' then path @ ''/'' else path) in
                case zk_CreateProtectedEphemeralSequential (zc_Conn c) path1 (zs_Data s) (cc_acl (zc_config c)) w1 of
                  (w2, Inl err) \<Rightarrow> (w2, s, Ret (Some err))
                | (w2, Inr node) \<Rightarrow> (w2, s\<lparr>zs_node := node\<rparr>, Ret None)))"

definition zk_Deregister :: "('w, 'acl) zk_client \<Rightarrow> zk_Service \<Rightarrow> 'w \<Rightarrow> 'w \<times> go_error option" where
  "zk_Deregister c s w =
     (if zs_node s = '''' then (w, Some ErrNotRegistered)
      else
        let path = zs_Path s @ zs_Name s in
        case zk_Exists (zc_Conn c) path w of
          (w1, Inl err) \<Rightarrow> (w1, Some err)
        | (w1, Inr (found, version)) \<Rightarrow>
            if \<not> found then (w1, Some ErrNodeNotFound) else zk_Delete (zc_Conn c) path version w1)"

definition zk_Stop :: "('w, 'acl) zk_client \<Rightarrow> 'w \<Rightarrow> 'w \<times> ('w, 'acl) zk_client \<times> unit outcome" where
  "zk_Stop c w =
     (let c1 = c\<lparr>zc_active := False\<rparr> in
      if zc_quit c then (w, c1, Panic ''close of closed channel'')
      else (zk_Close (zc_Conn c) w, c1\<lparr>zc_quit := True\<rparr>, Ret ()))"

subsection \<open>The registrar and the instancer\<close>

definition zk_Registrar_Register :: "('w, 'acl) zk_client \<Rightarrow> zk_Service \<Rightarrow> 'w \<Rightarrow> 'w \<times> zk_Service \<times> unit outcome" where
  "zk_Registrar_Register client service w =
     (case zk_Register client service w of
        (w1, service1, Panic p) \<Rightarrow> (w1, service1, Panic p)
      | (w1, service1, Ret _) \<Rightarrow> (w1, service1, Ret ()))"

definition zk_Registrar_Deregister :: "('w, 'acl) zk_client \<Rightarrow> zk_Service \<Rightarrow> 'w \<Rightarrow> 'w" where
  "zk_Registrar_Deregister client service w = fst (zk_Deregister client service w)"

type_synonym zk_answer = "string list option \<times> bool \<times> go_error option"

definition zk_NewInstancer :: "go_error option \<Rightarrow> zk_answer \<Rightarrow> (bool \<times> go_error evalue) option" where
  "zk_NewInstancer parents a =
     (if parents \<noteq> None then None
      else case a of
        (_, _, Some err) \<Rightarrow> None
      | (instances, eventc, None) \<Rightarrow> Some (eventc, (instances, None)))"

definition zk_loop :: "(bool, zk_answer, go_error) loop_body" where
  "zk_loop _ a =
     (case a of
        (_, eventc, Some err) \<Rightarrow> (eventc, Some (None, Some err))
      | (instances, eventc, None) \<Rightarrow> (eventc, Some (instances, None)))"

abbreviation zk_run :: "(chan list \<Rightarrow> chan list) \<Rightarrow> zk_answer list \<Rightarrow> (bool, go_error) instancer
    \<Rightarrow> (chan \<times> go_error evalue) list \<Rightarrow> bool" where
  "zk_run \<equiv> instancer_run (zk_NewInstancer None) (\<lambda>eventc. eventc) zk_loop"

text \<open>A run goes on only while the channel is there.\<close>

definition zk_rel :: "zk_answer list \<Rightarrow> bool \<Rightarrow> go_error evalue \<Rightarrow> bool" where
  "zk_rel as eventc v \<longleftrightarrow> as \<noteq> [] \<and> (\<forall>a \<in> set (butlast as). fst (snd a)) \<and> eventc = fst (snd (last as))
     \<and> v = (case last as of (_, _, Some err) \<Rightarrow> (None, Some err) | (insts, _, None) \<Rightarrow> sorted_value (insts, None))"

interpretation zk: instancer_loop "zk_NewInstancer None" "\<lambda>eventc. eventc" zk_loop zk_rel
proof unfold_locales
  fix a l event
  assume "zk_NewInstancer None a = Some (l, event)"
  then show "zk_rel [a] l (sorted_value event)"
    by (auto simp: zk_NewInstancer_def zk_rel_def split: prod.splits option.splits)
next
  fix as l v a l' e
  assume r: "zk_rel as l v" and l: l and b: "zk_loop l a = (l', e)"
  from r l have "\<forall>b \<in> set as. fst (snd b)"
    by (metis (no_types, lifting) append_butlast_last_id in_set_conv_decomp rotate1.simps(2) set_ConsD set_rotate1 zk_rel_def)
  with b show "zk_rel (as @ [a]) l' (case e of None \<Rightarrow> v | Some event \<Rightarrow> sorted_value event)"
    by (auto simp: zk_loop_def zk_rel_def split: prod.splits option.splits)
qed

subsection \<open>Creating parents\<close>

text \<open>The path of the node with index \<open>j\<close>, and the call that creates it.\<close>

definition node_path :: "string list \<Rightarrow> nat \<Rightarrow> string" where
  "node_path nodes j = concat (map ((#) CHR ''/'') (take (j + 1) nodes))"

definition create_call :: "('w, 'acl) zk_client \<Rightarrow> string list \<Rightarrow> nat \<Rightarrow> 'w \<Rightarrow> 'w \<times> go_error option" where
  "create_call c nodes j w =
     (let root = cc_rootNodePayload (zc_config c)
      in zk_Create (zc_Conn c) (node_path nodes j) (if j < length root then root ! j else '''') 0 (cc_acl (zc_config c)) w)"

definition tolerated :: "go_error option \<Rightarrow> bool" where
  "tolerated err \<longleftrightarrow> err = None \<or> err = Some zk_ErrNodeExists \<or> err = Some zk_ErrNoAuth"

lemma create_nodes_step:
  assumes "create_call c (ds @ q # nodes) (length ds) w = (w1, err)"
  shows "create_nodes c (length ds + 1) (concat (map ((#) CHR ''/'') ds)) (q # nodes) w
    = (if tolerated err then create_nodes c (length (ds @ [q]) + 1) (concat (map ((#) CHR ''/'') (ds @ [q]))) nodes w1
       else (w1, err))"
proof -
  let ?root = "cc_rootNodePayload (zc_config c)"
  have "(if length ds + 1 \<le> length ?root then ?root ! (length ds + 1 - 1) else []) = (if length ds < length ?root then ?root ! length ds else [])"
    by simp
  moreover have "node_path (ds @ q # nodes) (length ds) = concat (map ((#) CHR ''/'') ds) @ ''/'' @ q"
    by (simp add: node_path_def)
  ultimately have c: "zk_Create (zc_Conn c) (concat (map ((#) CHR ''/'') ds) @ ''/'' @ q)
      (if length ds + 1 \<le> length ?root then ?root ! (length ds + 1 - 1) else []) 0 (cc_acl (zc_config c)) w = (w1, err)"
    using assms unfolding create_call_def Let_def by (simp only:)
  have s: "concat (map ((#) CHR ''/'') (ds @ [q])) = concat (map ((#) CHR ''/'') ds) @ ''/'' @ q"
    "length (ds @ [q]) + 1 = length ds + 1 + 1" by simp_all
  show ?thesis
    unfolding create_nodes.simps Let_def c prod.case s by (simp add: tolerated_def)
qed

text \<open>The world before the call for the node with index \<open>d + j\<close>, if the calls from index \<open>d\<close> on are made one after the other.\<close>

definition before_call :: "('w, 'acl) zk_client \<Rightarrow> string list \<Rightarrow> nat \<Rightarrow> 'w \<Rightarrow> nat \<Rightarrow> 'w" where
  "before_call c nodes d w j = fold (\<lambda>j w. fst (create_call c nodes (d + j) w)) [0..<j] w"

lemma before_call_simps [simp]:
  "before_call c nodes d w 0 = w"
  "before_call c nodes d w (Suc j) = before_call c nodes (Suc d) (fst (create_call c nodes d w)) j"
proof -
  have "[0..<Suc j] = 0 # map Suc [0..<j]" by (simp add: upt_conv_Cons map_Suc_upt del: upt_Suc)
  then show "before_call c nodes d w (Suc j) = before_call c nodes (Suc d) (fst (create_call c nodes d w)) j"
    by (simp add: before_call_def fold_map comp_def del: upt_Suc)
qed (simp add: before_call_def)

definition call_error :: "('w, 'acl) zk_client \<Rightarrow> string list \<Rightarrow> nat \<Rightarrow> 'w \<Rightarrow> nat \<Rightarrow> go_error option" where
  "call_error c nodes d w j = snd (create_call c nodes (d + j) (before_call c nodes d w j))"

lemma call_error_simps [simp]:
  "call_error c nodes d w 0 = snd (create_call c nodes d w)"
  "call_error c nodes d w (Suc j) = call_error c nodes (Suc d) (fst (create_call c nodes d w)) j"
  by (simp_all add: call_error_def)

lemma create_nodes_calls:
  "create_nodes c (length ds + 1) (concat (map ((#) CHR ''/'') ds)) nodes w = (w', r) \<Longrightarrow>
     \<exists>m \<le> length nodes. (\<forall>j < m. tolerated (call_error c (ds @ nodes) (length ds) w j)) \<and>
       (if m = length nodes then w' = before_call c (ds @ nodes) (length ds) w m \<and> r = None
        else \<not> tolerated r \<and> r = call_error c (ds @ nodes) (length ds) w m
          \<and> w' = before_call c (ds @ nodes) (length ds) w (Suc m))"
proof (induction nodes arbitrary: ds w)
  case (Cons q nodes)
  obtain w1 err where 1: "create_call c (ds @ q # nodes) (length ds) w = (w1, err)" by (rule prod.exhaust)
  note c = create_nodes_step [OF 1]
  show ?case
  proof (cases "tolerated err")
    case True
    then have "create_nodes c (length (ds @ [q]) + 1) (concat (map ((#) CHR ''/'') (ds @ [q]))) nodes w1 = (w', r)"
      using Cons.prems by (simp only: c if_True)
    moreover have l: "(ds @ [q]) @ nodes = ds @ q # nodes" "length (ds @ [q]) = Suc (length ds)" by simp_all
    ultimately obtain m where m: "m \<le> length nodes"
      "\<forall>j < m. tolerated (call_error c (ds @ q # nodes) (Suc (length ds)) w1 j)"
      "if m = length nodes then w' = before_call c (ds @ q # nodes) (Suc (length ds)) w1 m \<and> r = None
       else \<not> tolerated r \<and> r = call_error c (ds @ q # nodes) (Suc (length ds)) w1 m
         \<and> w' = before_call c (ds @ q # nodes) (Suc (length ds)) w1 (Suc m)"
      using Cons.IH [of "ds @ [q]" w1] unfolding l by blast
    have "\<forall>j < Suc m. tolerated (call_error c (ds @ q # nodes) (length ds) w j)"
      using m(2) True by (simp add: less_Suc_eq_0_disj 1 all_conj_distrib) (auto simp: less_Suc_eq_0_disj 1)
    with m(1,3) show ?thesis
      by (intro exI [of _ "Suc m"]) (auto simp: 1 split: if_splits)
  next
    case False
    then have "w' = w1" "r = err" using Cons.prems by (simp_all only: c if_False prod.inject)
    with False 1 show ?thesis by (intro exI [of _ 0]) simp
  qed
qed simp

lemma concat_slash: "nodes \<noteq> [] \<Longrightarrow> concat (map ((#) CHR ''/'') nodes) = ''/'' @ strings_Join nodes ''/''"
  by (induction nodes "''/''" rule: strings_Join.induct) auto

subsection \<open>Events of the connection\<close>

lemma apply_options_append:
  "apply_options (xs @ ys) c = (case apply_options xs c of Inl err \<Rightarrow> Inl err | Inr c1 \<Rightarrow> apply_options ys c1)"
  by (induction xs arbitrary: c) (auto split: sum.splits)

lemma zk_event_loop_quit:
  "zk_event_loop c (map Some evs @ None # later) w = fold (cc_eventHandler (zc_config c)) evs w"
  by (induction evs arbitrary: w) simp_all

subsection \<open>Properties\<close>

text \<open>C24: \<open>CreateParentNodes\<close> creates the ancestors of a path from the root down, and the path itself last,
  each with its payload: it makes the calls as long as each succeeds or fails because the node exists or the rights are
  missing, and then returns no error; the first call with another error is the last one, and its
  error is returned.\<close>

theorem CreateParentNodes_correct:
  assumes "zc_active c" and "nodes = strings_Split path CHR ''/''"
  shows "(\<exists>m \<le> length nodes. (\<forall>j < m. tolerated (call_error c nodes 0 w j)) \<and>
       (if m = length nodes then CreateParentNodes c (''/'' @ path) w = (before_call c nodes 0 w m, Ret None)
        else \<not> tolerated (call_error c nodes 0 w m)
          \<and> CreateParentNodes c (''/'' @ path) w = (before_call c nodes 0 w (Suc m), Ret (call_error c nodes 0 w m))))
    \<and> node_path nodes 0 = ''/'' @ hd nodes \<and> node_path nodes (length nodes - 1) = ''/'' @ path
    \<and> (\<forall>j. Suc j < length nodes \<longrightarrow> node_path nodes (Suc j) = node_path nodes j @ ''/'' @ nodes ! Suc j)"
proof -
  have n: "nodes \<noteq> []" using assms(2) by simp
  have t: "tl (strings_Split (''/'' @ path) CHR ''/'') = nodes" using assms(2) by simp
  obtain w' err where r: "create_nodes c (length [] + 1) (concat (map ((#) CHR ''/'') [])) nodes w = (w', err)"
    by (rule prod.exhaust)
  from create_nodes_calls [of c "[]" nodes w w' err] r obtain m where m: "m \<le> length nodes" "\<forall>j < m. tolerated (call_error c nodes 0 w j)"
    "if m = length nodes then w' = before_call c nodes 0 w m \<and> err = None
     else \<not> tolerated err \<and> err = call_error c nodes 0 w m \<and> w' = before_call c nodes 0 w (Suc m)"
    unfolding append_Nil list.size by blast
  have "CreateParentNodes c (''/'' @ path) w = (w', Ret err)"
    using r t assms(1) by (simp add: CreateParentNodes_def)
  with m have "\<exists>m \<le> length nodes. (\<forall>j < m. tolerated (call_error c nodes 0 w j)) \<and>
       (if m = length nodes then CreateParentNodes c (''/'' @ path) w = (before_call c nodes 0 w m, Ret None)
        else \<not> tolerated (call_error c nodes 0 w m)
          \<and> CreateParentNodes c (''/'' @ path) w = (before_call c nodes 0 w (Suc m), Ret (call_error c nodes 0 w m)))"
    by (intro exI [of _ m]) (auto split: if_splits simp del: before_call_simps(2))
  moreover have "node_path nodes (length nodes - 1) = ''/'' @ path"
    using n concat_slash [OF n] assms(2) strings_Join_Split [of path "CHR ''/''"] by (simp add: node_path_def)
  moreover have "node_path nodes 0 = ''/'' @ hd nodes"
    using n by (cases nodes) (simp_all add: node_path_def)
  moreover have "\<forall>j. Suc j < length nodes \<longrightarrow> node_path nodes (Suc j) = node_path nodes j @ ''/'' @ nodes ! Suc j"
    by (simp add: node_path_def take_Suc_conv_app_nth)
  ultimately show ?thesis by blast
qed

text \<open>A ZooKeeper in memory: the paths of its nodes, the last created first.\<close>

definition tree_conn :: "(string list, nat) zk_conn" where
  "tree_conn = \<lparr>
     zk_Create = (\<lambda>p d flags acl w. if p \<in> set w then (w, Some zk_ErrNodeExists) else (p # w, None)),
     zk_ChildrenW = (\<lambda>p w. if p \<in> set w then (w, map (drop (length p + 1)) (filter (\<lambda>q. HasPrefix q (p @ ''/'')) w), True, None)
                            else (w, [], False, Some (ForeignError 5))),
     zk_Get = (\<lambda>p w. (w, if p \<in> set w then Inr p else Inl (ForeignError 5))),
     zk_CreateProtectedEphemeralSequential = (\<lambda>p d acl w. ((p @ ''n1'') # w, Inr (p @ ''n1''))),
     zk_Exists = (\<lambda>p w. (w, Inr (p \<in> set w, 0))),
     zk_Delete = (\<lambda>p v w. if list_ex (\<lambda>q. HasPrefix q (p @ ''/'')) w then (w, Some zk_ErrNotEmpty) else (removeAll p w, None)),
     zk_Close = (\<lambda>w. w)\<rparr>"

definition tree_client :: "(string list, nat) zk_client" where
  "tree_client = \<lparr>zc_Conn = tree_conn,
     zc_config = \<lparr>cc_acl = [], cc_credentials = [], cc_connectTimeout = Second, cc_sessionTimeout = Second, cc_rootNodePayload = [''r''], cc_eventHandler = \<lambda>event w. w\<rparr>,
     zc_active = True, zc_quit = False\<rparr>"

theorem CreateParentNodes_correct_witness:
  "CreateParentNodes tree_client ''/a/b'' [''/a''] = ([''/a/b'', ''/a''], Ret None)"
proof -
  have n: "strings_Split ''a/b'' CHR ''/'' = [''a'', ''b'']" by simp
  have c: "create_call tree_client [''a'', ''b''] 0 [''/a''] = ([''/a''], Some zk_ErrNodeExists)"
    "create_call tree_client [''a'', ''b''] 1 [''/a''] = ([''/a/b'', ''/a''], None)"
    by (simp_all add: create_call_def node_path_def tree_client_def tree_conn_def)
  have "zc_active tree_client" by (simp add: tree_client_def)
  note t = conjunct1 [OF CreateParentNodes_correct [OF this n [symmetric], of "[''/a'']"]]
  have tol: "tolerated (call_error tree_client [''a'', ''b''] 0 [''/a''] j)" if "j < 2" for j
    using that c by (auto simp: less_2_cases_iff tolerated_def)
  have w: "before_call tree_client [''a'', ''b''] 0 [''/a''] 2 = [''/a/b'', ''/a'']" using c by (simp add: numeral_2_eq_2)
  have l: "length [''a'', ''b''] = 2" by simp
  from t obtain m where m: "m \<le> 2" "m = 2 \<or> \<not> tolerated (call_error tree_client [''a'', ''b''] 0 [''/a''] m)"
    "m = 2 \<longrightarrow> CreateParentNodes tree_client (''/'' @ ''a/b'') [''/a''] = (before_call tree_client [''a'', ''b''] 0 [''/a''] m, Ret None)"
    unfolding l by metis
  then have "m = 2" using tol [of m] by (cases "m = 2") auto
  with m(3) w show ?thesis by simp
qed

text \<open>C23: A service that was registered cannot be deregistered: \<open>Deregister\<close> deletes the parent under which
  \<open>Register\<close> made the node, and not the node. Given that the node that the library makes lies below the path
  it was asked for, and that ZooKeeper refuses to delete a node with children, \<open>Deregister\<close> always fails and
  the node stays.\<close>

theorem zk_deregister_leaves_node:
  assumes "zk_Register c s w = (w1, s1, Ret None)"
    and "\<And>p data acl w w' node. zk_CreateProtectedEphemeralSequential (zc_Conn c) (p @ ''/'') data acl w = (w', Inr node)
      \<Longrightarrow> node \<in> tree w' \<and> (\<exists>name. node = p @ ''/'' @ name \<and> name \<noteq> [])"
    and "\<And>p w. fst (zk_Exists (zc_Conn c) p w) = w"
    and "\<And>p q v w. p @ ''/'' @ q \<in> tree w \<Longrightarrow> zk_Delete (zc_Conn c) p v w = (w, Some zk_ErrNotEmpty)"
    and "zs_Name s \<noteq> ''''" and "last (zs_Name s) \<noteq> CHR ''/''"
  shows "zs_node s1 \<in> tree w1 \<and> (\<exists>err. zk_Deregister c s1 w1 = (w1, Some err))"
proof -
  let ?s = "if last (zs_Path s) \<noteq> CHR ''/'' then s\<lparr>zs_Path := zs_Path s @ ''/''\<rparr> else s"
  let ?path = "zs_Path ?s @ zs_Name s"
  have l: "last ?path \<noteq> CHR ''/''" using assms(5,6) by simp
  from assms(1) l obtain w0 node where n: "zk_CreateProtectedEphemeralSequential (zc_Conn c) (?path @ ''/'') (zs_Data ?s) (cc_acl (zc_config c)) w0 = (w1, Inr node)"
    and s1: "s1 = ?s\<lparr>zs_node := node\<rparr>"
    by (auto simp: zk_Register_def Let_def split: if_splits prod.splits outcome.splits option.splits sum.splits)
  from assms(2) [OF n] obtain name where t: "node \<in> tree w1" "node = ?path @ ''/'' @ name" by auto
  have p: "zs_Path s1 @ zs_Name s1 = ?path" "zs_node s1 = node" by (simp_all add: s1)
  have "zk_Delete (zc_Conn c) ?path v w1 = (w1, Some zk_ErrNotEmpty)" for v
    using assms(4) t by blast
  moreover obtain r where "zk_Exists (zc_Conn c) ?path w1 = (w1, r)"
    using assms(3) by (metis prod.collapse)
  ultimately have "\<exists>err. zk_Deregister c s1 w1 = (w1, Some err)"
    using t(2) unfolding zk_Deregister_def p Let_def by (cases r) auto
  with t(1) p(2) show ?thesis by simp
qed

theorem zk_deregister_leaves_node_witness:
  "case zk_Register tree_client \<lparr>zs_Path = ''/org'', zs_Name = ''svc'', zs_Data = ''d'', zs_node = ''''\<rparr> [] of
     (w1, s1, r) \<Rightarrow> r = Ret None \<and> zs_node s1 = ''/org/svc/n1'' \<and> zs_node s1 \<in> set w1
       \<and> (\<exists>err. zk_Deregister tree_client s1 w1 = (w1, Some err))"
proof -
  let ?s = "\<lparr>zs_Path = ''/org'', zs_Name = ''svc'', zs_Data = ''d'', zs_node = ''''\<rparr>"
  let ?s1 = "\<lparr>zs_Path = ''/org/'', zs_Name = ''svc'', zs_Data = ''d'', zs_node = ''/org/svc/n1''\<rparr>"
  have r: "zk_Register tree_client ?s [] = ([''/org/svc/n1'', ''/org/svc'', ''/org''], ?s1, Ret None)"
    by (simp add: zk_Register_def CreateParentNodes_def tree_client_def tree_conn_def Let_def)
  have "zs_node ?s1 \<in> set [''/org/svc/n1'', ''/org/svc'', ''/org'']
      \<and> (\<exists>err. zk_Deregister tree_client ?s1 [''/org/svc/n1'', ''/org/svc'', ''/org''] = ([''/org/svc/n1'', ''/org/svc'', ''/org''], Some err))"
    by (rule zk_deregister_leaves_node [OF r])
      (auto simp: tree_client_def tree_conn_def list_ex_iff HasPrefix_def, metis append.assoc append_Cons append_Nil append_eq_conv_conj length_append_singleton)
  then show ?thesis by (simp add: r)
qed

text \<open>C22: One failure ends an instancer of ZooKeeper: given that the library returns a nil channel with an error,
  a failing query is the last one of any run, and the instancer publishes its error for ever, while
  before that it publishes what the last query found.\<close>

theorem zk_instancer_deaf:
  assumes "zk_run order as s sent" and "iterates order"
    and "\<And>a. a \<in> set as \<Longrightarrow> \<exists>w. a = snd (zk_GetEntries c path w)"
    and "\<And>p w. snd (snd (snd (zk_ChildrenW (zc_Conn c) p w))) \<noteq> None \<Longrightarrow> \<not> fst (snd (snd (zk_ChildrenW (zc_Conn c) p w)))"
  shows "(\<forall>a \<in> set (butlast as). snd (snd a) = None)
    \<and> source_value (in_source s)
      = (case last as of (insts, _, None) \<Rightarrow> sorted_value (insts, None) | (_, _, Some e) \<Rightarrow> (None, Some e))"
proof -
  have r: "zk_rel as (in_vars s) (source_value (in_source s))" using zk.run_value [OF assms(1,2)] .
  have "snd (snd a) = None" if "a \<in> set (butlast as)" for a
  proof -
    from that r have "fst (snd a)" by (simp add: zk_rel_def)
    moreover from assms(3) [OF in_set_butlastD [OF that]] obtain w where "a = snd (zk_GetEntries c path w)" by blast
    ultimately show ?thesis
      using assms(4) [of path w] by (auto simp: zk_GetEntries_def split: prod.splits option.splits)
  qed
  then show ?thesis
    using r by (auto simp: zk_rel_def split: option.splits)
qed

theorem zk_instancer_deaf_witness:
  "\<exists>s sent. zk_run (\<lambda>xs. xs) [snd (zk_GetEntries tree_client ''/a'' [''/a/x'', ''/a'']), snd (zk_GetEntries tree_client ''/a'' [])] s sent
    \<and> source_value (in_source s) = (None, Some (ForeignError 5))"
proof -
  let ?a = "snd (zk_GetEntries tree_client ''/a'' [''/a/x'', ''/a''])" and ?b = "snd (zk_GetEntries tree_client ''/a'' [])"
  have ab: "?a = (Some [''/a/x''], True, None)" "?b = (None, False, Some (ForeignError 5))"
    by (simp_all add: zk_GetEntries_def tree_client_def tree_conn_def HasPrefix_def)
  obtain s out where p: "loop_pass zk_loop ?b (new_instancer (\<lambda>xs. xs) True (Some [''/a/x''], None)) = (s, out)"
    by (rule prod.exhaust)
  have "zk_run (\<lambda>xs. xs) [?a] (new_instancer (\<lambda>xs. xs) True (Some [''/a/x''], None)) []"
    by (rule run_start) (simp add: zk_NewInstancer_def ab(1))
  from run_pass [OF this _ _ p] have r: "zk_run (\<lambda>xs. xs) [?a, ?b] s out"
    by (simp add: new_instancer_def)
  have c: "\<exists>w. a = snd (zk_GetEntries tree_client ''/a'' w)" if "a \<in> set [?a, ?b]" for a
    using that by auto
  have d: "\<not> fst (snd (snd (zk_ChildrenW (zc_Conn tree_client) p w)))" if "snd (snd (snd (zk_ChildrenW (zc_Conn tree_client) p w))) \<noteq> None" for p w
    using that by (auto simp: tree_client_def tree_conn_def split: if_splits)
  from zk_instancer_deaf [OF r iterates_id c d] r show ?thesis
    by (auto simp: ab(2))
qed

text \<open>A client made with an event handler as its last option gives every event of the connection to it, in order, until it is
  stopped.\<close>

theorem zk_events_handled:
  assumes "zk_NewClient DefaultACL Connect AddAuth servers (opts @ [EventHandler h]) w = (w1, Inr c)"
  shows "zk_event_loop c (map Some evs @ None # later) w2 = fold h evs w2"
proof -
  have "cc_eventHandler (zc_config c) = h"
    using assms by (auto simp: zk_NewClient_def apply_options_append EventHandler_def Let_def split: sum.splits prod.splits if_splits option.splits)
  then show ?thesis by (simp add: zk_event_loop_quit)
qed

theorem zk_events_handled_witness:
  "\<exists>c. zk_NewClient [] (\<lambda>servers st ct w. (w, Inr zk)) (\<lambda>scheme auth w. (w, None)) [''zk:2181''] [SessionTimeout (9 * Second), EventHandler (#)] []
      = ([], Inr c)
    \<and> zk_event_loop c (map Some [e1, e2] @ None # []) [] = [e2, e1]"
proof -
  obtain c where c: "zk_NewClient [] (\<lambda>servers st ct w. (w, Inr zk)) (\<lambda>scheme auth w. (w, None)) [''zk:2181''] ([SessionTimeout (9 * Second)] @ [EventHandler (#)]) []
      = ([], Inr c)"
    by (simp add: zk_NewClient_def SessionTimeout_def EventHandler_def Second_def)
  from zk_events_handled [OF c, of "[e1, e2]" "[]" "[]"] c show ?thesis by simp
qed

end
