(* ===== verification/Etcd.thy ===== *)
theory Etcd
  imports Dns_Srv Conn_Manager
begin

text \<open>
  Package sd/etcd, and of package sd/etcdv3 the options, which are the same. An instancer watches a prefix: a
  goroutine runs \<open>WatchPrefix\<close> and signals every event on an unbuffered channel, and the loop then asks
  for the entries, which it publishes. How the two goroutines interleave is in theory Registry, for sd/etcdv3.

  The registrar of sd/etcd with a TTL runs a goroutine per call of \<open>Register\<close> that refreshes the key. The
  relation \<open>reg_step\<close> interleaves these goroutines with the callers of \<open>Register\<close> and \<open>Deregister\<close>: the
  mutex and the field \<open>quit\<close> are shared, and a select evaluates \<open>r.quit\<close> when it is entered.
\<close>

subsection \<open>Services and the client\<close>

record TTLOption =
  heartbeat :: int
  ttl :: int

definition minHeartBeatTime :: int where "minHeartBeatTime = 500 * 1000000"

text \<open>Durations are 64-bit integers.\<close>

definition NewTTLOption :: "int \<Rightarrow> int \<Rightarrow> TTLOption" where
  "NewTTLOption heartbeat0 ttl0 =
     (let heartbeat1 = (if heartbeat0 \<le> minHeartBeatTime then minHeartBeatTime else heartbeat0);
          ttl1 = (if ttl0 \<le> heartbeat1 then wrap_int64 (3 * heartbeat1) else ttl0)
      in \<lparr>heartbeat = heartbeat1, ttl = ttl1\<rparr>)"

record 'd etcd_Service =
  es_Key :: string
  es_Value :: string
  es_TTL :: "TTLOption option"
  es_DeleteOptions :: 'd

definition ErrNoKey :: go_error where "ErrNoKey = ErrorText ''no key provided''"
definition ErrNoValue :: go_error where "ErrNoValue = ErrorText ''no value provided''"

text \<open>The keys API of the library: \<open>Set\<close> gets the time to live, \<open>Get\<close> is recursive.\<close>

datatype etcd_node = EtcdNode (node_Value: string) (node_Nodes: "etcd_node list")

record ('w, 'd) etcd_keys =
  keys_Get :: "string \<Rightarrow> 'w \<Rightarrow> go_error + etcd_node"
  keys_Set :: "string \<Rightarrow> string \<Rightarrow> int \<Rightarrow> 'w \<Rightarrow> 'w \<times> go_error option"
  keys_Create :: "string \<Rightarrow> string \<Rightarrow> 'w \<Rightarrow> 'w \<times> go_error option"
  keys_Delete :: "string \<Rightarrow> 'd \<Rightarrow> 'w \<Rightarrow> 'w \<times> go_error option"

text \<open>\<open>NewClient\<close>: the functions of crypto/tls, os and the library are arguments; a transport is that of the library
  or one with a certificate, the bytes of a CA and the options.\<close>

record etcd_options =
  eto_Cert :: string
  eto_Key :: string
  eto_CACert :: string
  eto_DialTimeout :: int
  eto_DialKeepAlive :: int
  eto_HeaderTimeoutPerRequest :: int

datatype 'cert etcd_transport = DefaultTransport | TLSTransport 'cert string int int

definition etcd_NewClient :: "(string \<Rightarrow> string \<Rightarrow> go_error + 'cert) \<Rightarrow> (string \<Rightarrow> go_error + string)
    \<Rightarrow> (string list \<Rightarrow> 'cert etcd_transport \<Rightarrow> int \<Rightarrow> go_error + ('w, 'd) etcd_keys) \<Rightarrow> string list \<Rightarrow> etcd_options
    \<Rightarrow> go_error + ('w, 'd) etcd_keys" where
  "etcd_NewClient LoadX509KeyPair ReadFile New machines o0 =
     (let o1 = (if eto_DialTimeout o0 = 0 then o0\<lparr>eto_DialTimeout := 3 * Second\<rparr> else o0);
          o2 = (if eto_DialKeepAlive o1 = 0 then o1\<lparr>eto_DialKeepAlive := 3 * Second\<rparr> else o1);
          o3 = (if eto_HeaderTimeoutPerRequest o2 = 0 then o2\<lparr>eto_HeaderTimeoutPerRequest := 3 * Second\<rparr> else o2);
          transport =
            (if eto_Cert o3 \<noteq> '''' \<and> eto_Key o3 \<noteq> '''' then
               (case LoadX509KeyPair (eto_Cert o3) (eto_Key o3) of
                  Inl err \<Rightarrow> Inl err
                | Inr tlsCert \<Rightarrow>
                    (case ReadFile (eto_CACert o3) of
                       Inl err \<Rightarrow> Inl err
                     | Inr caCertCt \<Rightarrow> Inr (TLSTransport tlsCert caCertCt (eto_DialTimeout o3) (eto_DialKeepAlive o3))))
             else Inr DefaultTransport)
      in case transport of
           Inl err \<Rightarrow> Inl err
         | Inr t \<Rightarrow> New machines t (eto_HeaderTimeoutPerRequest o3))"

definition etcd_GetEntries :: "('w, 'd) etcd_keys \<Rightarrow> string \<Rightarrow> 'w \<Rightarrow> go_error + string list" where
  "etcd_GetEntries c key w =
     (case keys_Get c key w of
        Inl err \<Rightarrow> Inl err
      | Inr node \<Rightarrow>
          if length (node_Nodes node) = 0 \<and> node_Value node \<noteq> '''' then Inr [node_Value node]
          else Inr (map node_Value (node_Nodes node)))"

definition etcd_Register :: "('w, 'd) etcd_keys \<Rightarrow> 'd etcd_Service \<Rightarrow> 'w \<Rightarrow> 'w \<times> go_error option" where
  "etcd_Register c s w =
     (if es_Key s = '''' then (w, Some ErrNoKey)
      else if es_Value s = '''' then (w, Some ErrNoValue)
      else case es_TTL s of
             Some t \<Rightarrow> keys_Set c (es_Key s) (es_Value s) (ttl t) w
           | None \<Rightarrow> keys_Create c (es_Key s) (es_Value s) w)"

definition etcd_Deregister :: "('w, 'd) etcd_keys \<Rightarrow> 'd etcd_Service \<Rightarrow> 'w \<Rightarrow> 'w \<times> go_error option" where
  "etcd_Deregister c s w =
     (if es_Key s = '''' then (w, Some ErrNoKey) else keys_Delete c (es_Key s) (es_DeleteOptions s) w)"

subsection \<open>The instancer and its watch\<close>

definition etcd_NewInstancer :: "go_error + string list \<Rightarrow> (unit \<times> go_error evalue) option" where
  "etcd_NewInstancer entries = Some ((), event_of entries)"

definition etcd_loop :: "(unit, go_error + string list, go_error) loop_body" where
  "etcd_loop _ entries =
     (case entries of
        Inl err \<Rightarrow> ((), Some (None, Some err))
      | Inr instances \<Rightarrow> ((), Some (Some instances, None)))"

text \<open>Where \<open>WatchPrefix\<close> is: before the start of its watch, sending a signal, waiting for the next event, or returned.\<close>

datatype watch = WatchStarting | Signalling | Watching | WatchEnded

text \<open>What it does with the result of \<open>Next\<close>; in sd/etcdv3, with a response of the channel or its closing.\<close>

definition etcd_watch_next :: "go_error option \<Rightarrow> watch" where
  "etcd_watch_next err = (if err \<noteq> None then WatchEnded else Signalling)"

definition etcd3_watch_next :: "bool option \<Rightarrow> watch" where
  "etcd3_watch_next wr =
     (case wr of None \<Rightarrow> WatchEnded | Some Canceled \<Rightarrow> if Canceled then WatchEnded else Signalling)"

interpretation etcd: instancer_loop etcd_NewInstancer "\<lambda>_. True" etcd_loop
  "\<lambda>as l v. as \<noteq> [] \<and> v = sorted_value (event_of (last as))"
  by unfold_locales (auto simp: etcd_NewInstancer_def etcd_loop_def split: sum.splits)

subsection \<open>The registrar\<close>

datatype reg_call = CallRegister | CallDeregister

text \<open>A goroutine that runs \<open>loop\<close>: before the lock, before a select, blocked in it, or returned.\<close>

datatype reg_loop = LoopStarting | LoopEntering | LoopSelecting "nat option" | LoopReturned

record registrar =
  rg_locked :: bool
  rg_quit :: "nat option"
  rg_closed :: "nat set"
  rg_next :: nat
  rg_loops :: "reg_loop list"
  rg_waiting :: nat
  rg_returned :: nat
  rg_calls :: "reg_call list"

definition etcd_NewRegistrar :: registrar where
  "etcd_NewRegistrar = \<lparr>rg_locked = False, rg_quit = None, rg_closed = {}, rg_next = 0, rg_loops = [],
     rg_waiting = 0, rg_returned = 0, rg_calls = []\<rparr>"

text \<open>\<open>Register\<close> of a service with a TTL.\<close>

definition etcd_Registrar_Register :: "registrar \<Rightarrow> registrar" where
  "etcd_Registrar_Register r = r\<lparr>rg_calls := rg_calls r @ [CallRegister], rg_loops := rg_loops r @ [LoopStarting]\<rparr>"

text \<open>The start of \<open>loop\<close>, once it has the lock: the first return leaves without unlocking.\<close>

definition reg_loop_start :: "nat \<Rightarrow> registrar \<Rightarrow> registrar" where
  "reg_loop_start i r =
     (let r1 = r\<lparr>rg_locked := True\<rparr> in
      if rg_quit r1 \<noteq> None then r1\<lparr>rg_loops := (rg_loops r1)[i := LoopReturned]\<rparr>
      else
        let r2 = r1\<lparr>rg_quit := Some (rg_next r1), rg_next := rg_next r1 + 1\<rparr>
        in r2\<lparr>rg_locked := False, rg_loops := (rg_loops r2)[i := LoopEntering]\<rparr>)"

definition reg_loop_select :: "nat \<Rightarrow> registrar \<Rightarrow> registrar" where
  "reg_loop_select i r = r\<lparr>rg_loops := (rg_loops r)[i := LoopSelecting (rg_quit r)]\<rparr>"

definition reg_loop_tick :: "nat \<Rightarrow> registrar \<Rightarrow> registrar" where
  "reg_loop_tick i r = r\<lparr>rg_calls := rg_calls r @ [CallRegister], rg_loops := (rg_loops r)[i := LoopEntering]\<rparr>"

definition reg_loop_quit :: "nat \<Rightarrow> registrar \<Rightarrow> registrar" where
  "reg_loop_quit i r = r\<lparr>rg_loops := (rg_loops r)[i := LoopReturned]\<rparr>"

text \<open>\<open>Deregister\<close> up to the lock, and from the lock on.\<close>

definition etcd_Registrar_Deregister :: "registrar \<Rightarrow> registrar" where
  "etcd_Registrar_Deregister r = r\<lparr>rg_calls := rg_calls r @ [CallDeregister], rg_waiting := rg_waiting r + 1\<rparr>"

definition reg_deregister_locked :: "registrar \<Rightarrow> registrar" where
  "reg_deregister_locked r =
     (let r1 = (case rg_quit r of None \<Rightarrow> r | Some c \<Rightarrow> r\<lparr>rg_closed := insert c (rg_closed r), rg_quit := None\<rparr>)
      in r1\<lparr>rg_waiting := rg_waiting r1 - 1, rg_returned := rg_returned r1 + 1\<rparr>)"

text \<open>The steps of the callers and those of the goroutines.\<close>

inductive reg_caller :: "registrar \<Rightarrow> registrar \<Rightarrow> bool" where
  caller_register: "reg_caller r (etcd_Registrar_Register r)"
| caller_deregister: "reg_caller r (etcd_Registrar_Deregister r)"

inductive reg_goroutine :: "registrar \<Rightarrow> registrar \<Rightarrow> bool" where
  go_start: "i < length (rg_loops r) \<Longrightarrow> rg_loops r ! i = LoopStarting \<Longrightarrow> \<not> rg_locked r
    \<Longrightarrow> reg_goroutine r (reg_loop_start i r)"
| go_select: "i < length (rg_loops r) \<Longrightarrow> rg_loops r ! i = LoopEntering \<Longrightarrow> reg_goroutine r (reg_loop_select i r)"
| go_tick: "i < length (rg_loops r) \<Longrightarrow> rg_loops r ! i = LoopSelecting q \<Longrightarrow> reg_goroutine r (reg_loop_tick i r)"
| go_quit: "i < length (rg_loops r) \<Longrightarrow> rg_loops r ! i = LoopSelecting (Some c) \<Longrightarrow> c \<in> rg_closed r
    \<Longrightarrow> reg_goroutine r (reg_loop_quit i r)"
| go_deregister: "0 < rg_waiting r \<Longrightarrow> \<not> rg_locked r \<Longrightarrow> reg_goroutine r (reg_deregister_locked r)"

definition reg_step :: "registrar \<Rightarrow> registrar \<Rightarrow> bool" where
  "reg_step r r' \<longleftrightarrow> reg_caller r r' \<or> reg_goroutine r r'"

subsection \<open>Facts about instancers\<close>

lemma loop_pass_etcd:
  assumes "in_step i sent" and "loop_pass etcd_loop entries i = (i', out)"
  shows "in_step i' (sent @ out) \<and> source_value (in_source i') = sorted_value (event_of entries)"
proof -
  obtain src out' where p: "source_publish (event_of entries) (in_source i) = (src, out')"
    by (rule prod.exhaust)
  have b: "etcd_loop v entries = ((), Some (event_of entries))" for v
    by (simp add: etcd_loop_def split: sum.splits)
  have i': "i' = i\<lparr>in_vars := (), in_source := src\<rparr>" "out' = out"
    using assms(2) by (simp_all add: loop_pass_def b p)
  have "source_inv (in_source i)" using assms(1) by (simp add: in_step_def)
  from source_publish_law [OF this p] have "source_value src = sorted_value (event_of entries)" by blast
  moreover from in_step_op [OF assms(1), of "Publish (event_of entries)"] p
  have "in_step (i\<lparr>in_source := src\<rparr>) (sent @ out)" by (simp add: i')
  ultimately show ?thesis by (simp add: i' in_step_def)
qed

lemma Instancer_Register_step:
  assumes "in_step i sent" and "Instancer_Register ch i = (i', out)"
  shows "in_step i' (sent @ out) \<and> source_value (in_source i') = source_value (in_source i)"
proof -
  obtain src out' where p: "source_listen ch (in_source i) = (src, out')" by (rule prod.exhaust)
  have i': "i' = i\<lparr>in_source := src\<rparr>" "out' = out" using assms(2) by (simp_all add: Instancer_Register_def p)
  have "source_inv (in_source i)" using assms(1) by (simp add: in_step_def)
  from source_listen_law [OF this p] in_step_op [OF assms(1), of "Listen ch"] p
  show ?thesis by (simp add: i')
qed

subsection \<open>Facts about the registrar\<close>

lemma reg_step_locked: "reg_step r r' \<Longrightarrow> rg_locked r \<Longrightarrow> rg_locked r' \<and> rg_returned r' = rg_returned r"
  by (auto simp: reg_step_def reg_loop_select_def reg_loop_tick_def reg_loop_quit_def
      etcd_Registrar_Register_def etcd_Registrar_Deregister_def elim!: reg_caller.cases reg_goroutine.cases)

lemma reg_steps_locked: "reg_step\<^sup>*\<^sup>* r r' \<Longrightarrow> rg_locked r \<Longrightarrow> rg_locked r' \<and> rg_returned r' = rg_returned r"
  by (induction rule: rtranclp_induct) (auto dest: reg_step_locked)

text \<open>
  A goroutine \<open>i\<close> that has been started while \<open>quit\<close> is set. As long as no further call of \<open>Deregister\<close> has returned
  the field stays set, so the goroutine can only leave its start with the mutex held.
\<close>

definition second_loop :: "nat \<Rightarrow> nat \<Rightarrow> registrar \<Rightarrow> bool" where
  "second_loop i n r \<longleftrightarrow> i < length (rg_loops r) \<and> n \<le> rg_returned r
     \<and> (rg_returned r = n \<longrightarrow> rg_quit r \<noteq> None \<and> (rg_loops r ! i = LoopStarting \<or> rg_locked r))"

lemma second_loop_step:
  assumes "reg_step r r'" and "second_loop i n r"
  shows "second_loop i n r'"
  using assms(1) unfolding reg_step_def
proof
  assume "reg_caller r r'"
  then show ?thesis using assms(2)
    by cases (auto simp: second_loop_def etcd_Registrar_Register_def etcd_Registrar_Deregister_def nth_append)
next
  assume "reg_goroutine r r'"
  then show ?thesis
  proof cases
    case (go_deregister)
    then have "rg_returned r' = rg_returned r + 1" "rg_loops r' = rg_loops r"
      by (auto simp: reg_deregister_locked_def split: option.splits)
    with assms(2) show ?thesis by (auto simp: second_loop_def)
  qed (use assms(2) in \<open>auto simp: second_loop_def reg_loop_start_def reg_loop_select_def reg_loop_tick_def reg_loop_quit_def
      nth_list_update Let_def split: if_splits\<close>)
qed

lemma second_loop_steps: "reg_step\<^sup>*\<^sup>* r r' \<Longrightarrow> second_loop i n r \<Longrightarrow> second_loop i n r'"
  by (induction rule: rtranclp_induct) (blast intro: second_loop_step)+

lemma two_rounds:
  "reg_caller a b \<Longrightarrow> reg_goroutine b c \<Longrightarrow> reg_caller c d \<Longrightarrow> reg_goroutine d e \<Longrightarrow> reg_step\<^sup>*\<^sup>* a e"
proof -
  assume "reg_caller a b" "reg_goroutine b c" "reg_caller c d" "reg_goroutine d e"
  then have "reg_step a b" "reg_step b c" "reg_step c d" "reg_step d e" by (simp_all add: reg_step_def)
  then show ?thesis by (meson converse_rtranclp_into_rtranclp r_into_rtranclp)
qed

text \<open>A goroutine that no channel can stop: the field is nil and nobody waits to deregister.\<close>

definition unstoppable :: "registrar \<Rightarrow> bool" where
  "unstoppable r \<longleftrightarrow> rg_quit r = None \<and> rg_waiting r = 0 \<and> (rg_loops r = [LoopEntering] \<or> rg_loops r = [LoopSelecting None])"

lemma unstoppable_step: "reg_goroutine r r' \<Longrightarrow> unstoppable r \<Longrightarrow> unstoppable r'"
  by (erule reg_goroutine.cases)
    (auto simp: unstoppable_def reg_loop_select_def reg_loop_tick_def)

lemma unstoppable_steps: "reg_goroutine\<^sup>*\<^sup>* r r' \<Longrightarrow> unstoppable r \<Longrightarrow> unstoppable r'"
  by (induction rule: rtranclp_induct) (auto dest: unstoppable_step)

lemma unstoppable_heartbeat:
  assumes "unstoppable r"
  shows "\<exists>r'. reg_goroutine\<^sup>*\<^sup>* r r' \<and> rg_calls r' = rg_calls r @ [CallRegister]"
proof -
  have tick: "\<exists>r'. reg_goroutine r r' \<and> rg_calls r' = rg_calls r @ [CallRegister]" if "rg_loops r = [LoopSelecting None]" for r
    using go_tick [of 0 r None] that by (auto simp: reg_loop_tick_def)
  show ?thesis
  proof (cases "rg_loops r = [LoopSelecting None]")
    case True
    with tick show ?thesis by blast
  next
    case False
    with assms have l: "rg_loops r = [LoopEntering]" "rg_quit r = None" by (auto simp: unstoppable_def)
    then have "reg_goroutine r (reg_loop_select 0 r)" by (simp add: go_select)
    moreover have "rg_loops (reg_loop_select 0 r) = [LoopSelecting None]" "rg_calls (reg_loop_select 0 r) = rg_calls r"
      using l by (simp_all add: reg_loop_select_def)
    ultimately show ?thesis using tick [of "reg_loop_select 0 r"] by (metis converse_rtranclp_into_rtranclp r_into_rtranclp)
  qed
qed

lemma wrap_int64_over: "2 ^ 63 \<le> x \<Longrightarrow> x < 2 ^ 64 + 2 ^ 63 \<Longrightarrow> wrap_int64 x = x - 2 ^ 64"
  by (simp add: wrap_int64_def mod_pos_geq)

subsection \<open>Properties\<close>

text \<open>C34: The heartbeat of the options of a registrar is at least the minimum, and the time to live is longer than
  the heartbeat unless three heartbeats do not fit 64 bits.\<close>

theorem NewTTLOption_bounds:
  assumes "heartbeat0 < 2 ^ 63" and "ttl0 < 2 ^ 63" and "opt = NewTTLOption heartbeat0 ttl0"
  shows "minHeartBeatTime \<le> heartbeat opt \<and> heartbeat0 \<le> heartbeat opt \<and> heartbeat opt < 2 ^ 63 \<and> ttl opt < 2 ^ 63
    \<and> (heartbeat opt < ttl opt \<longleftrightarrow> heartbeat opt < ttl0 \<or> 3 * heartbeat opt < 2 ^ 63)"
proof -
  let ?h = "heartbeat opt"
  have h: "minHeartBeatTime \<le> ?h" "heartbeat0 \<le> ?h" "?h < 2 ^ 63"
    using assms(1,3) by (auto simp: NewTTLOption_def minHeartBeatTime_def Let_def)
  then have p: "0 < ?h" by (simp add: minHeartBeatTime_def)
  have t: "ttl opt = (if ttl0 \<le> ?h then wrap_int64 (3 * ?h) else ttl0)"
    using assms(3) by (simp add: NewTTLOption_def Let_def)
  show ?thesis
  proof (cases "3 * ?h < 2 ^ 63")
    case True
    then have "wrap_int64 (3 * ?h) = 3 * ?h" using p by (intro wrap_int64_id) simp_all
    with t h p assms(2) True show ?thesis by auto
  next
    case False
    then have "wrap_int64 (3 * ?h) = 3 * ?h - 2 ^ 64" using h(3) by (intro wrap_int64_over) simp_all
    with t h p assms(2) False show ?thesis by auto
  qed
qed

theorem NewTTLOption_bounds_witness:
  "let opt = NewTTLOption 3000000000 1000 in heartbeat opt = 3000000000 \<and> heartbeat opt < ttl opt"
proof -
  let ?o = "NewTTLOption 3000000000 1000"
  have h: "heartbeat ?o = 3000000000" by (simp add: NewTTLOption_def minHeartBeatTime_def Let_def)
  have "heartbeat ?o < ttl ?o \<longleftrightarrow> heartbeat ?o < 1000 \<or> 3 * heartbeat ?o < 2 ^ 63"
    using NewTTLOption_bounds [of 3000000000 1000 ?o] by simp
  then show ?thesis by (simp add: h Let_def)
qed

fun leaf_values :: "etcd_node \<Rightarrow> string list" where
  "leaf_values (EtcdNode v nodes) = (if nodes = [] then [v] else concat (map leaf_values nodes))"

fun plain_node :: "etcd_node \<Rightarrow> bool" where
  "plain_node (EtcdNode v nodes) = (if nodes = [] then v \<noteq> '''' else v = '''' \<and> list_all plain_node nodes)"

lemma leaf_values_nonempty: "plain_node n \<Longrightarrow> '''' \<notin> set (leaf_values n)"
  by (induction n) (auto simp: list_all_iff)

text \<open>\<open>GetEntries\<close> returns the values of all leaves below the prefix exactly if no child of it is a directory:
  for a directory it returns the empty string and not what is below it.\<close>

theorem etcd_GetEntries_leaves:
  assumes "keys_Get c key w = Inr node" and "plain_node node"
  shows "etcd_GetEntries c key w = Inr (leaf_values node) \<longleftrightarrow> (\<forall>n \<in> set (node_Nodes node). node_Nodes n = [])"
    (is "?l \<longleftrightarrow> ?r")
proof -
  obtain v nodes where n: "node = EtcdNode v nodes" by (cases node)
  show ?thesis
  proof (cases "nodes = []")
    case True
    then show ?thesis using assms by (simp add: etcd_GetEntries_def n)
  next
    case False
    then have e: "etcd_GetEntries c key w = Inr (map node_Value nodes)"
      using assms(1) by (simp add: etcd_GetEntries_def n)
    have leaf: "leaf_values m = [node_Value m]" if "node_Nodes m = []" for m
      using that by (cases m) simp
    have "concat (map leaf_values nodes) = map node_Value nodes" if ?r
    proof -
      have "map leaf_values nodes = map (\<lambda>m. [node_Value m]) nodes" using that leaf by (simp add: n)
      then show ?thesis by (simp only: concat_map_singleton)
    qed
    moreover have "node_Nodes m = []" if "map node_Value nodes = concat (map leaf_values nodes)" "m \<in> set nodes" for m
    proof (rule ccontr)
      assume d: "node_Nodes m \<noteq> []"
      have "plain_node m" using assms(2) that(2) False by (simp add: n list_all_iff)
      with d have "node_Value m = ''''" by (cases m) simp
      then have "'''' \<in> set (map node_Value nodes)" using that(2) by force
      with that(1) leaf_values_nonempty [OF assms(2)] False show False by (simp add: n)
    qed
    ultimately show ?thesis using e False by (auto simp: n)
  qed
qed

theorem etcd_GetEntries_leaves_witness:
  "etcd_GetEntries \<lparr>keys_Get = (\<lambda>key w. Inr (EtcdNode '''' [EtcdNode '''' [EtcdNode ''a:80'' []], EtcdNode ''b:80'' []])),
      keys_Set = (\<lambda>k v t w. (w, None)), keys_Create = (\<lambda>k v w. (w, None)), keys_Delete = (\<lambda>k (d :: unit) w. (w, None))\<rparr> ''/svc'' ()
   \<noteq> Inr [''a:80'', ''b:80'']"
  (is "etcd_GetEntries ?c _ _ \<noteq> _")
  using etcd_GetEntries_leaves [of ?c "''/svc''" "()" "EtcdNode '''' [EtcdNode '''' [EtcdNode ''a:80'' []], EtcdNode ''b:80'' []]"]
  by simp

text \<open>An instancer of etcd has published the last answer that its client gave, to everybody who is registered.\<close>

theorem etcd_publishes_last:
  assumes "instancer_run etcd_NewInstancer (\<lambda>_. True) etcd_loop it as s sent" and "iterates it"
  shows "source_value (in_source s) = sorted_value (event_of (last as))
    \<and> (\<forall>ch \<in> source_listens (in_source s). last_for ch sent = Some (sorted_value (event_of (last as))))"
  using etcd.run_value [OF assms] etcd.run_received [OF assms] by simp

theorem etcd_publishes_last_witness:
  "source_value (in_source (new_instancer (\<lambda>xs. xs) () (event_of (Inr [''b'', ''a''] :: go_error + string list)))) = (Some [''a'', ''b''], None)"
proof -
  have "instancer_run etcd_NewInstancer (\<lambda>_. True) etcd_loop (\<lambda>xs. xs) [Inr [''b'', ''a'']]
      (new_instancer (\<lambda>xs. xs) () (event_of (Inr [''b'', ''a'']))) []"
    by (rule run_start) (simp add: etcd_NewInstancer_def)
  from etcd_publishes_last [OF this iterates_id] show ?thesis by simp
qed

text \<open>C21: A second \<open>Register\<close> may lock the registrar for ever: if its goroutine gets to run while \<open>quit\<close> is still set, that is in
  every run in which it has left its start before another call of \<open>Deregister\<close> has returned, it has returned with
  the mutex held, and from then on no call of \<open>Deregister\<close> returns, whatever anybody does. The goroutine can
  run at once.\<close>

theorem etcd_second_register_hangs:
  assumes "rg_quit r \<noteq> None" and "\<not> rg_locked r" and "i = length (rg_loops r)"
  shows "reg_goroutine (etcd_Registrar_Register r) (reg_loop_start i (etcd_Registrar_Register r))
    \<and> (\<forall>r1. reg_step\<^sup>*\<^sup>* (etcd_Registrar_Register r) r1 \<and> rg_loops r1 ! i \<noteq> LoopStarting \<and> rg_returned r1 = rg_returned r
        \<longrightarrow> (\<forall>r2. reg_step\<^sup>*\<^sup>* r1 r2 \<longrightarrow> rg_locked r2 \<and> rg_returned r2 = rg_returned r))"
proof -
  let ?r = "etcd_Registrar_Register r"
  have g: "reg_goroutine ?r (reg_loop_start i ?r)"
    using assms(2,3) by (intro go_start) (simp_all add: etcd_Registrar_Register_def)
  have i: "second_loop i (rg_returned r) ?r" using assms(1,3) by (simp add: second_loop_def etcd_Registrar_Register_def)
  have "rg_locked r2 \<and> rg_returned r2 = rg_returned r"
    if "reg_step\<^sup>*\<^sup>* ?r r1" "rg_loops r1 ! i \<noteq> LoopStarting" "rg_returned r1 = rg_returned r" "reg_step\<^sup>*\<^sup>* r1 r2" for r1 r2
  proof -
    from second_loop_steps [OF that(1) i] that(2,3) have "rg_locked r1" by (simp add: second_loop_def)
    with reg_steps_locked [OF that(4)] that(3) show ?thesis by simp
  qed
  with g show ?thesis by blast
qed

theorem etcd_second_register_hangs_witness:
  "\<exists>r1. reg_step\<^sup>*\<^sup>* etcd_NewRegistrar r1 \<and> rg_locked r1 \<and> (\<forall>r2. reg_step\<^sup>*\<^sup>* r1 r2 \<longrightarrow> rg_returned r2 = 0)"
proof -
  let ?a = "etcd_Registrar_Register etcd_NewRegistrar"
  let ?r = "reg_loop_start 0 ?a"
  have q: "rg_quit ?r \<noteq> None" "\<not> rg_locked ?r" "rg_returned ?r = 0"
    by (simp_all add: reg_loop_start_def etcd_Registrar_Register_def etcd_NewRegistrar_def)
  have g: "reg_goroutine ?a ?r"
    by (rule go_start) (simp_all add: etcd_Registrar_Register_def etcd_NewRegistrar_def)
  let ?b = "etcd_Registrar_Register ?r"
  let ?r1 = "reg_loop_start (length (rg_loops ?r)) ?b"
  note hangs = etcd_second_register_hangs [OF q(1,2) refl]
  then have g1: "reg_goroutine ?b ?r1" by (rule conjunct1)
  have "reg_step\<^sup>*\<^sup>* ?b ?r1" using g1 by (simp add: reg_step_def r_into_rtranclp)
  moreover have "rg_loops ?r1 ! length (rg_loops ?r) \<noteq> LoopStarting" "rg_returned ?r1 = rg_returned ?r"
    using q(1) by (simp_all add: reg_loop_start_def etcd_Registrar_Register_def etcd_NewRegistrar_def)
  ultimately have l: "\<forall>r2. reg_step\<^sup>*\<^sup>* ?r1 r2 \<longrightarrow> rg_locked r2 \<and> rg_returned r2 = rg_returned ?r" using hangs by blast
  have "reg_step\<^sup>*\<^sup>* etcd_NewRegistrar ?r1"
    by (rule two_rounds [OF caller_register g caller_register g1])
  then show ?thesis using l q(3) by auto
qed

text \<open>C20: A registrar can refresh a key for ever that was deregistered: if \<open>Deregister\<close> is called while the
  goroutine is not blocked in its select, the goroutine then selects on a nil channel; every call has
  returned, nothing but a new call of \<open>Register\<close> could reach it, and it registers the service again and again.\<close>

theorem etcd_registers_after_deregister:
  assumes "rg_loops r = [LoopEntering]" and "rg_quit r = Some c" and "\<not> rg_locked r" and "rg_waiting r = 0"
  shows "\<exists>r1. reg_goroutine (etcd_Registrar_Deregister r) r1 \<and> rg_returned r1 = rg_returned r + 1
    \<and> rg_calls r1 = rg_calls r @ [CallDeregister]
    \<and> (\<forall>r2. reg_goroutine\<^sup>*\<^sup>* r1 r2 \<longrightarrow>
         (\<exists>r3. reg_goroutine\<^sup>*\<^sup>* r2 r3 \<and> rg_calls r3 = rg_calls r2 @ [CallRegister]))"
proof -
  let ?r1 = "reg_deregister_locked (etcd_Registrar_Deregister r)"
  have "reg_goroutine (etcd_Registrar_Deregister r) ?r1"
    using assms(3) by (intro go_deregister) (simp_all add: etcd_Registrar_Deregister_def)
  moreover have "unstoppable ?r1" "rg_returned ?r1 = rg_returned r + 1" "rg_calls ?r1 = rg_calls r @ [CallDeregister]"
    using assms by (simp_all add: unstoppable_def reg_deregister_locked_def etcd_Registrar_Deregister_def)
  ultimately show ?thesis
    using unstoppable_steps unstoppable_heartbeat by (intro exI [of _ ?r1]) blast
qed

theorem etcd_registers_after_deregister_witness:
  "\<exists>r1 r3. reg_step\<^sup>*\<^sup>* etcd_NewRegistrar r1 \<and> rg_returned r1 = 1 \<and> reg_goroutine\<^sup>*\<^sup>* r1 r3
     \<and> rg_calls r3 = [CallRegister, CallDeregister, CallRegister]"
proof -
  let ?a = "etcd_Registrar_Register etcd_NewRegistrar"
  let ?r = "reg_loop_start 0 ?a"
  have q: "rg_loops ?r = [LoopEntering]" "rg_quit ?r = Some 0" "\<not> rg_locked ?r" "rg_waiting ?r = 0"
    "rg_returned ?r = 0" "rg_calls ?r = [CallRegister]"
    by (simp_all add: reg_loop_start_def etcd_Registrar_Register_def etcd_NewRegistrar_def)
  have g: "reg_goroutine ?a ?r"
    by (rule go_start) (simp_all add: etcd_Registrar_Register_def etcd_NewRegistrar_def)
  obtain r1 where r1: "reg_goroutine (etcd_Registrar_Deregister ?r) r1" "rg_returned r1 = rg_returned ?r + 1"
    "rg_calls r1 = rg_calls ?r @ [CallDeregister]"
    "\<forall>r2. reg_goroutine\<^sup>*\<^sup>* r1 r2 \<longrightarrow> (\<exists>r3. reg_goroutine\<^sup>*\<^sup>* r2 r3 \<and> rg_calls r3 = rg_calls r2 @ [CallRegister])"
    using etcd_registers_after_deregister [OF q(1-4)] by blast
  have "reg_step\<^sup>*\<^sup>* etcd_NewRegistrar r1"
    by (rule two_rounds [OF caller_register g caller_deregister r1(1)])
  moreover obtain r3 where "reg_goroutine\<^sup>*\<^sup>* r1 r3" "rg_calls r3 = rg_calls r1 @ [CallRegister]"
    using r1(4) by blast
  ultimately show ?thesis using r1 q by auto
qed

end
