(* ===== verification/Etcd3.thy ===== *)
theory Etcd3
  imports Etcd "HOL-Library.Signed_Division"
begin

text \<open>
  Package sd/etcdv3, files client.go and registrar.go; the options are in theory Etcd, the instancer in Registry.
  The client keeps the handles of the library that it has opened: a lease client, a watcher and the cancel
  function of the context of a watch. A handle is a number, the calls that it makes on them are a trace,
  and what the library answers are arguments: the lease of \<open>Grant\<close>, the errors of \<open>Put\<close>, \<open>KeepAlive\<close> and
  \<open>Delete\<close>. The goroutine that discards the responses of \<open>KeepAlive\<close> has no other effect.
\<close>

datatype e3_event = NewLease nat | CloseLease nat | NewWatcher nat | CloseWatcher nat
  | WatchOn nat nat string | CancelWatch nat
  | Grant nat int | PutKey string string int | KeepAlive nat int | DeleteKey string

record etcd3_client =
  e3_leaser :: "nat option"
  e3_watcher :: "nat option"
  e3_wcf :: "nat option"
  e3_leaseID :: int
  e3_next :: nat
  e3_trace :: "e3_event list"

definition e3_call :: "e3_event \<Rightarrow> etcd3_client \<Rightarrow> etcd3_client" where
  "e3_call ev c = c\<lparr>e3_trace := e3_trace c @ [ev]\<rparr>"

record etcd3_options =
  eo_Cert :: string
  eo_Key :: string
  eo_CACert :: string
  eo_DialTimeout :: int
  eo_DialKeepAlive :: int
  eo_Username :: string
  eo_Password :: string

text \<open>\<open>connect\<close> is \<open>clientv3.New\<close>, with the TLS configuration that it gets if there is one.\<close>

definition etcd3_NewClient :: "(string \<Rightarrow> string \<Rightarrow> string \<Rightarrow> go_error + 'tls)
    \<Rightarrow> (string list \<Rightarrow> 'tls option \<Rightarrow> etcd3_options \<Rightarrow> go_error option) \<Rightarrow> string list \<Rightarrow> etcd3_options
    \<Rightarrow> go_error + etcd3_client" where
  "etcd3_NewClient ClientConfig connect machines options0 =
     (let options1 = (if eo_DialTimeout options0 = 0 then options0\<lparr>eo_DialTimeout := 3 * Second\<rparr> else options0);
          options2 = (if eo_DialKeepAlive options1 = 0 then options1\<lparr>eo_DialKeepAlive := 3 * Second\<rparr> else options1);
          tlscfg = (if eo_Cert options2 \<noteq> '''' \<and> eo_Key options2 \<noteq> ''''
                    then map_sum id Some (ClientConfig (eo_Cert options2) (eo_Key options2) (eo_CACert options2))
                    else Inr None)
      in case tlscfg of
           Inl err \<Rightarrow> Inl err
         | Inr cfg \<Rightarrow>
             (case connect machines cfg options2 of
                Some err \<Rightarrow> Inl err
              | None \<Rightarrow> Inr \<lparr>e3_leaser = None, e3_watcher = None, e3_wcf = None, e3_leaseID = 0, e3_next = 0, e3_trace = []\<rparr>))"

definition LeaseID :: "etcd3_client \<Rightarrow> int" where "LeaseID c = e3_leaseID c"

definition etcd3_GetEntries :: "(string \<Rightarrow> go_error + (string \<times> string) list) \<Rightarrow> string \<Rightarrow> go_error + string list" where
  "etcd3_GetEntries kv_Get key = (case kv_Get key of Inl err \<Rightarrow> Inl err | Inr kvs \<Rightarrow> Inr (map snd kvs))"

text \<open>The start of \<open>WatchPrefix\<close>; what follows is in theory Etcd.\<close>

definition etcd3_WatchPrefix :: "string \<Rightarrow> etcd3_client \<Rightarrow> etcd3_client" where
  "etcd3_WatchPrefix prefix c =
     (let ctx = e3_next c; watcher = e3_next c + 1;
          c1 = c\<lparr>e3_wcf := Some ctx, e3_watcher := Some watcher, e3_next := e3_next c + 2\<rparr>
      in e3_call (WatchOn watcher ctx prefix) (e3_call (NewWatcher watcher) c1))"

definition Duration_Seconds :: "int \<Rightarrow> float64" where
  "Duration_Seconds d = f64_add (f64_of_int (d sdiv Second)) (f64_div (f64_of_int (d smod Second)) (F64 1000000000))"

definition etcd3_close_leaser :: "etcd3_client \<Rightarrow> etcd3_client" where
  "etcd3_close_leaser c = (case e3_leaser c of None \<Rightarrow> c | Some l \<Rightarrow> e3_call (CloseLease l) c)"

definition etcd3_close_watcher :: "etcd3_client \<Rightarrow> etcd3_client" where
  "etcd3_close_watcher c = (case e3_watcher c of None \<Rightarrow> c | Some w \<Rightarrow> e3_call (CloseWatcher w) c)"

definition etcd3_Register :: "(float64 \<Rightarrow> int) \<Rightarrow> go_error + int \<Rightarrow> go_error option \<Rightarrow> go_error option
    \<Rightarrow> 'd etcd_Service \<Rightarrow> etcd3_client \<Rightarrow> etcd3_client \<times> go_error option" where
  "etcd3_Register impl granted put_err alive_err s c =
     (if es_Key s = '''' then (c, Some ErrNoKey)
      else if es_Value s = '''' then (c, Some ErrNoValue)
      else
        let c1 = etcd3_close_leaser c;
            l = e3_next c1;
            c2 = e3_call (NewLease l) (c1\<lparr>e3_leaser := Some l, e3_next := e3_next c1 + 1\<rparr>);
            c3 = etcd3_close_watcher c2;
            w = e3_next c3;
            c4 = e3_call (NewWatcher w) (c3\<lparr>e3_watcher := Some w, e3_next := e3_next c3 + 1\<rparr>);
            t = (case es_TTL s of None \<Rightarrow> NewTTLOption (Second * 3) (Second * 10) | Some t \<Rightarrow> t);
            c5 = e3_call (Grant l (f64_to_int64 impl (Duration_Seconds (ttl t)))) c4
        in case granted of
             Inl err \<Rightarrow> (c5, Some err)
           | Inr ID \<Rightarrow>
               (let c6 = e3_call (PutKey (es_Key s) (es_Value s) ID) (c5\<lparr>e3_leaseID := ID\<rparr>) in
                if put_err \<noteq> None then (c6, put_err)
                else (e3_call (KeepAlive l ID) c6, alive_err)))"

definition etcd3_close :: "etcd3_client \<Rightarrow> etcd3_client" where
  "etcd3_close c =
     (let c1 = etcd3_close_watcher (etcd3_close_leaser c)
      in case e3_wcf c1 of None \<Rightarrow> c1 | Some ctx \<Rightarrow> e3_call (CancelWatch ctx) c1)"

definition etcd3_Deregister :: "go_error option \<Rightarrow> 'd etcd_Service \<Rightarrow> etcd3_client \<Rightarrow> etcd3_client \<times> go_error option" where
  "etcd3_Deregister delete_err s c =
     (if es_Key s = '''' then (etcd3_close c, Some ErrNoKey)
      else (etcd3_close (e3_call (DeleteKey (es_Key s)) c), delete_err))"

text \<open>The registrar: nothing ever sets its field \<open>quit\<close>.\<close>

record etcd3_registrar =
  r3_client :: etcd3_client
  r3_quit :: "unit option"

definition etcd3_NewRegistrar :: "etcd3_client \<Rightarrow> etcd3_registrar" where
  "etcd3_NewRegistrar client = \<lparr>r3_client = client, r3_quit = None\<rparr>"

definition etcd3_Registrar_Register :: "(float64 \<Rightarrow> int) \<Rightarrow> go_error + int \<Rightarrow> go_error option \<Rightarrow> go_error option
    \<Rightarrow> 'd etcd_Service \<Rightarrow> etcd3_registrar \<Rightarrow> etcd3_registrar" where
  "etcd3_Registrar_Register impl granted put_err alive_err service r =
     r\<lparr>r3_client := fst (etcd3_Register impl granted put_err alive_err service (r3_client r))\<rparr>"

definition etcd3_Registrar_Deregister :: "go_error option \<Rightarrow> 'd etcd_Service \<Rightarrow> etcd3_registrar \<Rightarrow> etcd3_registrar" where
  "etcd3_Registrar_Deregister delete_err service r =
     (let r1 = r\<lparr>r3_client := fst (etcd3_Deregister delete_err service (r3_client r))\<rparr>
      in if r3_quit r1 \<noteq> None then r1\<lparr>r3_quit := None\<rparr> else r1)"

subsection \<open>Open handles\<close>

definition open_leases :: "e3_event list \<Rightarrow> nat set" where
  "open_leases tr = {l. NewLease l \<in> set tr \<and> CloseLease l \<notin> set tr}"

definition open_watchers :: "e3_event list \<Rightarrow> nat set" where
  "open_watchers tr = {w. NewWatcher w \<in> set tr \<and> CloseWatcher w \<notin> set tr}"

text \<open>The watchers on which a watch is running.\<close>

definition live_watches :: "e3_event list \<Rightarrow> nat set" where
  "live_watches tr = {w. CloseWatcher w \<notin> set tr \<and> (\<exists>ctx prefix. WatchOn w ctx prefix \<in> set tr \<and> CancelWatch ctx \<notin> set tr)}"

text \<open>Calls of a client in any order, with whatever answers.\<close>

datatype 'd e3_op = OpWatch string | OpRegister "go_error + int" "go_error option" "go_error option" "'d etcd_Service"
  | OpDeregister "go_error option" "'d etcd_Service"

fun e3_do :: "(float64 \<Rightarrow> int) \<Rightarrow> 'd e3_op \<Rightarrow> etcd3_client \<Rightarrow> etcd3_client" where
  "e3_do impl (OpWatch prefix) c = etcd3_WatchPrefix prefix c"
| "e3_do impl (OpRegister granted put_err alive_err s) c = fst (etcd3_Register impl granted put_err alive_err s c)"
| "e3_do impl (OpDeregister delete_err s) c = fst (etcd3_Deregister delete_err s c)"

definition e3_fresh :: etcd3_client where
  "e3_fresh = \<lparr>e3_leaser = None, e3_watcher = None, e3_wcf = None, e3_leaseID = 0, e3_next = 0, e3_trace = []\<rparr>"

text \<open>Every handle is smaller than the next one, and only the current lease client is open.\<close>

fun handles :: "e3_event \<Rightarrow> nat set" where
  "handles (NewLease l) = {l}"
| "handles (CloseLease l) = {l}"
| "handles (NewWatcher w) = {w}"
| "handles (CloseWatcher w) = {w}"
| "handles (WatchOn w ctx _) = {w, ctx}"
| "handles (CancelWatch ctx) = {ctx}"
| "handles (Grant l _) = {l}"
| "handles (KeepAlive l _) = {l}"
| "handles _ = {}"

definition e3_inv :: "etcd3_client \<Rightarrow> bool" where
  "e3_inv c \<longleftrightarrow> (\<forall>ev \<in> set (e3_trace c). handles ev \<subseteq> {..<e3_next c})
     \<and> set_option (e3_leaser c) \<union> set_option (e3_watcher c) \<union> set_option (e3_wcf c) \<subseteq> {..<e3_next c}
     \<and> open_leases (e3_trace c) \<subseteq> set_option (e3_leaser c)"

lemma e3_call_simps [simp]:
  "e3_leaser (e3_call ev c) = e3_leaser c" "e3_watcher (e3_call ev c) = e3_watcher c" "e3_wcf (e3_call ev c) = e3_wcf c"
  "e3_next (e3_call ev c) = e3_next c" "e3_trace (e3_call ev c) = e3_trace c @ [ev]"
  by (simp_all add: e3_call_def)

lemma e3_inv_fresh: "e3_inv e3_fresh"
  by (simp add: e3_inv_def e3_fresh_def open_leases_def)

lemma e3_inv_call [intro]:
  "e3_inv c \<Longrightarrow> handles ev \<subseteq> {..<e3_next c} \<Longrightarrow> \<forall>l. ev \<noteq> NewLease l \<Longrightarrow> e3_inv (e3_call ev c)"
  by (auto simp: e3_inv_def open_leases_def)

lemma e3_handle_bounds:
  "e3_inv c \<Longrightarrow> e3_leaser c = Some n \<or> e3_watcher c = Some n \<or> e3_wcf c = Some n \<Longrightarrow> n < e3_next c"
  by (auto simp: e3_inv_def)

lemma etcd3_close_leaser_inv:
  assumes "e3_inv c"
  shows "e3_inv (etcd3_close_leaser c)" and "open_leases (e3_trace (etcd3_close_leaser c)) = {}"
    and "e3_watcher (etcd3_close_leaser c) = e3_watcher c" and "e3_next (etcd3_close_leaser c) = e3_next c"
    and "e3_wcf (etcd3_close_leaser c) = e3_wcf c"
proof -
  show "e3_inv (etcd3_close_leaser c)"
    using assms e3_handle_bounds [OF assms] by (auto simp: etcd3_close_leaser_def split: option.splits)
  show "open_leases (e3_trace (etcd3_close_leaser c)) = {}"
    using assms by (auto simp: e3_inv_def open_leases_def etcd3_close_leaser_def split: option.splits)
qed (simp_all add: etcd3_close_leaser_def split: option.splits)

lemma etcd3_close_watcher_inv:
  assumes "e3_inv c"
  shows "e3_inv (etcd3_close_watcher c)" and "e3_leaser (etcd3_close_watcher c) = e3_leaser c"
    and "e3_next (etcd3_close_watcher c) = e3_next c" and "e3_wcf (etcd3_close_watcher c) = e3_wcf c"
    and "open_leases (e3_trace (etcd3_close_watcher c)) = open_leases (e3_trace c)"
proof -
  show "e3_inv (etcd3_close_watcher c)"
    using assms e3_handle_bounds [OF assms] by (auto simp: etcd3_close_watcher_def split: option.splits)
qed (auto simp: etcd3_close_watcher_def open_leases_def split: option.splits)

text \<open>The handles that \<open>Register\<close> opens.\<close>

definition e3_new_lease :: "etcd3_client \<Rightarrow> etcd3_client" where
  "e3_new_lease c = e3_call (NewLease (e3_next c)) (c\<lparr>e3_leaser := Some (e3_next c), e3_next := e3_next c + 1\<rparr>)"

definition e3_new_watcher :: "etcd3_client \<Rightarrow> etcd3_client" where
  "e3_new_watcher c = e3_call (NewWatcher (e3_next c)) (c\<lparr>e3_watcher := Some (e3_next c), e3_next := e3_next c + 1\<rparr>)"

lemma e3_inv_new_lease: "e3_inv c \<Longrightarrow> open_leases (e3_trace c) = {} \<Longrightarrow> e3_inv (e3_new_lease c)"
  by (fastforce simp: e3_inv_def open_leases_def e3_new_lease_def)

lemma e3_inv_new_watcher: "e3_inv c \<Longrightarrow> e3_inv (e3_new_watcher c)"
  by (fastforce simp: e3_inv_def open_leases_def e3_new_watcher_def)

definition e3_reopened :: "etcd3_client \<Rightarrow> etcd3_client" where
  "e3_reopened c = e3_new_watcher (etcd3_close_watcher (e3_new_lease (etcd3_close_leaser c)))"

text \<open>What follows in \<open>Register\<close> only uses the lease client.\<close>

lemma etcd3_Register_cases:
  "fst (etcd3_Register impl granted put_err alive_err s c) = c \<or>
   (\<exists>evs ID. e3_trace (fst (etcd3_Register impl granted put_err alive_err s c)) = e3_trace (e3_reopened c) @ evs
      \<and> (\<forall>ev \<in> set evs. handles ev \<subseteq> {e3_next (etcd3_close_leaser c)} \<and> (\<exists>n. ev = Grant (e3_next (etcd3_close_leaser c)) n \<or> (\<exists>k v. ev = PutKey k v n) \<or> ev = KeepAlive (e3_next (etcd3_close_leaser c)) n))
      \<and> e3_leaser (fst (etcd3_Register impl granted put_err alive_err s c)) = e3_leaser (e3_reopened c)
      \<and> e3_watcher (fst (etcd3_Register impl granted put_err alive_err s c)) = e3_watcher (e3_reopened c)
      \<and> e3_wcf (fst (etcd3_Register impl granted put_err alive_err s c)) = e3_wcf (e3_reopened c)
      \<and> e3_next (fst (etcd3_Register impl granted put_err alive_err s c)) = e3_next (e3_reopened c))"
  by (auto simp: etcd3_Register_def e3_reopened_def e3_new_lease_def e3_new_watcher_def Let_def split: sum.splits)

lemma e3_inv_reopened: "e3_inv c \<Longrightarrow> e3_inv (e3_reopened c)"
  unfolding e3_reopened_def
  by (intro e3_inv_new_watcher etcd3_close_watcher_inv(1) e3_inv_new_lease etcd3_close_leaser_inv(1,2))

lemma e3_next_reopened:
  "e3_next (etcd3_close_leaser c) = e3_next c" "e3_next (e3_reopened c) = e3_next c + 2"
  "e3_wcf (e3_reopened c) = e3_wcf c"
  by (auto simp: e3_reopened_def e3_new_watcher_def e3_new_lease_def etcd3_close_leaser_def etcd3_close_watcher_def
      split: option.splits)

lemma etcd3_close_inv:
  assumes "e3_inv c"
  shows "e3_inv (etcd3_close c)" and "open_leases (e3_trace (etcd3_close c)) = {}"
proof -
  let ?c = "etcd3_close_watcher (etcd3_close_leaser c)"
  note l = etcd3_close_leaser_inv [OF assms]
  note w = etcd3_close_watcher_inv [OF l(1)]
  show "e3_inv (etcd3_close c)"
    using w e3_handle_bounds [OF w(1)] by (auto simp: etcd3_close_def Let_def split: option.splits)
  show "open_leases (e3_trace (etcd3_close c)) = {}"
    using w(5) l(2) by (auto simp: etcd3_close_def Let_def open_leases_def split: option.splits)
qed

lemma e3_do_inv: "e3_inv c \<Longrightarrow> e3_inv (e3_do impl op c)"
proof (cases op)
  case (OpWatch prefix)
  assume "e3_inv c"
  then show ?thesis by (fastforce simp: OpWatch e3_inv_def open_leases_def etcd3_WatchPrefix_def Let_def)
next
  case (OpRegister granted put_err alive_err s)
  assume i: "e3_inv c"
  from etcd3_Register_cases [of impl granted put_err alive_err s c] show ?thesis
  proof
    assume "fst (etcd3_Register impl granted put_err alive_err s c) = c"
    with i show ?thesis by (simp add: OpRegister)
  next
    assume "\<exists>evs ID. e3_trace (fst (etcd3_Register impl granted put_err alive_err s c)) = e3_trace (e3_reopened c) @ evs
      \<and> (\<forall>ev \<in> set evs. handles ev \<subseteq> {e3_next (etcd3_close_leaser c)} \<and> (\<exists>n. ev = Grant (e3_next (etcd3_close_leaser c)) n \<or> (\<exists>k v. ev = PutKey k v n) \<or> ev = KeepAlive (e3_next (etcd3_close_leaser c)) n))
      \<and> e3_leaser (fst (etcd3_Register impl granted put_err alive_err s c)) = e3_leaser (e3_reopened c)
      \<and> e3_watcher (fst (etcd3_Register impl granted put_err alive_err s c)) = e3_watcher (e3_reopened c)
      \<and> e3_wcf (fst (etcd3_Register impl granted put_err alive_err s c)) = e3_wcf (e3_reopened c)
      \<and> e3_next (fst (etcd3_Register impl granted put_err alive_err s c)) = e3_next (e3_reopened c)"
    with e3_inv_reopened [OF i] show ?thesis
      by (fastforce simp: OpRegister e3_inv_def open_leases_def e3_next_reopened)
  qed
next
  case (OpDeregister delete_err s)
  assume i: "e3_inv c"
  then have "e3_inv (e3_call (DeleteKey (es_Key s)) c)" by auto
  with i show ?thesis by (simp add: OpDeregister etcd3_Deregister_def etcd3_close_inv)
qed

lemma e3_run_inv: "e3_inv c \<Longrightarrow> e3_inv (fold (e3_do impl) ops c)"
  by (induction ops arbitrary: c) (simp_all add: e3_do_inv)

subsection \<open>Properties\<close>

text \<open>C37: Whatever is called and whatever etcd answers, the client has at most one lease client open, the current
  one, and after \<open>Deregister\<close> none, even if the service has no key or the deletion fails.\<close>

theorem etcd3_leases:
  assumes "c = fold (e3_do impl) ops e3_fresh"
  shows "open_leases (e3_trace c) \<subseteq> set_option (e3_leaser c)
    \<and> open_leases (e3_trace (fst (etcd3_Deregister delete_err s c))) = {}"
proof -
  have i: "e3_inv c" unfolding assms by (intro e3_run_inv e3_inv_fresh)
  then have "e3_inv (e3_call (DeleteKey (es_Key s)) c)" by auto
  with i show ?thesis by (simp add: etcd3_Deregister_def etcd3_close_inv e3_inv_def)
qed

theorem etcd3_leases_witness:
  "open_leases (e3_trace (fst (etcd3_Deregister None \<lparr>es_Key = ''k'', es_Value = ''v'', es_TTL = None, es_DeleteOptions = ()\<rparr>
     (fold (e3_do (\<lambda>_. 0)) [OpRegister (Inr 7) None None \<lparr>es_Key = ''k'', es_Value = ''v'', es_TTL = None, es_DeleteOptions = ()\<rparr>] e3_fresh)))) = {}"
  using etcd3_leases [OF refl, THEN conjunct2] .

text \<open>A call of \<open>Register\<close> ends the watch of the same client, even one that fails: with one watch running,
  none is running afterwards, so an instancer that shares its client with a registrar is not told of
  any change any more.\<close>

theorem etcd3_register_ends_watch:
  assumes "c = fold (e3_do impl) ops e3_fresh" and "live_watches (e3_trace c) = {}"
    and "es_Key s \<noteq> ''''" and "es_Value s \<noteq> ''''" and "c1 = etcd3_WatchPrefix prefix c"
  shows "live_watches (e3_trace c1) = {e3_next c + 1}
    \<and> live_watches (e3_trace (fst (etcd3_Register impl granted put_err alive_err s c1))) = {}"
proof -
  have i: "e3_inv c" unfolding assms(1) by (intro e3_run_inv e3_inv_fresh)
  have t: "e3_trace c1 = e3_trace c @ [NewWatcher (e3_next c + 1), WatchOn (e3_next c + 1) (e3_next c) prefix]"
    "e3_watcher c1 = Some (e3_next c + 1)" "e3_next c1 = e3_next c + 2"
    by (simp_all add: assms(5) etcd3_WatchPrefix_def Let_def)
  have new: "CloseWatcher (e3_next c + 1) \<notin> set (e3_trace c)" "CancelWatch (e3_next c) \<notin> set (e3_trace c)"
    "NewWatcher (e3_next c + 1) \<notin> set (e3_trace c)"
    using i by (fastforce simp: e3_inv_def)+
  have l: "live_watches (e3_trace c1) = {e3_next c + 1}"
    using assms(2) new by (auto simp: live_watches_def t(1))
  have "\<exists>evs. e3_trace (fst (etcd3_Register impl granted put_err alive_err s c1)) = e3_trace c1 @ evs
      \<and> CloseWatcher (e3_next c + 1) \<in> set evs \<and> (\<forall>w k p. WatchOn w k p \<notin> set evs)"
    using assms(3,4) t(2)
    by (auto simp: etcd3_Register_def etcd3_close_watcher_def etcd3_close_leaser_def Let_def split: sum.splits option.splits)
  then obtain evs where evs: "e3_trace (fst (etcd3_Register impl granted put_err alive_err s c1)) = e3_trace c1 @ evs"
    "CloseWatcher (e3_next c + 1) \<in> set evs" "\<And>w k p. WatchOn w k p \<notin> set evs" by blast
  have "live_watches (e3_trace c1 @ evs) \<subseteq> live_watches (e3_trace c1) - {e3_next c + 1}"
    using evs(2,3) by (auto simp: live_watches_def)
  with l evs(1) show ?thesis by simp
qed

theorem etcd3_register_ends_watch_witness:
  "live_watches (e3_trace (fst (etcd3_Register (\<lambda>_. 0) (Inl (ErrorText ''no lease'')) None None
     \<lparr>es_Key = ''k'', es_Value = ''v'', es_TTL = None, es_DeleteOptions = ()\<rparr> (etcd3_WatchPrefix ''/svc'' e3_fresh)))) = {}"
proof -
  have f: "e3_fresh = fold (e3_do (\<lambda>_. 0)) ([] :: unit e3_op list) e3_fresh" by simp
  have "live_watches (e3_trace e3_fresh) = {}" by (simp add: live_watches_def e3_fresh_def)
  from etcd3_register_ends_watch [OF f this _ _ refl, of "\<lparr>es_Key = ''k'', es_Value = ''v'', es_TTL = None, es_DeleteOptions = ()\<rparr>"]
  show ?thesis by simp
qed

text \<open>The watcher that \<open>Register\<close> opens is forgotten when \<open>WatchPrefix\<close> is called: nothing that the client
  does later closes it.\<close>

theorem etcd3_watcher_leaks:
  assumes "c = fold (e3_do impl) ops e3_fresh" and "e3_watcher c = Some w" and "w \<in> open_watchers (e3_trace c)"
  shows "w \<in> open_watchers (e3_trace (fold (e3_do impl) later (etcd3_WatchPrefix prefix c)))"
proof -
  have i: "e3_inv c" unfolding assms(1) by (intro e3_run_inv e3_inv_fresh)
  define lost where "lost d \<longleftrightarrow> w \<in> open_watchers (e3_trace d) \<and> e3_watcher d \<noteq> Some w \<and> w < e3_next d" for d :: etcd3_client
  have close: "lost (etcd3_close_leaser d)" "lost (etcd3_close_watcher d)" if "lost d" for d
    using that by (auto simp: lost_def open_watchers_def etcd3_close_leaser_def etcd3_close_watcher_def split: option.splits)
  have re: "lost (e3_reopened d)" if "lost d" for d
    using close(1) [OF that] close(2) [of "e3_new_lease (etcd3_close_leaser d)"]
    by (auto simp: lost_def e3_reopened_def e3_new_watcher_def e3_new_lease_def open_watchers_def)
  have cl: "lost (etcd3_close d)" if "lost d" for d
    using close(2) [OF close(1) [OF that]] by (auto simp: etcd3_close_def lost_def open_watchers_def Let_def split: option.splits)
  have step: "lost (e3_do impl op d)" if "lost d" for op d
  proof (cases op)
    case (OpRegister granted put_err alive_err s)
    from etcd3_Register_cases [of impl granted put_err alive_err s d] re [OF that] that show ?thesis
      by (auto simp: OpRegister lost_def open_watchers_def)
  next
    case (OpDeregister err s)
    have "lost (e3_call (DeleteKey (es_Key s)) d)" using that by (auto simp: lost_def open_watchers_def)
    with that cl show ?thesis by (simp add: OpDeregister etcd3_Deregister_def)
  qed (use that in \<open>auto simp: lost_def open_watchers_def etcd3_WatchPrefix_def Let_def\<close>)
  have "lost (fold (e3_do impl) later d)" if "lost d" for d
    using that by (induction later arbitrary: d) (simp_all add: step)
  moreover have "lost (etcd3_WatchPrefix prefix c)"
    using assms(2,3) e3_handle_bounds [OF i, of w] by (auto simp: lost_def open_watchers_def etcd3_WatchPrefix_def Let_def)
  ultimately show ?thesis by (simp add: lost_def)
qed

theorem etcd3_watcher_leaks_witness:
  "1 \<in> open_watchers (e3_trace (fold (e3_do (\<lambda>_. 0)) [OpDeregister None \<lparr>es_Key = ''k'', es_Value = ''v'', es_TTL = None, es_DeleteOptions = ()\<rparr>]
     (etcd3_WatchPrefix ''/svc'' (fold (e3_do (\<lambda>_. 0)) [OpRegister (Inr 7) None None \<lparr>es_Key = ''k'', es_Value = ''v'', es_TTL = None, es_DeleteOptions = ()\<rparr>] e3_fresh))))"
  by (rule etcd3_watcher_leaks [OF refl])
    (simp_all add: etcd3_Register_def e3_fresh_def etcd3_close_leaser_def etcd3_close_watcher_def open_watchers_def)

end
