(* ===== verification/Eureka.thy ===== *)
theory Eureka
  imports Dns_Srv Conn_Manager
begin

text \<open>
  Package sd/eureka. The instancer consumes the updates that the library sends for an application; \<open>Stop\<close>
  shakes hands with the loop, which the steps \<open>run_stop\<close> and \<open>run_quit\<close> of theory Instancers stand for.

  The registrar has a mutex, which \<open>Register\<close> and \<open>Deregister\<close> hold to the end, and a goroutine that sends
  heartbeats. \<open>Deregister\<close> hands a channel to the goroutine and waits until it is closed: between the two
  steps the registrar is \<open>er_waiting\<close>. The calls on the connection are a trace.
\<close>

subsection \<open>The instancer\<close>

record fargo_Instance =
  fi_IPAddr :: string
  fi_Port :: int

type_synonym AppUpdate = "go_error + fargo_Instance list"

definition convertFargoAppToInstances :: "fargo_Instance list \<Rightarrow> string list" where
  "convertFargoAppToInstances app = map (\<lambda>inst. fi_IPAddr inst @ '':'' @ Itoa (fi_Port inst)) app"

definition eureka_consume :: "AppUpdate \<Rightarrow> go_error evalue" where
  "eureka_consume update =
     (case update of
        Inl err \<Rightarrow> (None, Some err)
      | Inr app \<Rightarrow> (Some (convertFargoAppToInstances app), None))"

definition eureka_NewInstancer :: "AppUpdate \<Rightarrow> (unit \<times> go_error evalue) option" where
  "eureka_NewInstancer update = Some ((), eureka_consume update)"

definition eureka_loop :: "(unit, AppUpdate, go_error) loop_body" where
  "eureka_loop _ update = ((), Some (eureka_consume update))"

text \<open>A second \<open>Stop\<close> sends on a nil channel and waits for ever.\<close>

definition eureka_Stop :: "(unit, 'e) instancer \<Rightarrow> (unit, 'e) instancer option" where
  "eureka_Stop s = (if in_quit s then None else Some (s\<lparr>in_quit := True, in_looping := False\<rparr>))"

definition eureka_getInstances :: "(string \<Rightarrow> go_error + fargo_Instance list) \<Rightarrow> string \<Rightarrow> go_error + string list" where
  "eureka_getInstances GetApp app =
     (case GetApp app of Inl err \<Rightarrow> Inl err | Inr a \<Rightarrow> Inr (convertFargoAppToInstances a))"

abbreviation eureka_run :: "(chan list \<Rightarrow> chan list) \<Rightarrow> AppUpdate list \<Rightarrow> (unit, go_error) instancer
    \<Rightarrow> (chan \<times> go_error evalue) list \<Rightarrow> bool" where
  "eureka_run \<equiv> instancer_run eureka_NewInstancer (\<lambda>_. True) eureka_loop"

interpretation eureka: instancer_loop eureka_NewInstancer "\<lambda>_. True" eureka_loop
  "\<lambda>as l v. as \<noteq> [] \<and> v = sorted_value (eureka_consume (last as))"
  by unfold_locales (auto simp: eureka_NewInstancer_def eureka_loop_def)

subsection \<open>The registrar\<close>

datatype eureka_call = RegisterInstance | DeregisterInstance | ReregisterInstance | HeartBeatInstance

definition defaultRenewalInterval :: int where "defaultRenewalInterval = 30 * Second"

definition renewalInterval :: "int \<Rightarrow> int" where
  "renewalInterval RenewalIntervalInSecs =
     (if RenewalIntervalInSecs > 0 then RenewalIntervalInSecs * Second else defaultRenewalInterval)"

text \<open>The status code of an error: of the library's errors, or of the one that tests inject.\<close>

definition httpResponseStatusCode :: "(go_error \<Rightarrow> int option) \<Rightarrow> (go_error \<Rightarrow> int option) \<Rightarrow> go_error \<Rightarrow> int \<times> bool" where
  "httpResponseStatusCode fargo_code injected_code err =
     (case fargo_code err of
        Some code \<Rightarrow> (code, True)
      | None \<Rightarrow> (case injected_code err of Some code \<Rightarrow> (code, True) | None \<Rightarrow> (0, False)))"

definition isNotFound :: "(go_error \<Rightarrow> int option) \<Rightarrow> (go_error \<Rightarrow> int option) \<Rightarrow> go_error \<Rightarrow> bool" where
  "isNotFound fargo_code injected_code err =
     (case httpResponseStatusCode fargo_code injected_code err of (code, ok) \<Rightarrow> ok \<and> code = 404)"

text \<open>The calls of a heartbeat, given the error of the first one and of the second.\<close>

definition eureka_heartbeat :: "(go_error \<Rightarrow> bool) \<Rightarrow> go_error option \<Rightarrow> go_error option \<Rightarrow> eureka_call list \<times> go_error option" where
  "eureka_heartbeat not_found beat_err reregister_err =
     (case beat_err of
        None \<Rightarrow> ([HeartBeatInstance], None)
      | Some err \<Rightarrow>
          if not_found err then ([HeartBeatInstance, ReregisterInstance], reregister_err)
          else ([HeartBeatInstance], Some err))"

record eureka_registrar =
  er_quitc :: bool
  er_waiting :: bool
  er_looping :: bool
  er_calls :: "eureka_call list"

definition eureka_NewRegistrar :: eureka_registrar where
  "eureka_NewRegistrar = \<lparr>er_quitc = False, er_waiting = False, er_looping = False, er_calls = []\<rparr>"

definition eureka_Register :: "eureka_registrar \<Rightarrow> eureka_registrar" where
  "eureka_Register r =
     (if er_quitc r then r
      else r\<lparr>er_calls := er_calls r @ [RegisterInstance], er_quitc := True, er_looping := True\<rparr>)"

text \<open>\<open>Deregister\<close> up to the handshake.\<close>

definition eureka_Deregister :: "eureka_registrar \<Rightarrow> eureka_registrar" where
  "eureka_Deregister r = (if \<not> er_quitc r then r else r\<lparr>er_waiting := True\<rparr>)"

definition eureka_tick :: "eureka_call list \<Rightarrow> eureka_registrar \<Rightarrow> eureka_registrar" where
  "eureka_tick calls r = r\<lparr>er_calls := er_calls r @ calls\<rparr>"

text \<open>The goroutine takes the channel, deregisters and closes it; \<open>Deregister\<close> goes on and returns.\<close>

definition eureka_quit :: "eureka_registrar \<Rightarrow> eureka_registrar" where
  "eureka_quit r = r\<lparr>er_calls := er_calls r @ [DeregisterInstance], er_looping := False, er_waiting := False, er_quitc := False\<rparr>"

text \<open>A caller has the mutex while it is waiting.\<close>

inductive eureka_step :: "(go_error \<Rightarrow> bool) \<Rightarrow> eureka_registrar \<Rightarrow> eureka_registrar \<Rightarrow> bool" for not_found where
  eureka_register: "\<not> er_waiting r \<Longrightarrow> eureka_step not_found r (eureka_Register r)"
| eureka_deregister: "\<not> er_waiting r \<Longrightarrow> eureka_step not_found r (eureka_Deregister r)"
| eureka_beat: "er_looping r \<Longrightarrow> eureka_heartbeat not_found beat_err reregister_err = (calls, err)
    \<Longrightarrow> eureka_step not_found r (eureka_tick calls r)"
| eureka_hand_over: "er_looping r \<Longrightarrow> er_waiting r \<Longrightarrow> eureka_step not_found r (eureka_quit r)"

text \<open>Sessions: an instance is registered, kept alive, deregistered, and only then registered again.
  The result is whether it is registered now.\<close>

fun sessions :: "bool \<Rightarrow> eureka_call list \<Rightarrow> bool option" where
  "sessions registered [] = Some registered"
| "sessions registered (RegisterInstance # calls) = (if registered then None else sessions True calls)"
| "sessions registered (DeregisterInstance # calls) = (if registered then sessions False calls else None)"
| "sessions registered (HeartBeatInstance # calls) = (if registered then sessions True calls else None)"
| "sessions registered (ReregisterInstance # calls) = (if registered then sessions True calls else None)"

lemma sessions_append:
  "sessions b (xs @ ys) = (case sessions b xs of None \<Rightarrow> None | Some b' \<Rightarrow> sessions b' ys)"
  by (induction b xs rule: sessions.induct) auto

definition eureka_inv :: "eureka_registrar \<Rightarrow> bool" where
  "eureka_inv r \<longleftrightarrow> sessions False (er_calls r) = Some (er_quitc r) \<and> er_looping r = er_quitc r \<and> (er_waiting r \<longrightarrow> er_quitc r)"

lemma eureka_step_inv: "eureka_step not_found r r' \<Longrightarrow> eureka_inv r \<Longrightarrow> eureka_inv r'"
  by (induction rule: eureka_step.induct)
    (auto simp: eureka_inv_def eureka_Register_def eureka_Deregister_def eureka_tick_def eureka_quit_def eureka_heartbeat_def
      sessions_append split: option.splits if_splits)

lemma eureka_steps_inv: "(eureka_step not_found)\<^sup>*\<^sup>* r r' \<Longrightarrow> eureka_inv r \<Longrightarrow> eureka_inv r'"
  by (induction rule: rtranclp_induct) (auto dest: eureka_step_inv)

subsection \<open>Properties\<close>

text \<open>C10: The calls of a registrar form sessions, whatever the order of \<open>Register\<close>, \<open>Deregister\<close> and heartbeats and
  whatever Eureka answers: one goroutine runs exactly while the instance is registered, no heartbeat comes
  after a \<open>Deregister\<close> that has returned, and one that is waiting can always go on.\<close>

theorem eureka_registrar_sessions:
  assumes "(eureka_step not_found)\<^sup>*\<^sup>* eureka_NewRegistrar r"
  shows "sessions False (er_calls r) = Some (er_quitc r) \<and> er_looping r = er_quitc r
    \<and> (er_waiting r \<longrightarrow> eureka_step not_found r (eureka_quit r) \<and> sessions False (er_calls (eureka_quit r)) = Some False)"
proof -
  have "eureka_inv eureka_NewRegistrar" by (simp add: eureka_inv_def eureka_NewRegistrar_def)
  from eureka_steps_inv [OF assms this] have i: "eureka_inv r" .
  moreover have "eureka_step not_found r (eureka_quit r)" if "er_waiting r"
    using i that by (intro eureka_hand_over) (auto simp: eureka_inv_def)
  moreover from this have "eureka_inv (eureka_quit r)" if "er_waiting r"
    using eureka_step_inv i that by blast
  ultimately show ?thesis by (auto simp: eureka_inv_def eureka_quit_def)
qed

theorem eureka_registrar_sessions_witness:
  "sessions False (er_calls (eureka_Deregister (eureka_tick [HeartBeatInstance, ReregisterInstance] (eureka_Register eureka_NewRegistrar)))) = Some True"
proof -
  let ?f = "\<lambda>err. err = ForeignError 404"
  let ?r1 = "eureka_Register eureka_NewRegistrar"
  let ?r2 = "eureka_tick [HeartBeatInstance, ReregisterInstance] ?r1"
  have "eureka_step ?f eureka_NewRegistrar ?r1"
    by (rule eureka_register) (simp add: eureka_NewRegistrar_def)
  moreover have "eureka_step ?f ?r1 ?r2"
    by (rule eureka_beat [where beat_err = "Some (ForeignError 404)" and reregister_err = None and err = None])
      (simp_all add: eureka_Register_def eureka_NewRegistrar_def eureka_heartbeat_def)
  moreover have "eureka_step ?f ?r2 (eureka_Deregister ?r2)"
    by (rule eureka_deregister) (simp add: eureka_tick_def eureka_Register_def eureka_NewRegistrar_def)
  ultimately have "(eureka_step ?f)\<^sup>*\<^sup>* eureka_NewRegistrar (eureka_Deregister ?r2)"
    by (meson converse_rtranclp_into_rtranclp r_into_rtranclp)
  from eureka_registrar_sessions [OF this] show ?thesis
    by (simp add: eureka_Deregister_def eureka_tick_def eureka_Register_def eureka_NewRegistrar_def)
qed

text \<open>The instancer publishes the last update of the application, and every registered channel has received
  it last.\<close>

theorem eureka_follows_updates:
  assumes "eureka_run order as s sent" and "iterates order" and "ch \<in> source_listens (in_source s)"
  shows "last_for ch sent = Some (sorted_value (eureka_consume (last as)))"
  using eureka.run_received [OF assms] eureka.run_value [OF assms(1,2)] by simp

theorem eureka_follows_updates_witness:
  "\<exists>s sent. eureka_run (\<lambda>xs. xs) [Inr [\<lparr>fi_IPAddr = ''b'', fi_Port = 80\<rparr>, \<lparr>fi_IPAddr = ''a'', fi_Port = 80\<rparr>]] s sent
    \<and> last_for 3 sent = Some (Some [''a:80'', ''b:80''], None)"
proof -
  let ?u = "Inr [\<lparr>fi_IPAddr = ''b'', fi_Port = 80\<rparr>, \<lparr>fi_IPAddr = ''a'', fi_Port = 80\<rparr>] :: AppUpdate"
  let ?s = "new_instancer (\<lambda>xs. xs) () (eureka_consume ?u)"
  obtain s sent where l: "Instancer_Register 3 ?s = (s, sent)" by (rule prod.exhaust)
  have "eureka_run (\<lambda>xs. xs) [?u] ?s []"
    by (rule run_start) (simp add: eureka_NewInstancer_def)
  from run_register [OF this l] have r: "eureka_run (\<lambda>xs. xs) [?u] s sent" by simp
  obtain src out where src: "source_listen 3 (in_source ?s) = (src, out)" by (rule prod.exhaust)
  have "source_inv (in_source ?s)" by (intro new_instancer_inv iterates_id)
  from source_listen_law [OF this src] l have "3 \<in> source_listens (in_source s)"
    by (auto simp: Instancer_Register_def src)
  from eureka_follows_updates [OF r iterates_id this] have "last_for 3 sent = Some (sorted_value (eureka_consume ?u))" by simp
  moreover have "nat_to_dec 80 = ''80''" by code_simp
  ultimately show ?thesis using r by (auto simp: eureka_consume_def convertFargoAppToInstances_def Itoa_def)
qed

end
