(* ===== verification/Fasthttp.thy ===== *)
theory Fasthttp
  imports Http_Server
begin

text \<open>
  Package transport/fasthttp: the transport over the library fasthttp. A \<open>RequestCtx\<close> of the library is a
  value of the type \<open>'c\<close>, which the handlers change in place; what the package uses of it is a record of
  functions, \<open>fh_lib\<close>, and the world is part of it. The keys of the user values are strings.
\<close>

subsection \<open>The library\<close>

record 'c fh_lib =
  fh_Response_Header_Set :: "string \<Rightarrow> string \<Rightarrow> 'c \<Rightarrow> 'c"
  fh_Response_Header_Add :: "string \<Rightarrow> string \<Rightarrow> 'c \<Rightarrow> 'c"
  fh_SetStatusCode :: "int \<Rightarrow> 'c \<Rightarrow> 'c"
  fh_SetBody :: "string \<Rightarrow> 'c \<Rightarrow> 'c"
  fh_BodyWriter_Write :: "string \<Rightarrow> 'c \<Rightarrow> 'c"
  fh_SetUserValue :: "string \<Rightarrow> any \<Rightarrow> 'c \<Rightarrow> 'c"
  fh_Method :: "'c \<Rightarrow> string"
  fh_URI :: "'c \<Rightarrow> string"
  fh_Path :: "'c \<Rightarrow> string"
  fh_Protocol :: "'c \<Rightarrow> string"
  fh_Host :: "'c \<Rightarrow> string"
  fh_RemoteAddr :: "'c \<Rightarrow> string"
  fh_VisitAll :: "'c \<Rightarrow> (string \<times> string) list"
  fh_Request_Body :: "'c \<Rightarrow> string"
  fh_Response_Header :: "'c \<Rightarrow> Header"
  fh_Response_Body :: "'c \<Rightarrow> string"

subsection \<open>Request and response functions\<close>

type_synonym 'c fh_RequestFunc = "'c \<Rightarrow> 'c"

definition fh_SetResponseHeader :: "'c fh_lib \<Rightarrow> string \<Rightarrow> string \<Rightarrow> 'c fh_RequestFunc" where
  "fh_SetResponseHeader lib key val ctx = fh_Response_Header_Set lib key val ctx"

definition fh_SetContentType :: "'c fh_lib \<Rightarrow> string \<Rightarrow> 'c fh_RequestFunc" where
  "fh_SetContentType lib contentType = fh_SetResponseHeader lib ''Content-Type'' contentType"

definition fh_SetRequestHeader :: "'c fh_lib \<Rightarrow> string \<Rightarrow> string \<Rightarrow> 'c fh_RequestFunc" where
  "fh_SetRequestHeader lib key val ctx = fh_Response_Header_Set lib key val ctx"

definition fh_ContextKeyResponseHeaders :: string where "fh_ContextKeyResponseHeaders = ''fasthttp.ResponseHeaders''"
definition fh_ContextKeyResponseSize :: string where "fh_ContextKeyResponseSize = ''fasthttp.ResponseSize''"

definition fh_context_keys :: "string list" where
  "fh_context_keys =
     [''fasthttp.Method'', ''fasthttp.URI'', ''fasthttp.Path'', ''fasthttp.Proto'', ''fasthttp.Host'', ''fasthttp.RemoteAddr'',
      ''fasthttp.XForwardedFor'', ''fasthttp.XForwardedProto'', ''fasthttp.Authorization'', ''fasthttp.Referer'',
      ''fasthttp.UserAgent'', ''fasthttp.XRequestID'', ''fasthttp.Accept'']"

text \<open>A header that occurs twice keeps its last value.\<close>

definition fh_header :: "(string \<times> string) list \<Rightarrow> Header" where
  "fh_header kvs = fold (\<lambda>(key, val) header. AList.update key [val] header) kvs []"

definition fh_request_values :: "'c fh_lib \<Rightarrow> 'c \<Rightarrow> (string \<times> string) list" where
  "fh_request_values lib ctx =
     (let header = fh_header (fh_VisitAll lib ctx) in
      zip fh_context_keys
        [fh_Method lib ctx, fh_URI lib ctx, fh_Path lib ctx, fh_Protocol lib ctx, fh_Host lib ctx, fh_RemoteAddr lib ctx,
         Header_Get header ''X-Forwarded-For'', Header_Get header ''X-Forwarded-Proto'', Header_Get header ''Authorization'',
         Header_Get header ''Referer'', Header_Get header ''User-Agent'', Header_Get header ''X-Request-Id'',
         Header_Get header ''Accept''])"

definition fh_PopulateRequestContext :: "'c fh_lib \<Rightarrow> ((string \<times> string) list \<Rightarrow> (string \<times> string) list) \<Rightarrow> 'c fh_RequestFunc" where
  "fh_PopulateRequestContext lib it ctx =
     fold (\<lambda>(k, v) ctx. fh_SetUserValue lib k (AnyString v) ctx) (it (fh_request_values lib ctx)) ctx"

subsection \<open>The server\<close>

record ('c, 'i, 'o) fh_server =
  fs_e :: "'c \<Rightarrow> 'i \<Rightarrow> 'c \<times> 'o reply"
  fs_dec :: "'c \<Rightarrow> 'c \<times> (go_error + 'i)"
  fs_enc :: "'o \<Rightarrow> 'c \<Rightarrow> 'c \<times> go_error option"
  fs_before :: "'c fh_RequestFunc list"
  fs_after :: "('c \<Rightarrow> 'c) list"
  fs_errorEncoder :: "go_error \<Rightarrow> 'c \<Rightarrow> 'c"
  fs_finalizer :: "('c \<Rightarrow> 'c) list"
  fs_errorHandler :: "go_error \<Rightarrow> 'c \<Rightarrow> 'c"

type_synonym ('c, 'i, 'o) fh_server_option = "('c, 'i, 'o) fh_server \<Rightarrow> ('c, 'i, 'o) fh_server"

definition fh_ServerBefore :: "'c fh_RequestFunc list \<Rightarrow> ('c, 'i, 'o) fh_server_option" where
  "fh_ServerBefore before s = s\<lparr>fs_before := fs_before s @ before\<rparr>"

definition fh_ServerAfter :: "('c \<Rightarrow> 'c) list \<Rightarrow> ('c, 'i, 'o) fh_server_option" where
  "fh_ServerAfter after s = s\<lparr>fs_after := fs_after s @ after\<rparr>"

definition fh_ServerErrorEncoder :: "(go_error \<Rightarrow> 'c \<Rightarrow> 'c) \<Rightarrow> ('c, 'i, 'o) fh_server_option" where
  "fh_ServerErrorEncoder ee s = s\<lparr>fs_errorEncoder := ee\<rparr>"

definition fh_ServerErrorLogger :: "(go_error \<Rightarrow> 'c \<Rightarrow> 'c) \<Rightarrow> ('c, 'i, 'o) fh_server_option" where
  "fh_ServerErrorLogger log s = s\<lparr>fs_errorHandler := log\<rparr>"

definition fh_ServerErrorHandler :: "(go_error \<Rightarrow> 'c \<Rightarrow> 'c) \<Rightarrow> ('c, 'i, 'o) fh_server_option" where
  "fh_ServerErrorHandler errorHandler s = s\<lparr>fs_errorHandler := errorHandler\<rparr>"

definition fh_ServerFinalizer :: "('c \<Rightarrow> 'c) list \<Rightarrow> ('c, 'i, 'o) fh_server_option" where
  "fh_ServerFinalizer f s = s\<lparr>fs_finalizer := fs_finalizer s @ f\<rparr>"

definition fh_EncodeJSONResponse :: "'c fh_lib \<Rightarrow> header_order \<Rightarrow> ('o \<Rightarrow> view) \<Rightarrow> ('o \<Rightarrow> go_error + string)
    \<Rightarrow> 'o \<Rightarrow> 'c \<Rightarrow> 'c \<times> go_error option" where
  "fh_EncodeJSONResponse lib it view marshal response ctx =
     (let ctx1 = fh_Response_Header_Set lib ''Content-Type'' ''application/json; charset=utf-8'' ctx;
          ctx2 = (case v_Headers (view response) of
                    None \<Rightarrow> ctx1
                  | Some hs \<Rightarrow> fold (\<lambda>(k, values) ctx. fold (\<lambda>v ctx. fh_Response_Header_Add lib k v ctx) values ctx) (it hs) ctx1);
          code = (case v_StatusCode (view response) of None \<Rightarrow> StatusOK | Some c \<Rightarrow> c);
          ctx3 = fh_SetStatusCode lib code ctx2
      in if code = StatusNoContent then (ctx3, None)
         else case marshal response of
             Inl err \<Rightarrow> (ctx3, Some err)
           | Inr json \<Rightarrow> (fh_BodyWriter_Write lib (json @ [CHR 0x0A]) ctx3, None))"

definition fh_DefaultErrorEncoder :: "'c fh_lib \<Rightarrow> header_order \<Rightarrow> (go_error \<Rightarrow> view) \<Rightarrow> go_error \<Rightarrow> 'c \<Rightarrow> 'c" where
  "fh_DefaultErrorEncoder lib it view err ctx =
     (let (contentType, body) =
            (case v_MarshalJSON (view err) of
               Some (Some jsonBody) \<Rightarrow> (''application/json; charset=utf-8'', jsonBody)
             | _ \<Rightarrow> (''text/plain; charset=utf-8'', v_Error (view err)));
          ctx1 = fh_Response_Header_Set lib ''Content-Type'' contentType ctx;
          ctx2 = (case v_Headers (view err) of
                    None \<Rightarrow> ctx1
                  | Some hs \<Rightarrow> fold (\<lambda>(k, values) ctx. fold (\<lambda>v ctx. fh_Response_Header_Add lib k v ctx) values ctx) (it hs) ctx1);
          code = (case v_StatusCode (view err) of None \<Rightarrow> StatusInternalServerError | Some c \<Rightarrow> c)
      in fh_SetBody lib body (fh_SetStatusCode lib code ctx2))"

text \<open>What \<open>NewServer\<close> makes of its arguments and options, and the handler that it returns.\<close>

definition fh_new_server :: "'c fh_lib \<Rightarrow> header_order \<Rightarrow> (go_error \<Rightarrow> view) \<Rightarrow> ('c \<Rightarrow> 'i \<Rightarrow> 'c \<times> 'o reply)
    \<Rightarrow> ('c \<Rightarrow> 'c \<times> (go_error + 'i)) \<Rightarrow> ('o \<Rightarrow> 'c \<Rightarrow> 'c \<times> go_error option) \<Rightarrow> ('c, 'i, 'o) fh_server_option list
    \<Rightarrow> ('c, 'i, 'o) fh_server" where
  "fh_new_server lib it view e dec enc opts =
     fold (\<lambda>option s. option s) opts
       \<lparr>fs_e = e, fs_dec = dec, fs_enc = enc, fs_before = [], fs_after = [],
        fs_errorEncoder = fh_DefaultErrorEncoder lib it view, fs_finalizer = [], fs_errorHandler = (\<lambda>err ctx. ctx)\<rparr>"

definition fh_serve :: "('c, 'i, 'o) fh_server \<Rightarrow> 'c \<Rightarrow> 'c \<times> unit outcome" where
  "fh_serve s ctx =
     (let fail = (\<lambda>err ctx. (fs_errorEncoder s err (fs_errorHandler s err ctx), Ret ()));
          ctx1 = fold (\<lambda>before ctx. before ctx) (fs_before s) ctx
      in case fs_dec s ctx1 of
           (ctx2, Inl err) \<Rightarrow> fail err ctx2
         | (ctx2, Inr request) \<Rightarrow>
             (case fs_e s ctx2 request of
                (ctx3, Panicked p) \<Rightarrow> (ctx3, Panic p)
              | (ctx3, Reply _ (Some err)) \<Rightarrow> fail err ctx3
              | (ctx3, Reply response None) \<Rightarrow>
                  (let ctx4 = fold (\<lambda>after ctx. after ctx) (fs_after s) ctx3 in
                   case fs_enc s response ctx4 of
                     (ctx5, Some err) \<Rightarrow> fail err ctx5
                   | (ctx5, None) \<Rightarrow> (ctx5, Ret ()))))"

definition fh_finalize :: "'c fh_lib \<Rightarrow> ('c, 'i, 'o) fh_server \<Rightarrow> 'c \<Rightarrow> 'c" where
  "fh_finalize lib s ctx =
     (if length (fs_finalizer s) > 0 then
        let ctx1 = fh_SetUserValue lib fh_ContextKeyResponseHeaders (AnyHeader (fh_Response_Header lib ctx)) ctx;
            ctx2 = fh_SetUserValue lib fh_ContextKeyResponseSize (AnyInt (int (length (fh_Response_Body lib ctx1)))) ctx1
        in fold (\<lambda>f ctx. f ctx) (fs_finalizer s) ctx2
      else ctx)"

definition fh_NewServer :: "'c fh_lib \<Rightarrow> header_order \<Rightarrow> (go_error \<Rightarrow> view) \<Rightarrow> ('c \<Rightarrow> 'i \<Rightarrow> 'c \<times> 'o reply)
    \<Rightarrow> ('c \<Rightarrow> 'c \<times> (go_error + 'i)) \<Rightarrow> ('o \<Rightarrow> 'c \<Rightarrow> 'c \<times> go_error option) \<Rightarrow> ('c, 'i, 'o) fh_server_option list
    \<Rightarrow> 'c \<Rightarrow> 'c \<times> unit outcome" where
  "fh_NewServer lib it view e dec enc opts ctx =
     (let s = fh_new_server lib it view e dec enc opts in
      case fh_serve s ctx of (ctx1, out) \<Rightarrow> (fh_finalize lib s ctx1, out))"

definition fh_NopRequestDecoder :: "'c \<Rightarrow> 'c \<times> (go_error + 'x option)" where
  "fh_NopRequestDecoder ctx = (ctx, Inr None)"

definition fh_DefaultDecodeJson :: "'c fh_lib \<Rightarrow> (string \<Rightarrow> go_error + 'i) \<Rightarrow> 'c \<Rightarrow> 'c \<times> (go_error + 'i)" where
  "fh_DefaultDecodeJson lib unmarshal ctx = (ctx, unmarshal (fh_Request_Body lib ctx))"

subsection \<open>The client\<close>

text \<open>Requests and responses of the library are values of types \<open>'q\<close> and \<open>'p\<close>; \<open>fc_do\<close> fills in a response.\<close>

record ('w, 'q, 'p, 'i, 'o) fh_client =
  fc_do :: "'q \<Rightarrow> 'w \<Rightarrow> 'w \<times> (go_error + 'p)"
  fc_req :: "'q \<Rightarrow> 'i \<Rightarrow> 'w \<Rightarrow> 'w \<times> (go_error + 'q)"
  fc_dec :: "'p \<Rightarrow> 'w \<Rightarrow> 'w \<times> 'o \<times> go_error option"
  fc_bufferedStream :: bool

type_synonym ('w, 'q, 'p, 'i, 'o) fh_client_option = "('w, 'q, 'p, 'i, 'o) fh_client \<Rightarrow> ('w, 'q, 'p, 'i, 'o) fh_client"

text \<open>\<open>strings.Split(s, "//")\<close>.\<close>

fun split_slashes :: "string \<Rightarrow> string list" where
  "split_slashes [] = [[]]"
| "split_slashes [c] = [[c]]"
| "split_slashes (c # d # s) =
     (if c = CHR ''/'' \<and> d = CHR ''/'' then [] # split_slashes s
      else (case split_slashes (d # s) of [] \<Rightarrow> [[c]] | p # ps \<Rightarrow> (c # p) # ps))"

definition fh_client_host :: "string \<Rightarrow> string" where
  "fh_client_host host = (if strings_Contains host ''//'' then split_slashes host ! 1 else host)"

text \<open>The request that \<open>NewClient\<close> makes: \<open>prepare\<close> sets the host, the path and the method.\<close>

definition fh_client_request :: "(string \<Rightarrow> string \<Rightarrow> string \<Rightarrow> 'q \<Rightarrow> 'q) \<Rightarrow> string \<Rightarrow> string \<Rightarrow> string
    \<Rightarrow> ('q \<Rightarrow> 'i \<Rightarrow> 'w \<Rightarrow> 'w \<times> (go_error + 'q)) \<Rightarrow> 'q \<Rightarrow> 'i \<Rightarrow> 'w \<Rightarrow> 'w \<times> (go_error + 'q)" where
  "fh_client_request prepare method host path enc rc i w = enc (prepare (fh_client_host host) path method rc) i w"

definition fh_NewClient :: "('q \<Rightarrow> 'w \<Rightarrow> 'w \<times> (go_error + 'p)) \<Rightarrow> (string \<Rightarrow> string \<Rightarrow> string \<Rightarrow> 'q \<Rightarrow> 'q) \<Rightarrow> string \<Rightarrow> string \<Rightarrow> string
    \<Rightarrow> ('q \<Rightarrow> 'i \<Rightarrow> 'w \<Rightarrow> 'w \<times> (go_error + 'q)) \<Rightarrow> ('p \<Rightarrow> 'w \<Rightarrow> 'w \<times> 'o \<times> go_error option)
    \<Rightarrow> ('w, 'q, 'p, 'i, 'o) fh_client_option list \<Rightarrow> ('w, 'q, 'p, 'i, 'o) fh_client" where
  "fh_NewClient fasthttp_Do prepare method host path enc dec opts =
     fold (\<lambda>option c. option c) opts
       \<lparr>fc_do = fasthttp_Do, fc_req = fh_client_request prepare method host path enc, fc_dec = dec, fc_bufferedStream = False\<rparr>"

definition fh_BufferedStream :: "bool \<Rightarrow> ('w, 'q, 'p, 'i, 'o) fh_client_option" where
  "fh_BufferedStream buffered c = c\<lparr>fc_bufferedStream := buffered\<rparr>"

text \<open>\<open>as_Reader\<close> is the assertion that the request is a reader, \<open>SetBodyStream\<close> makes it the body.\<close>

definition fh_Call :: "('w, 'q, 'p, 'i, 'o) fh_client \<Rightarrow> 'q \<Rightarrow> ('i \<Rightarrow> 's option) \<Rightarrow> ('s \<Rightarrow> 'q \<Rightarrow> 'q) \<Rightarrow> 'o \<Rightarrow> 'i \<Rightarrow> 'w
    \<Rightarrow> 'w \<times> 'o \<times> go_error option" where
  "fh_Call c acquired as_Reader SetBodyStream zero i w =
     (case fc_req c acquired i w of
        (w1, Inl err) \<Rightarrow> (w1, zero, Some err)
      | (w1, Inr req) \<Rightarrow>
          (let send = (\<lambda>req. case fc_do c req w1 of
                  (w2, Inl err) \<Rightarrow> (w2, zero, Some err)
                | (w2, Inr resp) \<Rightarrow> fc_dec c resp w2)
           in if fc_bufferedStream c then
                (case as_Reader i of
                   None \<Rightarrow> (w1, zero, Some (ErrorText ''body must be of type io.Reader when using bufferedStream''))
                 | Some stream \<Rightarrow> send (SetBodyStream stream req))
              else send req))"

subsection \<open>Properties\<close>

text \<open>What the library promises of a response: the status and the body are those set last.\<close>

definition fh_lawful :: "'c fh_lib \<Rightarrow> ('c \<Rightarrow> int) \<Rightarrow> bool" where
  "fh_lawful lib status \<longleftrightarrow>
     (\<forall>c ctx. status (fh_SetStatusCode lib c ctx) = c) \<and>
     (\<forall>b ctx. fh_Response_Body lib (fh_SetBody lib b ctx) = b \<and> status (fh_SetBody lib b ctx) = status ctx)"

lemma fh_error_encoded:
  assumes "fh_lawful lib status"
  shows "status (fh_DefaultErrorEncoder lib it view err ctx)
      = (case v_StatusCode (view err) of None \<Rightarrow> StatusInternalServerError | Some c \<Rightarrow> c)
    \<and> fh_Response_Body lib (fh_DefaultErrorEncoder lib it view err ctx)
      = (case v_MarshalJSON (view err) of Some (Some json) \<Rightarrow> json | _ \<Rightarrow> v_Error (view err))"
  using assms by (simp add: fh_lawful_def fh_DefaultErrorEncoder_def Let_def split: option.split)

text \<open>The error that a request ends with, if it does not panic.\<close>

definition fh_error :: "'c \<times> (go_error + 'i) \<Rightarrow> ('i \<Rightarrow> 'c \<Rightarrow> 'c \<times> 'o reply) \<Rightarrow> ('o \<Rightarrow> 'c \<Rightarrow> 'c \<times> go_error option) \<Rightarrow> go_error option outcome" where
  "fh_error decoded e enc =
     (case decoded of
        (_, Inl err) \<Rightarrow> Ret (Some err)
      | (ctx, Inr request) \<Rightarrow>
          (case e request ctx of
             (_, Panicked p) \<Rightarrow> Panic p
           | (_, Reply _ (Some err)) \<Rightarrow> Ret (Some err)
           | (ctx1, Reply response None) \<Rightarrow> Ret (snd (enc response ctx1))))"

text \<open>The client of a fasthttp server always gets the error that a request ended with: whether decoding, the
  endpoint or encoding failed, and whatever was written before, the status and the body are those of the
  error; over net/http the status of an encoding that fails was already sent.\<close>

theorem fh_errors_reach_client:
  assumes "fh_lawful lib status"
    and "fh_error (dec ctx) (\<lambda>request ctx. e ctx request) enc = Ret (Some err)"
    and "fh_NewServer lib it view e dec enc [] ctx = (ctx', out)"
  shows "out = Ret ()
    \<and> status ctx' = (case v_StatusCode (view err) of None \<Rightarrow> StatusInternalServerError | Some c \<Rightarrow> c)
    \<and> fh_Response_Body lib ctx' = (case v_MarshalJSON (view err) of Some (Some json) \<Rightarrow> json | _ \<Rightarrow> v_Error (view err))"
proof -
  have "\<exists>ctx1. ctx' = fh_DefaultErrorEncoder lib it view err ctx1 \<and> out = Ret ()"
    using assms(2,3)
    by (auto simp: fh_NewServer_def fh_new_server_def fh_serve_def fh_error_def fh_finalize_def Let_def
        split: prod.splits sum.splits reply.splits option.splits)
  then show ?thesis using fh_error_encoded [OF assms(1)] by blast
qed

text \<open>A library in memory: status, body and user values.\<close>

definition mem_lib :: "(int \<times> string \<times> (string \<times> any) list) fh_lib" where
  "mem_lib =
     \<lparr>fh_Response_Header_Set = (\<lambda>k v ctx. ctx), fh_Response_Header_Add = (\<lambda>k v ctx. ctx),
      fh_SetStatusCode = (\<lambda>c (_, b, vs). (c, b, vs)), fh_SetBody = (\<lambda>b (c, _, vs). (c, b, vs)),
      fh_BodyWriter_Write = (\<lambda>p (c, b, vs). (c, b @ p, vs)), fh_SetUserValue = (\<lambda>k v (c, b, vs). (c, b, (k, v) # vs)),
      fh_Method = (\<lambda>_. ''GET''), fh_URI = (\<lambda>_. ''/''), fh_Path = (\<lambda>_. ''/''), fh_Protocol = (\<lambda>_. ''HTTP/1.1''),
      fh_Host = (\<lambda>_. ''h''), fh_RemoteAddr = (\<lambda>_. ''1.2.3.4:5''),
      fh_VisitAll = (\<lambda>_. [(''Accept'', ''a''), (''User-Agent'', ''u''), (''Accept'', ''b'')]),
      fh_Request_Body = (\<lambda>_. ''{}''), fh_Response_Header = (\<lambda>_. []), fh_Response_Body = (\<lambda>(c, b, vs). b)\<rparr>"

theorem fh_errors_reach_client_witness:
  "fst (fst (fh_NewServer mem_lib id (\<lambda>err. \<lparr>v_StatusCode = Some 503, v_Headers = None, v_Error = ''later'', v_MarshalJSON = None\<rparr>)
     (\<lambda>ctx request. (ctx, Reply request None)) (\<lambda>ctx. (ctx, Inr (5 :: nat)))
     (\<lambda>response ctx. (fh_BodyWriter_Write mem_lib ''half'' (fh_SetStatusCode mem_lib 200 ctx), Some (ErrorText ''lost''))) [] (0, ''x'', []))) = 503"
proof -
  let ?view = "\<lambda>err. \<lparr>v_StatusCode = Some 503, v_Headers = None, v_Error = ''later'', v_MarshalJSON = None\<rparr>"
  let ?e = "\<lambda>ctx request. (ctx, Reply request None)" and ?dec = "\<lambda>ctx. (ctx, Inr (5 :: nat))"
  let ?enc = "\<lambda>response ctx. (fh_BodyWriter_Write mem_lib ''half'' (fh_SetStatusCode mem_lib 200 ctx), Some (ErrorText ''lost''))"
  obtain ctx' out where r: "fh_NewServer mem_lib id ?view ?e ?dec ?enc [] (0, ''x'', []) = (ctx', out)"
    by (rule prod.exhaust)
  have "fh_lawful mem_lib fst" by (simp add: fh_lawful_def mem_lib_def split: prod.split)
  moreover have "fh_error (?dec (0, ''x'', [])) (\<lambda>request ctx. ?e ctx request) ?enc = Ret (Some (ErrorText ''lost''))"
    by (simp add: fh_error_def)
  ultimately have "fst ctx' = 503" using fh_errors_reach_client [OF _ _ r] by fastforce
  then show ?thesis by (simp only: r prod.sel)
qed

text \<open>After \<open>PopulateRequestContext\<close> every key of the package has the value of the request that it stands for, in
  whatever order they are set; of a header that occurs twice it is the last one.\<close>

theorem fh_populated:
  assumes "iterates it" and "(k, v) \<in> set (fh_request_values lib ctx)"
    and "\<And>k v k' ctx. value_of k' (fh_SetUserValue lib k v ctx) = (if k' = k then Some v else value_of k' ctx)"
  shows "value_of k (fh_PopulateRequestContext lib it ctx) = Some (AnyString v)"
proof -
  let ?vs = "fh_request_values lib ctx"
  have "map fst ?vs = fh_context_keys" by (simp add: fh_request_values_def fh_context_keys_def Let_def)
  then have d: "distinct (map fst ?vs)" by (simp add: fh_context_keys_def)
  have s: "set (it ?vs) = set ?vs" "distinct (map fst (it ?vs))"
    using iterates_set [OF assms(1)] d iterates_map_mset [OF assms(1), of fst ?vs] mset_eq_imp_distinct_iff by blast+
  have "distinct (map fst xs) \<Longrightarrow> value_of k (fold (\<lambda>(k, v) ctx. fh_SetUserValue lib k (AnyString v) ctx) xs c)
      = (case map_of xs k of None \<Rightarrow> value_of k c | Some v \<Rightarrow> Some (AnyString v))" for xs c
  proof (induction xs arbitrary: c)
    case (Cons p xs)
    then show ?case by (cases p) (auto simp: assms(3) map_of_eq_None_iff [THEN iffD2] split: option.splits dest: map_of_SomeD)
  qed simp
  with s assms(2) show ?thesis by (simp add: fh_PopulateRequestContext_def)
qed

theorem fh_populated_witness:
  "map_of (snd (snd (fh_PopulateRequestContext mem_lib rev (0, '''', [])))) ''fasthttp.Accept'' = Some (AnyString ''b'')"
proof -
  let ?value_of = "\<lambda>k (ctx :: int \<times> string \<times> (string \<times> any) list). map_of (snd (snd ctx)) k"
  have c: "CanonicalHeaderKey ''Accept'' = ''Accept''" by code_simp
  have "(''fasthttp.Accept'', ''b'') \<in> set (fh_request_values mem_lib (0, '''', []))"
    by (simp add: fh_request_values_def fh_context_keys_def fh_header_def mem_lib_def Header_Get_def Header_values_def c)
  from fh_populated [OF iterates_rev this, of ?value_of] show ?thesis
    by (simp add: mem_lib_def split: prod.split)
qed

text \<open>\<open>SetRequestHeader\<close> sets a header of the response.\<close>

lemma fh_SetRequestHeader_sets_response: "fh_SetRequestHeader lib key val = fh_SetResponseHeader lib key val"
  by (simp add: fh_SetRequestHeader_def fh_SetResponseHeader_def fun_eq_iff)

lemma split_slashes_plain: "CHR ''/'' \<notin> set s \<Longrightarrow> split_slashes s = [s]"
  by (induction s rule: split_slashes.induct) auto

text \<open>A client that was given a URL for a host takes what comes after the scheme.\<close>

lemma fh_client_host_scheme:
  assumes "CHR ''/'' \<notin> set scheme" and "CHR ''/'' \<notin> set host"
  shows "fh_client_host (scheme @ ''//'' @ host) = host \<and> fh_client_host host = host"
proof -
  have "split_slashes (s @ ''//'' @ host) = [s, host]" if "CHR ''/'' \<notin> set s" for s
    using that split_slashes_plain [OF assms(2)]
    by (induction s rule: split_slashes.induct) auto
  moreover have "strings_Contains (s @ ''//'' @ host) ''//''" for s
    by (induction s) (auto simp: HasPrefix_def)
  moreover have "\<not> strings_Contains s ''//''" if "CHR ''/'' \<notin> set s" for s
    using that by (induction s) (auto simp: HasPrefix_def)
  ultimately show ?thesis using assms by (simp add: fh_client_host_def)
qed

end
