(* ===== verification/Influx.thy ===== *)
theory Influx
  imports Line_Writer Generic_Metrics
begin

text \<open>
  Package metrics/influx, file influx.go: a backend that collects observations in three spaces and
  writes them as a batch of points. A metric is its name and its labels; the space that it observes in is
  that of the operation. The batches and points of the client library are parameters (\<open>influxdb\<close>), as
  is the configuration of a batch, of type \<open>'c\<close>, and the quantiles of a histogram (\<open>quantiles\<close>). A callback of
  a walk that panics ends the walk with the message in \<open>fl_panic\<close>. Errors are their texts.
\<close>

type_synonym tags = "string \<rightharpoonup> string"
type_synonym fields = "(string \<times> float64) list"

record 'c Influx =
  in_counters :: Space
  in_gauges :: Space
  in_histograms :: Space
  in_tags :: tags
  in_conf :: 'c

definition Influx_New :: "tags \<Rightarrow> 'c \<Rightarrow> 'c Influx" where
  "Influx_New tags conf =
     \<lparr>in_counters = NewSpace, in_gauges = NewSpace, in_histograms = NewSpace, in_tags = tags, in_conf = conf\<rparr>"

record influx_metric =
  im_name :: string
  im_lvs :: "string list"

definition Influx_NewCounter :: "string \<Rightarrow> influx_metric" where
  "Influx_NewCounter name = \<lparr>im_name = name, im_lvs = []\<rparr>"

definition Influx_NewGauge :: "string \<Rightarrow> influx_metric" where
  "Influx_NewGauge name = \<lparr>im_name = name, im_lvs = []\<rparr>"

definition Influx_NewHistogram :: "string \<Rightarrow> influx_metric" where
  "Influx_NewHistogram name = \<lparr>im_name = name, im_lvs = []\<rparr>"

definition Influx_Counter_With :: "influx_metric \<Rightarrow> string list \<Rightarrow> influx_metric" where
  "Influx_Counter_With c labelValues = \<lparr>im_name = im_name c, im_lvs = lv_With (im_lvs c) labelValues\<rparr>"

definition Influx_Gauge_With :: "influx_metric \<Rightarrow> string list \<Rightarrow> influx_metric" where
  "Influx_Gauge_With g labelValues = \<lparr>im_name = im_name g, im_lvs = lv_With (im_lvs g) labelValues\<rparr>"

definition Influx_Histogram_With :: "influx_metric \<Rightarrow> string list \<Rightarrow> influx_metric" where
  "Influx_Histogram_With h labelValues = \<lparr>im_name = im_name h, im_lvs = lv_With (im_lvs h) labelValues\<rparr>"

definition Influx_Counter_Add :: "influx_metric \<Rightarrow> float64 \<Rightarrow> 'c Influx \<Rightarrow> 'c Influx \<times> unit outcome" where
  "Influx_Counter_Add c delta x =
     (let (sp, r) = Space_Observe (in_counters x) (im_name c) (im_lvs c) delta in (x\<lparr>in_counters := sp\<rparr>, r))"

definition Influx_Gauge_Set :: "influx_metric \<Rightarrow> float64 \<Rightarrow> 'c Influx \<Rightarrow> 'c Influx \<times> unit outcome" where
  "Influx_Gauge_Set g v x =
     (let (sp, r) = Space_Observe (in_gauges x) (im_name g) (im_lvs g) v in (x\<lparr>in_gauges := sp\<rparr>, r))"

definition Influx_Gauge_Add :: "influx_metric \<Rightarrow> float64 \<Rightarrow> 'c Influx \<Rightarrow> 'c Influx \<times> unit outcome" where
  "Influx_Gauge_Add g delta x =
     (let (sp, r) = Space_Add (in_gauges x) (im_name g) (im_lvs g) delta in (x\<lparr>in_gauges := sp\<rparr>, r))"

definition Influx_Histogram_Observe :: "influx_metric \<Rightarrow> float64 \<Rightarrow> 'c Influx \<Rightarrow> 'c Influx \<times> unit outcome" where
  "Influx_Histogram_Observe h v x =
     (let (sp, r) = Space_Observe (in_histograms x) (im_name h) (im_lvs h) v in (x\<lparr>in_histograms := sp\<rparr>, r))"

subsection \<open>Tags and fields\<close>

text \<open>The tags of a point: those of the object, then the labels of the metric, which replace them.\<close>

fun set_labels :: "string list \<Rightarrow> tags \<Rightarrow> tags" where
  "set_labels (k # v # lvs) ret = set_labels lvs (ret(k \<mapsto> v))"
| "set_labels _ ret = ret"

definition mergeTags :: "tags \<Rightarrow> string list \<Rightarrow> tags outcome" where
  "mergeTags tags labelValues =
     (if length labelValues mod 2 \<noteq> 0 then Panic ''mergeTags received a labelValues with an odd number of strings''
      else Ret (set_labels labelValues tags))"

definition last_value :: "float64 list \<Rightarrow> float64 outcome" where
  "last_value a = (if a = [] then Panic ''index out of range'' else Ret (last a))"

record 'h quantiles =
  new_gohistogram :: "int \<Rightarrow> 'h"
  gohistogram_Add :: "'h \<Rightarrow> float64 \<Rightarrow> 'h"
  gohistogram_Quantile :: "'h \<Rightarrow> float64 \<Rightarrow> float64"

definition count_fields :: "string \<Rightarrow> float64 list \<Rightarrow> fields outcome" where
  "count_fields name values = Ret [(''count'', sum values)]"

definition value_fields :: "string \<Rightarrow> float64 list \<Rightarrow> fields outcome" where
  "value_fields name values =
     (case last_value values of Ret v \<Rightarrow> Ret [(''value'', v)] | Panic m \<Rightarrow> Panic m)"

definition quantile_fields :: "'h quantiles \<Rightarrow> string \<Rightarrow> float64 list \<Rightarrow> fields outcome" where
  "quantile_fields q name values =
     (let (hs, histogram) = NewHistogram (new_gohistogram q) name 50 [];
          hs1 = fold (Histogram_Observe (gohistogram_Add q) histogram) values hs;
          quantile = (\<lambda>p. Histogram_Quantile (gohistogram_Quantile q) hs1 histogram (f64_round p))
      in Ret [(''p50'', quantile (1 / 2)), (''p90'', quantile (9 / 10)),
              (''p95'', quantile (95 / 100)), (''p99'', quantile (99 / 100))])"

subsection \<open>Flushing\<close>

record ('c, 'p, 'b, 'w) influxdb =
  NewBatchPoints :: "'c \<Rightarrow> string + 'b"
  NewPoint :: "string \<Rightarrow> tags \<Rightarrow> fields \<Rightarrow> int \<Rightarrow> string + 'p"
  AddPoint :: "'p \<Rightarrow> 'b \<Rightarrow> 'b"
  bp_Write :: "'b \<Rightarrow> 'w \<Rightarrow> 'w \<times> string option"

record 'b flush =
  fl_bp :: 'b
  fl_err :: "string option"
  fl_panic :: "string option"

definition flush_ok :: "'b flush \<Rightarrow> bool" where
  "flush_ok st \<longleftrightarrow> fl_err st = None \<and> fl_panic st = None"

text \<open>The callback of the three walks.\<close>

definition influx_visit :: "('c, 'p, 'b, 'w) influxdb \<Rightarrow> int \<Rightarrow> tags \<Rightarrow> (string \<Rightarrow> float64 list \<Rightarrow> fields outcome)
    \<Rightarrow> string \<Rightarrow> string list \<Rightarrow> float64 list \<Rightarrow> 'b flush \<Rightarrow> 'b flush \<times> bool" where
  "influx_visit db now tags mk name lvs values st =
     (case mergeTags tags lvs of Panic m \<Rightarrow> (st\<lparr>fl_panic := Some m\<rparr>, False)
      | Ret t \<Rightarrow>
         (case mk name values of Panic m \<Rightarrow> (st\<lparr>fl_panic := Some m\<rparr>, False)
          | Ret fs \<Rightarrow>
             (case NewPoint db name t fs now of
                Inl e \<Rightarrow> (st\<lparr>fl_err := Some e\<rparr>, False)
              | Inr p \<Rightarrow> (st\<lparr>fl_bp := AddPoint db p (fl_bp st), fl_err := None\<rparr>, True))))"

definition flush_result :: "'b flush \<Rightarrow> string option outcome" where
  "flush_result st = (case fl_panic st of Some m \<Rightarrow> Panic m | None \<Rightarrow> Ret (fl_err st))"

definition Influx_WriteTo :: "'h quantiles \<Rightarrow> ('c, 'p, 'b, 'w) influxdb \<Rightarrow> name_order \<Rightarrow> label_order \<Rightarrow> int
    \<Rightarrow> 'c Influx \<Rightarrow> 'w \<Rightarrow> 'c Influx \<times> 'w \<times> string option outcome" where
  "Influx_WriteTo q db nit it now x w =
     (case NewBatchPoints db (in_conf x) of
        Inl e \<Rightarrow> (x, w, Ret (Some e))
      | Inr bp \<Rightarrow>
          let st = \<lparr>fl_bp = bp, fl_err = None, fl_panic = None\<rparr>;
              (counters, c) = Space_Reset (in_counters x);
              x1 = x\<lparr>in_counters := counters\<rparr>;
              st1 = Space_Walk nit it (influx_visit db now (in_tags x) count_fields) c st
          in if \<not> flush_ok st1 then (x1, w, flush_result st1)
             else let (gauges, g) = Space_Reset (in_gauges x1);
                      x2 = x1\<lparr>in_gauges := gauges\<rparr>;
                      st2 = Space_Walk nit it (influx_visit db now (in_tags x) value_fields) g st1
             in if \<not> flush_ok st2 then (x2, w, flush_result st2)
             else let (histograms, h) = Space_Reset (in_histograms x2);
                      x3 = x2\<lparr>in_histograms := histograms\<rparr>;
                      st3 = Space_Walk nit it (influx_visit db now (in_tags x) (quantile_fields q)) h st2
             in if \<not> flush_ok st3 then (x3, w, flush_result st3)
             else let (w1, err) = bp_Write db (fl_bp st3) w in (x3, w1, Ret err))"

text \<open>\<open>WriteLoop\<close>: one \<open>WriteTo\<close> per tick (its time is given) until the context is done; errors are logged.\<close>

fun Influx_WriteLoop :: "'h quantiles \<Rightarrow> ('c, 'p, 'b, 'w) influxdb \<Rightarrow> name_order \<Rightarrow> label_order \<Rightarrow> int list
    \<Rightarrow> 'c Influx \<Rightarrow> 'w \<Rightarrow> 'c Influx \<times> 'w \<times> string list outcome" where
  "Influx_WriteLoop q db nit it [] x w = (x, w, Ret [])"
| "Influx_WriteLoop q db nit it (now # ticks) x w =
     (case Influx_WriteTo q db nit it now x w of
        (x1, w1, Panic m) \<Rightarrow> (x1, w1, Panic m)
      | (x1, w1, Ret err) \<Rightarrow>
          (case Influx_WriteLoop q db nit it ticks x1 w1 of
             (x2, w2, Panic m) \<Rightarrow> (x2, w2, Panic m)
           | (x2, w2, Ret logged) \<Rightarrow> (x2, w2, Ret ((case err of Some e \<Rightarrow> [e] | None \<Rightarrow> []) @ logged))))"

subsection \<open>The states of a program\<close>

text \<open>The metrics that a program can make, and the states that the operations on them lead to.\<close>

inductive influx_made :: "influx_metric \<Rightarrow> bool" where
  counter: "influx_made (Influx_NewCounter name)"
| gauge: "influx_made (Influx_NewGauge name)"
| histogram: "influx_made (Influx_NewHistogram name)"
| counter_with: "influx_made m \<Longrightarrow> influx_made (Influx_Counter_With m ls)"
| gauge_with: "influx_made m \<Longrightarrow> influx_made (Influx_Gauge_With m ls)"
| histogram_with: "influx_made m \<Longrightarrow> influx_made (Influx_Histogram_With m ls)"

inductive influx_reach :: "'h quantiles \<Rightarrow> ('c, 'p, 'b, 'w) influxdb \<Rightarrow> tags \<Rightarrow> 'c \<Rightarrow> 'c Influx \<Rightarrow> bool"
  for q :: "'h quantiles" and db :: "('c, 'p, 'b, 'w) influxdb" and tags :: tags and conf :: 'c where
  init: "influx_reach q db tags conf (Influx_New tags conf)"
| add: "influx_reach q db tags conf x \<Longrightarrow> influx_made m \<Longrightarrow> influx_reach q db tags conf (fst (Influx_Counter_Add m v x))"
| set: "influx_reach q db tags conf x \<Longrightarrow> influx_made m \<Longrightarrow> influx_reach q db tags conf (fst (Influx_Gauge_Set m v x))"
| gauge_add: "influx_reach q db tags conf x \<Longrightarrow> influx_made m \<Longrightarrow>
    influx_reach q db tags conf (fst (Influx_Gauge_Add m v x))"
| observe: "influx_reach q db tags conf x \<Longrightarrow> influx_made m \<Longrightarrow>
    influx_reach q db tags conf (fst (Influx_Histogram_Observe m v x))"
| flush: "influx_reach q db tags conf x \<Longrightarrow> influx_reach q db tags conf (fst (Influx_WriteTo q db nit it now x w))"

definition influx_wf :: "tags \<Rightarrow> 'c \<Rightarrow> 'c Influx \<Rightarrow> bool" where
  "influx_wf tags conf x \<longleftrightarrow> wf_space (in_counters x) \<and> wf_space (in_gauges x) \<and> wf_space (in_histograms x)
     \<and> in_tags x = tags \<and> in_conf x = conf"

lemma influx_made_even: "influx_made m \<Longrightarrow> even (length (im_lvs m))"
  by (induction rule: influx_made.induct)
    (simp_all add: Influx_NewCounter_def Influx_NewGauge_def Influx_NewHistogram_def
      Influx_Counter_With_def Influx_Gauge_With_def Influx_Histogram_With_def)

lemmas influx_op_defs = Influx_Counter_Add_def Influx_Gauge_Set_def Influx_Gauge_Add_def Influx_Histogram_Observe_def

lemma influx_ops_wf:
  assumes "influx_wf tags conf x"
  shows "influx_wf tags conf (fst (Influx_Counter_Add m v x))" "influx_wf tags conf (fst (Influx_Gauge_Set m v x))"
    "influx_wf tags conf (fst (Influx_Gauge_Add m v x))" "influx_wf tags conf (fst (Influx_Histogram_Observe m v x))"
  using assms
  by (simp_all add: influx_wf_def influx_op_defs split_beta Space_Observe_wf Space_Add_wf)

lemma influx_ops_ret:
  assumes "influx_made m"
  shows "snd (Influx_Counter_Add m v x) = Ret ()" "snd (Influx_Gauge_Set m v x) = Ret ()"
    "snd (Influx_Gauge_Add m v x) = Ret ()" "snd (Influx_Histogram_Observe m v x) = Ret ()"
  using influx_made_even [OF assms]
  by (simp_all add: influx_op_defs split_beta Space_outcomes)

lemma Influx_WriteTo_wf: "influx_wf tags conf x \<Longrightarrow> influx_wf tags conf (fst (Influx_WriteTo q db nit it now x w))"
  by (auto simp: influx_wf_def Influx_WriteTo_def Space_Reset_def Let_def split: sum.splits prod.splits)

lemma influx_reach_wf: "influx_reach q db tags conf x \<Longrightarrow> influx_wf tags conf x"
proof (induction rule: influx_reach.induct)
  case init
  then show ?case by (simp add: influx_wf_def Influx_New_def)
qed (simp_all add: influx_ops_wf Influx_WriteTo_wf)

subsection \<open>What a flush writes\<close>

text \<open>The fields of a series that is not empty, and the batch of a list of points, or the first error.\<close>

definition the_quantiles :: "'h quantiles \<Rightarrow> string \<Rightarrow> float64 list \<Rightarrow> fields" where
  "the_quantiles q name vs = (case quantile_fields q name vs of Ret fs \<Rightarrow> fs | Panic m \<Rightarrow> [])"

fun batch :: "('c, 'p, 'b, 'w) influxdb \<Rightarrow> int \<Rightarrow> tags \<Rightarrow> (string \<times> string list \<times> fields) list \<Rightarrow> 'b \<Rightarrow> string + 'b" where
  "batch db now tags [] b = Inr b"
| "batch db now tags ((name, l, fs) # xs) b =
     (case NewPoint db name (set_labels l tags) fs now of
        Inl e \<Rightarrow> Inl e
      | Inr p \<Rightarrow> batch db now tags xs (AddPoint db p b))"

definition flush_points :: "'h quantiles \<Rightarrow> name_order \<Rightarrow> label_order \<Rightarrow> 'c Influx \<Rightarrow> (string \<times> string list \<times> fields) list" where
  "flush_points q nit it x =
     map (\<lambda>(name, l, vs). (name, l, [(''count'', sum vs)])) (Space_series nit it (in_counters x))
   @ map (\<lambda>(name, l, vs). (name, l, [(''value'', last vs)])) (Space_series nit it (in_gauges x))
   @ map (\<lambda>(name, l, vs). (name, l, the_quantiles q name vs)) (Space_series nit it (in_histograms x))"

lemma batch_append:
  "batch db now tags (xs @ ys) b = (case batch db now tags xs b of Inl e \<Rightarrow> Inl e | Inr c \<Rightarrow> batch db now tags ys c)"
  by (induction db now tags xs b rule: batch.induct) (auto split: sum.splits)

definition flushed_as :: "'b flush \<Rightarrow> string + 'b \<Rightarrow> bool" where
  "flushed_as st r \<longleftrightarrow> fl_panic st = None
     \<and> (case r of Inl e \<Rightarrow> fl_err st = Some e | Inr b \<Rightarrow> fl_err st = None \<and> fl_bp st = b)"

lemma visit_series:
  assumes "\<And>name l vs. (name, l, vs) \<in> set xs \<Longrightarrow> even (length l) \<and> mk name vs = Ret (f name vs)" and "flush_ok st"
  shows "flushed_as (fst (until (\<lambda>(name, l, vs). influx_visit db now tags mk name l vs) xs st))
    (batch db now tags (map (\<lambda>(name, l, vs). (name, l, f name vs)) xs) (fl_bp st))"
  using assms
proof (induction xs arbitrary: st)
  case (Cons x xs)
  obtain name l vs where x: "x = (name, l, vs)" by (rule prod_cases3)
  have e: "even (length l)" "mk name vs = Ret (f name vs)" using Cons.prems(1) [of name l vs] by (simp_all add: x)
  then have m: "mergeTags tags l = Ret (set_labels l tags)" by (simp add: mergeTags_def even_iff_mod_2_eq_zero)
  show ?case
  proof (cases "NewPoint db name (set_labels l tags) (f name vs) now")
    case (Inl err)
    with Cons.prems(2) e m show ?thesis by (simp add: x influx_visit_def flushed_as_def flush_ok_def)
  next
    case (Inr p)
    have "flush_ok (st\<lparr>fl_bp := AddPoint db p (fl_bp st), fl_err := None\<rparr>)"
      using Cons.prems(2) by (simp add: flush_ok_def)
    from Cons.IH [OF Cons.prems(1) this] Inr e m show ?thesis by (simp add: x influx_visit_def)
  qed
qed (simp add: flushed_as_def flush_ok_def)

lemma walk_flushes:
  assumes "wf_space sp" and "iterates nit" and "iterates it" and "flush_ok st"
    and "\<And>name vs. vs \<noteq> [] \<Longrightarrow> mk name vs = Ret (f name vs)"
  shows "flushed_as (Space_Walk nit it (influx_visit db now tags mk) sp st)
    (batch db now tags (map (\<lambda>(name, l, vs). (name, l, f name vs)) (Space_series nit it sp)) (fl_bp st))"
  unfolding Space_Walk_until
proof (rule visit_series [OF _ assms(4)])
  fix name l vs
  assume "(name, l, vs) \<in> set (Space_series nit it sp)"
  then have "vs = Space_lookup sp name l" "vs \<noteq> []" using Space_series_set(1) [OF assms(1-3)] by auto
  with assms(5) show "even (length l) \<and> mk name vs = Ret (f name vs)" using Space_lookup_even [of sp name l] by simp
qed

lemma flushed_as_cases:
  "flushed_as st (Inl e) \<Longrightarrow> \<not> flush_ok st \<and> flush_result st = Ret (Some e)"
  "flushed_as st (Inr b) \<Longrightarrow> flush_ok st \<and> fl_bp st = b"
  by (simp_all add: flushed_as_def flush_ok_def flush_result_def)

lemma fields_ret:
  "count_fields name vs = Ret [(''count'', sum vs)]"
  "vs \<noteq> [] \<Longrightarrow> value_fields name vs = Ret [(''value'', last vs)]"
  "quantile_fields q name vs = Ret (the_quantiles q name vs)"
  by (simp_all add: count_fields_def value_fields_def last_value_def the_quantiles_def quantile_fields_def NewHistogram_def Let_def)

lemma Influx_WriteTo_flushes:
  assumes "influx_wf tags conf x" and "iterates nit" and "iterates it" and "NewBatchPoints db conf = Inr bp"
  shows "case batch db now tags (flush_points q nit it x) bp of
      Inl e \<Rightarrow> snd (Influx_WriteTo q db nit it now x w) = (w, Ret (Some e))
        \<and> in_counters (fst (Influx_WriteTo q db nit it now x w)) = NewSpace
    | Inr b \<Rightarrow> Influx_WriteTo q db nit it now x w
        = (Influx_New tags conf, fst (bp_Write db b w), Ret (snd (bp_Write db b w)))"
proof -
  have wf: "wf_space (in_counters x)" "wf_space (in_gauges x)" "wf_space (in_histograms x)"
    "in_tags x = tags" "in_conf x = conf" using assms(1) by (simp_all add: influx_wf_def)
  define st where "st = \<lparr>fl_bp = bp, fl_err = None, fl_panic = None\<rparr>"
  have ok: "flush_ok st" "fl_bp st = bp" by (simp_all add: st_def flush_ok_def)
  define st1 where "st1 = Space_Walk nit it (influx_visit db now tags count_fields) (in_counters x) st"
  define st2 where "st2 = Space_Walk nit it (influx_visit db now tags value_fields) (in_gauges x) st1"
  define st3 where "st3 = Space_Walk nit it (influx_visit db now tags (quantile_fields q)) (in_histograms x) st2"
  have w: "Influx_WriteTo q db nit it now x w =
      (if \<not> flush_ok st1 then (x\<lparr>in_counters := NewSpace\<rparr>, w, flush_result st1)
       else if \<not> flush_ok st2 then (x\<lparr>in_counters := NewSpace, in_gauges := NewSpace\<rparr>, w, flush_result st2)
       else if \<not> flush_ok st3 then (Influx_New tags conf, w, flush_result st3)
       else (Influx_New tags conf, fst (bp_Write db (fl_bp st3) w), Ret (snd (bp_Write db (fl_bp st3) w))))"
    using wf(4,5) by (cases x) (simp add: Influx_WriteTo_def assms(4) Space_Reset_def Influx_New_def split_beta
        st1_def st2_def st3_def st_def Let_def)
  let ?c = "map (\<lambda>(name, l, vs). (name, l, [(''count'', sum vs)])) (Space_series nit it (in_counters x))"
  let ?g = "map (\<lambda>(name, l, vs). (name, l, [(''value'', last vs)])) (Space_series nit it (in_gauges x))"
  let ?h = "map (\<lambda>(name, l, vs). (name, l, the_quantiles q name vs)) (Space_series nit it (in_histograms x))"
  have f1: "flushed_as st1 (batch db now tags ?c bp)"
    using walk_flushes [OF wf(1) assms(2,3) ok(1) fields_ret(1), where db = db and now = now and tags = tags] by (simp add: st1_def ok(2))
  have f2: "flushed_as st2 (batch db now tags ?g (fl_bp st1))" if "flush_ok st1"
    using walk_flushes [OF wf(2) assms(2,3) that fields_ret(2), where db = db and now = now and tags = tags] by (simp add: st2_def)
  have f3: "flushed_as st3 (batch db now tags ?h (fl_bp st2))" if "flush_ok st2"
    using walk_flushes [OF wf(3) assms(2,3) that fields_ret(3), where db = db and now = now and tags = tags] by (simp add: st3_def)
  show ?thesis
  proof (cases "batch db now tags ?c bp")
    case (Inl e)
    from flushed_as_cases(1) [OF f1 [unfolded Inl]] Inl show ?thesis by (simp add: w flush_points_def batch_append)
  next
    case c: (Inr b1)
    note ok1 = flushed_as_cases(2) [OF f1 [unfolded c]]
    show ?thesis
    proof (cases "batch db now tags ?g b1")
      case (Inl e)
      from flushed_as_cases(1) [of st2 e] f2 ok1 c Inl show ?thesis by (simp add: w flush_points_def batch_append)
    next
      case g: (Inr b2)
      note ok2 = flushed_as_cases(2) [of st2 b2]
      show ?thesis
        using flushed_as_cases [of st3] f2 f3 ok1 ok2 c g
        by (cases "batch db now tags ?h b2") (simp_all add: w flush_points_def batch_append Influx_New_def)
    qed
  qed
qed

lemma flush_points_from:
  assumes "influx_wf tags conf x" and "iterates nit" and "iterates it"
  shows "set (flush_points q nit it x) =
      {(name, l, [(''count'', sum vs)]) | name l vs. vs = Space_lookup (in_counters x) name l \<and> vs \<noteq> []}
    \<union> {(name, l, [(''value'', last vs)]) | name l vs. vs = Space_lookup (in_gauges x) name l \<and> vs \<noteq> []}
    \<union> {(name, l, the_quantiles q name vs) | name l vs. vs = Space_lookup (in_histograms x) name l \<and> vs \<noteq> []}"
proof -
  have wf: "wf_space (in_counters x)" "wf_space (in_gauges x)" "wf_space (in_histograms x)"
    using assms(1) by (simp_all add: influx_wf_def)
  show ?thesis
    unfolding flush_points_def set_append set_map Space_series_set(1) [OF wf(1) assms(2,3)]
      Space_series_set(1) [OF wf(2) assms(2,3)] Space_series_set(1) [OF wf(3) assms(2,3)]
    by (simp add: Un_assoc image_Collect split_paired_Ex case_prod_unfold)
qed

subsection \<open>Properties\<close>

text \<open>C39: Types are respected: in every state that a program leads an \<open>Influx\<close> to, with metrics made by its
  constructors and \<open>With\<close>, the spaces are well-formed (no duplicate name or child), every series that holds values
  has label values in pairs, the tags and the configuration are those of \<open>New\<close>, and no operation panics:
  neither \<open>Observe\<close> and \<open>Add\<close> of a space on an odd number of label values, nor \<open>mergeTags\<close> on one, nor \<open>last\<close> on an
  empty slice in \<open>WriteTo\<close>.\<close>

theorem Influx_types:
  assumes "influx_reach q db tags conf x" and "influx_made m" and "iterates nit" and "iterates it"
  shows "influx_wf tags conf x
    \<and> (\<forall>sp name l. sp \<in> {in_counters x, in_gauges x, in_histograms x} \<and> Space_lookup sp name l \<noteq> [] \<longrightarrow> even (length l))
    \<and> snd (Influx_Counter_Add m v x) = Ret () \<and> snd (Influx_Gauge_Set m v x) = Ret ()
    \<and> snd (Influx_Gauge_Add m v x) = Ret () \<and> snd (Influx_Histogram_Observe m v x) = Ret ()
    \<and> (\<exists>x' w' err. Influx_WriteTo q db nit it now x w = (x', w', Ret err) \<and> influx_wf tags conf x')"
proof (intro conjI influx_ops_ret [OF assms(2)] allI impI)
  show wf: "influx_wf tags conf x" by (rule influx_reach_wf [OF assms(1)])
  show "even (length l)" if "sp \<in> {in_counters x, in_gauges x, in_histograms x} \<and> Space_lookup sp name l \<noteq> []"
    for sp name l using that Space_lookup_even by blast
  obtain x' w' r where f: "Influx_WriteTo q db nit it now x w = (x', w', r)" by (rule prod_cases3)
  have "\<exists>err. r = Ret err"
  proof (cases "NewBatchPoints db conf")
    case (Inl e)
    with wf f show ?thesis by (auto simp: Influx_WriteTo_def influx_wf_def)
  next
    case (Inr bp)
    from Influx_WriteTo_flushes [OF wf assms(3,4) Inr, where now = now and q = q and w = w] f show ?thesis
      by (cases "batch db now tags (flush_points q nit it x) bp") auto
  qed
  then show "\<exists>x' w' err. Influx_WriteTo q db nit it now x w = (x', w', Ret err) \<and> influx_wf tags conf x'"
    using f Influx_WriteTo_wf [OF wf, of q db nit it now w] by auto
qed

text \<open>A library whose points and batches are lists, and a histogram that keeps its values.\<close>

definition list_influxdb :: "(unit, string \<times> fields, (string \<times> fields) list, (string \<times> fields) list) influxdb" where
  "list_influxdb = \<lparr>NewBatchPoints = \<lambda>c. Inr [], NewPoint = \<lambda>name t fs now. Inr (name, fs),
     AddPoint = \<lambda>p b. b @ [p], bp_Write = \<lambda>b w. (w @ b, None)\<rparr>"

definition kept_quantiles :: "float64 list quantiles" where
  "kept_quantiles = \<lparr>new_gohistogram = \<lambda>n. [], gohistogram_Add = \<lambda>h v. h @ [v], gohistogram_Quantile = \<lambda>h p. hd h\<rparr>"

definition influx_example :: "unit Influx" where
  "influx_example = fst (Influx_Gauge_Set (Influx_Gauge_With (Influx_NewGauge ''g'') [''k'']) (F64 3)
     (fst (Influx_Counter_Add (Influx_NewCounter ''c'') (F64 2) (Influx_New Map.empty ()))))"

lemma influx_example_reach: "influx_reach kept_quantiles list_influxdb Map.empty () influx_example"
  unfolding influx_example_def
  by (intro influx_reach.set influx_reach.add influx_reach.init influx_made.gauge_with influx_made.gauge influx_made.counter)

lemma influx_example_made: "influx_made (Influx_Histogram_With (Influx_NewHistogram ''h'') [''k'', ''v''])"
  by (intro influx_made.histogram_with influx_made.histogram)

lemma influx_example_series:
  "Space_series (\<lambda>xs. xs) (\<lambda>xs. xs) (in_counters influx_example) = [(''c'', [], [F64 2])]"
  "Space_series (\<lambda>xs. xs) (\<lambda>xs. xs) (in_gauges influx_example) = [(''g'', [''k'', ''unknown''], [F64 3])]"
  "Space_series (\<lambda>xs. xs) (\<lambda>xs. xs) (in_histograms influx_example) = []"
  by (simp_all add: influx_example_def Influx_New_def Influx_NewCounter_def Influx_NewGauge_def Influx_Gauge_With_def
      Influx_Counter_Add_def Influx_Gauge_Set_def lv_With_def pad_labels_def space_eval Let_def)

theorem Influx_types_witness:
  "influx_wf Map.empty () influx_example
   \<and> snd (Influx_Histogram_Observe (Influx_Histogram_With (Influx_NewHistogram ''h'') [''k'', ''v'']) (F64 1) influx_example) = Ret ()
   \<and> (\<exists>x' w' err. Influx_WriteTo kept_quantiles list_influxdb rev rev 7 influx_example [] = (x', w', Ret err)
       \<and> influx_wf Map.empty () x')"
  using Influx_types [OF influx_example_reach influx_example_made iterates_rev iterates_rev, of "F64 1" 7 "[]"] by simp

text \<open>A flush writes one batch: in a reachable state, when the library makes a batch and every point, \<open>WriteTo\<close>
  hands over the batch of exactly one point per series that has values (the sum of a counter, the last value of a
  gauge, the quantiles of a histogram, with the tags of the object and the labels of the series), returns what the
  writer returned, and leaves an empty \<open>Influx\<close> whatever that was. When a point cannot be made, its error is
  returned, nothing is written, and the counters are lost.\<close>

theorem Influx_WriteTo_correct:
  assumes "influx_reach q db tags conf x" and "iterates nit" and "iterates it" and "NewBatchPoints db conf = Inr bp"
    and "Influx_WriteTo q db nit it now x w = (x', w', r)"
  shows "set (flush_points q nit it x) =
      {(name, l, [(''count'', sum vs)]) | name l vs. vs = Space_lookup (in_counters x) name l \<and> vs \<noteq> []}
    \<union> {(name, l, [(''value'', last vs)]) | name l vs. vs = Space_lookup (in_gauges x) name l \<and> vs \<noteq> []}
    \<union> {(name, l, the_quantiles q name vs) | name l vs. vs = Space_lookup (in_histograms x) name l \<and> vs \<noteq> []}
    \<and> (case batch db now tags (flush_points q nit it x) bp of
         Inl e \<Rightarrow> w' = w \<and> r = Ret (Some e) \<and> in_counters x' = NewSpace
       | Inr b \<Rightarrow> x' = Influx_New tags conf \<and> w' = fst (bp_Write db b w) \<and> r = Ret (snd (bp_Write db b w)))"
  using flush_points_from [OF influx_reach_wf [OF assms(1)] assms(2,3), of q]
    Influx_WriteTo_flushes [OF influx_reach_wf [OF assms(1)] assms(2-4), where now = now and q = q and w = w] assms(5)
  by (auto split: sum.splits)

theorem Influx_WriteTo_correct_witness:
  "Influx_WriteTo kept_quantiles list_influxdb (\<lambda>xs. xs) (\<lambda>xs. xs) 7 influx_example []
     = (Influx_New Map.empty (), [(''c'', [(''count'', sum [F64 2])]), (''g'', [(''value'', F64 3)])], Ret None)"
proof -
  obtain x' w' r where f: "Influx_WriteTo kept_quantiles list_influxdb (\<lambda>xs. xs) (\<lambda>xs. xs) 7 influx_example [] = (x', w', r)"
    by (rule prod_cases3)
  have "NewBatchPoints list_influxdb () = Inr []" by (simp add: list_influxdb_def)
  from Influx_WriteTo_correct [OF influx_example_reach iterates_id iterates_id this f] show ?thesis
    unfolding f by (simp add: flush_points_def influx_example_series list_influxdb_def)
qed

end
