(* ===== verification/Metric_Interfaces.thy ===== *)
theory Metric_Interfaces
  imports Generic_Metrics
begin

text \<open>
  Packages metrics, metrics/discard, metrics/internal/convert and metrics/multi: the interfaces of
  metrics and the adapters between them. A value of an interface is what its methods do: a codatatype, for
  \<open>With\<close> returns a metric again, without end. A method works on a world of type \<open>'w\<close> and may panic.
  Two metrics are equal when no sequence of calls tells them apart, which is proved by coinduction.
\<close>

codatatype 'w metrics_Counter = Counter
  (mc_With: "string list \<Rightarrow> 'w \<Rightarrow> 'w \<times> 'w metrics_Counter outcome")
  (mc_Add: "float64 \<Rightarrow> 'w \<Rightarrow> 'w \<times> unit outcome")

codatatype 'w metrics_Gauge = Gauge
  (mg_With: "string list \<Rightarrow> 'w \<Rightarrow> 'w \<times> 'w metrics_Gauge outcome")
  (mg_Set: "float64 \<Rightarrow> 'w \<Rightarrow> 'w \<times> unit outcome")
  (mg_Add: "float64 \<Rightarrow> 'w \<Rightarrow> 'w \<times> unit outcome")

codatatype 'w metrics_Histogram = Histogram
  (mh_With: "string list \<Rightarrow> 'w \<Rightarrow> 'w \<times> 'w metrics_Histogram outcome")
  (mh_Observe: "float64 \<Rightarrow> 'w \<Rightarrow> 'w \<times> unit outcome")

text \<open>What a call of \<open>With\<close> returns, with a function applied to the metric.\<close>

definition returning :: "('a \<Rightarrow> 'b) \<Rightarrow> 'w \<times> 'a outcome \<Rightarrow> 'w \<times> 'b outcome" where
  "returning f = map_prod id (map_outcome f)"

lemma returning_simps [simp]:
  "returning f (w, Ret a) = (w, Ret (f a))" "returning f (w, Panic m) = (w, Panic m)"
  by (simp_all add: returning_def)

subsection \<open>Metrics that discard\<close>

primcorec discard_counter :: "'w metrics_Counter" where
  "mc_With discard_counter = (\<lambda>ls w. map_prod id (map_outcome (\<lambda>c. discard_counter)) (w, Ret ()))"
| "mc_Add discard_counter = (\<lambda>delta w. (w, Ret ()))"

primcorec discard_gauge :: "'w metrics_Gauge" where
  "mg_With discard_gauge = (\<lambda>ls w. map_prod id (map_outcome (\<lambda>g. discard_gauge)) (w, Ret ()))"
| "mg_Set discard_gauge = (\<lambda>v w. (w, Ret ()))"
| "mg_Add discard_gauge = (\<lambda>delta w. (w, Ret ()))"

primcorec discard_histogram :: "'w metrics_Histogram" where
  "mh_With discard_histogram = (\<lambda>ls w. map_prod id (map_outcome (\<lambda>h. discard_histogram)) (w, Ret ()))"
| "mh_Observe discard_histogram = (\<lambda>v w. (w, Ret ()))"

subsection \<open>Conversions\<close>

primcorec counterHistogram :: "'w metrics_Counter \<Rightarrow> 'w metrics_Histogram" where
  "mh_With (counterHistogram c) = (\<lambda>ls w. map_prod id (map_outcome counterHistogram) (mc_With c ls w))"
| "mh_Observe (counterHistogram c) = (\<lambda>v. mc_Add c v)"

primcorec histogramCounter :: "'w metrics_Histogram \<Rightarrow> 'w metrics_Counter" where
  "mc_With (histogramCounter h) = (\<lambda>ls w. map_prod id (map_outcome histogramCounter) (mh_With h ls w))"
| "mc_Add (histogramCounter h) = (\<lambda>delta. mh_Observe h delta)"

primcorec counterGauge :: "'w metrics_Counter \<Rightarrow> 'w metrics_Gauge" where
  "mg_With (counterGauge c) = (\<lambda>ls w. map_prod id (map_outcome counterGauge) (mc_With c ls w))"
| "mg_Set (counterGauge c) = (\<lambda>v. mc_Add c v)"
| "mg_Add (counterGauge c) = (\<lambda>delta. mc_Add c delta)"

primcorec gaugeCounter :: "'w metrics_Gauge \<Rightarrow> 'w metrics_Counter" where
  "mc_With (gaugeCounter g) = (\<lambda>ls w. map_prod id (map_outcome gaugeCounter) (mg_With g ls w))"
| "mc_Add (gaugeCounter g) = (\<lambda>delta. mg_Set g delta)"

primcorec histogramGauge :: "'w metrics_Histogram \<Rightarrow> 'w metrics_Gauge" where
  "mg_With (histogramGauge h) = (\<lambda>ls w. map_prod id (map_outcome histogramGauge) (mh_With h ls w))"
| "mg_Set (histogramGauge h) = (\<lambda>v. mh_Observe h v)"
| "mg_Add (histogramGauge h) = (\<lambda>delta. mh_Observe h delta)"

primcorec gaugeHistogram :: "'w metrics_Gauge \<Rightarrow> 'w metrics_Histogram" where
  "mh_With (gaugeHistogram g) = (\<lambda>ls w. map_prod id (map_outcome gaugeHistogram) (mg_With g ls w))"
| "mh_Observe (gaugeHistogram g) = (\<lambda>v. mg_Set g v)"

subsection \<open>Several metrics as one\<close>

text \<open>The loops over the metrics: a panic ends them.\<close>

fun call_each :: "('x \<Rightarrow> 'w \<Rightarrow> 'w \<times> unit outcome) \<Rightarrow> 'x list \<Rightarrow> 'w \<Rightarrow> 'w \<times> unit outcome" where
  "call_each f [] w = (w, Ret ())"
| "call_each f (x # xs) w =
     (case f x w of (w1, Ret _) \<Rightarrow> call_each f xs w1 | (w1, Panic m) \<Rightarrow> (w1, Panic m))"

fun call_map :: "('x \<Rightarrow> 'w \<Rightarrow> 'w \<times> 'y outcome) \<Rightarrow> 'x list \<Rightarrow> 'w \<Rightarrow> 'w \<times> 'y list outcome" where
  "call_map f [] w = (w, Ret [])"
| "call_map f (x # xs) w =
     (case f x w of
        (w1, Panic m) \<Rightarrow> (w1, Panic m)
      | (w1, Ret y) \<Rightarrow> returning ((#) y) (call_map f xs w1))"

primcorec multi_Counter :: "'w metrics_Counter list \<Rightarrow> 'w metrics_Counter" where
  "mc_With (multi_Counter cs) =
     (\<lambda>ls w. map_prod id (map_outcome multi_Counter) (call_map (\<lambda>c. mc_With c ls) cs w))"
| "mc_Add (multi_Counter cs) = (\<lambda>delta. call_each (\<lambda>c. mc_Add c delta) cs)"

primcorec multi_Gauge :: "'w metrics_Gauge list \<Rightarrow> 'w metrics_Gauge" where
  "mg_With (multi_Gauge gs) =
     (\<lambda>ls w. map_prod id (map_outcome multi_Gauge) (call_map (\<lambda>g. mg_With g ls) gs w))"
| "mg_Set (multi_Gauge gs) = (\<lambda>v. call_each (\<lambda>g. mg_Set g v) gs)"
| "mg_Add (multi_Gauge gs) = (\<lambda>delta. call_each (\<lambda>g. mg_Add g delta) gs)"

primcorec multi_Histogram :: "'w metrics_Histogram list \<Rightarrow> 'w metrics_Histogram" where
  "mh_With (multi_Histogram hs) =
     (\<lambda>ls w. map_prod id (map_outcome multi_Histogram) (call_map (\<lambda>h. mh_With h ls) hs w))"
| "mh_Observe (multi_Histogram hs) = (\<lambda>v. call_each (\<lambda>h. mh_Observe h v) hs)"

subsection \<open>Timers\<close>

text \<open>
  File timer.go. Times are in nanoseconds; \<open>time.Since\<close> saturates at the least and greatest \<open>Duration\<close>.
\<close>

record 'w Timer =
  tm_h :: "'w metrics_Histogram"
  tm_t :: int
  tm_u :: int

definition NewTimer :: "'w metrics_Histogram \<Rightarrow> int \<Rightarrow> 'w Timer" where
  "NewTimer h now = \<lparr>tm_h = h, tm_t = now, tm_u = 1000000000\<rparr>"

definition time_Since :: "int \<Rightarrow> int \<Rightarrow> int" where
  "time_Since t now = max (- (2 ^ 63)) (min (2 ^ 63 - 1) (now - t))"

definition Timer_duration :: "'w Timer \<Rightarrow> int \<Rightarrow> float64" where
  "Timer_duration t now =
     (let d = f64_div (f64_of_int (time_Since (tm_t t) now)) (f64_of_int (tm_u t)) in
      if f64_lt d (F64 0) then F64 0 else d)"

definition Timer_ObserveDuration :: "'w Timer \<Rightarrow> int \<Rightarrow> 'w \<Rightarrow> 'w \<times> unit outcome" where
  "Timer_ObserveDuration t now w = mh_Observe (tm_h t) (Timer_duration t now) w"

definition Timer_Unit :: "'w Timer \<Rightarrow> int \<Rightarrow> 'w Timer" where
  "Timer_Unit t u = t\<lparr>tm_u := u\<rparr>"

subsection \<open>Coinduction\<close>

lemma call_eq_iff: "rel_prod (=) (rel_outcome (=)) p q \<longleftrightarrow> p = q"
  by (simp add: outcome.rel_eq prod.rel_eq)

lemma returning_rel:
  "(\<And>a. R (f a) (g a)) \<Longrightarrow> rel_prod (=) (rel_outcome R) (returning f p) (returning g p)"
  by (cases p; cases "snd p") (auto simp: returning_def)

lemma returning_id [simp]: "returning (\<lambda>a. a) p = p"
  by (cases p; cases "snd p") (simp_all add: returning_def)

lemma returning_returning [simp]: "returning f (returning g p) = returning (\<lambda>a. f (g a)) p"
  by (cases p; cases "snd p") (simp_all add: returning_def)

lemma metrics_Counter_coinduct:
  assumes "R c d"
    and "\<And>c d ls w. R c d \<Longrightarrow> rel_prod (=) (rel_outcome R) (mc_With c ls w) (mc_With d ls w)"
    and "\<And>c d. R c d \<Longrightarrow> mc_Add c = mc_Add d"
  shows "c = d"
  by (rule metrics_Counter.coinduct [of R, OF assms(1)]) (auto simp: assms(2,3) intro!: rel_funI)

lemma metrics_Gauge_coinduct:
  assumes "R c d"
    and "\<And>c d ls w. R c d \<Longrightarrow> rel_prod (=) (rel_outcome R) (mg_With c ls w) (mg_With d ls w)"
    and "\<And>c d. R c d \<Longrightarrow> mg_Set c = mg_Set d \<and> mg_Add c = mg_Add d"
  shows "c = d"
  by (rule metrics_Gauge.coinduct [of R, OF assms(1)]) (auto simp: assms(2,3) intro!: rel_funI)

lemma metrics_Histogram_coinduct:
  assumes "R c d"
    and "\<And>c d ls w. R c d \<Longrightarrow> rel_prod (=) (rel_outcome R) (mh_With c ls w) (mh_With d ls w)"
    and "\<And>c d. R c d \<Longrightarrow> mh_Observe c = mh_Observe d"
  shows "c = d"
  by (rule metrics_Histogram.coinduct [of R, OF assms(1)]) (auto simp: assms(2,3) intro!: rel_funI)

text \<open>Two families of metrics over one index are equal when \<open>With\<close> leads from index to index in the same way.\<close>

lemma counters_equal:
  assumes "\<And>a ls w. mc_With (f a) ls w = returning f (p a ls w)" "\<And>a ls w. mc_With (g a) ls w = returning g (p a ls w)"
    and "\<And>a. mc_Add (f a) = mc_Add (g a)"
  shows "f a = g a"
  by (rule metrics_Counter_coinduct [of "\<lambda>c d. \<exists>a. c = f a \<and> d = g a"])
    (auto simp: assms intro!: returning_rel)

lemma gauges_equal:
  assumes "\<And>a ls w. mg_With (f a) ls w = returning f (p a ls w)" "\<And>a ls w. mg_With (g a) ls w = returning g (p a ls w)"
    and "\<And>a. mg_Set (f a) = mg_Set (g a)" "\<And>a. mg_Add (f a) = mg_Add (g a)"
  shows "f a = g a"
  by (rule metrics_Gauge_coinduct [of "\<lambda>c d. \<exists>a. c = f a \<and> d = g a"])
    (auto simp: assms intro!: returning_rel)

lemma histograms_equal:
  assumes "\<And>a ls w. mh_With (f a) ls w = returning f (p a ls w)" "\<And>a ls w. mh_With (g a) ls w = returning g (p a ls w)"
    and "\<And>a. mh_Observe (f a) = mh_Observe (g a)"
  shows "f a = g a"
  by (rule metrics_Histogram_coinduct [of "\<lambda>c d. \<exists>a. c = f a \<and> d = g a"])
    (auto simp: assms intro!: returning_rel)

lemma conversion_With:
  "mh_With (counterHistogram c) ls w = returning counterHistogram (mc_With c ls w)"
  "mc_With (histogramCounter h) ls w = returning histogramCounter (mh_With h ls w)"
  "mg_With (counterGauge c) ls w = returning counterGauge (mc_With c ls w)"
  "mc_With (gaugeCounter g) ls w = returning gaugeCounter (mg_With g ls w)"
  "mg_With (histogramGauge h) ls w = returning histogramGauge (mh_With h ls w)"
  "mh_With (gaugeHistogram g) ls w = returning gaugeHistogram (mg_With g ls w)"
  by (simp_all add: returning_def)

lemma discard_With:
  "mc_With discard_counter ls w = (w, Ret discard_counter)"
  "mg_With discard_gauge ls w = (w, Ret discard_gauge)"
  "mh_With discard_histogram ls w = (w, Ret discard_histogram)"
  by simp_all

lemma multi_With:
  "mc_With (multi_Counter cs) ls w = returning multi_Counter (call_map (\<lambda>c. mc_With c ls) cs w)"
  "mg_With (multi_Gauge gs) ls w = returning multi_Gauge (call_map (\<lambda>g. mg_With g ls) gs w)"
  "mh_With (multi_Histogram hs) ls w = returning multi_Histogram (call_map (\<lambda>h. mh_With h ls) hs w)"
  by (simp_all add: returning_def)

lemma multi_With_fun:
  "mc_With (multi_Counter cs) ls = (\<lambda>w. returning multi_Counter (call_map (\<lambda>c. mc_With c ls) cs w))"
  "mg_With (multi_Gauge gs) ls = (\<lambda>w. returning multi_Gauge (call_map (\<lambda>g. mg_With g ls) gs w))"
  "mh_With (multi_Histogram hs) ls = (\<lambda>w. returning multi_Histogram (call_map (\<lambda>h. mh_With h ls) hs w))"
  by (rule ext, rule multi_With)+

declare discard_counter.simps(1) [simp del] discard_gauge.simps(1) [simp del] discard_histogram.simps(1) [simp del]
  counterHistogram.simps(1) [simp del] histogramCounter.simps(1) [simp del] counterGauge.simps(1) [simp del]
  gaugeCounter.simps(1) [simp del] histogramGauge.simps(1) [simp del] gaugeHistogram.simps(1) [simp del]
  multi_Counter.simps(1) [simp del] multi_Gauge.simps(1) [simp del] multi_Histogram.simps(1) [simp del]
declare conversion_With [simp] discard_With [simp] multi_With [simp]

lemma call_each_append:
  "call_each f (xs @ ys) w = (case call_each f xs w of (w1, Ret _) \<Rightarrow> call_each f ys w1 | (w1, Panic m) \<Rightarrow> (w1, Panic m))"
  by (induction xs arbitrary: w) (auto split: prod.splits outcome.splits)

lemma call_each_concat: "call_each f (concat xss) w = call_each (call_each f) xss w"
  by (induction xss arbitrary: w) (auto simp: call_each_append split: prod.splits outcome.splits)

lemma call_map_append:
  "call_map f (xs @ ys) w = (case call_map f xs w of
     (w1, Ret us) \<Rightarrow> returning ((@) us) (call_map f ys w1) | (w1, Panic m) \<Rightarrow> (w1, Panic m))"
proof (induction xs arbitrary: w)
  case (Cons x xs)
  obtain w1 r where f: "f x w = (w1, r)" by (rule prod.exhaust)
  show ?case
  proof (cases r)
    case (Ret y)
    obtain w2 r2 where g: "call_map f xs w1 = (w2, r2)" by (rule prod.exhaust)
    have "(@) (y # us) = (\<lambda>vs. y # us @ vs)" for us by (rule ext) simp
    then show ?thesis by (cases r2) (simp_all add: f Ret Cons g)
  qed (simp add: f)
next
  case Nil
  then show ?case by (cases "call_map f ys w"; cases "snd (call_map f ys w)") simp_all
qed

lemma call_map_concat: "call_map f (concat xss) w = returning concat (call_map (call_map f) xss w)"
proof (induction xss arbitrary: w)
  case (Cons xs xss)
  obtain w1 r where f: "call_map f xs w = (w1, r)" by (rule prod.exhaust)
  show ?case by (cases r) (simp_all add: call_map_append f Cons)
qed simp

lemma call_each_map: "call_each f (map g xs) w = call_each (\<lambda>x. f (g x)) xs w"
  by (induction xs arbitrary: w) (auto split: prod.splits outcome.splits)

lemma call_map_map: "call_map f (map g xs) w = call_map (\<lambda>x. f (g x)) xs w"
  by (induction xs arbitrary: w) (auto split: prod.splits outcome.splits)

lemma call_map_returning: "call_map (\<lambda>x w. returning g (f x w)) xs w = returning (map g) (call_map f xs w)"
proof (induction xs arbitrary: w)
  case (Cons x xs)
  obtain w1 r where f: "f x w = (w1, r)" by (rule prod.exhaust)
  show ?case by (cases r) (simp_all add: f Cons)
qed simp

subsection \<open>Properties\<close>

lemma conversions_back:
  "histogramCounter (counterHistogram c) = c" "counterHistogram (histogramCounter h) = h"
  "gaugeCounter (counterGauge c) = c" "gaugeHistogram (histogramGauge h) = h"
  by (rule counters_equal [of "\<lambda>c. histogramCounter (counterHistogram c)" "\<lambda>c ls w. mc_With c ls w" "\<lambda>c. c"]
        histograms_equal [of "\<lambda>h. counterHistogram (histogramCounter h)" "\<lambda>h ls w. mh_With h ls w" "\<lambda>h. h"]
        counters_equal [of "\<lambda>c. gaugeCounter (counterGauge c)" "\<lambda>c ls w. mc_With c ls w" "\<lambda>c. c"]
        histograms_equal [of "\<lambda>h. gaugeHistogram (histogramGauge h)" "\<lambda>h ls w. mh_With h ls w" "\<lambda>h. h"];
      simp add: fun_eq_iff)+

lemma conversions_compose:
  "gaugeHistogram (counterGauge c) = counterHistogram c" "gaugeCounter (histogramGauge h) = histogramCounter h"
  by (rule histograms_equal [of "\<lambda>c. gaugeHistogram (counterGauge c)" "\<lambda>c ls w. mc_With c ls w" counterHistogram]
        counters_equal [of "\<lambda>h. gaugeCounter (histogramGauge h)" "\<lambda>h ls w. mh_With h ls w" histogramCounter];
      simp add: fun_eq_iff)+

text \<open>Adapters can be taken off again: a counter or histogram that was made another kind of metric and is made
  its own kind again cannot be told from the original by any sequence of calls, and two conversions in a row
  are one. For a gauge this fails: after a round trip through a counter, \<open>Add\<close> sets the gauge.\<close>

theorem conversions_round_trip:
  "histogramCounter (counterHistogram c) = c \<and> counterHistogram (histogramCounter h) = h
   \<and> gaugeCounter (counterGauge c) = c \<and> gaugeHistogram (histogramGauge h) = h
   \<and> gaugeHistogram (counterGauge c) = counterHistogram c \<and> gaugeCounter (histogramGauge h) = histogramCounter h
   \<and> mg_Set (counterGauge (gaugeCounter g)) = mg_Set g \<and> mg_Add (counterGauge (gaugeCounter g)) = mg_Set g"
  by (simp add: conversions_back conversions_compose)

lemma multi_single:
  "multi_Counter [c] = c" "multi_Gauge [g] = g" "multi_Histogram [h] = h"
proof -
  have m: "(case p of (w1, Ret y) \<Rightarrow> (w1, Ret [y]) | (w1, Panic m) \<Rightarrow> (w1, Panic m)) = returning (\<lambda>y. [y]) p"
    for p :: "'v \<times> 'x outcome"
    by (cases p; cases "snd p") simp_all
  have e: "call_each f [x] = f x" for f :: "'x \<Rightarrow> 'v \<Rightarrow> 'v \<times> unit outcome" and x
    by (rule ext) (simp split: prod.splits outcome.splits)
  show "multi_Counter [c] = c"
    by (rule counters_equal [of "\<lambda>c. multi_Counter [c]" "\<lambda>c ls w. mc_With c ls w" "\<lambda>c. c"]) (simp_all add: m e fun_eq_iff)
  show "multi_Gauge [g] = g"
    by (rule gauges_equal [of "\<lambda>g. multi_Gauge [g]" "\<lambda>g ls w. mg_With g ls w" "\<lambda>g. g"]) (simp_all add: m e fun_eq_iff)
  show "multi_Histogram [h] = h"
    by (rule histograms_equal [of "\<lambda>h. multi_Histogram [h]" "\<lambda>h ls w. mh_With h ls w" "\<lambda>h. h"]) (simp_all add: m e fun_eq_iff)
qed

lemma multi_empty:
  "multi_Counter [] = discard_counter" "multi_Gauge [] = discard_gauge" "multi_Histogram [] = discard_histogram"
  by (rule counters_equal [of "\<lambda>u. multi_Counter []" "\<lambda>u ls w. (w, Ret ())" "\<lambda>u. discard_counter"]
        gauges_equal [of "\<lambda>u. multi_Gauge []" "\<lambda>u ls w. (w, Ret ())" "\<lambda>u. discard_gauge"]
        histograms_equal [of "\<lambda>u. multi_Histogram []" "\<lambda>u ls w. (w, Ret ())" "\<lambda>u. discard_histogram"];
      simp add: fun_eq_iff)+

lemma multi_flatten:
  "multi_Counter (map multi_Counter css) = multi_Counter (concat css)"
  "multi_Gauge (map multi_Gauge gss) = multi_Gauge (concat gss)"
  "multi_Histogram (map multi_Histogram hss) = multi_Histogram (concat hss)"
  by (rule counters_equal [of "\<lambda>css. multi_Counter (map multi_Counter css)"
          "\<lambda>css ls w. call_map (call_map (\<lambda>c. mc_With c ls)) css w" "\<lambda>css. multi_Counter (concat css)"]
        gauges_equal [of "\<lambda>gss. multi_Gauge (map multi_Gauge gss)"
          "\<lambda>gss ls w. call_map (call_map (\<lambda>g. mg_With g ls)) gss w" "\<lambda>gss. multi_Gauge (concat gss)"]
        histograms_equal [of "\<lambda>hss. multi_Histogram (map multi_Histogram hss)"
          "\<lambda>hss ls w. call_map (call_map (\<lambda>h. mh_With h ls)) hss w" "\<lambda>hss. multi_Histogram (concat hss)"];
      simp add: fun_eq_iff call_each_map call_each_concat call_map_map call_map_concat
        call_map_returning [abs_def] multi_With_fun)+

lemma unit_dropped:
  assumes "\<And>xss. multi (map multi xss) = multi (concat xss)" and "\<And>x. multi [x] = x" and "multi [] = unit"
  shows "multi (filter (\<lambda>x. x \<noteq> unit) xs) = multi xs"
proof -
  have "map multi (map (\<lambda>x. if x = unit then [] else [x]) xs) = xs"
    by (induction xs) (simp_all add: assms)
  moreover have "concat (map (\<lambda>x. if x = unit then [] else [x]) xs) = filter (\<lambda>x. x \<noteq> unit) xs"
    by (induction xs) simp_all
  ultimately show ?thesis using assms(1) [of "map (\<lambda>x. if x = unit then [] else [x]) xs"] by simp
qed

text \<open>C32: Metrics that send to several others form a monoid: sending to one is that one, sending to none is discarding,
  groups of groups can be flattened, and a metric that discards can be left out, as far as any sequence of
  \<open>With\<close>, \<open>Add\<close>, \<open>Set\<close> and \<open>Observe\<close> can tell, panics of the others included.\<close>

theorem multi_monoid:
  "multi_Counter [c] = c \<and> multi_Counter [] = discard_counter
     \<and> multi_Counter (map multi_Counter css) = multi_Counter (concat css)
     \<and> multi_Counter (filter (\<lambda>c. c \<noteq> discard_counter) cs) = multi_Counter cs
   \<and> multi_Gauge [g] = g \<and> multi_Gauge [] = discard_gauge
     \<and> multi_Gauge (map multi_Gauge gss) = multi_Gauge (concat gss)
     \<and> multi_Gauge (filter (\<lambda>g. g \<noteq> discard_gauge) gs) = multi_Gauge gs
   \<and> multi_Histogram [h] = h \<and> multi_Histogram [] = discard_histogram
     \<and> multi_Histogram (map multi_Histogram hss) = multi_Histogram (concat hss)
     \<and> multi_Histogram (filter (\<lambda>h. h \<noteq> discard_histogram) hs) = multi_Histogram hs"
  by (intro conjI multi_single multi_empty multi_flatten
      unit_dropped [of multi_Counter, OF multi_flatten(1) multi_single(1) multi_empty(1)]
      unit_dropped [of multi_Gauge, OF multi_flatten(2) multi_single(2) multi_empty(2)]
      unit_dropped [of multi_Histogram, OF multi_flatten(3) multi_single(3) multi_empty(3)])

lemma representable_two_powi: "- 1074 \<le> j \<Longrightarrow> representable (2 powi j)"
  unfolding representable_def by (rule exI [of _ 1], rule exI [of _ j]) simp

text \<open>Quotients of positive integers below 2^53 are far from the least double.\<close>

lemma f64_round_quotient:
  assumes "0 < n" and "n < 2 ^ 53" and "0 < u" and "u < 2 ^ 53"
  obtains r where "f64_round (of_int n / of_int u) = F64 r" and "0 < r"
proof -
  have u: "(0 :: rat) < of_int u" "(1 :: rat) \<le> of_int n" "(1 :: rat) \<le> of_int u" using assms by simp_all
  have b: "(of_int u :: rat) \<le> 2 ^ 53" "(of_int n :: rat) \<le> 2 ^ 53"
    using assms of_int_le_iff [of u "2 ^ 53"] of_int_le_iff [of n "2 ^ 53"] by (simp_all flip: of_int_le_iff)
  have e: "(2 :: rat) powi (- 53) = 1 / 2 ^ 53" by (simp add: power_int_minus field_simps)
  have "(1 :: rat) / 2 ^ 53 \<le> 1 / of_int u" using u b(1) by (intro divide_left_mono) simp_all
  also have "\<dots> \<le> of_int n / of_int u" using u by (intro divide_right_mono) simp_all
  finally have lo: "(2 :: rat) powi (- 53) \<le> of_int n / of_int u" by (simp only: e)
  have hi: "(of_int n :: rat) / of_int u \<le> 2 ^ 53"
    using b(2) u mult_left_mono [OF u(3), of "2 ^ 53"] by (simp add: pos_divide_le_eq)
  from f64_round_lower [OF representable_two_powi lo hi] obtain r
    where "f64_round (of_int n / of_int u) = F64 r" "2 powi (- 53) \<le> r" by auto
  with that show thesis by (metis less_le_trans powi_two_pos)
qed

text \<open>A timer observes the time since it was made, in its unit, as the double nearest to the exact quotient, as
  long as time and unit are below 2^53 nanoseconds (104 days); it observes zero when the clock went back, and
  whatever unit was set, zero included, nothing below zero.\<close>

theorem Timer_observes:
  "\<not> f64_lt (Timer_duration t now) (F64 0)
   \<and> (0 < tm_u t \<and> tm_u t < 2 ^ 53 \<and> \<bar>now - tm_t t\<bar> < 2 ^ 53 \<longrightarrow>
        Timer_ObserveDuration t now w = mh_Observe (tm_h t)
          (if now \<le> tm_t t then F64 0 else f64_round (of_int (now - tm_t t) / of_int (tm_u t))) w)"
proof (intro conjI impI)
  show "\<not> f64_lt (Timer_duration t now) (F64 0)"
    by (simp add: Timer_duration_def Let_def f64_lt_def)
next
  assume a: "0 < tm_u t \<and> tm_u t < 2 ^ 53 \<and> \<bar>now - tm_t t\<bar> < 2 ^ 53"
  define n where "n = \<bar>now - tm_t t\<bar>"
  have s: "time_Since (tm_t t) now = now - tm_t t" using a by (auto simp: time_Since_def)
  have u: "f64_of_int (tm_u t) = F64 (of_int (tm_u t))" using a by (simp add: f64_of_int_exact)
  have e: "f64_of_int (now - tm_t t) = F64 (of_int (now - tm_t t))" using a f64_round_int [of "now - tm_t t"] by (simp add: f64_of_int_def)
  have q: "f64_div (f64_of_int (time_Since (tm_t t) now)) (f64_of_int (tm_u t))
      = (if now = tm_t t then F64 0 else f64_round (of_int (now - tm_t t) / of_int (tm_u t)))"
    unfolding s e u using a by (simp add: f64_div_def f64_finite_def f64_neg_def f64_signed_zero_def Let_def)
  have d: "Timer_duration t now = (if now \<le> tm_t t then F64 0 else f64_round (of_int (now - tm_t t) / of_int (tm_u t)))"
  proof (cases "now = tm_t t")
    case True
    then show ?thesis using q by (simp add: Timer_duration_def q Let_def)
  next
    case False
    then have "0 < n" "n < 2 ^ 53" using a by (simp_all add: n_def)
    then obtain r where r: "f64_round (of_int n / of_int (tm_u t)) = F64 r" "0 < r"
      using f64_round_quotient [of n "tm_u t"] a by blast
    have pos: "(0 :: rat) < of_int n / of_int (tm_u t)" using a \<open>0 < n\<close> by simp
    show ?thesis
    proof (cases "now < tm_t t")
      case True
      then have "now - tm_t t = - n" by (simp add: n_def)
      then have "f64_round (of_int (now - tm_t t) / of_int (tm_u t)) = F64 (- r)"
        using f64_round_uminus [OF r(1) pos r(2)] by (simp only: of_int_minus minus_divide_left)
      with r(2) True False show ?thesis by (simp only: Timer_duration_def q Let_def) (simp add: f64_lt_def)
    next
      case ge: False
      with False have "now - tm_t t = n" by (simp add: n_def)
      then have "f64_round (of_int (now - tm_t t) / of_int (tm_u t)) = F64 r" by (simp only: r(1))
      with r(2) ge False show ?thesis by (simp only: Timer_duration_def q Let_def) (simp add: f64_lt_def)
    qed
  qed
  show "Timer_ObserveDuration t now w = mh_Observe (tm_h t)
      (if now \<le> tm_t t then F64 0 else f64_round (of_int (now - tm_t t) / of_int (tm_u t))) w"
    by (simp only: Timer_ObserveDuration_def d)
qed

text \<open>A histogram on a world that is the list of what was observed.\<close>

primcorec listing_histogram :: "float64 list metrics_Histogram" where
  "mh_With listing_histogram = (\<lambda>ls w. map_prod id (map_outcome (\<lambda>h. listing_histogram)) (w, Ret ()))"
| "mh_Observe listing_histogram = (\<lambda>v w. (w @ [v], Ret ()))"

theorem Timer_observes_witness:
  "Timer_ObserveDuration (NewTimer listing_histogram 1000) 3000001000 [] = ([F64 3], Ret ())"
proof -
  have "f64_round 3 = F64 (3 :: rat)" using f64_round_int [of 3] by simp
  with Timer_observes [of "NewTimer listing_histogram 1000" 3000001000 "[]"] show ?thesis
    by (simp add: NewTimer_def)
qed

end
