(* ===== verification/Cloudwatch.thy ===== *)
theory Cloudwatch
  imports Metric_Interfaces
begin

text \<open>
  Package metrics/cloudwatch2, file cloudwatch2.go: all metrics are counters that observe in a space;
  \<open>Send\<close> turns the series into data points, cuts these into batches and puts the batches in concurrent
  goroutines, of which a semaphore (a channel with a capacity) lets some run at a time.

  A goroutine is its batch: it waits for the semaphore, then it is under way until \<open>PutMetricData\<close>, code of
  the AWS library, returns with an error or none (\<open>cw_step\<close>). \<open>Send\<close> returns when all have ended, with
  the first error (\<open>cw_sends\<close>). The logger is not modelled but for the errors that \<open>WriteLoop\<close> logs.
\<close>

definition maxConcurrentRequests :: int where "maxConcurrentRequests = 20"

record CloudWatch =
  cw_namespace :: string
  cw_counters :: Space
  cw_numConcurrentRequests :: int
  cw_sem :: nat

type_synonym cw_option = "CloudWatch \<Rightarrow> CloudWatch"

definition WithConcurrentRequests :: "int \<Rightarrow> cw_option" where
  "WithConcurrentRequests n cw =
     cw\<lparr>cw_numConcurrentRequests := (if n > maxConcurrentRequests then maxConcurrentRequests else n)\<rparr>"

definition cw_New :: "string \<Rightarrow> cw_option list \<Rightarrow> CloudWatch outcome" where
  "cw_New namespace options =
     (let cw = fold (\<lambda>optFunc cw. optFunc cw) options
            \<lparr>cw_namespace = namespace, cw_counters = NewSpace, cw_numConcurrentRequests = 10, cw_sem = 0\<rparr>
      in if cw_numConcurrentRequests cw < 0 then Panic ''makechan: size out of range''
         else Ret (cw\<lparr>cw_sem := nat (cw_numConcurrentRequests cw)\<rparr>))"

subsection \<open>Metrics\<close>

record cw_Counter =
  cc_name :: string
  cc_lvs :: "string list"

definition cw_Counter_With :: "cw_Counter \<Rightarrow> string list \<Rightarrow> cw_Counter" where
  "cw_Counter_With c labelValues = \<lparr>cc_name = cc_name c, cc_lvs = lv_With (cc_lvs c) labelValues\<rparr>"

definition cw_Counter_Add :: "cw_Counter \<Rightarrow> float64 \<Rightarrow> CloudWatch \<Rightarrow> CloudWatch \<times> unit outcome" where
  "cw_Counter_Add c delta cw =
     (let (sp, r) = Space_Observe (cw_counters cw) (cc_name c) (cc_lvs c) delta in (cw\<lparr>cw_counters := sp\<rparr>, r))"

text \<open>The counter as a value of the interface.\<close>

primcorec cw_counter :: "cw_Counter \<Rightarrow> CloudWatch metrics_Counter" where
  "mc_With (cw_counter c) = (\<lambda>ls w. map_prod id (map_outcome cw_counter) (w, Ret (cw_Counter_With c ls)))"
| "mc_Add (cw_counter c) = cw_Counter_Add c"

definition cw_NewCounter :: "string \<Rightarrow> CloudWatch metrics_Counter" where
  "cw_NewCounter name = cw_counter \<lparr>cc_name = name, cc_lvs = []\<rparr>"

definition cw_NewGauge :: "string \<Rightarrow> CloudWatch metrics_Gauge" where
  "cw_NewGauge name = counterGauge (cw_NewCounter name)"

definition cw_NewHistogram :: "string \<Rightarrow> CloudWatch metrics_Histogram" where
  "cw_NewHistogram name = counterHistogram (cw_NewCounter name)"

subsection \<open>Statistics\<close>

record StatisticSet =
  Maximum :: float64
  Minimum :: float64
  Sum :: float64
  SampleCount :: float64

definition MaxFloat64 :: rat where "MaxFloat64 = (2 ^ 53 - 1) * 2 ^ 971"

definition zeros :: StatisticSet where
  "zeros = \<lparr>Maximum = F64 0, Minimum = F64 0, Sum = F64 0, SampleCount = F64 0\<rparr>"

fun stats_loop :: "float64 list \<Rightarrow> float64 \<times> float64 \<times> float64 \<Rightarrow> float64 \<times> float64 \<times> float64" where
  "stats_loop [] acc = acc"
| "stats_loop (f # a) (s, mn, mx) =
     stats_loop a (f64_add s f, if f64_lt f mn then f else mn, if f64_lt mx f then f else mx)"

definition stats :: "float64 list \<Rightarrow> StatisticSet" where
  "stats a =
     (if length a = 0 then zeros
      else let (s, mn, mx) = stats_loop a (F64 0, F64 MaxFloat64, F64 (- MaxFloat64))
           in \<lparr>Maximum = mx, Minimum = mn, Sum = s, SampleCount = f64_of_int (int (length a))\<rparr>)"

fun makeDimensions :: "string list \<Rightarrow> (string \<times> string) list outcome" where
  "makeDimensions [] = Ret []"
| "makeDimensions [l] = Panic ''index out of range''"
| "makeDimensions (l # v # ls) =
     (case makeDimensions ls of Ret ds \<Rightarrow> Ret ((l, v) # ds) | Panic m \<Rightarrow> Panic m)"

subsection \<open>Sending\<close>

record MetricDatum =
  md_MetricName :: string
  md_Dimensions :: "(string \<times> string) list"
  md_StatisticValues :: StatisticSet
  md_Timestamp :: int

definition cw_visit :: "int \<Rightarrow> string \<Rightarrow> string list \<Rightarrow> float64 list \<Rightarrow> MetricDatum list outcome
    \<Rightarrow> MetricDatum list outcome \<times> bool" where
  "cw_visit now name lvs values st =
     (case st of Panic m \<Rightarrow> (Panic m, False)
      | Ret datums \<Rightarrow>
         (case makeDimensions lvs of Panic m \<Rightarrow> (Panic m, False)
          | Ret dims \<Rightarrow>
             (Ret (datums @ [\<lparr>md_MetricName = name, md_Dimensions = dims, md_StatisticValues = stats values,
                md_Timestamp = now\<rparr>]), True)))"

function cw_batches :: "'d list \<Rightarrow> 'd list list" where
  "cw_batches datums =
     (if length datums > 0
      then let lim = (if int (length datums) > maxConcurrentRequests then nat maxConcurrentRequests else length datums)
           in take lim datums # cw_batches (drop lim datums)
      else [])"
  by auto
termination
  by (relation "measure length") (auto simp: maxConcurrentRequests_def)

declare cw_batches.simps [simp del]

text \<open>The goroutines of a \<open>Send\<close>: those that wait for the semaphore, those under way, what was put, and the
  error of the group, the first one.\<close>

record ('b, 'e) sending =
  sd_waiting :: "'b list"
  sd_flight :: "'b list"
  sd_put :: "('b \<times> 'e option) list"
  sd_err :: "'e option"

definition sending_start :: "'b list \<Rightarrow> ('b, 'e) sending" where
  "sending_start batches = \<lparr>sd_waiting = batches, sd_flight = [], sd_put = [], sd_err = None\<rparr>"

inductive cw_step :: "nat \<Rightarrow> ('b, 'e) sending \<Rightarrow> ('b, 'e) sending \<Rightarrow> bool" for sem :: nat where
  acquire: "sd_waiting s = xs @ b # ys \<Longrightarrow> length (sd_flight s) < sem \<Longrightarrow>
     cw_step sem s (s\<lparr>sd_waiting := xs @ ys, sd_flight := sd_flight s @ [b]\<rparr>)"
| release: "sd_flight s = xs @ b # ys \<Longrightarrow>
     cw_step sem s (s\<lparr>sd_flight := xs @ ys, sd_put := sd_put s @ [(b, err)],
       sd_err := (case sd_err s of None \<Rightarrow> err | Some e \<Rightarrow> Some e)\<rparr>)"

inductive_cases cw_stepE: "cw_step sem s s'"

definition sending_done :: "('b, 'e) sending \<Rightarrow> bool" where
  "sending_done s \<longleftrightarrow> sd_waiting s = [] \<and> sd_flight s = []"

definition cw_collect :: "name_order \<Rightarrow> label_order \<Rightarrow> int \<Rightarrow> CloudWatch \<Rightarrow> CloudWatch \<times> MetricDatum list outcome" where
  "cw_collect nit it now cw =
     (let (left, old) = Space_Reset (cw_counters cw)
      in (cw\<lparr>cw_counters := left\<rparr>, Space_Walk nit it (cw_visit now) old (Ret [])))"

text \<open>A call of \<open>Send\<close> returns: the new state and how the sending ended.\<close>

inductive cw_sends :: "name_order \<Rightarrow> label_order \<Rightarrow> int \<Rightarrow> CloudWatch \<Rightarrow> CloudWatch
    \<Rightarrow> (MetricDatum list, 'e) sending \<Rightarrow> bool" for nit it now cw where
  "cw_collect nit it now cw = (cw', Ret datums) \<Longrightarrow>
   (cw_step (cw_sem cw))\<^sup>*\<^sup>* (sending_start (cw_batches datums)) s \<Longrightarrow> sending_done s \<Longrightarrow>
   cw_sends nit it now cw cw' s"

inductive cw_WriteLoop :: "name_order \<Rightarrow> label_order \<Rightarrow> int list \<Rightarrow> CloudWatch \<Rightarrow> CloudWatch \<Rightarrow> 'e list \<Rightarrow> bool"
  for nit it where
  stop: "cw_WriteLoop nit it [] cw cw []"
| tick: "cw_sends nit it now cw cw1 s \<Longrightarrow> cw_WriteLoop nit it ticks cw1 cw2 logged \<Longrightarrow>
    cw_WriteLoop nit it (now # ticks) cw cw2 ((case sd_err s of Some e \<Rightarrow> [e] | None \<Rightarrow> []) @ logged)"

subsection \<open>Batches\<close>

lemma cw_batches_Nil: "cw_batches [] = []"
  by (simp add: cw_batches.simps)

lemma cw_batches_unfold:
  "cw_batches ds = (if 20 < length ds then take 20 ds # cw_batches (drop 20 ds) else if ds = [] then [] else [ds])"
  by (subst cw_batches.simps) (simp add: maxConcurrentRequests_def cw_batches_Nil)

lemma cw_batches_props:
  "concat (cw_batches ds) = ds \<and> (\<forall>b \<in> set (cw_batches ds). 1 \<le> length b \<and> length b \<le> 20)
     \<and> length (cw_batches ds) = (length ds + 19) div 20"
proof (induction ds rule: length_induct)
  case (1 ds)
  show ?case
  proof (cases "20 < length ds")
    case True
    then have n: "length ds + 19 = (length (drop 20 ds) + 19) + 20" by simp
    have "concat (cw_batches (drop 20 ds)) = drop 20 ds
        \<and> (\<forall>b \<in> set (cw_batches (drop 20 ds)). 1 \<le> length b \<and> length b \<le> 20)
        \<and> length (cw_batches (drop 20 ds)) = (length (drop 20 ds) + 19) div 20"
      by (intro mp [OF spec [OF 1]]) (use True in simp)
    with True show ?thesis unfolding cw_batches_unfold [of ds] n by simp
  next
    case False
    then have "ds \<noteq> [] \<Longrightarrow> (length ds + 19) div 20 = 1" by (cases ds) (simp_all add: div_nat_eqI)
    moreover have "cw_batches ds = (if ds = [] then [] else [ds])" using False by (simp add: cw_batches_unfold [of ds])
    ultimately show ?thesis using False by (cases "ds = []") (simp_all add: Suc_le_eq)
  qed
qed

lemma cw_batches_Nil_iff: "cw_batches ds = [] \<longleftrightarrow> ds = []"
  by (subst cw_batches_unfold) simp

subsection \<open>Runs of the goroutines\<close>

fun first_error :: "'e option list \<Rightarrow> 'e option" where
  "first_error [] = None"
| "first_error (None # es) = first_error es"
| "first_error (Some e # es) = Some e"

lemma first_error_snoc:
  "first_error (es @ [e]) = (case first_error es of None \<Rightarrow> e | Some x \<Rightarrow> Some x)"
  by (induction es rule: first_error.induct) (cases e, auto)

definition sending_inv :: "nat \<Rightarrow> 'b list \<Rightarrow> ('b, 'e) sending \<Rightarrow> bool" where
  "sending_inv sem bs s \<longleftrightarrow> mset (sd_waiting s) + mset (sd_flight s) + mset (map fst (sd_put s)) = mset bs
     \<and> length (sd_flight s) \<le> sem \<and> sd_err s = first_error (map snd (sd_put s))"

definition calls_left :: "('b, 'e) sending \<Rightarrow> nat" where
  "calls_left s = 2 * length (sd_waiting s) + length (sd_flight s)"

lemma sending_inv_start: "sending_inv sem bs (sending_start bs)" "calls_left (sending_start bs) = 2 * length bs"
  by (simp_all add: sending_inv_def sending_start_def calls_left_def)

lemma cw_step_inv:
  assumes "cw_step sem s s'" and "sending_inv sem bs s"
  shows "sending_inv sem bs s'" and "calls_left s = Suc (calls_left s')"
  using assms by (auto simp: sending_inv_def calls_left_def first_error_snoc elim!: cw_stepE)

lemma cw_steps_inv:
  "((cw_step sem) ^^ n) s s' \<Longrightarrow> sending_inv sem bs s \<Longrightarrow> sending_inv sem bs s' \<and> calls_left s = n + calls_left s'"
proof (induction n arbitrary: s')
  case (Suc n)
  then obtain t where "((cw_step sem) ^^ n) s t" "cw_step sem t s'" by auto
  with Suc.IH [of t] Suc.prems(2) cw_step_inv [of sem t s' bs] show ?case by auto
qed auto

lemma sending_done_iff: "sending_done s \<longleftrightarrow> calls_left s = 0"
  by (simp add: sending_done_def calls_left_def)

lemma cw_step_possible: "0 < sem \<Longrightarrow> \<not> sending_done s \<Longrightarrow> \<exists>s'. cw_step sem s s'"
proof (cases "sd_flight s")
  case Nil
  assume "0 < sem" and "\<not> sending_done s"
  then obtain b bs where "sd_waiting s = [] @ b # bs" using Nil by (cases "sd_waiting s") (auto simp: sending_done_def)
  from cw_step.acquire [OF this] Nil \<open>0 < sem\<close> show ?thesis by auto
next
  case (Cons b bs)
  then show ?thesis using cw_step.release [of s "[]" b bs] by auto
qed

lemma cw_runs_end:
  assumes "0 < sem"
  shows "\<exists>s'. (cw_step sem)\<^sup>*\<^sup>* s s' \<and> sending_done s'"
proof (induction "calls_left s" arbitrary: s)
  case 0
  then show ?case using sending_done_iff [of s] by auto
next
  case (Suc n)
  then obtain t where t: "cw_step sem s t" using cw_step_possible [OF assms, of s] by (auto simp: sending_done_iff)
  then have "n = calls_left t" using Suc.hyps(2) by (auto simp: calls_left_def elim!: cw_stepE)
  from Suc.hyps(1) [OF this] t show ?case by (meson converse_rtranclp_into_rtranclp)
qed

subsection \<open>The data of a call of Send\<close>

definition pairs :: "string list \<Rightarrow> (string \<times> string) list" where
  "pairs l = (case makeDimensions l of Ret ds \<Rightarrow> ds | Panic m \<Rightarrow> [])"

lemma makeDimensions_even: "even (length l) \<Longrightarrow> makeDimensions l = Ret (pairs l)"
  unfolding pairs_def by (induction l rule: makeDimensions.induct) (auto split: outcome.splits)

lemma makeDimensions_pairs:
  "even (length l) \<Longrightarrow> map fst (pairs l) = map (\<lambda>i. l ! (2 * i)) [0..<length l div 2]
     \<and> map snd (pairs l) = map (\<lambda>i. l ! (2 * i + 1)) [0..<length l div 2]"
proof (induction l rule: makeDimensions.induct)
  case (3 k v ls)
  have u: "[0..<Suc n] = 0 # map Suc [0..<n]" for n by (simp add: map_Suc_upt flip: upt_conv_Cons)
  have "pairs (k # v # ls) = (k, v) # pairs ls"
    unfolding pairs_def [of "k # v # ls"] using makeDimensions_even [of ls] 3(2) by simp
  with 3 show ?case by (simp add: u del: upt_Suc)
qed (simp_all add: pairs_def)

definition datum :: "int \<Rightarrow> string \<times> string list \<times> float64 list \<Rightarrow> MetricDatum" where
  "datum now = (\<lambda>(name, l, vs). \<lparr>md_MetricName = name, md_Dimensions = pairs l, md_StatisticValues = stats vs,
     md_Timestamp = now\<rparr>)"

lemma cw_visits:
  assumes "\<forall>(name, l, vs) \<in> set xs. even (length l)"
  shows "fst (until (\<lambda>(name, l, vs). cw_visit now name l vs) xs (Ret ds)) = Ret (ds @ map (datum now) xs)"
  using assms
proof (induction xs arbitrary: ds)
  case (Cons x xs)
  obtain name l vs where x: "x = (name, l, vs)" by (rule prod_cases3)
  with Cons.prems have "even (length l)" by auto
  with Cons show ?case by (simp add: x cw_visit_def makeDimensions_even datum_def)
qed simp

lemma cw_collect_correct:
  assumes "wf_space (cw_counters cw)" and "iterates nit" and "iterates it"
  shows "cw_collect nit it now cw
    = (cw\<lparr>cw_counters := NewSpace\<rparr>, Ret (map (datum now) (Space_series nit it (cw_counters cw))))"
proof -
  have "\<forall>(name, l, vs) \<in> set (Space_series nit it (cw_counters cw)). even (length l)"
    unfolding Space_series_set(1) [OF assms] using Space_lookup_even by fastforce
  from cw_visits [OF this, of now "[]"] show ?thesis
    by (simp add: cw_collect_def Space_Reset_def Space_Walk_until)
qed

lemma Space_series_Nil:
  assumes "wf_space sp" and "iterates nit" and "iterates it"
  shows "Space_series nit it sp = [] \<longleftrightarrow> (\<forall>name l. Space_lookup sp name l = [])"
proof -
  have "Space_series nit it sp = [] \<longleftrightarrow> set (Space_series nit it sp) = {}" by simp
  also have "\<dots> \<longleftrightarrow> (\<forall>name l. Space_lookup sp name l = [])" unfolding Space_series_set(1) [OF assms] by auto
  finally show ?thesis .
qed

text \<open>The states of a program: what \<open>New\<close> returns, and what metrics and calls of \<open>Send\<close> make of it.\<close>

inductive cw_made :: "cw_Counter \<Rightarrow> bool" where
  "cw_made \<lparr>cc_name = name, cc_lvs = []\<rparr>"
| "cw_made c \<Longrightarrow> cw_made (cw_Counter_With c ls)"

inductive cw_reach :: "string \<Rightarrow> cw_option list \<Rightarrow> CloudWatch \<Rightarrow> bool" for namespace options where
  new: "cw_New namespace options = Ret cw \<Longrightarrow> cw_reach namespace options cw"
| add: "cw_reach namespace options cw \<Longrightarrow> cw_made c \<Longrightarrow> cw_reach namespace options (fst (cw_Counter_Add c v cw))"
| send: "cw_reach namespace options cw \<Longrightarrow> cw_reach namespace options (fst (cw_collect nit it now cw))"

lemma cw_New_wf: "cw_New namespace (map WithConcurrentRequests ns) = Ret cw \<Longrightarrow> wf_space (cw_counters cw)"
proof -
  have "cw_counters (fold (\<lambda>optFunc cw. optFunc cw) (map WithConcurrentRequests ns) cw0) = cw_counters cw0" for cw0
    by (induction ns arbitrary: cw0) (simp_all add: WithConcurrentRequests_def)
  then show "cw_New namespace (map WithConcurrentRequests ns) = Ret cw \<Longrightarrow> wf_space (cw_counters cw)"
    by (auto simp: cw_New_def Let_def split: if_splits)
qed

lemma cw_reach_props:
  assumes "cw_reach namespace (map WithConcurrentRequests ns) cw"
  shows "wf_space (cw_counters cw) \<and> (\<exists>cw0. cw_New namespace (map WithConcurrentRequests ns) = Ret cw0 \<and> cw_sem cw = cw_sem cw0)"
  using assms
proof (induction rule: cw_reach.induct)
  case (new cw)
  then show ?case using cw_New_wf by blast
next
  case (add cw c v)
  then show ?case by (simp add: cw_Counter_Add_def split_beta Space_Observe_wf)
next
  case (send cw nit it now)
  then show ?case by (simp add: cw_collect_def Space_Reset_def split_beta)
qed

lemma cw_New_sem:
  "cw_New namespace (map WithConcurrentRequests (ns @ [n])) = Ret cw \<Longrightarrow> 0 \<le> n \<and> cw_sem cw = nat (min n 20)"
  by (auto simp: cw_New_def Let_def WithConcurrentRequests_def maxConcurrentRequests_def split: if_splits)

subsection \<open>Properties\<close>

text \<open>C33: The goroutines of a \<open>Send\<close> keep within the semaphore, put each batch exactly once, and end: after any run of
  \<open>n\<close> steps no more than the capacity of the semaphore are under way, every batch is waiting, under way or put, the
  error of the group is the first that occurred; \<open>n\<close> is at most two per batch, with equality exactly if all
  have ended, and when the capacity is positive some goroutine can go on as long as not all have ended.\<close>

theorem cw_requests_bounded:
  assumes "((cw_step sem) ^^ n) (sending_start bs) s"
  shows "length (sd_flight s) \<le> sem
    \<and> mset (sd_waiting s) + mset (sd_flight s) + mset (map fst (sd_put s)) = mset bs
    \<and> sd_err s = first_error (map snd (sd_put s))
    \<and> n \<le> 2 * length bs \<and> (sending_done s \<longleftrightarrow> n = 2 * length bs)
    \<and> (0 < sem \<longrightarrow> sending_done s \<or> (\<exists>s'. cw_step sem s s'))"
  using cw_steps_inv [OF assms sending_inv_start(1)] cw_step_possible [of sem s]
  by (auto simp: sending_inv_def sending_inv_start(2) sending_done_iff)

theorem cw_requests_bounded_witness:
  "\<exists>s. ((cw_step 1) ^^ 1) (sending_start [''a'', ''b'']) (s :: (string, string) sending)
     \<and> length (sd_flight s) \<le> 1 \<and> \<not> sending_done s"
proof -
  define s0 where "s0 = (sending_start [''a'', ''b''] :: (string, string) sending)"
  have "cw_step 1 s0 (s0\<lparr>sd_waiting := [] @ [''b''], sd_flight := sd_flight s0 @ [''a'']\<rparr>)"
    by (rule cw_step.acquire) (simp_all add: s0_def sending_start_def)
  then have "((cw_step 1) ^^ 1) (sending_start [''a'', ''b'']) (s0\<lparr>sd_waiting := [] @ [''b''], sd_flight := sd_flight s0 @ [''a'']\<rparr>)"
    unfolding s0_def by (simp only: relpowp_1)
  from cw_requests_bounded [OF this] this show ?thesis by (intro exI conjI) auto
qed

text \<open>C30: A \<open>Send\<close> that returns has put every series that had values exactly once, as one data point with the
  statistics of its values, in batches of at least one and at most twenty points; it leaves an empty space and returns the
  first error of the requests.\<close>

theorem cw_Send_correct:
  assumes "cw_reach namespace (map WithConcurrentRequests ns) cw" and "iterates nit" and "iterates it"
    and "cw_sends nit it now cw cw' s"
  shows "cw_counters cw' = NewSpace
    \<and> mset (concat (map fst (sd_put s))) = mset (map (datum now) (Space_series nit it (cw_counters cw)))
    \<and> set (Space_series nit it (cw_counters cw)) = {(name, l, vs). vs = Space_lookup (cw_counters cw) name l \<and> vs \<noteq> []}
    \<and> (\<forall>b \<in> set (map fst (sd_put s)). 1 \<le> length b \<and> length b \<le> 20)
    \<and> sd_err s = first_error (map snd (sd_put s))"
proof -
  have wf: "wf_space (cw_counters cw)" using cw_reach_props [OF assms(1)] by simp
  let ?ds = "map (datum now) (Space_series nit it (cw_counters cw))"
  from assms(4) have c: "cw' = cw\<lparr>cw_counters := NewSpace\<rparr>" "sending_done s"
      "(cw_step (cw_sem cw))\<^sup>*\<^sup>* (sending_start (cw_batches ?ds)) s"
    by (auto simp: cw_sends.simps cw_collect_correct [OF wf assms(2,3)])
  from rtranclp_imp_relpowp [OF c(3)] obtain n where "((cw_step (cw_sem cw)) ^^ n) (sending_start (cw_batches ?ds)) s" ..
  from cw_steps_inv [OF this sending_inv_start(1)] have i: "sending_inv (cw_sem cw) (cw_batches ?ds) s" by simp
  with c(2) have m: "mset (map fst (sd_put s)) = mset (cw_batches ?ds)" by (simp add: sending_inv_def sending_done_def)
  then have "mset (concat (map fst (sd_put s))) = mset (concat (cw_batches ?ds))"
    by (simp only: mset_concat mset_map flip: sum_mset_sum_list)
  moreover have "set (map fst (sd_put s)) = set (cw_batches ?ds)" using m by (metis set_mset_mset)
  ultimately show ?thesis
    using cw_batches_props [of ?ds] i Space_series_set(1) [OF wf assms(2,3)] by (simp add: c(1) sending_inv_def)
qed

text \<open>With values to send, \<open>Send\<close> can return exactly if the option \<open>WithConcurrentRequests\<close> was not given zero: then the
  semaphore is a channel without capacity, from which nobody receives before having sent, so that every goroutine waits
  for ever and so does \<open>Send\<close>. (A negative number makes \<open>New\<close> panic.)\<close>

theorem cw_Send_returns_iff:
  assumes "cw_reach namespace (map WithConcurrentRequests (ns @ [n])) cw" and "iterates nit" and "iterates it"
    and "Space_lookup (cw_counters cw) name l \<noteq> []"
  shows "(\<exists>cw' (s :: (MetricDatum list, string) sending). cw_sends nit it now cw cw' s) \<longleftrightarrow> n \<noteq> 0"
proof -
  from cw_reach_props [OF assms(1)] have wf: "wf_space (cw_counters cw)" and n: "0 \<le> n" "cw_sem cw = nat (min n 20)"
    using cw_New_sem [of namespace ns n] by auto
  let ?ds = "map (datum now) (Space_series nit it (cw_counters cw))"
  have ne: "cw_batches ?ds \<noteq> []"
    using Space_series_Nil [OF wf assms(2,3)] assms(4) by (auto simp: cw_batches_Nil_iff)
  let ?start = "sending_start (cw_batches ?ds) :: (MetricDatum list, string) sending"
  have sends: "(\<exists>cw' (s :: (MetricDatum list, string) sending). cw_sends nit it now cw cw' s)
      \<longleftrightarrow> (\<exists>s. (cw_step (cw_sem cw))\<^sup>*\<^sup>* ?start s \<and> sending_done s)"
    by (simp add: cw_sends.simps cw_collect_correct [OF wf assms(2,3)])
  show ?thesis
  proof (cases "n = 0")
    case True
    then have "\<not> cw_step (cw_sem cw) ?start s" for s
      using n by (auto simp: sending_start_def elim!: cw_stepE)
    then have "s = ?start" if "(cw_step (cw_sem cw))\<^sup>*\<^sup>* ?start s" for s
      using that by (metis converse_rtranclpE)
    then have "\<not> (\<exists>s. (cw_step (cw_sem cw))\<^sup>*\<^sup>* ?start s \<and> sending_done s)"
      using ne by (metis sending_done_def sending_start_def sending.select_convs(1))
    with True sends show ?thesis by simp
  next
    case False
    with n have "0 < cw_sem cw" by simp
    from cw_runs_end [OF this, of ?start] False sends show ?thesis by simp
  qed
qed

definition cw_example :: "int \<Rightarrow> CloudWatch" where
  "cw_example n = fst (cw_Counter_Add \<lparr>cc_name = ''c'', cc_lvs = []\<rparr> (F64 2)
     \<lparr>cw_namespace = ''ns'', cw_counters = NewSpace, cw_numConcurrentRequests = n, cw_sem = nat n\<rparr>)"

lemma cw_example_reach: "0 \<le> n \<Longrightarrow> n \<le> 20 \<Longrightarrow> cw_reach ''ns'' (map WithConcurrentRequests ([] @ [n])) (cw_example n)"
  unfolding cw_example_def
  by (intro cw_reach.add cw_reach.new cw_made.intros)
    (simp add: cw_New_def WithConcurrentRequests_def maxConcurrentRequests_def Let_def)

lemma cw_example_lookup: "Space_lookup (cw_counters (cw_example n)) ''c'' [] = [F64 2]"
  by (simp add: cw_example_def cw_Counter_Add_def split_beta Space_lookup_Observe)

theorem cw_Send_returns_iff_witness:
  "\<not> (\<exists>cw' (s :: (MetricDatum list, string) sending). cw_sends rev rev 7 (cw_example 0) cw' s)
   \<and> (\<exists>cw' (s :: (MetricDatum list, string) sending). cw_sends rev rev 7 (cw_example 3) cw' s)"
  using cw_Send_returns_iff [OF cw_example_reach [of 0] iterates_rev iterates_rev, of "''c''" "[]" 7]
    cw_Send_returns_iff [OF cw_example_reach [of 3] iterates_rev iterates_rev, of "''c''" "[]" 7]
  by (simp add: cw_example_lookup)

theorem cw_Send_correct_witness:
  "\<exists>cw' (s :: (MetricDatum list, string) sending). cw_sends rev rev 7 (cw_example 3) cw' s
     \<and> cw_counters cw' = NewSpace
     \<and> mset (concat (map fst (sd_put s))) = mset (map (datum 7) (Space_series rev rev (cw_counters (cw_example 3))))"
proof -
  have three: "0 \<le> (3 :: int)" "(3 :: int) \<le> 20" by simp_all
  have w: "wf_space (cw_counters (cw_example 3))" using cw_reach_props [OF cw_example_reach [OF three]] by simp
  have "0 < cw_sem (cw_example 3)" by (simp add: cw_example_def cw_Counter_Add_def split_beta)
  from cw_runs_end [OF this] obtain s :: "(MetricDatum list, string) sending" where
    "(cw_step (cw_sem (cw_example 3)))\<^sup>*\<^sup>*
       (sending_start (cw_batches (map (datum 7) (Space_series rev rev (cw_counters (cw_example 3)))))) s" "sending_done s"
    by blast
  then have "cw_sends rev rev 7 (cw_example 3) ((cw_example 3)\<lparr>cw_counters := NewSpace\<rparr>) s"
    by (intro cw_sends.intros [OF cw_collect_correct [OF w iterates_rev iterates_rev]])
  with cw_Send_correct [OF cw_example_reach [OF three] iterates_rev iterates_rev this] show ?thesis by blast
qed

lemma stats_loop_props:
  assumes "stats_loop a (s0, mn0, mx0) = (s, mn, mx)"
    and "\<forall>x \<in> set a \<union> {mn0, mx0}. f64_finite x"
  shows "s = foldl f64_add s0 a \<and> mn \<in> insert mn0 (set a) \<and> mx \<in> insert mx0 (set a)
    \<and> (\<forall>x \<in> insert mn0 (set a). \<not> f64_lt x mn) \<and> (\<forall>x \<in> insert mx0 (set a). \<not> f64_lt mx x)"
  using assms
proof (induction a arbitrary: s0 mn0 mx0)
  case (Cons f a)
  let ?mn = "if f64_lt f mn0 then f else mn0" and ?mx = "if f64_lt mx0 f then f else mx0"
  have fin: "f64_finite f" "f64_finite mn0" "f64_finite mx0" using Cons.prems(2) by simp_all
  have lt: "f64_lt x y \<longleftrightarrow> f64_val x < f64_val y" if "f64_finite x" "f64_finite y" for x y
    using that by (cases x; cases y) (simp_all add: f64_lt_def f64_finite_def)
  from Cons have IH: "s = foldl f64_add (f64_add s0 f) a \<and> mn \<in> insert ?mn (set a) \<and> mx \<in> insert ?mx (set a)
      \<and> (\<forall>x \<in> insert ?mn (set a). \<not> f64_lt x mn) \<and> (\<forall>x \<in> insert ?mx (set a). \<not> f64_lt mx x)"
    by (intro Cons.IH) (auto split: if_splits)
  then have "f64_finite mn" "f64_finite mx" using Cons.prems(2) by (auto split: if_splits)
  with IH lt [of _ mn] lt [of mx] lt [OF fin(1,2)] lt [OF fin(3,1)] fin show ?case
    by (auto split: if_splits)
qed (auto simp: f64_lt_def)

definition float64_values :: "float64 list \<Rightarrow> bool" where
  "float64_values a \<longleftrightarrow> (\<forall>x \<in> set a. f64_finite x \<and> \<bar>f64_val x\<bar> \<le> MaxFloat64)"

text \<open>The statistics of a non-empty list of finite values: the least and the greatest of them, their sum added up
  from left to right, and their number. Infinities are not always seen: when nothing but plus infinity was observed the
  minimum is the greatest finite double.\<close>

theorem stats_correct:
  assumes "a \<noteq> []" and "float64_values a" and "length a < 2 ^ 53"
  shows "(\<exists>x \<in> set a. f64_val (Minimum (stats a)) = f64_val x) \<and> (\<forall>x \<in> set a. \<not> f64_lt x (Minimum (stats a)))
    \<and> (\<exists>x \<in> set a. f64_val (Maximum (stats a)) = f64_val x) \<and> (\<forall>x \<in> set a. \<not> f64_lt (Maximum (stats a)) x)
    \<and> Sum (stats a) = foldl f64_add (F64 0) a \<and> SampleCount (stats a) = F64 (of_nat (length a))
    \<and> Minimum (stats [F64_PInf]) = F64 MaxFloat64"
proof -
  obtain s mn mx where l: "stats_loop a (F64 0, F64 MaxFloat64, F64 (- MaxFloat64)) = (s, mn, mx)" by (rule prod_cases3)
  have v: "f64_finite x" "\<bar>f64_val x\<bar> \<le> MaxFloat64" if "x \<in> set a" for x
    using assms(2) that by (simp_all add: float64_values_def)
  have fin: "f64_finite (F64 q)" for q by (simp add: f64_finite_def)
  have "\<forall>x \<in> set a \<union> {F64 MaxFloat64, F64 (- MaxFloat64)}. f64_finite x" using v(1) fin by auto
  note p = stats_loop_props [OF l this]
  obtain x where x: "x \<in> set a" using assms(1) by (cases a) auto
  have lt: "f64_lt x y \<longleftrightarrow> f64_val x < f64_val y" if "f64_finite x" "f64_finite y" for x y
    using that by (cases x; cases y) (simp_all add: f64_lt_def f64_finite_def)
  have f: "f64_finite mn" "f64_finite mx" using p v(1) fin by auto
  have "\<exists>x \<in> set a. f64_val mn = f64_val x"
  proof (cases "mn \<in> set a")
    case False
    with p have "mn = F64 MaxFloat64" by simp
    moreover from p x have "\<not> f64_val x < f64_val mn" using lt [OF v(1) [OF x] f(1)] by simp
    ultimately have "f64_val x = f64_val mn" using v(2) [OF x] by simp
    with x show ?thesis by metis
  qed blast
  moreover have "\<exists>x \<in> set a. f64_val mx = f64_val x"
  proof (cases "mx \<in> set a")
    case False
    with p have "mx = F64 (- MaxFloat64)" by simp
    moreover from p x have "\<not> f64_val mx < f64_val x" using lt [OF f(2) v(1) [OF x]] by simp
    ultimately have "f64_val x = f64_val mx" using v(2) [OF x] by simp
    with x show ?thesis by metis
  qed blast
  moreover have "f64_of_int (int (length a)) = F64 (of_nat (length a))"
    using f64_of_int_exact [of "int (length a)"] assms(3) by simp
  ultimately show ?thesis
    using assms(1) p by (simp add: stats_def l) (simp add: f64_lt_def)
qed

theorem stats_correct_witness:
  "f64_val (Minimum (stats [F64 3, F64 1])) \<in> {1, 3} \<and> \<not> f64_lt (F64 1) (Minimum (stats [F64 3, F64 1]))
   \<and> SampleCount (stats [F64 3, F64 1]) = F64 2"
proof -
  have "(3 :: rat) \<le> MaxFloat64" "(1 :: rat) \<le> MaxFloat64" by (simp_all add: MaxFloat64_def)
  then have "float64_values [F64 3, F64 1]" by (simp add: float64_values_def f64_finite_def)
  from stats_correct [OF _ this] show ?thesis by auto
qed

end
