(* ===== verification/Graphite.thy ===== *)
theory Graphite
  imports Line_Writer Generic_Metrics Conn_Manager
begin

text \<open>
  Package metrics/graphite, file graphite.go: named counters, gauges and histograms, without labels, that
  are printed as lines. Clients hold pointers to the metrics, so these live in stores, one for each kind,
  and a pointer is an index; the maps of the \<open>Graphite\<close> object lead from names to pointers. The quantiles
  of a histogram, of type \<open>'h\<close>, are a parameter. The order in which the maps are ranged over is \<open>it\<close>.
\<close>

type_synonym gr_map = "(string \<times> nat) list"

record 'h Graphite =
  gr_prefix :: string
  gr_counters :: gr_map
  gr_gauges :: gr_map
  gr_histograms :: gr_map
  gr_cheap :: "metric list"
  gr_gheap :: "metric list"
  gr_hheap :: "Histogram list"
  gr_safe :: "'h list"

definition Graphite_New :: "string \<Rightarrow> 'h Graphite" where
  "Graphite_New prefix = \<lparr>gr_prefix = prefix, gr_counters = [], gr_gauges = [], gr_histograms = [],
     gr_cheap = [], gr_gheap = [], gr_hheap = [], gr_safe = []\<rparr>"

definition Graphite_NewCounter :: "'h Graphite \<Rightarrow> string \<Rightarrow> 'h Graphite \<times> nat" where
  "Graphite_NewCounter g name =
     (let a = length (gr_cheap g) in
      (g\<lparr>gr_cheap := gr_cheap g @ [NewCounter (gr_prefix g @ name)],
         gr_counters := AList.update (gr_prefix g @ name) a (gr_counters g)\<rparr>, a))"

definition Graphite_NewGauge :: "'h Graphite \<Rightarrow> string \<Rightarrow> 'h Graphite \<times> nat" where
  "Graphite_NewGauge g name =
     (let a = length (gr_gheap g) in
      (g\<lparr>gr_gheap := gr_gheap g @ [NewGauge (gr_prefix g @ name)],
         gr_gauges := AList.update (gr_prefix g @ name) a (gr_gauges g)\<rparr>, a))"

definition Graphite_NewHistogram :: "(int \<Rightarrow> 'h) \<Rightarrow> 'h Graphite \<Rightarrow> string \<Rightarrow> int \<Rightarrow> 'h Graphite \<times> nat" where
  "Graphite_NewHistogram new_gohistogram g name buckets =
     (let a = length (gr_hheap g);
          (hs, h) = NewHistogram new_gohistogram (gr_prefix g @ name) buckets (gr_safe g)
      in (g\<lparr>gr_safe := hs, gr_hheap := gr_hheap g @ [h],
         gr_histograms := AList.update (gr_prefix g @ name) a (gr_histograms g)\<rparr>, a))"

definition Graphite_Counter_With :: "nat \<Rightarrow> string list \<Rightarrow> nat" where
  "Graphite_Counter_With c labelValues = c"

definition Graphite_Counter_Add :: "nat \<Rightarrow> float64 \<Rightarrow> 'h Graphite \<Rightarrow> 'h Graphite" where
  "Graphite_Counter_Add c delta g = g\<lparr>gr_cheap := (gr_cheap g)[c := Counter_Add (gr_cheap g ! c) delta]\<rparr>"

definition Graphite_Gauge_With :: "nat \<Rightarrow> string list \<Rightarrow> nat" where
  "Graphite_Gauge_With ga labelValues = ga"

definition Graphite_Gauge_Set :: "nat \<Rightarrow> float64 \<Rightarrow> 'h Graphite \<Rightarrow> 'h Graphite" where
  "Graphite_Gauge_Set ga v g = g\<lparr>gr_gheap := (gr_gheap g)[ga := Gauge_Set (gr_gheap g ! ga) v]\<rparr>"

definition Graphite_Gauge_Add :: "nat \<Rightarrow> float64 \<Rightarrow> 'h Graphite \<Rightarrow> 'h Graphite" where
  "Graphite_Gauge_Add ga delta g = g\<lparr>gr_gheap := (gr_gheap g)[ga := Gauge_Add (gr_gheap g ! ga) delta]\<rparr>"

definition Graphite_Histogram_With :: "nat \<Rightarrow> string list \<Rightarrow> nat" where
  "Graphite_Histogram_With h labelValues = h"

definition Graphite_Histogram_Observe :: "('h \<Rightarrow> float64 \<Rightarrow> 'h) \<Rightarrow> nat \<Rightarrow> float64 \<Rightarrow> 'h Graphite \<Rightarrow> 'h Graphite" where
  "Graphite_Histogram_Observe add h v g =
     g\<lparr>gr_safe := Histogram_Observe add (gr_hheap g ! h) v (gr_safe g)\<rparr>"

subsection \<open>Flushing\<close>

definition graphite_line :: "string \<Rightarrow> float64 \<Rightarrow> int \<Rightarrow> string" where
  "graphite_line name v now = name @ '' '' @ fmt_f v @ '' '' @ Itoa now @ newline"

definition gr_visit_counter :: "'w writer \<Rightarrow> int \<Rightarrow> string \<times> nat \<Rightarrow> metric list \<times> 'w writing
    \<Rightarrow> (metric list \<times> 'w writing) \<times> bool" where
  "gr_visit_counter wr now = (\<lambda>(name, a) (heap, st).
     let (c, v) = Counter_ValueReset (heap ! a);
         (st1, go) = write_line wr (graphite_line name v now) st
     in ((heap[a := c], st1), go))"

definition gr_visit_gauge :: "'w writer \<Rightarrow> int \<Rightarrow> metric list \<Rightarrow> string \<times> nat \<Rightarrow> 'w writing \<Rightarrow> 'w writing \<times> bool" where
  "gr_visit_gauge wr now heap = (\<lambda>(name, a) st.
     write_line wr (graphite_line name (Gauge_Value (heap ! a)) now) st)"

definition gr_quantiles :: "(string \<times> rat) list" where
  "gr_quantiles = [(''50'', 50 / 100), (''90'', 90 / 100), (''95'', 95 / 100), (''99'', 99 / 100)]"

definition gr_visit_histogram :: "(Histogram \<Rightarrow> float64 \<Rightarrow> float64) \<Rightarrow> 'w writer \<Rightarrow> int \<Rightarrow> Histogram list
    \<Rightarrow> string \<times> nat \<Rightarrow> 'w writing \<Rightarrow> 'w writing \<times> bool" where
  "gr_visit_histogram quantile wr now heap = (\<lambda>(name, a) st.
     until (\<lambda>(s, f) st. write_line wr
         (graphite_line (name @ ''.p'' @ s) (quantile (heap ! a) (f64_round f)) now) st)
       gr_quantiles st)"

definition Graphite_WriteTo :: "('h \<Rightarrow> float64 \<Rightarrow> float64) \<Rightarrow> (gr_map \<Rightarrow> gr_map) \<Rightarrow> 'w writer \<Rightarrow> int
    \<Rightarrow> 'h Graphite \<Rightarrow> 'w \<Rightarrow> 'h Graphite \<times> 'w writing" where
  "Graphite_WriteTo quantile it wr now g w =
     (let ((heap, st1), go1) = until (gr_visit_counter wr now) (it (gr_counters g)) (gr_cheap g, writing_start w);
          g1 = g\<lparr>gr_cheap := heap\<rparr>
      in if \<not> go1 then (g1, st1)
         else let (st2, go2) = until (gr_visit_gauge wr now (gr_gheap g1)) (it (gr_gauges g1)) st1
         in if \<not> go2 then (g1, st2)
         else let (st3, go3) = until (gr_visit_histogram (Histogram_Quantile quantile (gr_safe g1)) wr now (gr_hheap g1)) (it (gr_histograms g1)) st2
         in (g1, st3))"

text \<open>\<open>WriteLoop\<close>: one \<open>WriteTo\<close> per tick until the context is done; errors are only logged.\<close>

fun Graphite_WriteLoop :: "('h \<Rightarrow> float64 \<Rightarrow> float64) \<Rightarrow> (gr_map \<Rightarrow> gr_map) \<Rightarrow> 'w writer \<Rightarrow> int list
    \<Rightarrow> 'h Graphite \<Rightarrow> 'w \<Rightarrow> 'h Graphite \<times> 'w" where
  "Graphite_WriteLoop quantile it wr [] g w = (g, w)"
| "Graphite_WriteLoop quantile it wr (now # ticks) g w =
     (let (g1, st) = Graphite_WriteTo quantile it wr now g w
      in Graphite_WriteLoop quantile it wr ticks g1 (ws_w st))"

definition Graphite_SendLoop :: "('h \<Rightarrow> float64 \<Rightarrow> float64) \<Rightarrow> (gr_map \<Rightarrow> gr_map) \<Rightarrow> ('c \<Rightarrow> string \<Rightarrow> int \<times> string option)
    \<Rightarrow> ('c manager \<Rightarrow> 'c manager) \<Rightarrow> int list \<Rightarrow> 'h Graphite \<Rightarrow> 'c option \<times> string option
    \<Rightarrow> 'h Graphite \<times> 'c manager" where
  "Graphite_SendLoop quantile it net_write mid ticks g dialed =
     Graphite_WriteLoop quantile it (Manager_Write net_write mid) ticks g (loop_start dialed)"

subsection \<open>The lines of a flush\<close>

definition gr_counter_lines :: "int \<Rightarrow> metric list \<Rightarrow> gr_map \<Rightarrow> string list" where
  "gr_counter_lines now heap cs = map (\<lambda>(name, a). graphite_line name (Counter_Value (heap ! a)) now) cs"

definition gr_gauge_lines :: "int \<Rightarrow> metric list \<Rightarrow> gr_map \<Rightarrow> string list" where
  "gr_gauge_lines now heap gs = map (\<lambda>(name, a). graphite_line name (Gauge_Value (heap ! a)) now) gs"

definition gr_histogram_lines :: "(Histogram \<Rightarrow> float64 \<Rightarrow> float64) \<Rightarrow> int \<Rightarrow> Histogram list \<Rightarrow> gr_map \<Rightarrow> string list" where
  "gr_histogram_lines quantile now heap hs = concat (map (\<lambda>(name, a). map (\<lambda>(s, f).
     graphite_line (name @ ''.p'' @ s) (quantile (heap ! a) (f64_round f)) now) gr_quantiles) hs)"

definition Graphite_lines :: "('h \<Rightarrow> float64 \<Rightarrow> float64) \<Rightarrow> (gr_map \<Rightarrow> gr_map) \<Rightarrow> int \<Rightarrow> 'h Graphite \<Rightarrow> string list" where
  "Graphite_lines quantile it now g =
     gr_counter_lines now (gr_cheap g) (it (gr_counters g))
   @ gr_gauge_lines now (gr_gheap g) (it (gr_gauges g))
   @ gr_histogram_lines (Histogram_Quantile quantile (gr_safe g)) now (gr_hheap g) (it (gr_histograms g))"

definition gr_resets :: "gr_map \<Rightarrow> metric list \<Rightarrow> metric list" where
  "gr_resets cs heap = fold (\<lambda>(name, a) h. h[a := fst (Counter_ValueReset (h ! a))]) cs heap"

lemma gr_visit_counters:
  assumes "live st" and "ws_err st = None" and "distinct (map snd cs)"
  shows "until (gr_visit_counter limited now) cs (heap, st)
    = ((gr_resets (take (Suc (fst (ws_w st))) cs) heap, wrote (gr_counter_lines now heap cs) st),
       length cs \<le> fst (ws_w st))"
  using assms
proof (induction cs arbitrary: heap st)
  case (Cons c cs)
  obtain name a where c: "c = (name, a)" by (rule prod.exhaust)
  obtain k out where w: "ws_w st = (k, out)" by (rule prod.exhaust)
  let ?line = "graphite_line name (Counter_Value (heap ! a)) now"
  let ?heap = "heap[a := fst (Counter_ValueReset (heap ! a))]"
  have v: "gr_visit_counter limited now c (heap, st) = ((?heap, wrote [?line] st), ws_err (wrote [?line] st) = None)"
    using live_write_line [OF Cons.prems(1), of ?line]
    by (simp add: c gr_visit_counter_def Counter_ValueReset_def Counter_Value_def)
  have e: "wrote (gr_counter_lines now heap (c # cs)) st = wrote (gr_counter_lines now heap cs) (wrote [?line] st)"
    using live_wrote_append [OF Cons.prems(1), of _ "[?line]"] by (simp add: gr_counter_lines_def c)
  show ?case
  proof (cases k)
    case 0
    then have "ws_err (wrote [?line] st) \<noteq> None" by (simp add: wrote_def w)
    with live_wrote_stop [OF live_wrote [OF Cons.prems(1)] this] v e show ?thesis
      by (simp add: w 0 gr_resets_def c)
  next
    case (Suc j)
    then have n: "ws_err (wrote [?line] st) = None" "ws_w (wrote [?line] st) = (j, out @ [?line])"
      using Cons.prems(2) by (simp_all add: wrote_def w)
    have same: "gr_counter_lines now ?heap cs = gr_counter_lines now heap cs"
      using Cons.prems(3) unfolding gr_counter_lines_def c
      by (intro map_cong) (auto simp: image_iff intro!: arg_cong2 [where f = "\<lambda>v now. graphite_line _ v now"] nth_list_update_neq)
    from Cons.IH [OF live_wrote [OF Cons.prems(1)] n(1), where heap = ?heap] n Cons.prems(3) v e same show ?thesis
      by (simp add: w Suc gr_resets_def c)
  qed
qed (simp add: gr_resets_def gr_counter_lines_def)

lemma gr_visit_lines:
  "until (gr_visit_gauge wr now heap) gs st = until (write_line wr) (gr_gauge_lines now heap gs) st"
  "until (gr_visit_histogram quantile wr now hheap) hs st
     = until (write_line wr) (gr_histogram_lines quantile now hheap hs) st"
proof -
  have "gr_visit_gauge wr now heap = (\<lambda>x. write_line wr (case x of (name, a) \<Rightarrow> graphite_line name (Gauge_Value (heap ! a)) now))"
    by (simp add: gr_visit_gauge_def fun_eq_iff)
  then show "until (gr_visit_gauge wr now heap) gs st = until (write_line wr) (gr_gauge_lines now heap gs) st"
    by (simp add: gr_gauge_lines_def until_map)
  have "gr_visit_histogram quantile wr now hheap = (\<lambda>x. until (write_line wr) (case x of (name, a) \<Rightarrow> map (\<lambda>(s, f).
      graphite_line (name @ ''.p'' @ s) (quantile (hheap ! a) (f64_round f)) now) gr_quantiles))"
    by (simp add: gr_visit_histogram_def fun_eq_iff until_map split_def)
  then show "until (gr_visit_histogram quantile wr now hheap) hs st
      = until (write_line wr) (gr_histogram_lines quantile now hheap hs) st"
    by (simp add: gr_histogram_lines_def until_concat)
qed

lemma Graphite_WriteTo_writes:
  assumes "distinct (map snd (it (gr_counters g)))" and "Graphite_WriteTo quantile it limited now g (k, []) = (g', st)"
  shows "st = wrote (Graphite_lines quantile it now g) (writing_start (k, []))
    \<and> g' = g\<lparr>gr_cheap := gr_resets (take (Suc k) (it (gr_counters g))) (gr_cheap g)\<rparr>"
proof -
  let ?c = "gr_counter_lines now (gr_cheap g) (it (gr_counters g))"
  let ?g = "gr_gauge_lines now (gr_gheap g) (it (gr_gauges g))"
  let ?h = "gr_histogram_lines (Histogram_Quantile quantile (gr_safe g)) now (gr_hheap g) (it (gr_histograms g))"
  let ?st0 = "writing_start (k, [])"
  have s0: "ws_err ?st0 = None" "fst (ws_w ?st0) = k" by (simp_all add: writing_start_def)
  note c = gr_visit_counters [OF live_start s0(1) assms(1), unfolded s0(2), of now "gr_cheap g"]
  have n: "length (it (gr_counters g)) \<le> k \<longleftrightarrow> ws_err (wrote ?c ?st0) = None"
    by (simp add: wrote_def writing_start_def gr_counter_lines_def)
  have l: "live (wrote ?c ?st0)" "live (wrote ?g (wrote ?c ?st0))" by simp_all
  have stop: "wrote xs (wrote ?c ?st0) = wrote ?c ?st0" if "ws_err (wrote ?c ?st0) \<noteq> None" for xs
    using live_wrote_stop [OF l(1) that] .
  have stop2: "wrote xs (wrote ?g (wrote ?c ?st0)) = wrote ?g (wrote ?c ?st0)"
    if "ws_err (wrote ?g (wrote ?c ?st0)) \<noteq> None" for xs
    using live_wrote_stop [OF l(2) that] .
  have "st = wrote ?h (wrote ?g (wrote ?c ?st0))
      \<and> g' = g\<lparr>gr_cheap := gr_resets (take (Suc k) (it (gr_counters g))) (gr_cheap g)\<rparr>"
    using assms(2) c n stop stop2
    by (auto simp: Graphite_WriteTo_def gr_visit_lines live_until_write [OF l(1)] live_until_write [OF l(2)] Let_def
        split: if_splits)
  then show ?thesis by (simp add: Graphite_lines_def live_wrote_append)
qed

lemma gr_resets_value:
  assumes "distinct (map snd cs)" and "\<forall>a \<in> snd ` set cs. a < length heap"
  shows "Counter_Value (gr_resets cs heap ! a)
    = (if a \<in> snd ` set cs then F64 0 else Counter_Value (heap ! a))"
  using assms
proof (induction cs arbitrary: heap)
  case (Cons c cs)
  obtain name b where c: "c = (name, b)" by (rule prod.exhaust)
  have "gr_resets (c # cs) heap = gr_resets cs (heap[b := fst (Counter_ValueReset (heap ! b))])"
    by (simp add: gr_resets_def c)
  with Cons show ?case by (auto simp: c Counter_Value_def Counter_ValueReset_def nth_list_update)
qed (simp add: gr_resets_def)

subsection \<open>The states of a program\<close>

inductive gr_reach :: "string \<Rightarrow> (int \<Rightarrow> 'h) \<Rightarrow> ('h \<Rightarrow> float64 \<Rightarrow> 'h) \<Rightarrow> 'h Graphite \<Rightarrow> bool" for prefix new_h add_h where
  new: "gr_reach prefix new_h add_h (Graphite_New prefix)"
| counter: "gr_reach prefix new_h add_h g \<Longrightarrow> gr_reach prefix new_h add_h (fst (Graphite_NewCounter g name))"
| gauge: "gr_reach prefix new_h add_h g \<Longrightarrow> gr_reach prefix new_h add_h (fst (Graphite_NewGauge g name))"
| histogram: "gr_reach prefix new_h add_h g \<Longrightarrow> gr_reach prefix new_h add_h (fst (Graphite_NewHistogram new_h g name n))"
| add: "gr_reach prefix new_h add_h g \<Longrightarrow> gr_reach prefix new_h add_h (Graphite_Counter_Add c v g)"
| set: "gr_reach prefix new_h add_h g \<Longrightarrow> gr_reach prefix new_h add_h (Graphite_Gauge_Set ga v g)"
| gauge_add: "gr_reach prefix new_h add_h g \<Longrightarrow> gr_reach prefix new_h add_h (Graphite_Gauge_Add ga v g)"
| observe: "gr_reach prefix new_h add_h g \<Longrightarrow> gr_reach prefix new_h add_h (Graphite_Histogram_Observe add_h h v g)"
| flush: "gr_reach prefix new_h add_h g \<Longrightarrow> iterates it \<Longrightarrow>
    gr_reach prefix new_h add_h (fst (Graphite_WriteTo quantile it limited now g (k, [])))"

definition gr_map_ok :: "gr_map \<Rightarrow> nat \<Rightarrow> bool" where
  "gr_map_ok m n \<longleftrightarrow> distinct (map fst m) \<and> distinct (map snd m) \<and> (\<forall>a \<in> snd ` set m. a < n)"

lemma snd_update: "snd ` set (AList.update k v m) \<subseteq> insert v (snd ` set m)"
  by (induction m) auto

lemma distinct_snd_update:
  "distinct (map snd m) \<Longrightarrow> v \<notin> snd ` set m \<Longrightarrow> distinct (map snd (AList.update k v m))"
proof (induction m)
  case (Cons p m)
  have "snd p \<notin> snd ` set (AList.update k v m)" using snd_update [of k v m] Cons.prems by auto
  with Cons show ?case by (cases p) auto
qed simp

lemma gr_map_ok_update: "gr_map_ok m n \<Longrightarrow> gr_map_ok (AList.update k n m) (Suc n)"
proof -
  assume m: "gr_map_ok m n"
  then have "n \<notin> snd ` set m" by (auto simp: gr_map_ok_def)
  moreover have "\<forall>a \<in> insert n (snd ` set m). a < Suc n" using m by (auto simp: gr_map_ok_def)
  then have "\<forall>a \<in> snd ` set (AList.update k n m). a < Suc n" using snd_update [of k n m] by blast
  ultimately show ?thesis
    using m by (simp only: gr_map_ok_def distinct_update_keys distinct_snd_update simp_thms)
qed

lemma length_gr_resets [simp]: "length (gr_resets cs heap) = length heap"
  by (induction cs arbitrary: heap) (auto simp: gr_resets_def)

lemma Graphite_WriteTo_keeps:
  assumes "gr_map_ok (gr_counters g) (length (gr_cheap g))" and "iterates it"
  shows "fst (Graphite_WriteTo quantile it limited now g (k, []))
    = g\<lparr>gr_cheap := gr_resets (take (Suc k) (it (gr_counters g))) (gr_cheap g)\<rparr>"
proof -
  have "mset (map snd (it (gr_counters g))) = mset (map snd (gr_counters g))" by (rule iterates_map_mset [OF assms(2)])
  then have "distinct (map snd (it (gr_counters g)))"
    using assms(1) mset_eq_imp_distinct_iff by (auto simp only: gr_map_ok_def)
  from Graphite_WriteTo_writes [where it = it, OF this surjective_pairing] show ?thesis by simp
qed

lemma gr_reach_ok:
  "gr_reach prefix new_h add_h g \<Longrightarrow> gr_map_ok (gr_counters g) (length (gr_cheap g))
     \<and> gr_map_ok (gr_gauges g) (length (gr_gheap g)) \<and> gr_map_ok (gr_histograms g) (length (gr_hheap g))"
  by (induction rule: gr_reach.induct)
    (simp_all add: Graphite_New_def Graphite_NewCounter_def Graphite_NewGauge_def Graphite_NewHistogram_def
      Graphite_Counter_Add_def Graphite_Gauge_Set_def Graphite_Gauge_Add_def Graphite_Histogram_Observe_def NewHistogram_def Let_def
      gr_map_ok_update gr_map_ok_def [of "[]"] Graphite_WriteTo_keeps)

subsection \<open>Properties\<close>

text \<open>A flush to a writer that takes \<open>k\<close> lines and then fails: the lines of all counters, gauges and quantiles are
  written in order up to the first refused one, with the bytes counted and an error exactly if one was refused. Only
  counters whose line was tried are reset (the one refused loses its value), the others keep it for the
  next flush; gauges and histograms never change.\<close>

theorem Graphite_WriteTo_correct:
  assumes "gr_reach prefix new_h add_h g" and "iterates it"
    and "Graphite_WriteTo quantile it limited now g (k, []) = (g', st)"
  shows "snd (ws_w st) = take k (Graphite_lines quantile it now g)
    \<and> ws_count st = total_length (take k (Graphite_lines quantile it now g))
    \<and> (ws_err st = None \<longleftrightarrow> length (Graphite_lines quantile it now g) \<le> k)
    \<and> (\<forall>a. Counter_Value (gr_cheap g' ! a) =
         (if a \<in> snd ` set (take (Suc k) (it (gr_counters g))) then F64 0 else Counter_Value (gr_cheap g ! a)))
    \<and> gr_gheap g' = gr_gheap g \<and> gr_hheap g' = gr_hheap g \<and> gr_safe g' = gr_safe g"
proof -
  have ok: "gr_map_ok (gr_counters g) (length (gr_cheap g))" using gr_reach_ok [OF assms(1)] by simp
  have m: "mset (map snd (it (gr_counters g))) = mset (map snd (gr_counters g))" by (rule iterates_map_mset [OF assms(2)])
  then have d: "distinct (map snd (it (gr_counters g)))"
    using ok mset_eq_imp_distinct_iff by (auto simp only: gr_map_ok_def)
  let ?cs = "take (Suc k) (it (gr_counters g))"
  have "distinct (map snd ?cs)" using d by (simp add: distinct_take flip: take_map)
  moreover have "\<forall>a \<in> snd ` set ?cs. a < length (gr_cheap g)"
    using ok iterates_set [OF assms(2)] set_take_subset [of "Suc k" "it (gr_counters g)"] unfolding gr_map_ok_def by blast
  ultimately have "\<forall>a. Counter_Value (gr_resets ?cs (gr_cheap g) ! a)
      = (if a \<in> snd ` set ?cs then F64 0 else Counter_Value (gr_cheap g ! a))" using gr_resets_value by blast
  with Graphite_WriteTo_writes [OF d assms(3)] show ?thesis by (auto simp: wrote_def writing_start_def)
qed

text \<open>A counter that is made again under the same name takes the place of the first one: what is added through the
  first handle from then on is never printed.\<close>

theorem Graphite_counter_replaced:
  assumes "gr_reach prefix new_h add_h g" and "Graphite_NewCounter g name = (g1, c1)"
    and "Graphite_NewCounter g1 name = (g2, c2)" and "iterates it"
  shows "Graphite_lines quantile it now (Graphite_Counter_Add c1 v g2) = Graphite_lines quantile it now g2"
proof -
  have g1: "g1 = fst (Graphite_NewCounter g name)" and g2: "g2 = fst (Graphite_NewCounter g1 name)"
    using assms(2,3) by simp_all
  have ok: "gr_map_ok (gr_counters g1) (length (gr_cheap g1))"
    using gr_reach_ok [OF gr_reach.counter [OF assms(1)]] by (simp add: g1)
  have c1: "c1 = length (gr_cheap g)" "map_of (gr_counters g1) (gr_prefix g @ name) = Some c1"
    "gr_prefix g1 = gr_prefix g" "length (gr_cheap g1) = Suc c1" "gr_cheap g2 = gr_cheap g1 @ [NewCounter (gr_prefix g @ name)]"
    "gr_counters g2 = AList.update (gr_prefix g @ name) (length (gr_cheap g1)) (gr_counters g1)"
    using assms(2,3) by (auto simp: Graphite_NewCounter_def Let_def)
  have fst2: "distinct (map fst (gr_counters g2))" using ok by (simp add: c1(6) gr_map_ok_def)
  have "c1 \<notin> snd ` set (gr_counters g2)"
  proof
    assume "c1 \<in> snd ` set (gr_counters g2)"
    then obtain n where n: "(n, c1) \<in> set (gr_counters g2)" by auto
    then have "map_of (gr_counters g2) n = Some c1" using fst2 by simp
    then have "n \<noteq> gr_prefix g @ name" "map_of (gr_counters g1) n = Some c1"
      by (auto simp: c1(4,6) split: if_splits)
    with c1(2) have "(n, c1) \<in> set (gr_counters g1)" "(gr_prefix g @ name, c1) \<in> set (gr_counters g1)"
      by (auto dest: map_of_SomeD)
    moreover have "inj_on snd (set (gr_counters g1))" using ok by (simp add: gr_map_ok_def distinct_map)
    ultimately show False using \<open>n \<noteq> gr_prefix g @ name\<close> by (metis inj_onD prod.inject snd_conv)
  qed
  then have "c1 \<noteq> a" if "(n, a) \<in> set (it (gr_counters g2))" for n a
    using that iterates_set [OF assms(4)] by force
  then have "gr_counter_lines now ((gr_cheap g2)[c1 := x]) (it (gr_counters g2)) = gr_counter_lines now (gr_cheap g2) (it (gr_counters g2))" for x
    unfolding gr_counter_lines_def by (intro map_cong) (auto simp: nth_list_update_neq)
  then show ?thesis by (simp add: Graphite_lines_def Graphite_Counter_Add_def)
qed

definition graphite_example :: "unit Graphite" where
  "graphite_example = Graphite_Gauge_Set 0 (F64 3) (fst (Graphite_NewGauge
     (Graphite_Counter_Add 0 (F64 2) (fst (Graphite_NewCounter (Graphite_New ''p.'') ''c''))) ''g''))"

lemma graphite_example_reach: "gr_reach ''p.'' (\<lambda>n. ()) (\<lambda>h v. ()) graphite_example"
  unfolding graphite_example_def
  by (intro gr_reach.set gr_reach.gauge gr_reach.add gr_reach.counter gr_reach.new)

lemma graphite_example_lines:
  "Graphite_lines (\<lambda>h p. F64 0) (\<lambda>xs. xs) 7 graphite_example
     = [''p.c 2.000000 7'' @ newline, ''p.g 3.000000 7'' @ newline]"
  by (simp add: graphite_example_def Graphite_New_def Graphite_NewCounter_def Graphite_NewGauge_def
      Graphite_Counter_Add_def Graphite_Gauge_Set_def Graphite_lines_def gr_counter_lines_def gr_gauge_lines_def
      gr_histogram_lines_def graphite_line_def Counter_Add_def Counter_Value_def Gauge_Set_def Gauge_Value_def
      NewCounter_def NewGauge_def Itoa_def Let_def f64_add_int [of 0 2, simplified] fmt_f_eval)

theorem Graphite_WriteTo_correct_witness:
  "snd (ws_w (snd (Graphite_WriteTo (\<lambda>h p. F64 0) (\<lambda>xs. xs) limited 7 graphite_example (1, [])))) = [''p.c 2.000000 7'' @ newline]
   \<and> ws_err (snd (Graphite_WriteTo (\<lambda>h p. F64 0) (\<lambda>xs. xs) limited 7 graphite_example (1, []))) \<noteq> None"
  using Graphite_WriteTo_correct [OF graphite_example_reach iterates_id surjective_pairing, of "\<lambda>h p. F64 0" 7 1]
  by (simp add: graphite_example_lines)

theorem Graphite_counter_replaced_witness:
  "Graphite_lines (\<lambda>h p. F64 0) rev 7 (Graphite_Counter_Add (snd (Graphite_NewCounter graphite_example ''c'')) (F64 5)
      (fst (Graphite_NewCounter (fst (Graphite_NewCounter graphite_example ''c'')) ''c'')))
   = Graphite_lines (\<lambda>h p. F64 0) rev 7 (fst (Graphite_NewCounter (fst (Graphite_NewCounter graphite_example ''c'')) ''c''))"
  by (rule Graphite_counter_replaced [OF graphite_example_reach surjective_pairing surjective_pairing iterates_rev])

end
