(* ===== verification/Zipkin.thy ===== *)
theory Zipkin
  imports Http_Client Grpc
begin

text \<open>
  Package tracing/zipkin: options for the servers and clients of the HTTP and gRPC transports that trace each
  request with a span of the zipkin library, and a middleware that traces an endpoint.

  The library is a parameter, the record \<open>zipkin\<close> of the functions that the package calls; a span is a number, and
  what happens to it happens in the world. A span context is what identifies a span, a sampling decision and an
  error. The names of tags are the constants of the library. \<open>url_String\<close>, \<open>err_Error\<close> and \<open>StatusText\<close> stand for
  methods of URLs, of error values and for the table of net/http.
\<close>

datatype span_tag = TagHTTPMethod | TagHTTPUrl | TagHTTPPath | TagHTTPResponseSize | TagHTTPStatusCode
  | TagGRPCStatusCode | TagError | TagNamed string

datatype span_kind = ClientKind | ServerKind

record 'x SpanContext =
  sc_ids :: 'x
  sc_Sampled :: "bool option"
  sc_Err :: "go_error option"

record 'x span_options =
  so_name :: string
  so_kind :: "span_kind option"
  so_tags :: "(span_tag \<times> string) list list"
  so_Parent :: "'x SpanContext"
  so_FlushOnFinish :: bool

record ('w, 'x) zipkin =
  zero_ids :: 'x
  StartSpan :: "'x span_options \<Rightarrow> 'w \<Rightarrow> 'w \<times> nat"
  span_Context :: "nat \<Rightarrow> 'w \<Rightarrow> 'x SpanContext"
  Tag_Set :: "span_tag \<Rightarrow> nat \<Rightarrow> string \<Rightarrow> 'w \<Rightarrow> 'w"
  span_Finish :: "nat \<Rightarrow> 'w \<Rightarrow> 'w"
  span_Flush :: "nat \<Rightarrow> 'w \<Rightarrow> 'w"
  NewContext :: "context_values \<Rightarrow> nat \<Rightarrow> context_values"
  SpanFromContext :: "context_values \<Rightarrow> nat option"
  ExtractHTTP :: "http_request \<Rightarrow> 'x SpanContext"
  InjectHTTP :: "'x SpanContext \<Rightarrow> http_request \<Rightarrow> http_request \<times> go_error option"
  ExtractGRPC :: "MD \<Rightarrow> 'x SpanContext"
  InjectGRPC :: "'x SpanContext \<Rightarrow> md \<Rightarrow> md \<times> go_error option"

definition zero_context :: "('w, 'x) zipkin \<Rightarrow> 'x SpanContext" where
  "zero_context lib = \<lparr>sc_ids = zero_ids lib, sc_Sampled = None, sc_Err = None\<rparr>"

subsection \<open>Options\<close>

record 'w tracerOptions =
  to_tags :: "(string \<times> string) list"
  to_name :: string
  to_logger :: "go_error \<Rightarrow> 'w \<Rightarrow> 'w"
  to_propagate :: bool
  to_requestSampler :: "(http_request \<Rightarrow> bool) option"

type_synonym 'w TracerOption = "'w tracerOptions \<Rightarrow> 'w tracerOptions"

definition TracerName :: "string \<Rightarrow> 'w TracerOption" where
  "TracerName name o1 = o1\<lparr>to_name := name\<rparr>"

definition TracerTags :: "(string \<times> string) list \<Rightarrow> 'w TracerOption" where
  "TracerTags tags o1 = o1\<lparr>to_tags := fold (\<lambda>(k, v) m. AList.update k v m) tags (to_tags o1)\<rparr>"

definition TracerLogger :: "(go_error \<Rightarrow> 'w \<Rightarrow> 'w) option \<Rightarrow> 'w TracerOption" where
  "TracerLogger logger o1 = (case logger of None \<Rightarrow> o1 | Some l \<Rightarrow> o1\<lparr>to_logger := l\<rparr>)"

definition AllowPropagation :: "bool \<Rightarrow> 'w TracerOption" where
  "AllowPropagation propagate o1 = o1\<lparr>to_propagate := propagate\<rparr>"

definition RequestSampler :: "(http_request \<Rightarrow> bool) \<Rightarrow> 'w TracerOption" where
  "RequestSampler sampleFunc o1 = o1\<lparr>to_requestSampler := Some sampleFunc\<rparr>"

definition tracer_config :: "'w TracerOption list \<Rightarrow> 'w tracerOptions" where
  "tracer_config options = fold (\<lambda>option config. option config) options
     \<lparr>to_tags = [], to_name = [], to_logger = (\<lambda>e w. w), to_propagate = True, to_requestSampler = None\<rparr>"

definition log_error :: "'w tracerOptions \<Rightarrow> go_error option \<Rightarrow> 'w \<Rightarrow> 'w" where
  "log_error config err w = (case err of None \<Rightarrow> w | Some e \<Rightarrow> to_logger config e w)"

definition config_tags :: "'w tracerOptions \<Rightarrow> (span_tag \<times> string) list" where
  "config_tags config = map (\<lambda>(k, v). (TagNamed k, v)) (to_tags config)"

definition parent_context :: "('w, 'x) zipkin \<Rightarrow> context_values \<Rightarrow> 'w \<Rightarrow> 'x SpanContext" where
  "parent_context lib ctx w =
     (case SpanFromContext lib ctx of None \<Rightarrow> zero_context lib | Some parent \<Rightarrow> span_Context lib parent w)"

definition finish_span :: "('w, 'x) zipkin \<Rightarrow> context_values \<Rightarrow> 'w \<Rightarrow> 'w" where
  "finish_span lib ctx w = (case SpanFromContext lib ctx of None \<Rightarrow> w | Some span \<Rightarrow> span_Finish lib span w)"

subsection \<open>HTTP\<close>

definition HTTPClient_before :: "('w, 'x) zipkin \<Rightarrow> (http_request \<Rightarrow> string) \<Rightarrow> 'w tracerOptions \<Rightarrow> 'w RequestFunc" where
  "HTTPClient_before lib url_String config ctx req w =
     (let name = (if to_name config \<noteq> [] then to_name config else r_Method req);
          spanContext = parent_context lib ctx w;
          tags = [(TagHTTPMethod, r_Method req), (TagHTTPUrl, url_String req)];
          (w1, span) = StartSpan lib \<lparr>so_name = name, so_kind = Some ClientKind, so_tags = [config_tags config, tags],
             so_Parent = spanContext, so_FlushOnFinish = False\<rparr> w;
          (req1, err) = (if to_propagate config then InjectHTTP lib (span_Context lib span w1) req else (req, None))
      in (log_error config err w1, req1, NewContext lib ctx span))"

definition HTTPClient_after :: "('w, 'x) zipkin \<Rightarrow> context_values \<Rightarrow> http_response \<Rightarrow> 'w \<Rightarrow> 'w \<times> context_values" where
  "HTTPClient_after lib ctx res w =
     (case SpanFromContext lib ctx of
        None \<Rightarrow> (w, ctx)
      | Some span \<Rightarrow>
          let w1 = Tag_Set lib TagHTTPResponseSize span (Itoa (resp_ContentLength res)) w;
              w2 = Tag_Set lib TagHTTPStatusCode span (Itoa (resp_StatusCode res)) w1;
              w3 = (if resp_StatusCode res > 399 then Tag_Set lib TagError span (Itoa (resp_StatusCode res)) w2 else w2)
          in (span_Finish lib span w3, ctx))"

definition Client_finalizer :: "('w, 'x) zipkin \<Rightarrow> (go_error \<Rightarrow> string) \<Rightarrow> context_values \<Rightarrow> go_error option \<Rightarrow> 'w \<Rightarrow> 'w" where
  "Client_finalizer lib err_Error ctx err w =
     (case SpanFromContext lib ctx of
        None \<Rightarrow> w
      | Some span \<Rightarrow>
          let w1 = (case err of None \<Rightarrow> w | Some e \<Rightarrow> Tag_Set lib TagError span (err_Error e) w)
          in span_Flush lib span (span_Finish lib span w1))"

definition HTTPClientTrace :: "('w, 'x) zipkin \<Rightarrow> (http_request \<Rightarrow> string) \<Rightarrow> (go_error \<Rightarrow> string)
    \<Rightarrow> 'w TracerOption list \<Rightarrow> ('w, 'i, 'o) client_option" where
  "HTTPClientTrace lib url_String err_Error options c =
     (let config = tracer_config options in
      ClientFinalizer [Client_finalizer lib err_Error]
        (ClientAfter [HTTPClient_after lib] (ClientBefore [HTTPClient_before lib url_String config] c)))"

definition HTTPServer_context :: "('w, 'x) zipkin \<Rightarrow> 'w tracerOptions \<Rightarrow> http_request \<Rightarrow> 'x SpanContext" where
  "HTTPServer_context lib config req =
     (if to_propagate config then
        let spanContext = ExtractHTTP lib req in
        (case (sc_Sampled spanContext, to_requestSampler config) of
           (None, Some sampler) \<Rightarrow> spanContext\<lparr>sc_Sampled := Some (sampler req)\<rparr>
         | _ \<Rightarrow> spanContext)
      else zero_context lib)"





subsection \<open>gRPC\<close>

definition GRPCClient_before :: "('w, 'x) zipkin \<Rightarrow> 'w tracerOptions \<Rightarrow> 'w ClientRequestFunc" where
  "GRPCClient_before lib config ctx m w =
     (case (if to_name config \<noteq> [] then Some (to_name config) else string_Value ctx grpc_ContextKeyRequestMethod) of
        None \<Rightarrow> (w, Panic ''interface conversion'')
      | Some name \<Rightarrow>
          (let spanContext = parent_context lib ctx w;
               (w1, span) = StartSpan lib \<lparr>so_name = name, so_kind = Some ClientKind, so_tags = [config_tags config],
                  so_Parent = spanContext, so_FlushOnFinish = False\<rparr> w;
               (m1, err) = (if to_propagate config then InjectGRPC lib (span_Context lib span w1) m else (m, None))
           in (log_error config err w1, Ret (NewContext lib ctx span, m1))))"

definition GRPCClient_after :: "('w, 'x) zipkin \<Rightarrow> 'w GrpcClientResponseFunc" where
  "GRPCClient_after lib ctx header trailer w = (finish_span lib ctx w, Ret ctx)"

definition GRPCClientTrace :: "('w, 'x) zipkin \<Rightarrow> (go_error \<Rightarrow> string) \<Rightarrow> 'w TracerOption list
    \<Rightarrow> ('w, 'i, 'o, 'm, 'r) grpc_client_option" where
  "GRPCClientTrace lib err_Error options c =
     (let config = tracer_config options in
      grpc_ClientFinalizer [Client_finalizer lib err_Error]
        (grpc_ClientAfter [GRPCClient_after lib] (grpc_ClientBefore [GRPCClient_before lib config] c)))"

definition GRPCServer_before :: "('w, 'x) zipkin \<Rightarrow> 'w tracerOptions \<Rightarrow> 'w ServerRequestFunc" where
  "GRPCServer_before lib config ctx m w =
     (let rpcMethod = string_Value ctx grpc_ContextKeyRequestMethod;
          (w1, tags) = (case rpcMethod of
              None \<Rightarrow> (to_logger config (ErrorText ''unable to retrieve method name: missing gRPC interceptor hook'') w, [])
            | Some mth \<Rightarrow> (w, [(TagNamed ''grpc.method'', mth)]));
          name = (if to_name config \<noteq> [] then to_name config else (case rpcMethod of None \<Rightarrow> [] | Some mth \<Rightarrow> mth));
          spanContext = (if to_propagate config then ExtractGRPC lib m else zero_context lib);
          w2 = log_error config (sc_Err spanContext) w1;
          (w3, span) = StartSpan lib \<lparr>so_name = name, so_kind = Some ServerKind, so_tags = [config_tags config, tags],
             so_Parent = spanContext, so_FlushOnFinish = False\<rparr> w2
      in (w3, Ret (NewContext lib ctx span)))"

definition GRPCServer_after :: "('w, 'x) zipkin \<Rightarrow> 'w GrpcServerResponseFunc" where
  "GRPCServer_after lib ctx header trailer w = (finish_span lib ctx w, Ret (ctx, header, trailer))"

text \<open>\<open>status_FromError\<close> is that of the grpc library: the code and message of an error that has a status.\<close>

definition GRPCServer_finalizer :: "('w, 'x) zipkin \<Rightarrow> (go_error \<Rightarrow> (nat \<times> string) option) \<Rightarrow> (go_error \<Rightarrow> string)
    \<Rightarrow> context_values \<Rightarrow> go_error option \<Rightarrow> 'w \<Rightarrow> 'w" where
  "GRPCServer_finalizer lib status_FromError err_Error ctx err w =
     (case SpanFromContext lib ctx of
        None \<Rightarrow> w
      | Some span \<Rightarrow>
          let w1 = (case err of
              None \<Rightarrow> w
            | Some e \<Rightarrow>
                (case status_FromError e of
                   Some (code, message) \<Rightarrow>
                     Tag_Set lib TagError span message (Tag_Set lib TagGRPCStatusCode span (nat_to_dec code) w)
                 | None \<Rightarrow> Tag_Set lib TagError span (err_Error e) w))
          in span_Flush lib span (span_Finish lib span w1))"

definition GRPCServerTrace :: "('w, 'x) zipkin \<Rightarrow> (go_error \<Rightarrow> (nat \<times> string) option) \<Rightarrow> (go_error \<Rightarrow> string)
    \<Rightarrow> 'w TracerOption list \<Rightarrow> ('w, 'm, 'i, 'o, 'r) grpc_server_option" where
  "GRPCServerTrace lib status_FromError err_Error options s =
     (let config = tracer_config options in
      grpc_ServerFinalizer [GRPCServer_finalizer lib status_FromError err_Error]
        (grpc_ServerAfter [GRPCServer_after lib] (grpc_ServerBefore [GRPCServer_before lib config] s)))"

subsection \<open>Endpoints\<close>

text \<open>The middleware of file endpoint.go; the deferred \<open>Finish\<close> runs after a panic too.\<close>

definition TraceEndpoint :: "('w, 'x) zipkin \<Rightarrow> string \<Rightarrow> ('w, 'req, 'o) middleware" where
  "TraceEndpoint lib name nxt ctx request w =
     (let sc = parent_context lib ctx w;
          (w1, sp) = StartSpan lib \<lparr>so_name = name, so_kind = None, so_tags = [], so_Parent = sc, so_FlushOnFinish = True\<rparr> w;
          (w2, r) = nxt (NewContext lib ctx sp) request w1
      in (span_Finish lib sp w2, r))"

subsection \<open>What happens to a span\<close>

datatype 'x span_event = Started "'x span_options" | Tagged span_tag string | Finished | Flushed

text \<open>
  What the code relies on: \<open>ev\<close> tells what has happened to a span in a world. A started span is new, an operation
  on a span adds to what happened to it, and a context leads to the span that was put into it last, whatever
  values of the transports are added.
\<close>

definition records_spans :: "('w, 'x) zipkin \<Rightarrow> (nat \<Rightarrow> 'w \<Rightarrow> 'x span_event list) \<Rightarrow> bool" where
  "records_spans lib ev \<longleftrightarrow>
     (\<forall>opts w. ev (snd (StartSpan lib opts w)) (fst (StartSpan lib opts w)) = [Started opts])
   \<and> (\<forall>s t v w. ev s (Tag_Set lib t s v w) = ev s w @ [Tagged t v])
   \<and> (\<forall>s w. ev s (span_Finish lib s w) = ev s w @ [Finished])
   \<and> (\<forall>s w. ev s (span_Flush lib s w) = ev s w @ [Flushed])
   \<and> (\<forall>ctx s. SpanFromContext lib (NewContext lib ctx s) = Some s)
   \<and> (\<forall>ctx k v. k \<in> {ContextKeyResponseHeaders, ContextKeyResponseSize} \<longrightarrow>
        SpanFromContext lib (WithValue ctx k v) = SpanFromContext lib ctx)"

lemma records_spansD:
  assumes "records_spans lib ev"
  shows "StartSpan lib opts w = (w', s) \<Longrightarrow> ev s w' = [Started opts]"
    and "ev s (Tag_Set lib t s v w) = ev s w @ [Tagged t v]"
    and "ev s (span_Finish lib s w) = ev s w @ [Finished]"
    and "ev s (span_Flush lib s w) = ev s w @ [Flushed]"
    and "SpanFromContext lib (NewContext lib ctx s) = Some s"
    and "SpanFromContext lib (WithValue ctx ContextKeyResponseHeaders a) = SpanFromContext lib ctx"
    and "SpanFromContext lib (WithValue ctx ContextKeyResponseSize a) = SpanFromContext lib ctx"
  using assms unfolding records_spans_def by (metis fst_conv snd_conv, auto)

text \<open>Functions of the user that leave the spans of others alone; an encoder is given the wrapped writer and keeps it.\<close>

definition quiet :: "(nat \<Rightarrow> 'w \<Rightarrow> 'x span_event list) \<Rightarrow> (context_values \<Rightarrow> 'r \<Rightarrow> 'w \<Rightarrow> 'w \<times> 'y) \<Rightarrow> bool" where
  "quiet ev f \<longleftrightarrow> (\<forall>s ctx r w. ev s (fst (f ctx r w)) = ev s w)"









subsection \<open>Properties\<close>


lemma grpc_serve_traced:
  assumes "records_spans lib ev" and "quiet ev dec" and "quiet ev e" and "quiet ev enc"
    and "SpanFromContext lib ctx = Some span"
    and "grpc_serve \<lparr>gs_e = e, gs_dec = dec, gs_enc = enc, gs_before = b, gs_after = [GRPCServer_after lib], gs_finalizer = f,
        gs_errorHandler = NopErrorHandler\<rparr> SendHeader SetTrailer ctx req w = (w2, ctx2, out)"
  shows "ctx2 = ctx \<and> (\<exists>early. ev span w2 = ev span w @ (if early then [Finished] else []) \<and> (panicked out \<longrightarrow> \<not> early))"
proof -
  have fin: "ev span (finish_span lib ctx v) = ev span v @ [Finished]" for v
    by (simp add: finish_span_def assms(5) records_spansD(3) [OF assms(1)])
  note q = assms(2-4) [unfolded quiet_def, rule_format]
  obtain w1 de where d: "dec ctx req w = (w1, de)" by (rule prod.exhaust)
  have e1: "ev span w1 = ev span w" using q(1) [of span ctx req w] by (simp add: d)
  show ?thesis
  proof (cases de)
    case (Inl err)
    with assms(6) d e1 show ?thesis by (auto simp: grpc_serve_def NopErrorHandler_def intro: exI [of _ False])
  next
    case (Inr x)
    obtain v er where e: "e ctx x w1 = (v, er)" by (rule prod.exhaust)
    have e2: "ev span v = ev span w" using q(2) [of span ctx x w1] by (simp add: e e1)
    show ?thesis
    proof (cases "\<exists>y. er = Reply y None")
      case True
      then obtain y where y: "er = Reply y None" by blast
      obtain u rn where n: "enc ctx y (finish_span lib ctx v) = (u, rn)" by (rule prod.exhaust)
      have "ev span u = ev span w @ [Finished]" using q(3) [of span ctx y "finish_span lib ctx v"] by (simp add: n fin e2)
      moreover have "w2 = u \<and> ctx2 = ctx \<and> (\<exists>r. out = Ret r)"
        using assms(6) by (cases rn) (auto simp: grpc_serve_def d Inr e y n GRPCServer_after_def send_md_def md_entries_def
            NopErrorHandler_def)
      ultimately show ?thesis by (intro conjI exI [of _ True]) auto
    next
      case False
      have "w2 = v \<and> ctx2 = ctx"
      proof (cases er)
        case (Panicked p)
        with assms(6) show ?thesis by (simp add: grpc_serve_def d Inr e)
      next
        case (Reply y o1)
        with False obtain err where "o1 = Some err" by (cases o1) auto
        with assms(6) Reply show ?thesis by (simp add: grpc_serve_def d Inr e NopErrorHandler_def)
      qed
      with e2 show ?thesis by (intro conjI exI [of _ False]) auto
    qed
  qed
qed

lemma GRPCServerTrace_server:
  "grpc_NewServer e dec enc [GRPCServerTrace lib sf ee options] =
     \<lparr>gs_e = e, gs_dec = dec, gs_enc = enc, gs_before = [GRPCServer_before lib (tracer_config options)],
      gs_after = [GRPCServer_after lib], gs_finalizer = [GRPCServer_finalizer lib sf ee], gs_errorHandler = NopErrorHandler\<rparr>"
  by (simp add: grpc_NewServer_def GRPCServerTrace_def grpc_ServerBefore_def grpc_ServerAfter_def grpc_ServerFinalizer_def Let_def)

definition grpc_error_tags :: "(go_error \<Rightarrow> (nat \<times> string) option) \<Rightarrow> (go_error \<Rightarrow> string) \<Rightarrow> go_error option \<Rightarrow> 'x span_event list" where
  "grpc_error_tags sf ee err = (case err of None \<Rightarrow> []
     | Some e \<Rightarrow> (case sf e of Some (code, message) \<Rightarrow> [Tagged TagGRPCStatusCode (nat_to_dec code), Tagged TagError message]
                  | None \<Rightarrow> [Tagged TagError (ee e)]))"

lemma GRPCServer_finalizer_events:
  assumes "records_spans lib ev" and "SpanFromContext lib ctx = Some span"
  shows "ev span (GRPCServer_finalizer lib sf ee ctx err w) = ev span w @ grpc_error_tags sf ee err @ [Finished, Flushed]"
  by (simp add: GRPCServer_finalizer_def assms(2) records_spansD [OF assms(1)] grpc_error_tags_def Let_def
      split: option.splits prod.splits)

text \<open>So has every request to a traced gRPC server: one span, started first, tagged with the status or the text of the
  error that the request ends with, finished and flushed at the end.\<close>

theorem grpc_server_traced:
  assumes "records_spans lib ev" and "quiet ev dec" and "quiet ev e" and "quiet ev enc"
    and "ServeGRPC (grpc_NewServer e dec enc [GRPCServerTrace lib sf ee options]) SendHeader SetTrailer incoming ctx req w
      = (w', ctx', out)"
  shows "\<exists>span opts early. ev span w' = [Started opts] @ (if early then [Finished] else [])
      @ grpc_error_tags sf ee (case out of Ret (Inl e) \<Rightarrow> Some e | _ \<Rightarrow> None) @ [Finished, Flushed]
    \<and> so_kind opts = Some ServerKind \<and> (panicked out \<longrightarrow> \<not> early)"
proof -
  let ?s = "grpc_NewServer e dec enc [GRPCServerTrace lib sf ee options]"
  obtain w1 ctx1 where b: "GRPCServer_before lib (tracer_config options) ctx (md_entries incoming) w = (w1, Ret ctx1)"
    by (auto simp: GRPCServer_before_def Let_def split_beta)
  obtain span opts where s: "ctx1 = NewContext lib ctx span" "ev span w1 = [Started opts]" "so_kind opts = Some ServerKind"
    using b records_spansD(1) [OF assms(1) prod.collapse [symmetric]]
    by (fastforce simp: GRPCServer_before_def Let_def split_beta)
  obtain w2 ctx2 out2 where d: "grpc_serve ?s SendHeader SetTrailer ctx1 req w1 = (w2, ctx2, out2)" by (rule prod_cases3)
  have c: "SpanFromContext lib ctx1 = Some span" by (simp add: s(1) records_spansD(5) [OF assms(1)])
  from grpc_serve_traced [OF assms(1-4) c d [unfolded GRPCServerTrace_server]] obtain early where
    t: "ctx2 = ctx1" "ev span w2 = ev span w1 @ (if early then [Finished] else [])" "panicked out2 \<longrightarrow> \<not> early" by blast
  have f: "gs_before ?s = [GRPCServer_before lib (tracer_config options)]" "gs_finalizer ?s = [GRPCServer_finalizer lib sf ee]"
    by (simp_all add: GRPCServerTrace_server)
  have w': "w' = GRPCServer_finalizer lib sf ee ctx1 (case out of Ret (Inl e) \<Rightarrow> Some e | _ \<Rightarrow> None) w2" "out = out2"
    using assms(5) by (auto simp: ServeGRPC_def f b d t(1))
  show ?thesis
    using GRPCServer_finalizer_events [OF assms(1) c] s(2,3) t(2,3) w'
    by (intro exI [of _ span] exI [of _ opts] exI [of _ early] conjI) simp_all
qed

text \<open>The middleware \<open>TraceEndpoint\<close> makes one span for each call, a child of the span of the context, which
  the endpoint finds in its context and which is finished after it, also when it panics; the reply is unchanged.\<close>

theorem TraceEndpoint_spans:
  assumes "records_spans lib ev" and "quiet ev nxt" and "TraceEndpoint lib name nxt ctx request w = (w', r)"
  shows "\<exists>span opts w1. ev span w' = [Started opts, Finished] \<and> so_Parent opts = parent_context lib ctx w
    \<and> SpanFromContext lib (NewContext lib ctx span) = Some span \<and> r = snd (nxt (NewContext lib ctx span) request w1)"
proof -
  define opts where "opts = \<lparr>so_name = name, so_kind = None, so_tags = [], so_Parent = parent_context lib ctx w,
    so_FlushOnFinish = True\<rparr>"
  obtain w1 span where s: "StartSpan lib opts w = (w1, span)" by (rule prod.exhaust)
  obtain w2 r2 where n: "nxt (NewContext lib ctx span) request w1 = (w2, r2)" by (rule prod.exhaust)
  have t: "w' = span_Finish lib span w2" "r = r2"
    using assms(3) s n by (simp_all add: TraceEndpoint_def Let_def opts_def)
  have "ev span w2 = ev span w1"
    using assms(2) [unfolded quiet_def, rule_format, of span "NewContext lib ctx span" request w1] by (simp add: n)
  then have "ev span w' = [Started opts, Finished]"
    using records_spansD(1,3) [OF assms(1)] s by (simp add: t(1))
  then show ?thesis
    using records_spansD(5) [OF assms(1)] n
    by (intro exI [of _ span] exI [of _ opts] exI [of _ w1] conjI) (auto simp: opts_def t(2))
qed

text \<open>Propagation: the span that a server makes for a request from a traced client is a child of the client's span, when both
  propagate and the library reads from a request what it wrote into it. When the server does not propagate, the span
  has no parent, and the sampler that \<open>RequestSampler\<close> set is not asked.\<close>

theorem http_trace_continues:
  assumes "records_spans lib ev" and "ExtractHTTP lib (fst (InjectHTTP lib (span_Context lib cspan w1) req)) = span_Context lib cspan w1"
    and "to_propagate cconfig" and "to_propagate sconfig"
    and "sc_Sampled (span_Context lib cspan w1) \<noteq> None"
    and "StartSpan lib \<lparr>so_name = (if to_name cconfig \<noteq> [] then to_name cconfig else r_Method req), so_kind = Some ClientKind,
       so_tags = [config_tags cconfig, [(TagHTTPMethod, r_Method req), (TagHTTPUrl, url_String req)]],
       so_Parent = parent_context lib ctx w, so_FlushOnFinish = False\<rparr> w = (w1, cspan)"
    and "HTTPClient_before lib url_String cconfig ctx req w = (w2, req2, ctx2)"
  shows "SpanFromContext lib ctx2 = Some cspan
    \<and> HTTPServer_context lib sconfig req2 = span_Context lib cspan w1
    \<and> HTTPServer_context lib (sconfig\<lparr>to_propagate := False\<rparr>) req2 = zero_context lib"
proof -
  have "req2 = fst (InjectHTTP lib (span_Context lib cspan w1) req)" "ctx2 = NewContext lib ctx cspan"
    using assms(3,6,7) by (auto simp: HTTPClient_before_def Let_def split_beta)
  with assms(2,4,5) records_spansD(5) [OF assms(1)] show ?thesis
    by (auto simp: HTTPServer_context_def Let_def split: option.splits)
qed

lemma Client_finalizer_events:
  assumes "records_spans lib ev" and "SpanFromContext lib ctx = Some span"
  shows "ev span (Client_finalizer lib ee ctx err w)
    = ev span w @ (case err of None \<Rightarrow> [] | Some e \<Rightarrow> [Tagged TagError (ee e)]) @ [Finished, Flushed]"
  by (simp add: Client_finalizer_def assms(2) records_spansD [OF assms(1)] Let_def split: option.splits)

lemma HTTPClientTrace_client:
  "NewExplicitClient hc mk dec [HTTPClientTrace lib url_String ee options] =
     \<lparr>cl_client = hc, cl_req = mk, cl_dec = dec, cl_before = [HTTPClient_before lib url_String (tracer_config options)],
      cl_after = [HTTPClient_after lib], cl_finalizer = [Client_finalizer lib ee], cl_bufferedStream = False\<rparr>"
  by (simp add: NewExplicitClient_def HTTPClientTrace_def ClientBefore_def ClientAfter_def ClientFinalizer_def Let_def)

text \<open>C36: A traced client that cannot make the request ends the span of its caller: the request functions have not run, so
  the span that the finalizer finds in the context is the parent's, say that of the server that is handling a request.
  It is tagged with the error, finished and flushed before its time.\<close>

theorem http_client_finishes_parent:
  assumes "records_spans lib ev" and "SpanFromContext lib ctx = Some parent"
    and "as_I d = Some i" and "mk ctx i w = (w1, hreq, Some err)" and "ev parent w1 = ev parent w"
    and "Client_Endpoint (NewExplicitClient hc mk dec [HTTPClientTrace lib url_String ee options]) as_I zero_i zero ctx (Some d) w
      = (w', evs, x, e)"
  shows "e = Some err \<and> ev parent w' = ev parent w @ [Tagged TagError (ee err), Finished, Flushed]"
proof -
  have "w' = Client_finalizer lib ee ctx (Some err) w1 \<and> e = Some err"
    using assms(6) by (auto simp: Client_Endpoint_def HTTPClientTrace_client assms(3,4) client_finalize_def Let_def)
  with Client_finalizer_events [OF assms(1,2), of ee "Some err" w1] assms(5) show ?thesis by simp
qed

text \<open>A traced client that can make the request has a span of its own for it, a child of the span of the context. It is
  tagged with size and status of the response and finished when there is one, and after the error, if any, finished
  and flushed.\<close>

theorem http_client_traced:
  assumes "records_spans lib ev" and "quiet ev hc" and "quiet ev dec"
    and "as_I d = Some i" and "mk ctx i w = (w1, hreq, None)" and "to_logger (tracer_config options) = (\<lambda>err w. w)"
    and "Client_Endpoint (NewExplicitClient hc mk dec [HTTPClientTrace lib url_String ee options]) as_I zero_i zero ctx (Some d) w
      = (w', evs, x, e)"
  shows "\<exists>span opts middle. ev span w' = [Started opts] @ middle
      @ (case e of None \<Rightarrow> [] | Some err \<Rightarrow> [Tagged TagError (ee err)]) @ [Finished, Flushed]
    \<and> so_kind opts = Some ClientKind \<and> so_Parent opts = parent_context lib ctx w1
    \<and> (middle = [] \<and> e \<noteq> None \<or> (\<exists>resp :: http_response. middle = [Tagged TagHTTPResponseSize (Itoa (resp_ContentLength resp)),
        Tagged TagHTTPStatusCode (Itoa (resp_StatusCode resp))]
        @ (if resp_StatusCode resp > 399 then [Tagged TagError (Itoa (resp_StatusCode resp))] else []) @ [Finished]))"
proof -
  let ?config = "tracer_config options"
  let ?c = "NewExplicitClient hc mk dec [HTTPClientTrace lib url_String ee options]"
  define opts where "opts = \<lparr>so_name = (if to_name ?config \<noteq> [] then to_name ?config else r_Method hreq), so_kind = Some ClientKind,
    so_tags = [config_tags ?config, [(TagHTTPMethod, r_Method hreq), (TagHTTPUrl, url_String hreq)]],
    so_Parent = parent_context lib ctx w1, so_FlushOnFinish = False\<rparr>"
  obtain w2 span where s: "StartSpan lib opts w1 = (w2, span)" by (rule prod.exhaust)
  let ?ctx = "NewContext lib ctx span"
  have l: "log_error ?config er v = v" for er v by (simp add: log_error_def assms(6) split: option.splits)
  have "\<exists>h. HTTPClient_before lib url_String ?config ctx hreq w1 = (w2, h, ?ctx)"
    unfolding HTTPClient_before_def Let_def l s [unfolded opts_def] by (auto split: prod.splits)
  then obtain hreq1 where b: "run_before (cl_before ?c) ctx hreq w1 = (w2, hreq1, ?ctx)"
    by (auto simp: HTTPClientTrace_client run_before_def)
  have ctx: "SpanFromContext lib ?ctx = Some span" by (rule records_spansD(5) [OF assms(1)])
  note law = records_spansD [OF assms(1)]
  have e2: "ev span w2 = [Started opts]" by (rule law(1) [OF s])
  obtain w3 hr where h: "hc ?ctx hreq1 w2 = (w3, hr)" by (rule prod.exhaust)
  have e3: "ev span w3 = [Started opts]" using assms(2) [unfolded quiet_def, rule_format, of span ?ctx hreq1 w2] by (simp add: h e2)
  have fin: "ev span (client_finalize ?c ?ctx resp er v)
      = ev span v @ (case er of None \<Rightarrow> [] | Some e \<Rightarrow> [Tagged TagError (ee e)]) @ [Finished, Flushed]" for resp er v
    by (cases resp) (auto simp: client_finalize_def HTTPClientTrace_client Client_finalizer_events [OF assms(1)] ctx law(6,7))
  have sel: "cl_client ?c = hc" "cl_req ?c = mk" "cl_dec ?c = dec" "cl_after ?c = [HTTPClient_after lib]"
    by (simp_all add: HTTPClientTrace_client)
  show ?thesis
  proof (cases hr)
    case (Inl er)
    obtain err resp where er: "er = (err, resp)" by (rule prod.exhaust)
    have "w' = client_finalize ?c ?ctx resp (Some err) w3" "e = Some err"
      using assms(7) by (auto simp: Client_Endpoint_def assms(4,5) sel b h Inl er Let_def)
    with fin e3 show ?thesis
      by (intro exI [of _ span] exI [of _ opts] exI [of _ "[]"] conjI) (simp_all add: opts_def)
  next
    case (Inr resp)
    obtain w4 where a: "HTTPClient_after lib ?ctx resp w3 = (w4, ?ctx)"
      "ev span w4 = [Started opts, Tagged TagHTTPResponseSize (Itoa (resp_ContentLength resp)),
        Tagged TagHTTPStatusCode (Itoa (resp_StatusCode resp))]
        @ (if resp_StatusCode resp > 399 then [Tagged TagError (Itoa (resp_StatusCode resp))] else []) @ [Finished]"
      by (simp add: HTTPClient_after_def ctx law(2,3) e3 Let_def)
    obtain w5 y de where d: "dec ?ctx resp w4 = (w5, y, de)" by (rule prod_cases3)
    have e5: "ev span w5 = ev span w4" using assms(3) [unfolded quiet_def, rule_format, of span ?ctx resp w4] by (simp add: d)
    have "w' = client_finalize ?c ?ctx (Some resp) de w5" "e = de"
      using assms(7) by (auto simp: Client_Endpoint_def assms(4,5) sel b h Inr a(1) d Let_def)
    obtain middle where m: "middle = [Tagged TagHTTPResponseSize (Itoa (resp_ContentLength resp)),
        Tagged TagHTTPStatusCode (Itoa (resp_StatusCode resp))]
        @ (if resp_StatusCode resp > 399 then [Tagged TagError (Itoa (resp_StatusCode resp))] else []) @ [Finished]"
      and r: "ev span w' = [Started opts] @ middle
        @ (case e of None \<Rightarrow> [] | Some err \<Rightarrow> [Tagged TagError (ee err)]) @ [Finished, Flushed]"
      using fin [of "Some resp" de w5] e5 a(2) by (simp add: \<open>w' = _\<close> \<open>e = de\<close>)
    have o: "so_kind opts = Some ClientKind" "so_Parent opts = parent_context lib ctx w1" by (simp_all add: opts_def)
    show ?thesis
      using r o m by blast
  qed
qed

text \<open>A library that keeps what happened to each span in the world, with the number of the next span.\<close>

type_synonym span_log = "nat \<times> (nat \<Rightarrow> unit span_event list)"

definition span_add :: "nat \<Rightarrow> unit span_event \<Rightarrow> span_log \<Rightarrow> span_log" where
  "span_add s x w = (fst w, (snd w)(s := snd w s @ [x]))"

definition log_zipkin :: "(span_log, unit) zipkin" where
  "log_zipkin = \<lparr>zero_ids = (), StartSpan = \<lambda>opts w. ((Suc (fst w), (snd w)(fst w := [Started opts])), fst w),
     span_Context = \<lambda>s w. \<lparr>sc_ids = (), sc_Sampled = Some True, sc_Err = None\<rparr>,
     Tag_Set = \<lambda>t s v. span_add s (Tagged t v), span_Finish = \<lambda>s. span_add s Finished, span_Flush = \<lambda>s. span_add s Flushed,
     NewContext = \<lambda>ctx s. WithValue ctx ''span'' (AnyOther s),
     SpanFromContext = \<lambda>ctx. (case context_Value ctx ''span'' of Some (AnyOther s) \<Rightarrow> Some s | _ \<Rightarrow> None),
     ExtractHTTP = \<lambda>req. \<lparr>sc_ids = (), sc_Sampled = Some True, sc_Err = None\<rparr>, InjectHTTP = \<lambda>sc req. (req, None),
     ExtractGRPC = \<lambda>m. \<lparr>sc_ids = (), sc_Sampled = None, sc_Err = None\<rparr>, InjectGRPC = \<lambda>sc m. (m, None)\<rparr>"

lemma log_zipkin_records: "records_spans log_zipkin (\<lambda>s w. snd w s)"
  by (auto simp: records_spans_def log_zipkin_def span_add_def context_Value_def WithValue_def
      ContextKeyResponseHeaders_def ContextKeyResponseSize_def)




theorem TraceEndpoint_spans_witness:
  "\<exists>span opts w1. snd (fst (TraceEndpoint log_zipkin ''e'' (\<lambda>ctx (x :: nat) w. (w, Reply x None)) [] 5 (0, \<lambda>s. []))) span
      = [Started opts, Finished]
    \<and> snd (TraceEndpoint log_zipkin ''e'' (\<lambda>ctx (x :: nat) w. (w, Reply x None)) [] 5 (0, \<lambda>s. [])) = Reply 5 None"
  using TraceEndpoint_spans [OF log_zipkin_records _ surjective_pairing,
      of "\<lambda>ctx (x :: nat) w. (w, Reply x None)" "''e''" "[]" 5 "(0, \<lambda>s. [])"]
  by (auto simp: quiet_def)

theorem http_trace_continues_witness:
  "HTTPServer_context log_zipkin (tracer_config [])
      (fst (snd (HTTPClient_before log_zipkin r_URL_Path (tracer_config []) [] (new_request ''GET'' ''/'') (0, \<lambda>s. []))))
     = \<lparr>sc_ids = (), sc_Sampled = Some True, sc_Err = None\<rparr>"
proof -
  obtain w1 cspan where s: "StartSpan log_zipkin \<lparr>so_name = r_Method (new_request ''GET'' ''/''), so_kind = Some ClientKind,
       so_tags = [config_tags (tracer_config [] :: span_log tracerOptions), [(TagHTTPMethod, r_Method (new_request ''GET'' ''/'')),
         (TagHTTPUrl, r_URL_Path (new_request ''GET'' ''/''))]],
       so_Parent = parent_context log_zipkin [] (0, \<lambda>s. []), so_FlushOnFinish = False\<rparr> (0, \<lambda>s. []) = (w1, cspan)"
    by (rule prod.exhaust)
  obtain w2 req2 ctx2 where b: "HTTPClient_before log_zipkin r_URL_Path (tracer_config []) [] (new_request ''GET'' ''/'') (0, \<lambda>s. [])
      = (w2, req2, ctx2)" by (rule prod_cases3)
  have p: "to_propagate (tracer_config [] :: span_log tracerOptions)" "to_name (tracer_config [] :: span_log tracerOptions) = []"
    by (simp_all add: tracer_config_def)
  have c: "span_Context log_zipkin cspan w1 = \<lparr>sc_ids = (), sc_Sampled = Some True, sc_Err = None\<rparr>"
    "ExtractHTTP log_zipkin (fst (InjectHTTP log_zipkin (span_Context log_zipkin cspan w1) (new_request ''GET'' ''/'')))
       = span_Context log_zipkin cspan w1"
    by (simp_all add: log_zipkin_def)
  from http_trace_continues [OF log_zipkin_records c(2) p(1) p(1) _ _ b] s c(1) show ?thesis
    by (simp add: p(2) b)
qed

theorem http_client_finishes_parent_witness:
  "\<exists>w' evs x. Client_Endpoint (NewExplicitClient (\<lambda>ctx req w. (w, Inl (ErrorText ''down'', None)))
        (\<lambda>ctx (i :: unit) w. (w, new_request ''POST'' ''/'', Some (ErrorText ''cannot encode''))) (\<lambda>ctx resp w. (w, (), None))
        [HTTPClientTrace log_zipkin r_URL_Path (\<lambda>e. ''text'') []]) Some () ()
      (NewContext log_zipkin [] 0) (Some ()) (1, \<lambda>s. []) = (w', evs, x, Some (ErrorText ''cannot encode''))
    \<and> snd w' 0 = [Tagged TagError ''text'', Finished, Flushed]"
proof -
  obtain w' evs x e where c: "Client_Endpoint (NewExplicitClient (\<lambda>ctx req w. (w, Inl (ErrorText ''down'', None)))
        (\<lambda>ctx (i :: unit) w. (w, new_request ''POST'' ''/'', Some (ErrorText ''cannot encode''))) (\<lambda>ctx resp w. (w, (), None))
        [HTTPClientTrace log_zipkin r_URL_Path (\<lambda>e. ''text'') []]) Some () ()
      (NewContext log_zipkin [] 0) (Some ()) (1, \<lambda>s. []) = (w', evs, x, e)" by (rule prod_cases4)
  from http_client_finishes_parent [OF log_zipkin_records records_spansD(5) [OF log_zipkin_records] refl refl refl c] c
  show ?thesis by auto
qed

theorem http_client_traced_witness:
  "\<exists>w' evs x e. Client_Endpoint (NewExplicitClient (\<lambda>ctx req w. (w, Inl (ErrorText ''down'', None)))
        (\<lambda>ctx (i :: unit) w. (w, new_request ''POST'' ''/'', None)) (\<lambda>ctx resp w. (w, (), None))
        [HTTPClientTrace log_zipkin r_URL_Path (\<lambda>e. ''text'') []]) Some () () [] (Some ()) (0, \<lambda>s. []) = (w', evs, x, e)
    \<and> (\<exists>span opts. hd (snd w' span) = Started opts \<and> so_kind opts = Some ClientKind)"
proof -
  have q: "quiet (\<lambda>s w. snd w s) (\<lambda>ctx (req :: http_request) (w :: span_log). (w, Inl (ErrorText ''down'', None) :: go_error \<times> http_response option + http_response))"
    "quiet (\<lambda>s w. snd w s) (\<lambda>ctx (resp :: http_response) (w :: span_log). (w, (), None :: go_error option))"
    by (simp_all add: quiet_def)
  have l: "to_logger (tracer_config []) = (\<lambda>err (w :: span_log). w)" by (simp add: tracer_config_def)
  obtain w' evs x e where c: "Client_Endpoint (NewExplicitClient (\<lambda>ctx req w. (w, Inl (ErrorText ''down'', None)))
        (\<lambda>ctx (i :: unit) w. (w, new_request ''POST'' ''/'', None)) (\<lambda>ctx resp w. (w, (), None))
        [HTTPClientTrace log_zipkin r_URL_Path (\<lambda>e. ''text'') []]) Some () () [] (Some ()) (0, \<lambda>s. []) = (w', evs, x, e)"
    by (rule prod_cases4)
  from http_client_traced [OF log_zipkin_records q refl refl l c] obtain span opts rest
    where r: "snd w' span = Started opts # rest" "so_kind opts = Some ClientKind" by auto
  have "hd (snd w' span) = Started opts \<and> so_kind opts = Some ClientKind" using r by simp
  then have "\<exists>span opts. hd (snd w' span) = Started opts \<and> so_kind opts = Some ClientKind" by blast
  with c show ?thesis by blast
qed

theorem grpc_server_traced_witness:
  "\<exists>span opts. hd (snd (fst (ServeGRPC (grpc_NewServer (\<lambda>ctx (x :: unit) w. (w, Panicked ''boom'' :: unit reply))
        (\<lambda>ctx (r :: unit) w. (w, Inr ())) (\<lambda>ctx x w. (w, Inr ())) [GRPCServerTrace log_zipkin (\<lambda>e. None) (\<lambda>e. ''text'') []])
      (\<lambda>ctx m w. (w, None)) (\<lambda>ctx m w. (w, None)) None [] () (0, \<lambda>s. []))) span) = Started opts
    \<and> so_kind opts = Some ServerKind"
proof -
  have q: "quiet (\<lambda>s w. snd w s) (\<lambda>ctx (r :: unit) (w :: span_log). (w, Inr () :: go_error + unit))"
    "quiet (\<lambda>s w. snd w s) (\<lambda>ctx (x :: unit) (w :: span_log). (w, Panicked ''boom'' :: unit reply))"
    by (simp_all add: quiet_def)
  obtain w' ctx' out where c: "ServeGRPC (grpc_NewServer (\<lambda>ctx (x :: unit) w. (w, Panicked ''boom'' :: unit reply))
        (\<lambda>ctx (r :: unit) w. (w, Inr ())) (\<lambda>ctx x w. (w, Inr ())) [GRPCServerTrace log_zipkin (\<lambda>e. None) (\<lambda>e. ''text'') []])
      (\<lambda>ctx m w. (w, None)) (\<lambda>ctx m w. (w, None)) None [] () (0, \<lambda>s. []) = (w', ctx', out)" by (rule prod_cases3)
  from grpc_server_traced [OF log_zipkin_records q q(1) c] obtain span opts rest
    where r: "snd w' span = Started opts # rest" "so_kind opts = Some ServerKind" by auto
  have "hd (snd w' span) = Started opts \<and> so_kind opts = Some ServerKind" using r by simp
  then show ?thesis unfolding c fst_conv by blast
qed

end
