(* ===== verification/Grpc_Service.thy ===== *)
theory Grpc_Service
  imports Http_Client Grpc
begin

text \<open>
  Two services over the gRPC transport: the one of transport/grpc/_grpc_test, whose client and server carry
  a correlation id in the metadata of a call and of its response, and the greeting service of example.
  The generated messages are records, and an \<open>interface{}\<close> that holds a request is a \<open>test_value\<close>.

  \<open>test_env\<close> holds what the code calls outside the repository: \<open>print\<close> writes to the standard output, \<open>quoted\<close> is
  the verb \<open>%q\<close>, \<open>join m k v\<close> is \<open>metadata.Join(m, metadata.Pairs(k, v))\<close>, and \<open>range_md\<close> is the order in which a map of
  metadata is ranged over.
\<close>

record TestRequest =
  treq_A :: string
  treq_B :: "64 word"

record TestNilRequest =
  tnil_A :: "8 word list"

record TestResponse =
  tresp_Ctx :: "context_values option"
  tresp_V :: string

record pb_TestRequest =
  pb_A :: string
  pb_B :: "64 word"

record pb_TestNilRequest =
  pb_bytes :: "8 word list"

record pb_TestResponse =
  pb_V :: string

datatype test_value = IsTestRequest TestRequest | IsTestNilRequest TestNilRequest | IsOther nat

record 'w test_env =
  print :: "string \<Rightarrow> 'w \<Rightarrow> 'w"
  quoted :: "string \<Rightarrow> string"
  join :: "md \<Rightarrow> string \<Rightarrow> string \<Rightarrow> MD"
  range_md :: "(string \<times> string list) list \<Rightarrow> (string \<times> string list) list"

subsection \<open>Requests and responses\<close>

definition encodeRequest :: "context_values \<Rightarrow> test_value \<Rightarrow> go_error + pb_TestRequest" where
  "encodeRequest ctx req =
     (case req of
        IsTestRequest r \<Rightarrow> Inr \<lparr>pb_A = treq_A r, pb_B = treq_B r\<rparr>
      | _ \<Rightarrow> Inl InvalidRequest)"

definition decodeRequest :: "context_values \<Rightarrow> pb_TestRequest \<Rightarrow> 'w \<Rightarrow> 'w \<times> (go_error + TestRequest)" where
  "decodeRequest ctx r w = (w, Inr \<lparr>treq_A = pb_A r, treq_B = pb_B r\<rparr>)"

definition encodeNilRequest :: "context_values \<Rightarrow> test_value \<Rightarrow> go_error + pb_TestNilRequest" where
  "encodeNilRequest ctx req =
     (case req of
        IsTestNilRequest r \<Rightarrow> Inr \<lparr>pb_bytes = tnil_A r\<rparr>
      | _ \<Rightarrow> Inl InvalidRequest)"

definition decodeNilRequest :: "context_values \<Rightarrow> pb_TestNilRequest \<Rightarrow> 'w \<Rightarrow> 'w \<times> (go_error + TestNilRequest)" where
  "decodeNilRequest ctx r w = (w, Inr \<lparr>tnil_A = pb_bytes r\<rparr>)"

definition encodeResponse :: "context_values \<Rightarrow> TestResponse \<Rightarrow> 'w \<Rightarrow> 'w \<times> (go_error + pb_TestResponse)" where
  "encodeResponse ctx resp w = (w, Inr \<lparr>pb_V = tresp_V resp\<rparr>)"

definition decodeResponse :: "context_values \<Rightarrow> pb_TestResponse \<Rightarrow> TestResponse" where
  "decodeResponse ctx r = \<lparr>tresp_Ctx = Some ctx, tresp_V = pb_V r\<rparr>"

subsection \<open>Metadata\<close>

definition metaContext :: "string \<Rightarrow> string" where
  "metaContext s = ''test.metaContext '' @ s"

definition correlationID :: string where "correlationID = ''correlation-id''"
definition responseHDR :: string where "responseHDR = ''my-response-header''"
definition responseTRLR :: string where "responseTRLR = ''my-response-trailer''"
definition correlationIDTRLR :: string where "correlationIDTRLR = ''correlation-id-consumed''"

definition tab :: string where "tab = [CHR 0x09]"
definition nl :: string where "nl = [CHR 0x0A]"

text \<open>\<open>fmt.Printf\<close> with one verb \<open>%q\<close> in a line that starts with a tab.\<close>

definition say :: "'w test_env \<Rightarrow> string \<Rightarrow> string \<Rightarrow> string \<Rightarrow> 'w \<Rightarrow> 'w" where
  "say env before x after = print env (tab @ before @ quoted env x @ after @ nl)"

text \<open>The loop of the functions that display metadata: \<open>val[len(val)-1]\<close> panics when a key has no values.\<close>

fun display_entries :: "'w test_env \<Rightarrow> (string \<times> string list) list \<Rightarrow> 'w \<Rightarrow> 'w \<times> unit outcome" where
  "display_entries env [] w = (w, Ret ())"
| "display_entries env ((key, val) # m) w =
     (if val = [] then (w, Panic ''index out of range'')
      else display_entries env m (print env (tab @ tab @ key @ '': '' @ last val @ nl) w))"

definition display_md :: "'w test_env \<Rightarrow> string \<Rightarrow> MD \<Rightarrow> 'w \<Rightarrow> 'w \<times> unit outcome" where
  "display_md env title m w =
     (if length m > 0 then display_entries env (range_md env m) (print env (tab @ title @ nl) w) else (w, Ret ()))"

definition injectCorrelationID :: "'w test_env \<Rightarrow> 'w ClientRequestFunc" where
  "injectCorrelationID env ctx m w =
     (case string_Value ctx (metaContext correlationID) of
        None \<Rightarrow> (w, Ret (ctx, m))
      | Some hdr \<Rightarrow>
          (say env ''Client found correlationID '' hdr '' in context, set metadata header'' w,
           map_outcome (\<lambda>m1. (ctx, m1)) (md_append correlationID hdr m)))"

definition displayClientRequestHeaders :: "'w test_env \<Rightarrow> 'w ClientRequestFunc" where
  "displayClientRequestHeaders env ctx m w =
     (case display_md env ''Client >> Request Headers:'' (md_entries m) w of
        (w1, out) \<Rightarrow> (w1, map_outcome (\<lambda>_. (ctx, m)) out))"

definition extractCorrelationID :: "'w test_env \<Rightarrow> 'w ServerRequestFunc" where
  "extractCorrelationID env ctx m w =
     (case map_of m correlationID of
        None \<Rightarrow> (w, Ret ctx)
      | Some hdr \<Rightarrow>
          if hdr = [] then (w, Panic ''index out of range'')
          else (let cID = last hdr in
            (say env ''Server received correlationID '' cID '' in metadata header, set context'' w,
             Ret (WithValue ctx (metaContext correlationID) (AnyString cID)))))"

definition displayServerRequestHeaders :: "'w test_env \<Rightarrow> 'w ServerRequestFunc" where
  "displayServerRequestHeaders env ctx m w =
     (case display_md env ''Server << Request Headers:'' m w of (w1, out) \<Rightarrow> (w1, map_outcome (\<lambda>_. ctx) out))"

definition injectResponseHeader :: "'w test_env \<Rightarrow> 'w GrpcServerResponseFunc" where
  "injectResponseHeader env ctx header trailer w = (w, Ret (ctx, Some (join env header responseHDR ''has-a-value''), trailer))"

definition displayServerResponseHeaders :: "'w test_env \<Rightarrow> 'w GrpcServerResponseFunc" where
  "displayServerResponseHeaders env ctx header trailer w =
     (case display_md env ''Server >> Response Headers:'' (md_entries header) w of
        (w1, out) \<Rightarrow> (w1, map_outcome (\<lambda>_. (ctx, header, trailer)) out))"

definition injectResponseTrailer :: "'w test_env \<Rightarrow> 'w GrpcServerResponseFunc" where
  "injectResponseTrailer env ctx header trailer w =
     (w, Ret (ctx, header, Some (join env trailer responseTRLR ''has-a-value-too'')))"

definition injectConsumedCorrelationID :: "'w test_env \<Rightarrow> 'w GrpcServerResponseFunc" where
  "injectConsumedCorrelationID env ctx header trailer w =
     (case string_Value ctx (metaContext correlationID) of
        None \<Rightarrow> (w, Ret (ctx, header, trailer))
      | Some hdr \<Rightarrow>
          (say env ''Server found correlationID '' hdr '' in context, set consumed trailer'' w,
           Ret (ctx, header, Some (join env trailer correlationIDTRLR hdr))))"

definition displayServerResponseTrailers :: "'w test_env \<Rightarrow> 'w GrpcServerResponseFunc" where
  "displayServerResponseTrailers env ctx header trailer w =
     (case display_md env ''Server >> Response Trailers:'' (md_entries trailer) w of
        (w1, out) \<Rightarrow> (w1, map_outcome (\<lambda>_. (ctx, header, trailer)) out))"

definition displayClientResponseHeaders :: "'w test_env \<Rightarrow> 'w GrpcClientResponseFunc" where
  "displayClientResponseHeaders env ctx header trailer w =
     (case display_md env ''Client << Response Headers:'' header w of (w1, out) \<Rightarrow> (w1, map_outcome (\<lambda>_. ctx) out))"

definition displayClientResponseTrailers :: "'w test_env \<Rightarrow> 'w GrpcClientResponseFunc" where
  "displayClientResponseTrailers env ctx header trailer w =
     (case display_md env ''Client << Response Trailers:'' trailer w of (w1, out) \<Rightarrow> (w1, map_outcome (\<lambda>_. ctx) out))"

definition extractConsumedCorrelationID :: "'w test_env \<Rightarrow> 'w GrpcClientResponseFunc" where
  "extractConsumedCorrelationID env ctx header trailer w =
     (case map_of trailer correlationIDTRLR of
        None \<Rightarrow> (w, Ret ctx)
      | Some hdr \<Rightarrow>
          if hdr = [] then (w, Panic ''index out of range'')
          else
            (say env ''Client received consumed correlationID '' (last hdr) '' in metadata trailer, set context'' w,
             Ret (WithValue ctx (metaContext correlationIDTRLR) (AnyString (last hdr)))))"

definition SetCorrelationID :: "context_values \<Rightarrow> string \<Rightarrow> context_values" where
  "SetCorrelationID ctx v = WithValue ctx (metaContext correlationID) (AnyString v)"

definition GetConsumedCorrelationID :: "context_values \<Rightarrow> string" where
  "GetConsumedCorrelationID ctx =
     (case string_Value ctx (metaContext correlationIDTRLR) of Some trlr \<Rightarrow> trlr | None \<Rightarrow> [])"

subsection \<open>The service and its server\<close>

type_synonym 'w test_result = "'w \<times> context_values option \<times> string \<times> go_error option"

record 'w test_Service =
  svc_Test :: "context_values \<Rightarrow> string \<Rightarrow> 64 word \<Rightarrow> 'w \<Rightarrow> 'w test_result"
  svc_TestB :: "context_values \<Rightarrow> string \<Rightarrow> 64 word \<Rightarrow> 'w \<Rightarrow> 'w test_result"
  svc_TestNil :: "context_values \<Rightarrow> 8 word list \<Rightarrow> 'w \<Rightarrow> 'w test_result"

definition service_Test :: "context_values \<Rightarrow> string \<Rightarrow> 64 word \<Rightarrow> 'w \<Rightarrow> 'w test_result" where
  "service_Test ctx a b w = (w, Some [], a @ '' = '' @ Itoa (sint b), None)"

definition service_TestB :: "context_values \<Rightarrow> string \<Rightarrow> 64 word \<Rightarrow> 'w \<Rightarrow> 'w test_result" where
  "service_TestB ctx a b w = (w, Some [], Itoa (sint b) @ '' = '' @ a, None)"

text \<open>The verb \<open>%v\<close> of a byte slice.\<close>

definition show_bytes :: "8 word list \<Rightarrow> string" where
  "show_bytes bs = ''['' @ strings_Join (map (\<lambda>b. nat_to_dec (unat b)) bs) '' '' @ '']''"

definition service_TestNil :: "context_values \<Rightarrow> 8 word list \<Rightarrow> 'w \<Rightarrow> 'w test_result" where
  "service_TestNil ctx i w = (w, Some [], show_bytes i, None)"

definition test_NewService :: "'w test_Service" where
  "test_NewService = \<lparr>svc_Test = service_Test, svc_TestB = service_TestB, svc_TestNil = service_TestNil\<rparr>"

definition makeTestEndpoint :: "'w test_Service \<Rightarrow> ('w, TestRequest, TestResponse) endpoint" where
  "makeTestEndpoint svc ctx req w =
     (case svc_Test svc ctx (treq_A req) (treq_B req) w of
        (w1, newCtx, v, err) \<Rightarrow> (w1, Reply \<lparr>tresp_Ctx = newCtx, tresp_V = v\<rparr> err))"

definition makeTestBEndpoint :: "'w test_Service \<Rightarrow> ('w, TestRequest, TestResponse) endpoint" where
  "makeTestBEndpoint svc ctx req w =
     (case svc_TestB svc ctx (treq_A req) (treq_B req) w of
        (w1, newCtx, v, err) \<Rightarrow> (w1, Reply \<lparr>tresp_Ctx = newCtx, tresp_V = v\<rparr> err))"

definition makeTestNilEndpoint :: "'w test_Service \<Rightarrow> ('w, TestNilRequest, TestResponse) endpoint" where
  "makeTestNilEndpoint svc ctx req w =
     (case svc_TestNil svc ctx (tnil_A req) w of
        (w1, newCtx, v, err) \<Rightarrow> (w1, Reply \<lparr>tresp_Ctx = newCtx, tresp_V = v\<rparr> err))"

definition test_server_options :: "'w test_env \<Rightarrow> ('w, 'm, 'i, 'o, 'r) grpc_server_option list" where
  "test_server_options env =
     [grpc_ServerBefore [extractCorrelationID env],
      grpc_ServerBefore [displayServerRequestHeaders env],
      grpc_ServerAfter [injectResponseHeader env, injectResponseTrailer env, injectConsumedCorrelationID env],
      grpc_ServerAfter [displayServerResponseHeaders env, displayServerResponseTrailers env]]"

record 'w testServerBinding =
  tsb_methodA :: "('w, pb_TestRequest, TestRequest, TestResponse, pb_TestResponse) grpc_server"
  tsb_methodB :: "('w, pb_TestRequest, TestRequest, TestResponse, pb_TestResponse) grpc_server"

type_synonym 'w testNilServerBinding = "('w, pb_TestNilRequest, TestNilRequest, TestResponse, pb_TestResponse) grpc_server"

definition NewTestServiceBinding :: "'w test_env \<Rightarrow> 'w test_Service \<Rightarrow> 'w testServerBinding" where
  "NewTestServiceBinding env svc =
     \<lparr>tsb_methodA = grpc_NewServer (makeTestEndpoint svc) decodeRequest encodeResponse (test_server_options env),
      tsb_methodB = grpc_NewServer (makeTestBEndpoint svc) decodeRequest encodeResponse (test_server_options env)\<rparr>"

definition NewTestNilServiceBinding :: "'w test_env \<Rightarrow> 'w test_Service \<Rightarrow> 'w testNilServerBinding" where
  "NewTestNilServiceBinding env svc =
     grpc_NewServer (makeTestNilEndpoint svc) decodeNilRequest encodeResponse (test_server_options env)"

type_synonym 'w send_metadata = "context_values \<Rightarrow> MD \<Rightarrow> 'w \<Rightarrow> 'w \<times> go_error option"

text \<open>The methods that the generated code calls: the context that \<open>ServeGRPC\<close> returns is dropped.\<close>

definition testServerBinding_Test :: "'w testServerBinding \<Rightarrow> 'w send_metadata \<Rightarrow> 'w send_metadata \<Rightarrow> md
    \<Rightarrow> context_values \<Rightarrow> pb_TestRequest \<Rightarrow> 'w \<Rightarrow> 'w \<times> (go_error + pb_TestResponse) outcome" where
  "testServerBinding_Test b SendHeader SetTrailer incoming ctx req w =
     (case ServeGRPC (tsb_methodA b) SendHeader SetTrailer incoming ctx req w of (w1, _, out) \<Rightarrow> (w1, out))"

definition testServerBinding_TestB :: "'w testServerBinding \<Rightarrow> 'w send_metadata \<Rightarrow> 'w send_metadata \<Rightarrow> md
    \<Rightarrow> context_values \<Rightarrow> pb_TestRequest \<Rightarrow> 'w \<Rightarrow> 'w \<times> (go_error + pb_TestResponse) outcome" where
  "testServerBinding_TestB b SendHeader SetTrailer incoming ctx req w =
     (case ServeGRPC (tsb_methodB b) SendHeader SetTrailer incoming ctx req w of (w1, _, out) \<Rightarrow> (w1, out))"

definition testNilServerBinding_TestNil :: "'w testNilServerBinding \<Rightarrow> 'w send_metadata \<Rightarrow> 'w send_metadata \<Rightarrow> md
    \<Rightarrow> context_values \<Rightarrow> pb_TestNilRequest \<Rightarrow> 'w \<Rightarrow> 'w \<times> (go_error + pb_TestResponse) outcome" where
  "testNilServerBinding_TestNil b SendHeader SetTrailer incoming ctx req w =
     (case ServeGRPC b SendHeader SetTrailer incoming ctx req w of (w1, _, out) \<Rightarrow> (w1, out))"

subsection \<open>The client\<close>

text \<open>
  The type argument \<open>O\<close> of the client is \<open>'o\<close>: \<open>as_O\<close> is the assertion that a \<open>*TestResponse\<close> is an \<open>O\<close> and
  \<open>as_TestResponse\<close> the one back. The connection is used for three methods with messages of two types.
\<close>

record 'w test_conn =
  cc_Test :: "context_values \<Rightarrow> string \<Rightarrow> pb_TestRequest \<Rightarrow> MD \<Rightarrow> 'w \<Rightarrow> 'w \<times> (go_error + pb_TestResponse \<times> MD \<times> MD)"
  cc_TestNil :: "context_values \<Rightarrow> string \<Rightarrow> pb_TestNilRequest \<Rightarrow> MD \<Rightarrow> 'w \<Rightarrow> 'w \<times> (go_error + pb_TestResponse \<times> MD \<times> MD)"

record ('w, 'o) clientBinding =
  cb_test :: "context_values \<Rightarrow> TestRequest \<Rightarrow> 'w \<Rightarrow> 'w \<times> 'o reply"
  cb_testB :: "context_values \<Rightarrow> TestRequest \<Rightarrow> 'w \<Rightarrow> 'w \<times> 'o reply"
  cb_testNil :: "context_values \<Rightarrow> TestNilRequest \<Rightarrow> 'w \<Rightarrow> 'w \<times> 'o reply"

definition client_response :: "('o \<Rightarrow> TestResponse option) \<Rightarrow> 'o reply \<Rightarrow> (context_values option \<times> string \<times> go_error option) outcome" where
  "client_response as_TestResponse r =
     (case r of
        Panicked p \<Rightarrow> Panic p
      | Reply response (Some err) \<Rightarrow> Ret (None, [], Some err)
      | Reply response None \<Rightarrow>
          (case as_TestResponse response of
             None \<Rightarrow> Ret (None, [], None)
           | Some r \<Rightarrow> Ret (tresp_Ctx r, tresp_V r, None)))"

definition clientBinding_Test :: "('o \<Rightarrow> TestResponse option) \<Rightarrow> ('w, 'o) clientBinding \<Rightarrow> context_values \<Rightarrow> string \<Rightarrow> 64 word
    \<Rightarrow> 'w \<Rightarrow> 'w \<times> (context_values option \<times> string \<times> go_error option) outcome" where
  "clientBinding_Test as_TestResponse c ctx a b w =
     (case cb_test c ctx \<lparr>treq_A = a, treq_B = b\<rparr> w of (w1, r) \<Rightarrow> (w1, client_response as_TestResponse r))"

definition clientBinding_TestB :: "('o \<Rightarrow> TestResponse option) \<Rightarrow> ('w, 'o) clientBinding \<Rightarrow> context_values \<Rightarrow> string \<Rightarrow> 64 word
    \<Rightarrow> 'w \<Rightarrow> 'w \<times> (context_values option \<times> string \<times> go_error option) outcome" where
  "clientBinding_TestB as_TestResponse c ctx a b w =
     (case cb_testB c ctx \<lparr>treq_A = a, treq_B = b\<rparr> w of (w1, r) \<Rightarrow> (w1, client_response as_TestResponse r))"

definition clientBinding_TestNil :: "('o \<Rightarrow> TestResponse option) \<Rightarrow> ('w, 'o) clientBinding \<Rightarrow> context_values \<Rightarrow> 8 word list
    \<Rightarrow> 'w \<Rightarrow> 'w \<times> (context_values option \<times> string \<times> go_error option) outcome" where
  "clientBinding_TestNil as_TestResponse c ctx i w =
     (case cb_testNil c ctx \<lparr>tnil_A = i\<rparr> w of (w1, r) \<Rightarrow> (w1, client_response as_TestResponse r))"

definition test_client_options :: "'w test_env \<Rightarrow> ('w, 'i, 'o, 'm, 'r) grpc_client_option list" where
  "test_client_options env =
     [grpc_ClientBefore [injectCorrelationID env],
      grpc_ClientBefore [displayClientRequestHeaders env],
      grpc_ClientAfter [displayClientResponseHeaders env, displayClientResponseTrailers env],
      grpc_ClientAfter [extractConsumedCorrelationID env]]"

definition client_decode :: "(TestResponse \<Rightarrow> 'o option) \<Rightarrow> 'o \<Rightarrow> context_values \<Rightarrow> pb_TestResponse \<Rightarrow> 'w \<Rightarrow> 'w \<times> 'o \<times> go_error option" where
  "client_decode as_O zero ctx i w =
     (case as_O (decodeResponse ctx i) of
        None \<Rightarrow> (w, zero, Some (ErrorText ''error decoding response''))
      | Some response \<Rightarrow> (w, response, None))"

definition test_NewClient :: "'w test_env \<Rightarrow> (test_value \<Rightarrow> go_error) \<Rightarrow> (TestResponse \<Rightarrow> 'o option) \<Rightarrow> 'o \<Rightarrow> 'w test_conn
    \<Rightarrow> ('w, 'o) clientBinding" where
  "test_NewClient env type_error as_O zero cc =
     (let c = (grpc_NewClient (cc_Test cc) ''pb.Test'' ''Test'' (\<lambda>ctx i w. (w, encodeRequest ctx (IsTestRequest i)))
              (client_decode as_O zero) (test_client_options env)) :: ('w, TestRequest, 'o, pb_TestRequest, pb_TestResponse) grpc_client;
          cb = (grpc_NewClient (cc_Test cc) ''pb.Test'' ''TestB'' (\<lambda>ctx i w. (w, encodeRequest ctx (IsTestRequest i)))
              (client_decode as_O zero) (test_client_options env)) :: ('w, TestRequest, 'o, pb_TestRequest, pb_TestResponse) grpc_client;
          cn = (grpc_NewClient (cc_TestNil cc) ''pb.TestNil'' ''TestNil'' (\<lambda>ctx i w. (w, encodeNilRequest ctx (IsTestNilRequest i)))
              (client_decode as_O zero) (test_client_options env)) :: ('w, TestNilRequest, 'o, pb_TestNilRequest, pb_TestResponse) grpc_client;
          as_req = (\<lambda>v. case v of IsTestRequest r \<Rightarrow> Some r | _ \<Rightarrow> None);
          as_nil = (\<lambda>v. case v of IsTestNilRequest r \<Rightarrow> Some r | _ \<Rightarrow> None)
      in \<lparr>cb_test = (\<lambda>ctx r. grpc_Client_Endpoint c type_error as_req \<lparr>treq_A = [], treq_B = 0\<rparr> zero ctx (Some (IsTestRequest r))),
          cb_testB = (\<lambda>ctx r. grpc_Client_Endpoint cb type_error as_req \<lparr>treq_A = [], treq_B = 0\<rparr> zero ctx (Some (IsTestRequest r))),
          cb_testNil = (\<lambda>ctx r. grpc_Client_Endpoint cn type_error as_nil \<lparr>tnil_A = []\<rparr> zero ctx (Some (IsTestNilRequest r)))\<rparr>)"

subsection \<open>What the code relies on\<close>

text \<open>
  Metadata: \<open>Join\<close> adds the value to those of its key, which is in lower case, keys are distinct, and a map is ranged
  over entry by entry.
\<close>

definition env_ok :: "'w test_env \<Rightarrow> bool" where
  "env_ok env \<longleftrightarrow>
     (\<forall>m k v. ToLower k = k \<and> distinct (map fst (md_entries m)) \<longrightarrow>
        map_of (join env m k v) = (map_of (md_entries m))(k \<mapsto> (case map_of (md_entries m) k of None \<Rightarrow> [] | Some vs \<Rightarrow> vs) @ [v])
        \<and> distinct (map fst (join env m k v)))
   \<and> (\<forall>m. set (range_md env m) = set m)"

definition values_ok :: "MD \<Rightarrow> bool" where
  "values_ok m \<longleftrightarrow> distinct (map fst m) \<and> (\<forall>k v. (k, v) \<in> set m \<longrightarrow> v \<noteq> [])"

text \<open>
  The wire, as package grpc documents it. \<open>start\<close> is the world of a new call, with nothing sent. \<open>SendHeader\<close> works
  once in a call and fails after that; \<open>SetTrailer\<close> merges what it is given with the trailer that has been set, as
  \<open>metadata.Join\<close> does; printing sends nothing. Metadata arrive with their keys and values, beside keys that grpc
  itself adds, such as \<open>content-type\<close> or \<open>user-agent\<close>.
\<close>

record 'w wire =
  start :: "'w \<Rightarrow> 'w"
  wire_SendHeader :: "'w send_metadata"
  wire_SetTrailer :: "'w send_metadata"
  sent_header :: "'w \<Rightarrow> MD option"
  sent_trailer :: "'w \<Rightarrow> MD"

definition md_Join :: "MD \<Rightarrow> MD \<Rightarrow> MD" where
  "md_Join m1 m2 =
     map (\<lambda>(k, vs). (k, vs @ (case map_of m2 k of None \<Rightarrow> [] | Some us \<Rightarrow> us))) m1 @ filter (\<lambda>(k, _). k \<notin> set (map fst m1)) m2"

definition wire_ok :: "'w wire \<Rightarrow> 'w test_env \<Rightarrow> bool" where
  "wire_ok wr env \<longleftrightarrow>
     (\<forall>w. sent_header wr (start wr w) = None \<and> sent_trailer wr (start wr w) = [])
   \<and> (\<forall>ctx m w. sent_header wr w = None \<longrightarrow> (\<exists>w'. wire_SendHeader wr ctx m w = (w', None)
        \<and> sent_header wr w' = Some m \<and> sent_trailer wr w' = sent_trailer wr w))
   \<and> (\<forall>ctx m w. sent_header wr w \<noteq> None \<longrightarrow> (\<exists>w' err. wire_SendHeader wr ctx m w = (w', Some err)
        \<and> sent_header wr w' = sent_header wr w \<and> sent_trailer wr w' = sent_trailer wr w))
   \<and> (\<forall>ctx m w. \<exists>w'. wire_SetTrailer wr ctx m w = (w', None)
        \<and> sent_header wr w' = sent_header wr w \<and> sent_trailer wr w' = md_Join (sent_trailer wr w) m)
   \<and> (\<forall>s w. sent_header wr (print env s w) = sent_header wr w \<and> sent_trailer wr (print env s w) = sent_trailer wr w)"

definition carries :: "MD \<Rightarrow> MD \<Rightarrow> bool" where
  "carries m m' \<longleftrightarrow> values_ok m' \<and> map_of m \<subseteq>\<^sub>m map_of m'"

definition connects :: "'w wire \<Rightarrow> (context_values \<Rightarrow> string \<Rightarrow> 'm \<Rightarrow> MD \<Rightarrow> 'w \<Rightarrow> 'w \<times> (go_error + 'r \<times> MD \<times> MD))
    \<Rightarrow> string \<Rightarrow> (md \<Rightarrow> context_values \<Rightarrow> 'm \<Rightarrow> 'w \<Rightarrow> 'w \<times> (go_error + 'r) outcome) \<Rightarrow> bool" where
  "connects wr cc mth handler \<longleftrightarrow>
     (\<forall>ctx req m w. values_ok m \<longrightarrow> (\<exists>m'. carries m m' \<and>
        (\<forall>w1 r hdr. handler (Some m') [] req (start wr w) = (w1, Ret (Inr r)) \<and> sent_header wr w1 = Some hdr
            \<and> values_ok hdr \<and> values_ok (sent_trailer wr w1) \<longrightarrow>
          (\<exists>h t. cc ctx mth req m w = (w1, Inr (r, h, t)) \<and> carries hdr h \<and> carries (sent_trailer wr w1) t))))"

subsection \<open>The correlation id of a call\<close>

text \<open>What a call has sent, which the display functions do not change.\<close>

definition same_sent :: "'w wire \<Rightarrow> 'w \<Rightarrow> 'w \<Rightarrow> bool" where
  "same_sent wr w w' \<longleftrightarrow> sent_header wr w' = sent_header wr w \<and> sent_trailer wr w' = sent_trailer wr w"

lemma same_sent_refl [simp]: "same_sent wr w w"
  by (simp add: same_sent_def)

lemma same_sent_trans [trans]: "same_sent wr w1 w2 \<Longrightarrow> same_sent wr w2 w3 \<Longrightarrow> same_sent wr w1 w3"
  by (simp add: same_sent_def)

lemma print_same_sent: "wire_ok wr env \<Longrightarrow> same_sent wr w (print env s w)"
  by (simp add: wire_ok_def same_sent_def)

lemma carriesD:
  assumes "carries m m'"
  shows "values_ok m'" and "map_of m k = Some vs \<Longrightarrow> map_of m' k = Some vs"
  using assms unfolding carries_def map_le_def by (blast, metis domI)

lemma md_Join_Nil [simp]: "md_Join [] m = m"
  by (simp add: md_Join_def case_prod_beta)

lemma values_ok_Nil [simp]: "values_ok []"
  by (simp add: values_ok_def)

lemma values_ok_single [simp]: "values_ok [(k, [v])]"
  by (simp add: values_ok_def)

lemma joinD:
  assumes "env_ok env" and "ToLower k = k" and "values_ok (md_entries m)"
  shows "map_of (join env m k v) = (map_of (md_entries m))(k \<mapsto> (case map_of (md_entries m) k of None \<Rightarrow> [] | Some vs \<Rightarrow> vs) @ [v])"
    and "values_ok (join env m k v)"
proof -
  have d: "distinct (map fst (md_entries m))" using assms(3) by (simp add: values_ok_def)
  with assms(1,2) show j: "map_of (join env m k v) = (map_of (md_entries m))(k \<mapsto> (case map_of (md_entries m) k of None \<Rightarrow> [] | Some vs \<Rightarrow> vs) @ [v])"
    by (simp add: env_ok_def)
  have dj: "distinct (map fst (join env m k v))" using d assms(1,2) by (simp add: env_ok_def)
  have "vs \<noteq> []" if "(k1, vs) \<in> set (join env m k v)" for k1 vs
  proof -
    from dj that have "map_of (join env m k v) k1 = Some vs" by simp
    then show ?thesis using assms(3) by (auto simp: j values_ok_def split: if_splits dest: map_of_SomeD)
  qed
  with dj show "values_ok (join env m k v)" by (auto simp: values_ok_def)
qed

lemma display_entries_ok:
  "(\<forall>k v. (k, v) \<in> set m \<longrightarrow> v \<noteq> []) \<Longrightarrow> wire_ok wr env \<Longrightarrow>
    \<exists>w1. display_entries env m w = (w1, Ret ()) \<and> same_sent wr w w1"
proof (induction m arbitrary: w)
  case (Cons p m)
  obtain k v where p: "p = (k, v)" "v \<noteq> []" using Cons.prems(1) by (metis list.set_intros(1) prod.exhaust)
  let ?w1 = "print env (tab @ tab @ k @ '': '' @ last v @ nl) w"
  from Cons.IH [of ?w1] Cons.prems obtain w2 where "display_entries env m ?w1 = (w2, Ret ())" "same_sent wr ?w1 w2" by auto
  moreover have "same_sent wr w ?w1" by (rule print_same_sent [OF Cons.prems(2)])
  ultimately show ?case using p same_sent_trans by (fastforce)
qed simp

lemma display_md_ok:
  assumes "env_ok env" and "wire_ok wr env" and "values_ok m"
  obtains w1 where "display_md env title m w = (w1, Ret ())" and "same_sent wr w w1"
proof -
  have "\<forall>k v. (k, v) \<in> set (range_md env m) \<longrightarrow> v \<noteq> []" using assms(1,3) by (auto simp: env_ok_def values_ok_def)
  from display_entries_ok [OF this assms(2), where w = "print env (tab @ title @ nl) w"] obtain w1
    where "display_entries env (range_md env m) (print env (tab @ title @ nl) w) = (w1, Ret ())"
      "same_sent wr (print env (tab @ title @ nl) w) w1" by blast
  moreover have "same_sent wr w (print env (tab @ title @ nl) w)" by (rule print_same_sent [OF assms(2)])
  ultimately have "display_md env title m w = (if m = [] then w else w1, Ret ())" "same_sent wr w (if m = [] then w else w1)"
    using same_sent_trans by (auto simp: display_md_def)
  then show thesis by (rule that)
qed

lemma say_same_sent: "wire_ok wr env \<Longrightarrow> same_sent wr w (say env s1 x s2 w)"
  by (simp add: say_def print_same_sent)

lemma lower_keys:
  "ToLower responseHDR = responseHDR" "ToLower responseTRLR = responseTRLR" "ToLower correlationIDTRLR = correlationIDTRLR"
  by code_simp+

text \<open>The server: the id that comes with a call is the only value of its key in the trailer that is sent.\<close>

lemma test_server_echoes:
  assumes "env_ok env" and "wire_ok wr env" and "values_ok m" and "map_of m correlationID = Some [cid]"
    and "\<And>ctx w. dec ctx req w = (w, Inr x)" and "\<And>ctx w. e ctx x w = (w, Reply y None)"
    and "sent_header wr w = None" and "sent_trailer wr w = []"
  obtains w1 ctx1 hdr where "ServeGRPC (grpc_NewServer e dec encodeResponse (test_server_options env)) (wire_SendHeader wr) (wire_SetTrailer wr)
      (Some m) [] req w = (w1, ctx1, Ret (Inr \<lparr>pb_V = tresp_V y\<rparr>))"
    and "sent_header wr w1 = Some hdr" and "values_ok hdr" and "values_ok (sent_trailer wr w1)"
    and "map_of (sent_trailer wr w1) correlationIDTRLR = Some [cid]"
proof -
  let ?ctx = "WithValue [] (metaContext correlationID) (AnyString cid)"
  define h where "h = join env None responseHDR ''has-a-value''"
  define t1 where "t1 = join env None responseTRLR ''has-a-value-too''"
  define t2 where "t2 = join env (Some t1) correlationIDTRLR cid"
  have emp: "md_entries None = []" by (simp add: md_entries_def)
  have h: "values_ok h" and t1: "values_ok t1" "map_of t1 = [responseTRLR \<mapsto> [''has-a-value-too'']]"
    using joinD [OF assms(1) lower_keys(1), of None] joinD [OF assms(1) lower_keys(2), of None] by (simp_all add: h_def t1_def emp)
  have ne: "correlationIDTRLR \<noteq> responseTRLR" by (simp add: correlationIDTRLR_def responseTRLR_def)
  have t2: "values_ok t2" "map_of t2 correlationIDTRLR = Some [cid]"
    using joinD [OF assms(1) lower_keys(3), of "Some t1" cid] t1 ne by (simp_all add: t2_def md_entries_def)
  have "map_of h responseHDR = Some [''has-a-value'']" using joinD(1) [OF assms(1) lower_keys(1), of None] by (simp add: h_def emp)
  then have hne: "h \<noteq> []" by auto
  have tne: "t2 \<noteq> []" using t2(2) by auto
  let ?w0 = "say env ''Server received correlationID '' cid '' in metadata header, set context'' w"
  obtain wa where a: "display_md env ''Server << Request Headers:'' m ?w0 = (wa, Ret ())" "same_sent wr ?w0 wa"
    by (rule display_md_ok [OF assms(1-3)])
  let ?wb = "say env ''Server found correlationID '' cid '' in context, set consumed trailer'' wa"
  obtain wc where c: "display_md env ''Server >> Response Headers:'' h ?wb = (wc, Ret ())" "same_sent wr ?wb wc"
    by (rule display_md_ok [OF assms(1,2) h])
  obtain wd where d: "display_md env ''Server >> Response Trailers:'' t2 wc = (wd, Ret ())" "same_sent wr wc wd"
    by (rule display_md_ok [OF assms(1,2) t2(1)])
  have says: "same_sent wr v (say env s1 s s2 v)" for v s1 s s2 by (rule say_same_sent [OF assms(2)])
  have unsent: "sent_header wr wd = None" "sent_trailer wr wd = []"
    using says a(2) c(2) d(2) assms(7,8) by (simp_all add: same_sent_def)
  note wire = assms(2) [unfolded wire_ok_def]
  obtain we where e: "wire_SendHeader wr ?ctx h wd = (we, None)" "sent_header wr we = Some h" "sent_trailer wr we = []"
    using wire [THEN conjunct2, THEN conjunct1, rule_format, OF unsent(1), of ?ctx h] unsent(2) by auto
  obtain wf where f: "wire_SetTrailer wr ?ctx t2 we = (wf, None)" "sent_header wr wf = Some h" "sent_trailer wr wf = t2"
    using wire [THEN conjunct2, THEN conjunct2, THEN conjunct2, THEN conjunct1, rule_format, of ?ctx t2 we] e(2,3) by auto
  have s: "string_Value ?ctx (metaContext correlationID) = Some cid" by (simp add: string_Value_def context_Value_def WithValue_def)
  have b: "grpc_run_contexts (map (\<lambda>f ctx. f ctx m) [extractCorrelationID env, displayServerRequestHeaders env]) [] w = (wa, ?ctx, Ret ())"
    by (simp add: extractCorrelationID_def assms(4) displayServerRequestHeaders_def a(1) Let_def)
  have r: "grpc_run_after [injectResponseHeader env, injectResponseTrailer env, injectConsumedCorrelationID env,
      displayServerResponseHeaders env, displayServerResponseTrailers env] ?ctx None None wa = (wd, ?ctx, Ret (Some h, Some t2))"
    by (simp add: injectResponseHeader_def injectResponseTrailer_def injectConsumedCorrelationID_def displayServerResponseHeaders_def
        displayServerResponseTrailers_def s c(1) d(1) md_entries_def flip: h_def t1_def t2_def)
  have "ServeGRPC (grpc_NewServer e dec encodeResponse (test_server_options env)) (wire_SendHeader wr) (wire_SetTrailer wr)
      (Some m) [] req w = (wf, ?ctx, Ret (Inr \<lparr>pb_V = tresp_V y\<rparr>))"
    using b r e(1) f(1) hne tne
    by (simp add: ServeGRPC_def grpc_NewServer_def test_server_options_def grpc_ServerBefore_def grpc_ServerAfter_def grpc_serve_def
        assms(5,6) md_entries_def encodeResponse_def send_md_def)
  with that h t2 f(2,3) show thesis by simp
qed

text \<open>The client: it sends the id of its context, and finds the one of the trailer in the context of the response.\<close>

lemma test_client_echoes:
  assumes "env_ok env" and "wire_ok wr env" and "string_Value ctx (metaContext correlationID) = Some cid"
    and "\<And>ctx w. enc ctx i w = (w, Inr req)" and "as_I d = Some i"
    and "\<And>ctx w. \<exists>w1 h t. conn ctx (''/'' @ service @ ''/'' @ mth) req [(correlationID, [cid])] w = (w1, Inr (r, h, t))
        \<and> values_ok h \<and> values_ok t \<and> map_of t correlationIDTRLR = Some [cid]"
    and "\<And>r. as_O r = Some (up r)"
  obtains w' rctx where "grpc_Client_Endpoint (grpc_NewClient conn service mth enc (client_decode as_O zero) (test_client_options env))
      type_error as_I zero_i zero ctx (Some d) w = (w', Reply (up \<lparr>tresp_Ctx = Some rctx, tresp_V = pb_V r\<rparr>) None)"
    and "GetConsumedCorrelationID rctx = cid"
proof -
  let ?ctx = "WithValue ctx grpc_ContextKeyRequestMethod (AnyString (''/'' @ service @ ''/'' @ mth))"
  have k: "grpc_ContextKeyRequestMethod \<noteq> metaContext s" for s by (simp add: grpc_ContextKeyRequestMethod_def metaContext_def)
  have s: "string_Value ?ctx (metaContext correlationID) = Some cid" by (simp add: k [symmetric] assms(3))
  let ?wa = "say env ''Client found correlationID '' cid '' in context, set metadata header'' w"
  obtain wb where b: "display_md env ''Client >> Request Headers:'' [(correlationID, [cid])] ?wa = (wb, Ret ())"
    by (rule display_md_ok [OF assms(1,2) values_ok_single])
  obtain wc h t where c: "conn ?ctx (''/'' @ service @ ''/'' @ mth) req [(correlationID, [cid])] wb = (wc, Inr (r, h, t))"
    "values_ok h" "values_ok t" "map_of t correlationIDTRLR = Some [cid]" using assms(6) by blast
  obtain wd where d: "display_md env ''Client << Response Headers:'' h wc = (wd, Ret ())" by (rule display_md_ok [OF assms(1,2) c(2)])
  obtain we where e: "display_md env ''Client << Response Trailers:'' t wd = (we, Ret ())" by (rule display_md_ok [OF assms(1,2) c(3)])
  let ?rctx = "WithValue ?ctx (metaContext correlationIDTRLR) (AnyString cid)"
  obtain wf where f: "extractConsumedCorrelationID env ?ctx h t we = (wf, Ret ?rctx)"
    by (simp add: extractConsumedCorrelationID_def c(4))
  have before: "grpc_run_before [injectCorrelationID env, displayClientRequestHeaders env] ?ctx (Some []) w
      = (wb, ?ctx, Ret (Some [(correlationID, [cid])]))"
    by (simp add: k [symmetric] assms(3) injectCorrelationID_def md_append_def displayClientRequestHeaders_def md_entries_def b)
  have after: "grpc_run_contexts (map (\<lambda>f ctx. f ctx h t) [displayClientResponseHeaders env, displayClientResponseTrailers env,
      extractConsumedCorrelationID env]) ?ctx wc = (wf, ?rctx, Ret ())"
    by (simp add: displayClientResponseHeaders_def displayClientResponseTrailers_def d e f [simplified])
  have "grpc_Client_Endpoint (grpc_NewClient conn service mth enc (client_decode as_O zero) (test_client_options env))
      type_error as_I zero_i zero ctx (Some d) w = (wf, Reply (up \<lparr>tresp_Ctx = Some ?rctx, tresp_V = pb_V r\<rparr>) None)"
    using before after c(1)
    by (simp add: grpc_Client_Endpoint_def grpc_NewClient_def test_client_options_def grpc_ClientBefore_def grpc_ClientAfter_def
        assms(4,5,7) md_entries_def client_decode_def decodeResponse_def)
  moreover have "GetConsumedCorrelationID ?rctx = cid" by (simp add: GetConsumedCorrelationID_def)
  ultimately show thesis by (rule that)
qed

text \<open>Client, metadata, server and service together.\<close>

lemma test_call_echoes:
  assumes "env_ok env" and "wire_ok wr env" and "string_Value ctx (metaContext correlationID) = Some cid"
    and "\<And>ctx w. enc ctx i w = (w, Inr req)" and "as_I d = Some i" and "\<And>r. as_O r = Some (up r)"
    and "\<And>ctx w. dec ctx req w = (w, Inr x)" and "\<And>ctx w. e ctx x w = (w, Reply y None)"
    and "connects wr conn (''/'' @ service @ ''/'' @ mth) (\<lambda>incoming ctx req w.
        case ServeGRPC (grpc_NewServer e dec encodeResponse (test_server_options env)) (wire_SendHeader wr) (wire_SetTrailer wr) incoming ctx req w
        of (w1, _, out) \<Rightarrow> (w1, out))"
  obtains w' rctx where "grpc_Client_Endpoint (grpc_NewClient conn service mth enc (client_decode as_O zero) (test_client_options env))
      type_error as_I zero_i zero ctx (Some d) w = (w', Reply (up \<lparr>tresp_Ctx = Some rctx, tresp_V = tresp_V y\<rparr>) None)"
    and "GetConsumedCorrelationID rctx = cid"
proof -
  have conn: "\<exists>w1 h t. conn ctx (''/'' @ service @ ''/'' @ mth) req [(correlationID, [cid])] w = (w1, Inr (\<lparr>pb_V = tresp_V y\<rparr>, h, t))
        \<and> values_ok h \<and> values_ok t \<and> map_of t correlationIDTRLR = Some [cid]" for ctx w
  proof -
    let ?serve = "\<lambda>incoming ctx req w.
        case ServeGRPC (grpc_NewServer e dec encodeResponse (test_server_options env)) (wire_SendHeader wr) (wire_SetTrailer wr) incoming ctx req w
        of (w1, _, out) \<Rightarrow> (w1, out)"
    have "\<exists>m'. carries [(correlationID, [cid])] m' \<and> (\<forall>w1 r hdr. ?serve (Some m') [] req (start wr w) = (w1, Ret (Inr r))
          \<and> sent_header wr w1 = Some hdr \<and> values_ok hdr \<and> values_ok (sent_trailer wr w1) \<longrightarrow>
        (\<exists>h t. conn ctx (''/'' @ service @ ''/'' @ mth) req [(correlationID, [cid])] w = (w1, Inr (r, h, t))
          \<and> carries hdr h \<and> carries (sent_trailer wr w1) t))"
      by (rule assms(9) [unfolded connects_def, THEN spec [of _ ctx], THEN spec [of _ req],
            THEN spec [of _ "[(correlationID, [cid])]"], THEN spec [of _ w], THEN mp, OF values_ok_single])
    then obtain m' where m': "carries [(correlationID, [cid])] m'" and deliver: "\<forall>w1 r hdr.
        ?serve (Some m') [] req (start wr w) = (w1, Ret (Inr r))
          \<and> sent_header wr w1 = Some hdr \<and> values_ok hdr \<and> values_ok (sent_trailer wr w1) \<longrightarrow>
        (\<exists>h t. conn ctx (''/'' @ service @ ''/'' @ mth) req [(correlationID, [cid])] w = (w1, Inr (r, h, t))
          \<and> carries hdr h \<and> carries (sent_trailer wr w1) t)" by (elim exE conjE)
    have id: "map_of m' correlationID = Some [cid]" by (rule carriesD(2) [OF m']) simp
    have fresh: "sent_header wr (start wr w) = None" "sent_trailer wr (start wr w) = []" using assms(2) by (simp_all add: wire_ok_def)
    obtain w1 ctx1 hdr where s: "ServeGRPC (grpc_NewServer e dec encodeResponse (test_server_options env)) (wire_SendHeader wr) (wire_SetTrailer wr)
        (Some m') [] req (start wr w) = (w1, ctx1, Ret (Inr \<lparr>pb_V = tresp_V y\<rparr>))"
      "sent_header wr w1 = Some hdr" "values_ok hdr" "values_ok (sent_trailer wr w1)"
      "map_of (sent_trailer wr w1) correlationIDTRLR = Some [cid]"
      by (rule test_server_echoes [where dec = dec and req = req and x = x and e = e and y = y and m = m',
            OF assms(1,2) carriesD(1) [OF m'] id assms(7,8) fresh])
    obtain h t where "conn ctx (''/'' @ service @ ''/'' @ mth) req [(correlationID, [cid])] w = (w1, Inr (\<lparr>pb_V = tresp_V y\<rparr>, h, t))"
      "carries hdr h" "carries (sent_trailer wr w1) t"
      using deliver [rule_format, of w1 "\<lparr>pb_V = tresp_V y\<rparr>" hdr] s(1-4) by auto
    with carriesD s(5) show ?thesis by blast
  qed
  show thesis
    by (rule test_client_echoes [where enc = enc and as_I = as_I and conn = conn and r = "\<lparr>pb_V = tresp_V y\<rparr>" and as_O = as_O
        and up = up and i = i and req = req and d = d,
        OF assms(1-5) conn assms(6)]) (rule that, simp_all)
qed

subsection \<open>Properties\<close>

text \<open>C31: A call of \<open>Test\<close> over the connection between the client and the server returns what the service makes of its
  arguments, and the id that the caller put into its context comes back, through the metadata of the call, the context of
  the handler, the trailer of the response, in the context that is returned.\<close>

theorem test_service_echoes:
  assumes "env_ok env" and "wire_ok wr env" and "\<And>r. as_O r = Some (up r)" and "\<And>r. as_TestResponse (up r) = Some r"
    and "connects wr (cc_Test cc) ''/pb.Test/Test'' (testServerBinding_Test (NewTestServiceBinding env test_NewService)
      (wire_SendHeader wr) (wire_SetTrailer wr))"
  shows "\<exists>w' rctx. clientBinding_Test as_TestResponse (test_NewClient env type_error as_O zero cc) (SetCorrelationID ctx cid) a b w
      = (w', Ret (Some rctx, a @ '' = '' @ Itoa (sint b), None))
    \<and> GetConsumedCorrelationID rctx = cid"
proof -
  have s: "string_Value (SetCorrelationID ctx cid) (metaContext correlationID) = Some cid"
    by (simp add: SetCorrelationID_def)
  let ?y = "\<lparr>tresp_Ctx = Some [], tresp_V = a @ '' = '' @ Itoa (sint b)\<rparr>"
  have e: "makeTestEndpoint test_NewService ctx \<lparr>treq_A = a, treq_B = b\<rparr> w = (w, Reply ?y None)" for ctx w
    by (simp add: makeTestEndpoint_def test_NewService_def service_Test_def)
  have c: "connects wr (cc_Test cc) (''/'' @ ''pb.Test'' @ ''/'' @ ''Test'') (\<lambda>incoming ctx req w.
      case ServeGRPC (grpc_NewServer (makeTestEndpoint test_NewService) decodeRequest encodeResponse (test_server_options env))
        (wire_SendHeader wr) (wire_SetTrailer wr) incoming ctx req w of (w1, _, out) \<Rightarrow> (w1, out))"
    using assms(5) by (simp add: testServerBinding_Test_def [abs_def] NewTestServiceBinding_def)
  let ?as_I = "\<lambda>v. case v of IsTestRequest r \<Rightarrow> Some r | _ \<Rightarrow> None"
  obtain w' rctx where "grpc_Client_Endpoint (grpc_NewClient (cc_Test cc) ''pb.Test'' ''Test''
      (\<lambda>ctx i w. (w, encodeRequest ctx (IsTestRequest i))) (client_decode as_O zero) (test_client_options env))
      type_error ?as_I \<lparr>treq_A = [], treq_B = 0\<rparr> zero (SetCorrelationID ctx cid) (Some (IsTestRequest \<lparr>treq_A = a, treq_B = b\<rparr>)) w
      = (w', Reply (up \<lparr>tresp_Ctx = Some rctx, tresp_V = tresp_V ?y\<rparr>) None)" "GetConsumedCorrelationID rctx = cid"
    by (rule test_call_echoes [where i = "\<lparr>treq_A = a, treq_B = b\<rparr>" and req = "\<lparr>pb_A = a, pb_B = b\<rparr>" and as_I = ?as_I
        and d = "IsTestRequest \<lparr>treq_A = a, treq_B = b\<rparr>" and as_O = as_O and up = up and zero = zero
        and dec = decodeRequest and x = "\<lparr>treq_A = a, treq_B = b\<rparr>" and e = "makeTestEndpoint test_NewService" and y = ?y
        and enc = "\<lambda>ctx i w. (w, encodeRequest ctx (IsTestRequest i))", OF assms(1,2) s _ _ assms(3) _ e c])
      (simp_all add: encodeRequest_def decodeRequest_def)
  then show ?thesis
    by (simp add: clientBinding_Test_def test_NewClient_def Let_def client_response_def assms(4))
qed

text \<open>So does a call of \<open>TestB\<close>, with its own endpoint on the server.\<close>

theorem testB_service_echoes:
  assumes "env_ok env" and "wire_ok wr env" and "\<And>r. as_O r = Some (up r)" and "\<And>r. as_TestResponse (up r) = Some r"
    and "connects wr (cc_Test cc) ''/pb.Test/TestB'' (testServerBinding_TestB (NewTestServiceBinding env test_NewService)
      (wire_SendHeader wr) (wire_SetTrailer wr))"
  shows "\<exists>w' rctx. clientBinding_TestB as_TestResponse (test_NewClient env type_error as_O zero cc) (SetCorrelationID ctx cid) a b w
      = (w', Ret (Some rctx, Itoa (sint b) @ '' = '' @ a, None))
    \<and> GetConsumedCorrelationID rctx = cid"
proof -
  have s: "string_Value (SetCorrelationID ctx cid) (metaContext correlationID) = Some cid" by (simp add: SetCorrelationID_def)
  let ?y = "\<lparr>tresp_Ctx = Some [], tresp_V = Itoa (sint b) @ '' = '' @ a\<rparr>"
  have e: "makeTestBEndpoint test_NewService ctx \<lparr>treq_A = a, treq_B = b\<rparr> w = (w, Reply ?y None)" for ctx w
    by (simp add: makeTestBEndpoint_def test_NewService_def service_TestB_def)
  have c: "connects wr (cc_Test cc) (''/'' @ ''pb.Test'' @ ''/'' @ ''TestB'') (\<lambda>incoming ctx req w.
      case ServeGRPC (grpc_NewServer (makeTestBEndpoint test_NewService) decodeRequest encodeResponse (test_server_options env))
        (wire_SendHeader wr) (wire_SetTrailer wr) incoming ctx req w of (w1, _, out) \<Rightarrow> (w1, out))"
    using assms(5) by (simp add: testServerBinding_TestB_def [abs_def] NewTestServiceBinding_def)
  let ?as_I = "\<lambda>v. case v of IsTestRequest r \<Rightarrow> Some r | _ \<Rightarrow> None"
  obtain w' rctx where "grpc_Client_Endpoint (grpc_NewClient (cc_Test cc) ''pb.Test'' ''TestB''
      (\<lambda>ctx i w. (w, encodeRequest ctx (IsTestRequest i))) (client_decode as_O zero) (test_client_options env))
      type_error ?as_I \<lparr>treq_A = [], treq_B = 0\<rparr> zero (SetCorrelationID ctx cid) (Some (IsTestRequest \<lparr>treq_A = a, treq_B = b\<rparr>)) w
      = (w', Reply (up \<lparr>tresp_Ctx = Some rctx, tresp_V = tresp_V ?y\<rparr>) None)" "GetConsumedCorrelationID rctx = cid"
    by (rule test_call_echoes [where i = "\<lparr>treq_A = a, treq_B = b\<rparr>" and req = "\<lparr>pb_A = a, pb_B = b\<rparr>" and as_I = ?as_I
        and d = "IsTestRequest \<lparr>treq_A = a, treq_B = b\<rparr>" and as_O = as_O and up = up and zero = zero
        and dec = decodeRequest and x = "\<lparr>treq_A = a, treq_B = b\<rparr>" and e = "makeTestBEndpoint test_NewService" and y = ?y
        and enc = "\<lambda>ctx i w. (w, encodeRequest ctx (IsTestRequest i))", OF assms(1,2) s _ _ assms(3) _ e c])
      (simp_all add: encodeRequest_def decodeRequest_def)
  then show ?thesis
    by (simp add: clientBinding_TestB_def test_NewClient_def Let_def client_response_def assms(4))
qed

text \<open>And a call of \<open>TestNil\<close>, which prints the bytes that it gets.\<close>

theorem testNil_service_echoes:
  assumes "env_ok env" and "wire_ok wr env" and "\<And>r. as_O r = Some (up r)" and "\<And>r. as_TestResponse (up r) = Some r"
    and "connects wr (cc_TestNil cc) ''/pb.TestNil/TestNil'' (testNilServerBinding_TestNil (NewTestNilServiceBinding env test_NewService)
      (wire_SendHeader wr) (wire_SetTrailer wr))"
  shows "\<exists>w' rctx. clientBinding_TestNil as_TestResponse (test_NewClient env type_error as_O zero cc) (SetCorrelationID ctx cid) i w
      = (w', Ret (Some rctx, show_bytes i, None))
    \<and> GetConsumedCorrelationID rctx = cid"
proof -
  have s: "string_Value (SetCorrelationID ctx cid) (metaContext correlationID) = Some cid" by (simp add: SetCorrelationID_def)
  let ?y = "\<lparr>tresp_Ctx = Some [], tresp_V = show_bytes i\<rparr>"
  have e: "makeTestNilEndpoint test_NewService ctx \<lparr>tnil_A = i\<rparr> w = (w, Reply ?y None)" for ctx w
    by (simp add: makeTestNilEndpoint_def test_NewService_def service_TestNil_def)
  have c: "connects wr (cc_TestNil cc) (''/'' @ ''pb.TestNil'' @ ''/'' @ ''TestNil'') (\<lambda>incoming ctx req w.
      case ServeGRPC (grpc_NewServer (makeTestNilEndpoint test_NewService) decodeNilRequest encodeResponse (test_server_options env))
        (wire_SendHeader wr) (wire_SetTrailer wr) incoming ctx req w of (w1, _, out) \<Rightarrow> (w1, out))"
    using assms(5) by (simp add: testNilServerBinding_TestNil_def [abs_def] NewTestNilServiceBinding_def)
  let ?as_I = "\<lambda>v. case v of IsTestNilRequest r \<Rightarrow> Some r | _ \<Rightarrow> None"
  obtain w' rctx where "grpc_Client_Endpoint (grpc_NewClient (cc_TestNil cc) ''pb.TestNil'' ''TestNil''
      (\<lambda>ctx i w. (w, encodeNilRequest ctx (IsTestNilRequest i))) (client_decode as_O zero) (test_client_options env))
      type_error ?as_I \<lparr>tnil_A = []\<rparr> zero (SetCorrelationID ctx cid) (Some (IsTestNilRequest \<lparr>tnil_A = i\<rparr>)) w
      = (w', Reply (up \<lparr>tresp_Ctx = Some rctx, tresp_V = tresp_V ?y\<rparr>) None)" "GetConsumedCorrelationID rctx = cid"
    by (rule test_call_echoes [where i = "\<lparr>tnil_A = i\<rparr>" and req = "\<lparr>pb_bytes = i\<rparr>" and as_I = ?as_I
        and d = "IsTestNilRequest \<lparr>tnil_A = i\<rparr>" and as_O = as_O and up = up and zero = zero
        and dec = decodeNilRequest and x = "\<lparr>tnil_A = i\<rparr>" and e = "makeTestNilEndpoint test_NewService" and y = ?y
        and enc = "\<lambda>ctx i w. (w, encodeNilRequest ctx (IsTestNilRequest i))", OF assms(1,2) s _ _ assms(3) _ e c])
      (simp_all add: encodeNilRequest_def decodeNilRequest_def)
  then show ?thesis
    by (simp add: clientBinding_TestNil_def test_NewClient_def Let_def client_response_def assms(4))
qed

subsection \<open>The greeting service\<close>

text \<open>Package example, files server.go and service.go. A \<open>Handler\<close> of the binding may be nil.\<close>

record pb_TestBRequest =
  pbb_A :: "8 word list"

record 'w GreetService =
  greet_TestA :: "context_values \<Rightarrow> string \<Rightarrow> 64 word \<Rightarrow> 'w \<Rightarrow> 'w test_result"
  greet_TestB :: "context_values \<Rightarrow> 8 word list \<Rightarrow> 'w \<Rightarrow> 'w \<times> context_values option \<times> bool \<times> go_error option"

definition greetService_TestA :: "(string \<Rightarrow> 'w \<Rightarrow> 'w) \<Rightarrow> context_values \<Rightarrow> string \<Rightarrow> 64 word \<Rightarrow> 'w \<Rightarrow> 'w test_result" where
  "greetService_TestA println ctx a b w = (println ''Great called'' w, Some [], a @ '' = '' @ Itoa (sint b), None)"

definition greetService_TestB :: "context_values \<Rightarrow> 8 word list \<Rightarrow> 'w \<Rightarrow> 'w \<times> context_values option \<times> bool \<times> go_error option" where
  "greetService_TestB ctx b w = (w, Some [], True, None)"

definition NewGreetService :: "(string \<Rightarrow> 'w \<Rightarrow> 'w) \<Rightarrow> 'w GreetService" where
  "NewGreetService println = \<lparr>greet_TestA = greetService_TestA println, greet_TestB = greetService_TestB\<rparr>"

definition decodeTestARequest :: "context_values \<Rightarrow> pb_TestRequest \<Rightarrow> 'w \<Rightarrow> 'w \<times> (go_error + TestRequest)" where
  "decodeTestARequest ctx r w = (w, Inr \<lparr>treq_A = pb_A r, treq_B = pb_B r\<rparr>)"

definition encodeTestAResponse :: "context_values \<Rightarrow> TestResponse \<Rightarrow> 'w \<Rightarrow> 'w \<times> (go_error + pb_TestResponse)" where
  "encodeTestAResponse ctx r w = (w, Inr \<lparr>pb_V = tresp_V r\<rparr>)"

record 'w greetServiceBinding =
  gsb_testA :: "('w, pb_TestRequest, TestRequest, TestResponse, pb_TestResponse) grpc_server option"
  gsb_testB :: "('w, pb_TestBRequest, 8 word list, bool, bool) grpc_server option"

definition NewGreetServiceBinding :: "'w GreetService \<Rightarrow> 'w greetServiceBinding" where
  "NewGreetServiceBinding svc =
     \<lparr>gsb_testA = Some (grpc_NewServer
        (\<lambda>ctx req w. case greet_TestA svc ctx (treq_A req) (treq_B req) w of
           (w1, newCtx, v, err) \<Rightarrow> (w1, Reply \<lparr>tresp_Ctx = newCtx, tresp_V = v\<rparr> err))
        decodeTestARequest encodeTestAResponse []),
      gsb_testB = None\<rparr>"

definition greet_serve :: "('w, 'm, 'i, 'o, 'r) grpc_server option \<Rightarrow> 'w send_metadata \<Rightarrow> 'w send_metadata \<Rightarrow> md
    \<Rightarrow> context_values \<Rightarrow> 'm \<Rightarrow> 'w \<Rightarrow> 'w \<times> (go_error + 'r) outcome" where
  "greet_serve handler SendHeader SetTrailer incoming ctx i w =
     (case handler of
        None \<Rightarrow> (w, Panic ''nil pointer dereference'')
      | Some s \<Rightarrow> (case ServeGRPC s SendHeader SetTrailer incoming ctx i w of (w1, _, out) \<Rightarrow> (w1, out)))"

definition greetServiceBinding_TestA :: "'w greetServiceBinding \<Rightarrow> 'w send_metadata \<Rightarrow> 'w send_metadata \<Rightarrow> md
    \<Rightarrow> context_values \<Rightarrow> pb_TestRequest \<Rightarrow> 'w \<Rightarrow> 'w \<times> (go_error + pb_TestResponse) outcome" where
  "greetServiceBinding_TestA b = greet_serve (gsb_testA b)"

definition greetServiceBinding_TestB :: "'w greetServiceBinding \<Rightarrow> 'w send_metadata \<Rightarrow> 'w send_metadata \<Rightarrow> md
    \<Rightarrow> context_values \<Rightarrow> pb_TestBRequest \<Rightarrow> 'w \<Rightarrow> 'w \<times> (go_error + bool) outcome" where
  "greetServiceBinding_TestB b = greet_serve (gsb_testB b)"

text \<open>The greeting service answers \<open>TestA\<close>, but its binding has no handler for \<open>TestB\<close>: each call of that method panics,
  although the service behind the binding implements it.\<close>

theorem greet_TestB_panics:
  "greetServiceBinding_TestA (NewGreetServiceBinding (NewGreetService println)) send trail incoming ctx \<lparr>pb_A = a, pb_B = b\<rparr> w
      = (println ''Great called'' w, Ret (Inr \<lparr>pb_V = a @ '' = '' @ Itoa (sint b)\<rparr>))
   \<and> snd (greetServiceBinding_TestB (NewGreetServiceBinding (NewGreetService println)) send trail incoming ctx r w)
      = Panic ''nil pointer dereference''
   \<and> (\<exists>c. greet_TestB (NewGreetService println) ctx bs w = (w, Some c, True, None))"
  by (simp add: greetServiceBinding_TestA_def greetServiceBinding_TestB_def NewGreetServiceBinding_def NewGreetService_def
      greet_serve_def greetService_TestA_def greetService_TestB_def ServeGRPC_def grpc_NewServer_def grpc_serve_def
      decodeTestARequest_def encodeTestAResponse_def send_md_def md_entries_def)

subsection \<open>A connection in memory\<close>

type_synonym memory = "string list \<times> MD option \<times> MD"

definition mem_env :: "memory test_env" where
  "mem_env = \<lparr>print = \<lambda>s (out, h, t). (out @ [s], h, t), quoted = \<lambda>s. [CHR 0x22] @ s @ [CHR 0x22],
     join = \<lambda>m k v. AList.update k ((case map_of (md_entries m) k of None \<Rightarrow> [] | Some vs \<Rightarrow> vs) @ [v]) (md_entries m),
     range_md = \<lambda>m. m\<rparr>"

definition mem_wire :: "memory wire" where
  "mem_wire = \<lparr>start = \<lambda>(out, h, t). (out, None, []),
     wire_SendHeader = \<lambda>ctx m (out, h, t).
       (if h = None then ((out, Some m, t), None) else ((out, h, t), Some (ErrorText ''SendHeader called multiple times''))),
     wire_SetTrailer = \<lambda>ctx m (out, h, t). ((out, h, md_Join t m), None),
     sent_header = \<lambda>(out, h, t). h, sent_trailer = \<lambda>(out, h, t). t\<rparr>"

definition mem_agent :: "MD \<Rightarrow> MD" where
  "mem_agent m = (if map_of m ''user-agent'' = None then m @ [(''user-agent'', [''grpc-go''])] else m)"

definition mem_call :: "(md \<Rightarrow> context_values \<Rightarrow> 'm \<Rightarrow> memory \<Rightarrow> memory \<times> (go_error + 'r) outcome) \<Rightarrow> 'm \<Rightarrow> MD \<Rightarrow> memory
    \<Rightarrow> memory \<times> (go_error + 'r \<times> MD \<times> MD)" where
  "mem_call handler req m w =
     (case handler (Some (mem_agent m)) [] req (start mem_wire w) of
        (w1, Ret (Inr r)) \<Rightarrow>
          (w1, Inr (r, (case sent_header mem_wire w1 of None \<Rightarrow> [] | Some h \<Rightarrow> h), sent_trailer mem_wire w1))
      | (w1, Ret (Inl err)) \<Rightarrow> (w1, Inl err)
      | (w1, Panic p) \<Rightarrow> (w1, Inl (ErrorText ''Unavailable'')))"

definition mem_conn :: "memory test_conn" where
  "mem_conn =
     (let b = NewTestServiceBinding mem_env test_NewService; bn = NewTestNilServiceBinding mem_env test_NewService in
      \<lparr>cc_Test = \<lambda>ctx mth. mem_call ((if mth = ''/pb.Test/Test'' then testServerBinding_Test b else testServerBinding_TestB b)
         (wire_SendHeader mem_wire) (wire_SetTrailer mem_wire)),
       cc_TestNil = \<lambda>ctx mth. mem_call (testNilServerBinding_TestNil bn (wire_SendHeader mem_wire) (wire_SetTrailer mem_wire))\<rparr>)"

lemma mem_env_ok: "env_ok mem_env"
  by (auto simp: env_ok_def mem_env_def update_conv' distinct_update)

lemma mem_wire_ok: "wire_ok mem_wire mem_env"
  by (auto simp: wire_ok_def mem_wire_def mem_env_def)

lemma mem_agent_carries: "values_ok m \<Longrightarrow> carries m (mem_agent m)"
  by (auto simp: carries_def mem_agent_def values_ok_def map_le_def map_add_def map_of_eq_None_iff split: option.split
      dest: map_of_SomeD) force+

lemma mem_call_connects:
  assumes "\<And>ctx. cc ctx mth = mem_call handler"
  shows "connects mem_wire cc mth handler"
  unfolding connects_def
proof (intro allI impI exI conjI)
  fix ctx req m w w1 r hdr
  assume m: "values_ok m"
  then show "carries m (mem_agent m)" by (rule mem_agent_carries)
  assume "handler (Some (mem_agent m)) [] req (start mem_wire w) = (w1, Ret (Inr r)) \<and> sent_header mem_wire w1 = Some hdr
    \<and> values_ok hdr \<and> values_ok (sent_trailer mem_wire w1)"
  then show "cc ctx mth req m w = (w1, Inr (r, hdr, sent_trailer mem_wire w1))" "carries hdr hdr"
    "carries (sent_trailer mem_wire w1) (sent_trailer mem_wire w1)"
    by (simp_all add: assms mem_call_def carries_def)
qed

theorem test_service_echoes_witness:
  "\<exists>w' rctx. clientBinding_Test Some (test_NewClient mem_env (\<lambda>d. ErrorText ''type'') Some \<lparr>tresp_Ctx = None, tresp_V = []\<rparr> mem_conn)
      (SetCorrelationID [] ''request-1'') ''the answer'' 42 ([], None, []) = (w', Ret (Some rctx, ''the answer = 42'', None))
    \<and> GetConsumedCorrelationID rctx = ''request-1''"
proof -
  have c: "connects mem_wire (cc_Test mem_conn) ''/pb.Test/Test''
      (testServerBinding_Test (NewTestServiceBinding mem_env test_NewService) (wire_SendHeader mem_wire) (wire_SetTrailer mem_wire))"
    by (rule mem_call_connects) (simp add: mem_conn_def Let_def)
  have i: "Itoa 42 = ''42''" by code_simp
  show ?thesis
    using test_service_echoes [OF mem_env_ok mem_wire_ok _ _ c, of Some "\<lambda>r. r" Some "\<lambda>d. ErrorText ''type''"
      "\<lparr>tresp_Ctx = None, tresp_V = []\<rparr>" "[]" "''request-1''" "''the answer''" 42 "([], None, [])"]
    by (simp add: i)
qed

theorem testB_service_echoes_witness:
  "\<exists>w' rctx. clientBinding_TestB Some (test_NewClient mem_env (\<lambda>d. ErrorText ''type'') Some \<lparr>tresp_Ctx = None, tresp_V = []\<rparr> mem_conn)
      (SetCorrelationID [] ''request-2'') ''the answer'' 42 ([], None, []) = (w', Ret (Some rctx, ''42 = the answer'', None))
    \<and> GetConsumedCorrelationID rctx = ''request-2''"
proof -
  have c: "connects mem_wire (cc_Test mem_conn) ''/pb.Test/TestB''
      (testServerBinding_TestB (NewTestServiceBinding mem_env test_NewService) (wire_SendHeader mem_wire) (wire_SetTrailer mem_wire))"
    by (rule mem_call_connects) (simp add: mem_conn_def Let_def)
  have i: "Itoa 42 = ''42''" by code_simp
  show ?thesis
    using testB_service_echoes [OF mem_env_ok mem_wire_ok _ _ c, of Some "\<lambda>r. r" Some "\<lambda>d. ErrorText ''type''"
      "\<lparr>tresp_Ctx = None, tresp_V = []\<rparr>" "[]" "''request-2''" "''the answer''" 42 "([], None, [])"]
    by (simp add: i)
qed

theorem testNil_service_echoes_witness:
  "\<exists>w' rctx. clientBinding_TestNil Some (test_NewClient mem_env (\<lambda>d. ErrorText ''type'') Some \<lparr>tresp_Ctx = None, tresp_V = []\<rparr> mem_conn)
      (SetCorrelationID [] ''request-3'') [1, 20] ([], None, []) = (w', Ret (Some rctx, ''[1 20]'', None))
    \<and> GetConsumedCorrelationID rctx = ''request-3''"
proof -
  have c: "connects mem_wire (cc_TestNil mem_conn) ''/pb.TestNil/TestNil''
      (testNilServerBinding_TestNil (NewTestNilServiceBinding mem_env test_NewService) (wire_SendHeader mem_wire) (wire_SetTrailer mem_wire))"
    by (rule mem_call_connects) (simp add: mem_conn_def Let_def)
  have i: "show_bytes [1, 20] = ''[1 20]''" by code_simp
  show ?thesis
    using testNil_service_echoes [OF mem_env_ok mem_wire_ok _ _ c, of Some "\<lambda>r. r" Some "\<lambda>d. ErrorText ''type''"
      "\<lparr>tresp_Ctx = None, tresp_V = []\<rparr>" "[]" "''request-3''" "[1, 20]" "([], None, [])"]
    by (simp add: i)
qed

end
