(* ===== verification/Discovery.thy ===== *)
theory Discovery
  imports Dns_Srv Retry Grpc
begin

text \<open>
  A call of a discovered service, from the registry to the response: an instancer feeds an endpointer, whose
  factory makes a gRPC client endpoint for each address; a round robin chooses among them, and a retrying
  endpoint calls the one that is chosen. The definitions here only put the models of the components together the way
  a service does; \<open>balanced\<close> and \<open>invoke\<close> give the balancer and the endpoints one world.
  A panic of an endpoint, which would end the program, is an error of \<open>invoke\<close>; the clients made here do not panic.
\<close>

subsection \<open>Endpoints made by a factory\<close>

definition made_by :: "(string \<Rightarrow> 'ep) \<Rightarrow> (string \<times> ('ep, 'cl) endpointCloser) list \<Rightarrow> bool" where
  "made_by ep m \<longleftrightarrow> (\<forall>i sc. map_of m i = Some sc \<longrightarrow> Endpoint sc = ep i)"

lemma made_by_simps [simp]:
  "made_by ep []" "made_by ep m \<Longrightarrow> made_by ep (AList.delete i m)"
  "made_by ep m \<Longrightarrow> Endpoint sc = ep i \<Longrightarrow> made_by ep (AList.update i sc m)"
  by (auto simp: made_by_def delete_conv' update_conv' split: if_splits)





subsection \<open>A balanced call\<close>





context endpointer begin

lemma rr_yields_run:
  assumes "xs \<noteq> []" and "length xs < 2 ^ 64"
  shows "yields (rr_s b) xs \<Longrightarrow> yields (rr_s (fst (calls (roundRobin_Endpoint Endpoints) n b))) xs
    \<and> (\<exists>eps. snd (calls (roundRobin_Endpoint Endpoints) n b) = map Inr eps \<and> set eps \<subseteq> set xs)"
proof (induction n arbitrary: b)
  case (Suc n)
  from rr_yields_step [OF Suc.prems assms] obtain s where
    s: "roundRobin_Endpoint Endpoints b = (\<lparr>rr_s = s, rr_c = rr_c b + 1\<rparr>, Inr (xs ! (unat (rr_c b) mod length xs)))" "yields s xs"
    by blast
  obtain eps where "snd (calls (roundRobin_Endpoint Endpoints) n \<lparr>rr_s = s, rr_c = rr_c b + 1\<rparr>) = map Inr eps" "set eps \<subseteq> set xs"
    "yields (rr_s (fst (calls (roundRobin_Endpoint Endpoints) n \<lparr>rr_s = s, rr_c = rr_c b + 1\<rparr>))) xs"
    using Suc.IH [of "\<lparr>rr_s = s, rr_c = rr_c b + 1\<rparr>"] s(2) by auto
  with assms(1) show ?case
    by (intro conjI exI [of _ "xs ! (unat (rr_c b) mod length xs) # eps"]) (simp_all add: s(1) Let_def split_beta)
qed (simp add: exI [of _ "[]"])

end



subsection \<open>A discovered service\<close>





end
