(* ===== verification/Prometheus.thy ===== *)
theory Prometheus
  imports Generic_Metrics
begin

text \<open>
  Package metrics/prometheus, file prometheus.go: metrics that keep label values and resolve them, at each
  observation, in a vector of the prometheus library. The library is a parameter, one record \<open>prom_vecs\<close> for each
  kind of vector: making one, registering it (\<open>MustRegister\<close> panics when it cannot), resolving labels (\<open>With\<close>
  panics when the labels are not those of the vector) and the operations of the metric that is found. \<open>'v\<close> is a
  pointer to a vector, \<open>'m\<close> a metric, \<open>'op\<close> the options of a vector and \<open>'w\<close> the world.
\<close>

type_synonym prom_labels = "(string \<times> string) list"

record ('w, 'op, 'v, 'm) prom_vecs =
  NewVec :: "'op \<Rightarrow> string list \<Rightarrow> 'v"
  MustRegister :: "'v \<Rightarrow> 'w \<Rightarrow> 'w \<times> unit outcome"
  Vec_With :: "'v \<Rightarrow> prom_labels \<Rightarrow> 'w \<Rightarrow> 'w \<times> 'm outcome"
  m_Add :: "'m \<Rightarrow> float64 \<Rightarrow> 'w \<Rightarrow> 'w \<times> unit outcome"
  m_Set :: "'m \<Rightarrow> float64 \<Rightarrow> 'w \<Rightarrow> 'w \<times> unit outcome"
  m_Observe :: "'m \<Rightarrow> float64 \<Rightarrow> 'w \<Rightarrow> 'w \<times> unit outcome"

text \<open>The loop of \<open>makeLabels\<close>, over pairs: an odd list of label values is indexed out of its range.\<close>

fun makeLabels_loop :: "string list \<Rightarrow> prom_labels \<Rightarrow> prom_labels outcome" where
  "makeLabels_loop [] labels = Ret labels"
| "makeLabels_loop [k] labels = Panic ''index out of range''"
| "makeLabels_loop (k # v # lvs) labels = makeLabels_loop lvs (AList.update k v labels)"

definition makeLabels :: "string list \<Rightarrow> prom_labels outcome" where
  "makeLabels labelValues = makeLabels_loop labelValues []"

text \<open>What every operation does: find the metric of the labels and call it.\<close>

definition vec_call :: "('w, 'op, 'v, 'm) prom_vecs \<Rightarrow> ('m \<Rightarrow> 'w \<Rightarrow> 'w \<times> unit outcome) \<Rightarrow> 'v \<Rightarrow> string list \<Rightarrow> 'w \<Rightarrow> 'w \<times> unit outcome" where
  "vec_call lib call vec lvs w =
     (case makeLabels lvs of
        Panic p \<Rightarrow> (w, Panic p)
      | Ret labels \<Rightarrow>
          (case Vec_With lib vec labels w of
             (w1, Panic p) \<Rightarrow> (w1, Panic p)
           | (w1, Ret m) \<Rightarrow> call m w1))"

definition register_vec :: "('w, 'op, 'v, 'm) prom_vecs \<Rightarrow> ('v \<Rightarrow> 'h) \<Rightarrow> 'op \<Rightarrow> string list \<Rightarrow> 'w \<Rightarrow> 'w \<times> 'h outcome" where
  "register_vec lib build opts labelNames w =
     (let vec = NewVec lib opts labelNames in
      case MustRegister lib vec w of
        (w1, Panic p) \<Rightarrow> (w1, Panic p)
      | (w1, Ret _) \<Rightarrow> (w1, Ret (build vec)))"

subsection \<open>Counters\<close>

record 'v prom_Counter =
  pc_cv :: 'v
  pc_lvs :: "string list"

definition prom_NewCounter :: "'v \<Rightarrow> 'v prom_Counter" where
  "prom_NewCounter cv = \<lparr>pc_cv = cv, pc_lvs = []\<rparr>"

definition prom_NewCounterFrom :: "('w, 'op, 'v, 'm) prom_vecs \<Rightarrow> 'op \<Rightarrow> string list \<Rightarrow> 'w \<Rightarrow> 'w \<times> 'v prom_Counter outcome" where
  "prom_NewCounterFrom lib = register_vec lib prom_NewCounter"

definition prom_Counter_With :: "'v prom_Counter \<Rightarrow> string list \<Rightarrow> 'v prom_Counter" where
  "prom_Counter_With c labelValues = \<lparr>pc_cv = pc_cv c, pc_lvs = lv_With (pc_lvs c) labelValues\<rparr>"

definition prom_Counter_Add :: "('w, 'op, 'v, 'm) prom_vecs \<Rightarrow> 'v prom_Counter \<Rightarrow> float64 \<Rightarrow> 'w \<Rightarrow> 'w \<times> unit outcome" where
  "prom_Counter_Add lib c delta = vec_call lib (\<lambda>m. m_Add lib m delta) (pc_cv c) (pc_lvs c)"

subsection \<open>Gauges\<close>

record 'v prom_Gauge =
  pg_gv :: 'v
  pg_lvs :: "string list"

definition prom_NewGauge :: "'v \<Rightarrow> 'v prom_Gauge" where
  "prom_NewGauge gv = \<lparr>pg_gv = gv, pg_lvs = []\<rparr>"

definition prom_NewGaugeFrom :: "('w, 'op, 'v, 'm) prom_vecs \<Rightarrow> 'op \<Rightarrow> string list \<Rightarrow> 'w \<Rightarrow> 'w \<times> 'v prom_Gauge outcome" where
  "prom_NewGaugeFrom lib = register_vec lib prom_NewGauge"

definition prom_Gauge_With :: "'v prom_Gauge \<Rightarrow> string list \<Rightarrow> 'v prom_Gauge" where
  "prom_Gauge_With g labelValues = \<lparr>pg_gv = pg_gv g, pg_lvs = lv_With (pg_lvs g) labelValues\<rparr>"

definition prom_Gauge_Set :: "('w, 'op, 'v, 'm) prom_vecs \<Rightarrow> 'v prom_Gauge \<Rightarrow> float64 \<Rightarrow> 'w \<Rightarrow> 'w \<times> unit outcome" where
  "prom_Gauge_Set lib g v = vec_call lib (\<lambda>m. m_Set lib m v) (pg_gv g) (pg_lvs g)"

definition prom_Gauge_Add :: "('w, 'op, 'v, 'm) prom_vecs \<Rightarrow> 'v prom_Gauge \<Rightarrow> float64 \<Rightarrow> 'w \<Rightarrow> 'w \<times> unit outcome" where
  "prom_Gauge_Add lib g delta = vec_call lib (\<lambda>m. m_Add lib m delta) (pg_gv g) (pg_lvs g)"

subsection \<open>Summaries and histograms\<close>

record 'v prom_Summary =
  ps_sv :: 'v
  ps_lvs :: "string list"

definition prom_NewSummary :: "'v \<Rightarrow> 'v prom_Summary" where
  "prom_NewSummary sv = \<lparr>ps_sv = sv, ps_lvs = []\<rparr>"

definition prom_NewSummaryFrom :: "('w, 'op, 'v, 'm) prom_vecs \<Rightarrow> 'op \<Rightarrow> string list \<Rightarrow> 'w \<Rightarrow> 'w \<times> 'v prom_Summary outcome" where
  "prom_NewSummaryFrom lib = register_vec lib prom_NewSummary"

definition prom_Summary_With :: "'v prom_Summary \<Rightarrow> string list \<Rightarrow> 'v prom_Summary" where
  "prom_Summary_With s labelValues = \<lparr>ps_sv = ps_sv s, ps_lvs = lv_With (ps_lvs s) labelValues\<rparr>"

definition prom_Summary_Observe :: "('w, 'op, 'v, 'm) prom_vecs \<Rightarrow> 'v prom_Summary \<Rightarrow> float64 \<Rightarrow> 'w \<Rightarrow> 'w \<times> unit outcome" where
  "prom_Summary_Observe lib s v = vec_call lib (\<lambda>m. m_Observe lib m v) (ps_sv s) (ps_lvs s)"

record 'v prom_Histogram =
  ph_hv :: 'v
  ph_lvs :: "string list"

definition prom_NewHistogram :: "'v \<Rightarrow> 'v prom_Histogram" where
  "prom_NewHistogram hv = \<lparr>ph_hv = hv, ph_lvs = []\<rparr>"

definition prom_NewHistogramFrom :: "('w, 'op, 'v, 'm) prom_vecs \<Rightarrow> 'op \<Rightarrow> string list \<Rightarrow> 'w \<Rightarrow> 'w \<times> 'v prom_Histogram outcome" where
  "prom_NewHistogramFrom lib = register_vec lib prom_NewHistogram"

definition prom_Histogram_With :: "'v prom_Histogram \<Rightarrow> string list \<Rightarrow> 'v prom_Histogram" where
  "prom_Histogram_With h labelValues = \<lparr>ph_hv = ph_hv h, ph_lvs = lv_With (ph_lvs h) labelValues\<rparr>"

definition prom_Histogram_Observe :: "('w, 'op, 'v, 'm) prom_vecs \<Rightarrow> 'v prom_Histogram \<Rightarrow> float64 \<Rightarrow> 'w \<Rightarrow> 'w \<times> unit outcome" where
  "prom_Histogram_Observe lib h v = vec_call lib (\<lambda>m. m_Observe lib m v) (ph_hv h) (ph_lvs h)"

subsection \<open>Labels\<close>

text \<open>The specification: the labels of a list of label values are a map, in which the last value of a name counts.\<close>

fun label_map :: "string list \<Rightarrow> string \<rightharpoonup> string" where
  "label_map (k # v # lvs) = [k \<mapsto> v] ++ label_map lvs"
| "label_map _ = Map.empty"

lemma label_map_append: "even (length xs) \<Longrightarrow> label_map (xs @ ys) = label_map xs ++ label_map ys"
  by (induction xs rule: label_map.induct) (simp_all flip: map_add_assoc)

lemma makeLabels_loop_even:
  "even (length lvs) \<Longrightarrow> \<exists>labels. makeLabels_loop lvs acc = Ret labels \<and> map_of labels = map_of acc ++ label_map lvs"
proof (induction lvs acc rule: makeLabels_loop.induct)
  case (3 k v lvs acc)
  then have "even (length lvs)" by simp
  from "3.IH" [OF this] obtain labels where l: "makeLabels_loop lvs (AList.update k v acc) = Ret labels"
    "map_of labels = map_of (AList.update k v acc) ++ label_map lvs" by blast
  have "map_of (AList.update k v acc) = map_of acc ++ [k \<mapsto> v]" by (simp add: update_conv')
  with l show ?case by (simp add: map_add_assoc)
qed simp_all

lemma makeLabels_loop_distinct:
  "makeLabels_loop lvs acc = Ret labels \<Longrightarrow> distinct (map fst acc) \<Longrightarrow> distinct (map fst labels)"
  by (induction lvs acc rule: makeLabels_loop.induct) (simp_all add: distinct_update)

lemma makeLabels_even:
  assumes "even (length lvs)"
  obtains labels where "makeLabels lvs = Ret labels" and "map_of labels = label_map lvs" and "distinct (map fst labels)"
  using makeLabels_loop_even [OF assms, of "[]"] makeLabels_loop_distinct [of lvs "[]"] by (auto simp: makeLabels_def)

text \<open>Several calls of \<open>With\<close> in a row.\<close>

lemma even_fold_With: "even (length lvs) \<Longrightarrow> even (length (fold (\<lambda>ls lvs. lv_With lvs ls) lss lvs))"
  by (induction lss arbitrary: lvs) simp_all

lemma label_map_fold_With:
  "even (length lvs) \<Longrightarrow> label_map (fold (\<lambda>ls lvs. lv_With lvs ls) lss lvs)
     = fold (\<lambda>ls m. m ++ label_map (pad_labels ls)) lss (label_map lvs)"
proof (induction lss arbitrary: lvs)
  case (Cons ls lss)
  then have "even (length (lv_With lvs ls))" by simp
  from Cons.IH [OF this] Cons.prems show ?case by (simp add: lv_With_def label_map_append)
qed simp

lemma fold_Counter_With:
  "fold (\<lambda>ls c. prom_Counter_With c ls) lss c = \<lparr>pc_cv = pc_cv c, pc_lvs = fold (\<lambda>ls lvs. lv_With lvs ls) lss (pc_lvs c)\<rparr>"
  by (induction lss arbitrary: c) (simp_all add: prom_Counter_With_def)

subsection \<open>Properties\<close>

text \<open>
  What the code relies on: the vectors of the library hold a number for each set of labels, which \<open>val\<close> reads; a
  vector answers for the labels of its names and panics for others, and adding what is not negative adds to that number.
\<close>

definition vec_law :: "('w, 'op, 'v, 'm) prom_vecs \<Rightarrow> ('v \<Rightarrow> string set) \<Rightarrow> ('v \<Rightarrow> (string \<rightharpoonup> string) \<Rightarrow> 'w \<Rightarrow> float64) \<Rightarrow> bool" where
  "vec_law lib names val \<longleftrightarrow>
     (\<forall>vec labels w. distinct (map fst labels) \<longrightarrow>
        (if fst ` set labels = names vec
         then \<exists>w1 m. Vec_With lib vec labels w = (w1, Ret m) \<and> val vec (map_of labels) w1 = val vec (map_of labels) w
           \<and> (\<forall>delta. f64_le (F64 0) delta \<longrightarrow> (\<exists>w2. m_Add lib m delta w1 = (w2, Ret ())
               \<and> val vec (map_of labels) w2 = f64_add (val vec (map_of labels) w1) delta))
         else \<exists>p. Vec_With lib vec labels w = (w, Panic p)))"

text \<open>A counter of a vector, whatever calls of \<open>With\<close> it went through, adds to the series of the map in which the last
  value of each name counts (a name without a value has the value unknown), if that map has the names of the
  vector, and panics before it changes anything if it has not; \<open>makeLabels\<close> itself never panics.\<close>

theorem prom_counter_adds:
  assumes "vec_law lib names val"
    and "c = fold (\<lambda>ls c. prom_Counter_With c ls) lss (prom_NewCounter cv)"
    and "m = fold (\<lambda>ls m. m ++ label_map (pad_labels ls)) lss Map.empty" and "f64_le (F64 0) delta"
  shows "if dom m = names cv
    then \<exists>w'. prom_Counter_Add lib c delta w = (w', Ret ()) \<and> val cv m w' = f64_add (val cv m w) delta
    else \<exists>p. prom_Counter_Add lib c delta w = (w, Panic p)"
proof -
  have c: "c = \<lparr>pc_cv = cv, pc_lvs = fold (\<lambda>ls lvs. lv_With lvs ls) lss []\<rparr>"
    by (simp add: assms(2) fold_Counter_With prom_NewCounter_def)
  have ev: "even (length (pc_lvs c))" by (simp add: c even_fold_With)
  obtain labels where l: "makeLabels (pc_lvs c) = Ret labels" "map_of labels = label_map (pc_lvs c)" "distinct (map fst labels)"
    by (rule makeLabels_even [OF ev])
  have m: "map_of labels = m" using label_map_fold_With [of "[]" lss] by (simp add: l(2) assms(3) c)
  have d: "fst ` set labels = dom m" by (simp add: dom_map_of_conv_image_fst flip: m)
  have law: "if dom m = names cv
      then \<exists>w1 q. Vec_With lib cv labels w = (w1, Ret q) \<and> val cv m w1 = val cv m w
        \<and> (\<forall>delta. f64_le (F64 0) delta \<longrightarrow>
            (\<exists>w2. m_Add lib q delta w1 = (w2, Ret ()) \<and> val cv m w2 = f64_add (val cv m w1) delta))
      else \<exists>p. Vec_With lib cv labels w = (w, Panic p)"
    using assms(1) [unfolded vec_law_def, rule_format, OF l(3), of cv w] by (simp only: d m)
  show ?thesis
  proof (cases "dom m = names cv")
    case True
    with law obtain w1 q where q: "Vec_With lib cv labels w = (w1, Ret q)" "val cv m w1 = val cv m w"
      "\<exists>w2. m_Add lib q delta w1 = (w2, Ret ()) \<and> val cv m w2 = f64_add (val cv m w1) delta" using assms(4) by auto
    from q(3) obtain w2 where "m_Add lib q delta w1 = (w2, Ret ())" "val cv m w2 = f64_add (val cv m w1) delta" by blast
    with q(1,2) l(1) True show ?thesis by (simp add: prom_Counter_Add_def vec_call_def c)
  next
    case False
    with law l(1) show ?thesis by (auto simp: prom_Counter_Add_def vec_call_def c)
  qed
qed

text \<open>Vectors in memory: a vector is its options and its label names.\<close>

type_synonym 'op mem_vec = "'op \<times> string list"
type_synonym 'op mem_prom = "'op mem_vec \<Rightarrow> (string \<rightharpoonup> string) \<Rightarrow> float64"

definition mem_vecs :: "('op mem_prom, 'op, 'op mem_vec, 'op mem_vec \<times> (string \<rightharpoonup> string)) prom_vecs" where
  "mem_vecs = \<lparr>NewVec = \<lambda>opts names. (opts, names), MustRegister = \<lambda>vec w. (w, Ret ()),
     Vec_With = \<lambda>vec labels w. (w, if fst ` set labels = set (snd vec) then Ret (vec, map_of labels)
       else Panic ''inconsistent label cardinality''),
     m_Add = \<lambda>(vec, m) delta w. (w(vec := (w vec)(m := f64_add (w vec m) delta)), Ret ()),
     m_Set = \<lambda>(vec, m) v w. (w(vec := (w vec)(m := v)), Ret ()), m_Observe = \<lambda>m v w. (w, Ret ())\<rparr>"

lemma mem_vecs_law: "vec_law mem_vecs (\<lambda>vec. set (snd vec)) (\<lambda>vec m w. w vec m)"
  by (simp add: vec_law_def mem_vecs_def)

theorem prom_counter_adds_witness:
  "\<exists>w'. prom_Counter_Add mem_vecs (fold (\<lambda>ls c. prom_Counter_With c ls) [[''code'', ''500''], [''code'', ''200'', ''method'']]
      (prom_NewCounter (''hits'', [''code'', ''method'']))) (F64 1) (\<lambda>v m. F64 0) = (w', Ret ())
    \<and> w' (''hits'', [''code'', ''method'']) [''code'' \<mapsto> ''200'', ''method'' \<mapsto> ''unknown''] = f64_add (F64 0) (F64 1)"
proof -
  let ?lss = "[[''code'', ''500''], [''code'', ''200'', ''method'']]"
  have m: "fold (\<lambda>ls m. m ++ label_map (pad_labels ls)) ?lss Map.empty = [''code'' \<mapsto> ''200'', ''method'' \<mapsto> ''unknown'']"
    by (simp add: pad_labels_def fun_eq_iff)
  have le: "f64_le (F64 0) (F64 1)" by code_simp
  have d: "dom [''code'' \<mapsto> ''200'', ''method'' \<mapsto> ''unknown''] = set [''code'', ''method'']" by auto
  show ?thesis
    using prom_counter_adds [OF mem_vecs_law refl refl, of "F64 1" ?lss "(''hits'', [''code'', ''method''])" "\<lambda>v m. F64 0"]
    unfolding m d snd_conv if_P [OF refl] using le by blast
qed

end
