(* ===== verification/Expvar.thy ===== *)
theory Expvar
  imports Generic_Metrics
begin

text \<open>
  Package metrics/expvar, file expvar.go: metrics that publish their values as floats of the standard library's
  package expvar. The published floats are a map from names to values; a pointer to a float is its name, since
  \<open>NewFloat\<close> panics when a name is in use, and a float changes only through its pointer. A histogram publishes
  four quantiles of a generic histogram, whose buckets (VividCortex/gohistogram) are a parameter.
\<close>

type_synonym expvars = "(string \<times> float64) list"

definition expvar_NewFloat :: "string \<Rightarrow> expvars \<Rightarrow> expvars \<times> string outcome" where
  "expvar_NewFloat name vars =
     (case map_of vars name of
        Some _ \<Rightarrow> (vars, Panic ''Reuse of exported var name'')
      | None \<Rightarrow> (AList.update name (F64 0) vars, Ret name))"

definition Float_Value :: "string \<Rightarrow> expvars \<Rightarrow> float64" where
  "Float_Value f vars = (case map_of vars f of Some v \<Rightarrow> v | None \<Rightarrow> F64 0)"

definition Float_Add :: "string \<Rightarrow> float64 \<Rightarrow> expvars \<Rightarrow> expvars" where
  "Float_Add f delta vars = AList.update f (f64_add (Float_Value f vars) delta) vars"

definition Float_Set :: "string \<Rightarrow> float64 \<Rightarrow> expvars \<Rightarrow> expvars" where
  "Float_Set f v vars = AList.update f v vars"

subsection \<open>Counters and gauges\<close>

record expvar_Counter =
  ec_f :: string

definition expvar_NewCounter :: "string \<Rightarrow> expvars \<Rightarrow> expvars \<times> expvar_Counter outcome" where
  "expvar_NewCounter name vars =
     (case expvar_NewFloat name vars of (vars1, f) \<Rightarrow> (vars1, map_outcome (\<lambda>f. \<lparr>ec_f = f\<rparr>) f))"

definition expvar_Counter_With :: "expvar_Counter \<Rightarrow> string list \<Rightarrow> expvar_Counter" where
  "expvar_Counter_With c labelValues = c"

definition expvar_Counter_Add :: "expvar_Counter \<Rightarrow> float64 \<Rightarrow> expvars \<Rightarrow> expvars" where
  "expvar_Counter_Add c delta = Float_Add (ec_f c) delta"

record expvar_Gauge =
  eg_f :: string

definition expvar_NewGauge :: "string \<Rightarrow> expvars \<Rightarrow> expvars \<times> expvar_Gauge outcome" where
  "expvar_NewGauge name vars =
     (case expvar_NewFloat name vars of (vars1, f) \<Rightarrow> (vars1, map_outcome (\<lambda>f. \<lparr>eg_f = f\<rparr>) f))"

definition expvar_Gauge_With :: "expvar_Gauge \<Rightarrow> string list \<Rightarrow> expvar_Gauge" where
  "expvar_Gauge_With g labelValues = g"

definition expvar_Gauge_Set :: "expvar_Gauge \<Rightarrow> float64 \<Rightarrow> expvars \<Rightarrow> expvars" where
  "expvar_Gauge_Set g v = Float_Set (eg_f g) v"

definition expvar_Gauge_Add :: "expvar_Gauge \<Rightarrow> float64 \<Rightarrow> expvars \<Rightarrow> expvars" where
  "expvar_Gauge_Add g delta = Float_Add (eg_f g) delta"

subsection \<open>Histograms\<close>

text \<open>The buckets of the generic histograms are in the store of theory Generic_Metrics.\<close>

type_synonym 'h expvar_world = "'h list \<times> expvars"

record expvar_Histogram =
  eh_h :: Histogram
  eh_p50 :: string
  eh_p90 :: string
  eh_p95 :: string
  eh_p99 :: string

definition expvar_NewHistogram :: "(int \<Rightarrow> 'h) \<Rightarrow> string \<Rightarrow> int \<Rightarrow> 'h expvar_world \<Rightarrow> 'h expvar_world \<times> expvar_Histogram outcome" where
  "expvar_NewHistogram new_gohistogram name buckets w =
     (case w of (hs, vars) \<Rightarrow>
       (case NewHistogram new_gohistogram name buckets hs of (hs1, h) \<Rightarrow>
         (case expvar_NewFloat (name @ ''.p50'') vars of
            (vars1, Panic p) \<Rightarrow> ((hs1, vars1), Panic p)
          | (vars1, Ret p50) \<Rightarrow>
              (case expvar_NewFloat (name @ ''.p90'') vars1 of
                 (vars2, Panic p) \<Rightarrow> ((hs1, vars2), Panic p)
               | (vars2, Ret p90) \<Rightarrow>
                   (case expvar_NewFloat (name @ ''.p95'') vars2 of
                      (vars3, Panic p) \<Rightarrow> ((hs1, vars3), Panic p)
                    | (vars3, Ret p95) \<Rightarrow>
                        (case expvar_NewFloat (name @ ''.p99'') vars3 of
                           (vars4, Panic p) \<Rightarrow> ((hs1, vars4), Panic p)
                         | (vars4, Ret p99) \<Rightarrow>
                             ((hs1, vars4), Ret \<lparr>eh_h = h, eh_p50 = p50, eh_p90 = p90, eh_p95 = p95, eh_p99 = p99\<rparr>)))))))"

definition expvar_Histogram_With :: "expvar_Histogram \<Rightarrow> string list \<Rightarrow> expvar_Histogram" where
  "expvar_Histogram_With h labelValues = h"

definition expvar_Histogram_Observe :: "('h \<Rightarrow> float64 \<Rightarrow> 'h) \<Rightarrow> ('h \<Rightarrow> float64 \<Rightarrow> float64) \<Rightarrow> expvar_Histogram \<Rightarrow> float64
    \<Rightarrow> 'h expvar_world \<Rightarrow> 'h expvar_world" where
  "expvar_Histogram_Observe add quantile h v w =
     (case w of (hs, vars) \<Rightarrow>
        let hs1 = Histogram_Observe add (eh_h h) v hs;
            vars1 = Float_Set (eh_p50 h) (Histogram_Quantile quantile hs1 (eh_h h) (f64_round (50 / 100))) vars;
            vars2 = Float_Set (eh_p90 h) (Histogram_Quantile quantile hs1 (eh_h h) (f64_round (90 / 100))) vars1;
            vars3 = Float_Set (eh_p95 h) (Histogram_Quantile quantile hs1 (eh_h h) (f64_round (95 / 100))) vars2;
            vars4 = Float_Set (eh_p99 h) (Histogram_Quantile quantile hs1 (eh_h h) (f64_round (99 / 100))) vars3
        in (hs1, vars4))"

subsection \<open>Properties\<close>

definition quantile_names :: "string \<Rightarrow> string list" where
  "quantile_names name = map (\<lambda>p. name @ p) [''.p50'', ''.p90'', ''.p95'', ''.p99'']"

lemma quantile_names_distinct: "distinct (quantile_names name)"
  by (simp add: quantile_names_def)

lemma NewFloat_ret:
  "map_of vars name = None \<Longrightarrow> expvar_NewFloat name vars = (AList.update name (F64 0) vars, Ret name)"
  by (simp add: expvar_NewFloat_def)

lemma NewFloat_panic:
  "map_of vars name \<noteq> None \<Longrightarrow> expvar_NewFloat name vars = (vars, Panic ''Reuse of exported var name'')"
  by (auto simp: expvar_NewFloat_def)

lemma expvar_NewHistogram_ret:
  assumes "\<forall>n \<in> set (quantile_names name). map_of vars n = None"
  shows "expvar_NewHistogram new_h name buckets (hs, vars)
    = ((hs @ [new_h buckets], fold (\<lambda>n. AList.update n (F64 0)) (quantile_names name) vars),
       Ret \<lparr>eh_h = \<lparr>h_Name = name, h_lvs = [], h_h = length hs\<rparr>,
        eh_p50 = name @ ''.p50'', eh_p90 = name @ ''.p90'', eh_p95 = name @ ''.p95'', eh_p99 = name @ ''.p99''\<rparr>)"
  using assms by (simp add: expvar_NewHistogram_def NewHistogram_def quantile_names_def NewFloat_ret update_conv' Let_def)

definition expvar_names :: "expvar_Histogram \<Rightarrow> string set" where
  "expvar_names h = {eh_p50 h, eh_p90 h, eh_p95 h, eh_p99 h}"

lemma Observe_fold:
  assumes "fold (expvar_Histogram_Observe add quantile h) vs (hs, vars) = (hs', vars')"
  shows "hs' = fold (Histogram_Observe add (eh_h h)) vs hs \<and> (\<forall>k. k \<notin> expvar_names h \<longrightarrow> map_of vars' k = map_of vars k)"
  using assms
proof (induction vs arbitrary: hs vars)
  case (Cons v vs)
  obtain hs1 vars1 where o1: "expvar_Histogram_Observe add quantile h v (hs, vars) = (hs1, vars1)" by (rule prod.exhaust)
  have h1: "hs1 = Histogram_Observe add (eh_h h) v hs"
    and k: "k \<notin> expvar_names h \<Longrightarrow> map_of vars1 k = map_of vars k" for k
    using o1 by (auto simp: expvar_Histogram_Observe_def expvar_names_def Let_def Float_Set_def update_conv')
  from Cons.IH [of hs1 vars1] Cons.prems o1 k show ?case by (simp add: h1)
qed simp

text \<open>A histogram publishes the quantiles of everything that it has observed, and leaves all other variables alone: making
  it succeeds exactly when none of its four names is in use.\<close>

theorem expvar_publishes:
  assumes "expvar_NewHistogram new_h name buckets (hs, vars) = ((hs1, vars1), Ret h)"
    and "fold (expvar_Histogram_Observe add quantile h) (vs @ [v]) (hs1, vars1) = (hs', vars')"
  shows "(\<forall>n \<in> set (quantile_names name). map_of vars n = None)
    \<and> map Some (map (\<lambda>q. quantile (foldl add (new_h buckets) (vs @ [v])) (f64_round q)) [50 / 100, 90 / 100, 95 / 100, 99 / 100])
        = map (map_of vars') (quantile_names name)
    \<and> (\<forall>k. k \<notin> set (quantile_names name) \<longrightarrow> map_of vars' k = map_of vars k)"
proof -
  have free: "\<forall>n \<in> set (quantile_names name). map_of vars n = None"
  proof (rule ccontr)
    assume "\<not> (\<forall>n \<in> set (quantile_names name). map_of vars n = None)"
    then have "map_of vars (name @ ''.p50'') \<noteq> None \<or> map_of vars (name @ ''.p90'') \<noteq> None \<or> map_of vars (name @ ''.p95'') \<noteq> None
        \<or> map_of vars (name @ ''.p99'') \<noteq> None" by (simp add: quantile_names_def)
    with assms(1) show False
      by (auto simp: expvar_NewHistogram_def NewHistogram_def expvar_NewFloat_def update_conv' split: option.splits)
  qed
  have h: "h = \<lparr>eh_h = \<lparr>h_Name = name, h_lvs = [], h_h = length hs\<rparr>,
      eh_p50 = name @ ''.p50'', eh_p90 = name @ ''.p90'', eh_p95 = name @ ''.p95'', eh_p99 = name @ ''.p99''\<rparr>"
    and v1: "vars1 = fold (\<lambda>n. AList.update n (F64 0)) (quantile_names name) vars" "hs1 = hs @ [new_h buckets]"
    using assms(1) by (simp_all add: expvar_NewHistogram_ret [OF free])
  have names: "expvar_names h = set (quantile_names name)" by (simp add: expvar_names_def quantile_names_def h)
  have p: "h_h (eh_h h) < length hs1" "hs1 ! h_h (eh_h h) = new_h buckets" by (simp_all add: h v1)
  note all = Observe_fold [OF assms(2)]
  have b: "hs' ! h_h (eh_h h) = foldl add (new_h buckets) (vs @ [v])"
    using all Histogram_Observe_shared(1) [OF refl p(1), of add "vs @ [v]"] by (simp add: p(2))
  obtain hs2 vars2 where f: "fold (expvar_Histogram_Observe add quantile h) vs (hs1, vars1) = (hs2, vars2)" by (rule prod.exhaust)
  have l: "expvar_Histogram_Observe add quantile h v (hs2, vars2) = (hs', vars')" using assms(2) by (simp add: f)
  let ?q = "\<lambda>q. quantile (hs' ! h_h (eh_h h)) (f64_round q)"
  have "hs' = Histogram_Observe add (eh_h h) v hs2" using l by (simp add: expvar_Histogram_Observe_def Let_def)
  then have "vars' = Float_Set (eh_p99 h) (?q (99 / 100)) (Float_Set (eh_p95 h) (?q (95 / 100))
      (Float_Set (eh_p90 h) (?q (90 / 100)) (Float_Set (eh_p50 h) (?q (50 / 100)) vars2)))"
    using l by (simp add: expvar_Histogram_Observe_def Let_def Histogram_Quantile_def)
  then have "map_of vars' = (map_of vars2)(eh_p50 h \<mapsto> ?q (50 / 100), eh_p90 h \<mapsto> ?q (90 / 100), eh_p95 h \<mapsto> ?q (95 / 100), eh_p99 h \<mapsto> ?q (99 / 100))"
    by (simp only: Float_Set_def update_conv')
  then have q: "map Some (map (\<lambda>q. quantile (foldl add (new_h buckets) (vs @ [v])) (f64_round q)) [50 / 100, 90 / 100, 95 / 100, 99 / 100])
        = map (map_of vars') (quantile_names name)"
    unfolding b by (simp add: quantile_names_def h)
  have k1: "k \<notin> set (quantile_names name) \<Longrightarrow> map_of vars1 k = map_of vars k" for k
    by (simp add: v1 quantile_names_def update_conv')
  show ?thesis using free q k1 all unfolding names by simp
qed

text \<open>A clash of names is found too late: a histogram whose second name is in use panics with its first one published.\<close>

theorem expvar_partial_histogram:
  assumes "map_of vars (name @ ''.p50'') = None" and "map_of vars (name @ ''.p90'') \<noteq> None"
  shows "\<exists>hs1. expvar_NewHistogram new_h name buckets (hs, vars)
    = ((hs1, AList.update (name @ ''.p50'') (F64 0) vars), Panic ''Reuse of exported var name'')"
  using assms by (simp add: expvar_NewHistogram_def NewHistogram_def NewFloat_ret NewFloat_panic update_conv' Let_def)

theorem expvar_publishes_witness:
  "\<exists>w1 h hs' vars'. expvar_NewHistogram (\<lambda>b. []) ''lat'' 50 ([], [(''hits'', F64 2)]) = (w1, Ret h)
    \<and> fold (expvar_Histogram_Observe (\<lambda>xs x. xs @ [x]) (\<lambda>xs q. last xs) h) [F64 1, F64 7] w1 = (hs', vars')
    \<and> map_of vars' ''lat.p99'' = Some (F64 7) \<and> map_of vars' ''hits'' = Some (F64 2)"
proof -
  have n: "\<forall>n \<in> set (quantile_names ''lat''). map_of [(''hits'', F64 2)] n = None" by (simp add: quantile_names_def)
  obtain hs1 vars1 h where m: "expvar_NewHistogram (\<lambda>b. []) ''lat'' 50 ([] :: float64 list list, [(''hits'', F64 2)]) = ((hs1, vars1), Ret h)"
    by (simp add: expvar_NewHistogram_ret [OF n])
  obtain hs' vars' where f: "fold (expvar_Histogram_Observe (\<lambda>xs x. xs @ [x]) (\<lambda>xs q. last xs) h) ([F64 1] @ [F64 7]) (hs1, vars1) = (hs', vars')"
    by (rule prod.exhaust)
  from expvar_publishes [OF m f] have "map_of vars' ''lat.p99'' = Some (F64 7) \<and> map_of vars' ''hits'' = Some (F64 2)"
    by (simp add: quantile_names_def eq_commute [of "Some (F64 7)"])
  with m f show ?thesis by auto
qed

theorem expvar_partial_histogram_witness:
  "\<exists>hs1. expvar_NewHistogram (\<lambda>b. b) ''lat'' 50 ([], [(''lat.p90'', F64 2)])
    = ((hs1, AList.update ''lat.p50'' (F64 0) [(''lat.p90'', F64 2)]), Panic ''Reuse of exported var name'')"
  using expvar_partial_histogram [of "[(''lat.p90'', F64 2)]" "''lat''" "\<lambda>b. b" 50 "[]"] by simp

end
