(* ===== verification/Pcp.thy ===== *)
theory Pcp
  imports Generic_Metrics
begin

text \<open>
  Package metrics/pcp, file pcp.go: metrics of the library speed. The library is a record of functions on the world,
  with its clients, counters, gauges, histograms and units as types of their own; what \<open>Inc\<close> and \<open>Set\<close> return is
  discarded by the code, so they are functions of the world alone.
\<close>

record ('w, 'cl, 'c, 'g, 'h, 'u) speed =
  NewPCPClient :: "string \<Rightarrow> 'w \<Rightarrow> 'w \<times> (string + 'cl)"
  MustStart :: "'cl \<Rightarrow> 'w \<Rightarrow> 'w \<times> unit outcome"
  MustStop :: "'cl \<Rightarrow> 'w \<Rightarrow> 'w \<times> unit outcome"
  NewPCPCounter :: "int \<Rightarrow> string \<Rightarrow> string list \<Rightarrow> 'w \<Rightarrow> 'w \<times> (string + 'c)"
  NewPCPGauge :: "float64 \<Rightarrow> string \<Rightarrow> string list \<Rightarrow> 'w \<Rightarrow> 'w \<times> (string + 'g)"
  NewPCPHistogram :: "string \<Rightarrow> int \<Rightarrow> int \<Rightarrow> int \<Rightarrow> 'u \<Rightarrow> string list \<Rightarrow> 'w \<Rightarrow> 'w \<times> (string + 'h)"
  MustRegister_c :: "'cl \<Rightarrow> 'c \<Rightarrow> 'w \<Rightarrow> 'w \<times> unit outcome"
  MustRegister_g :: "'cl \<Rightarrow> 'g \<Rightarrow> 'w \<Rightarrow> 'w \<times> unit outcome"
  MustRegister_h :: "'cl \<Rightarrow> 'h \<Rightarrow> 'w \<Rightarrow> 'w \<times> unit outcome"
  sc_Inc :: "'c \<Rightarrow> int \<Rightarrow> 'w \<Rightarrow> 'w"
  sg_Set :: "'g \<Rightarrow> float64 \<Rightarrow> 'w \<Rightarrow> 'w"
  sg_Inc :: "'g \<Rightarrow> float64 \<Rightarrow> 'w \<Rightarrow> 'w"
  sh_MustRecord :: "'h \<Rightarrow> int \<Rightarrow> 'w \<Rightarrow> 'w \<times> unit outcome"
  sh_Mean :: "'h \<Rightarrow> 'w \<Rightarrow> float64"
  sh_Percentile :: "'h \<Rightarrow> float64 \<Rightarrow> 'w \<Rightarrow> int"

record 'cl Reporter =
  rep_c :: 'cl

definition NewReporter :: "('w, 'cl, 'c, 'g, 'h, 'u) speed \<Rightarrow> string \<Rightarrow> 'w \<Rightarrow> 'w \<times> (string + 'cl Reporter)" where
  "NewReporter lib appname w =
     (case NewPCPClient lib appname w of
        (w1, Inl err) \<Rightarrow> (w1, Inl err)
      | (w1, Inr c) \<Rightarrow> (w1, Inr \<lparr>rep_c = c\<rparr>))"

definition Reporter_Start :: "('w, 'cl, 'c, 'g, 'h, 'u) speed \<Rightarrow> 'cl Reporter \<Rightarrow> 'w \<Rightarrow> 'w \<times> unit outcome" where
  "Reporter_Start lib r = MustStart lib (rep_c r)"

definition Reporter_Stop :: "('w, 'cl, 'c, 'g, 'h, 'u) speed \<Rightarrow> 'cl Reporter \<Rightarrow> 'w \<Rightarrow> 'w \<times> unit outcome" where
  "Reporter_Stop lib r = MustStop lib (rep_c r)"

text \<open>What the three constructors of metrics share: an error of the library is returned, and a failed registration panics.\<close>

definition speed_made :: "('m \<Rightarrow> 'w \<Rightarrow> 'w \<times> unit outcome) \<Rightarrow> ('m \<Rightarrow> 'x) \<Rightarrow> 'w \<times> (string + 'm) \<Rightarrow> 'w \<times> (string + 'x) outcome" where
  "speed_made must_register wrap made =
     (case made of
        (w1, Inl err) \<Rightarrow> (w1, Ret (Inl err))
      | (w1, Inr m) \<Rightarrow>
          (case must_register m w1 of
             (w2, Panic p) \<Rightarrow> (w2, Panic p)
           | (w2, Ret _) \<Rightarrow> (w2, Ret (Inr (wrap m)))))"

record 'c pcp_Counter =
  pcp_c :: 'c

definition pcp_NewCounter :: "('w, 'cl, 'c, 'g, 'h, 'u) speed \<Rightarrow> 'cl Reporter \<Rightarrow> string \<Rightarrow> string list \<Rightarrow> 'w
    \<Rightarrow> 'w \<times> (string + 'c pcp_Counter) outcome" where
  "pcp_NewCounter lib r name desc w =
     speed_made (MustRegister_c lib (rep_c r)) (\<lambda>c. \<lparr>pcp_c = c\<rparr>) (NewPCPCounter lib 0 name desc w)"

definition pcp_Counter_With :: "'c pcp_Counter \<Rightarrow> string list \<Rightarrow> 'c pcp_Counter" where
  "pcp_Counter_With c labelValues = c"

text \<open>The conversion of a double to an integer truncates; out of range it depends on the platform (\<open>impl\<close>).\<close>

definition pcp_Counter_Add :: "('w, 'cl, 'c, 'g, 'h, 'u) speed \<Rightarrow> (float64 \<Rightarrow> int) \<Rightarrow> 'c pcp_Counter \<Rightarrow> float64 \<Rightarrow> 'w \<Rightarrow> 'w" where
  "pcp_Counter_Add lib impl c delta = sc_Inc lib (pcp_c c) (f64_to_int64 impl delta)"

record 'g pcp_Gauge =
  pcp_g :: 'g

definition pcp_NewGauge :: "('w, 'cl, 'c, 'g, 'h, 'u) speed \<Rightarrow> 'cl Reporter \<Rightarrow> string \<Rightarrow> string list \<Rightarrow> 'w
    \<Rightarrow> 'w \<times> (string + 'g pcp_Gauge) outcome" where
  "pcp_NewGauge lib r name desc w =
     speed_made (MustRegister_g lib (rep_c r)) (\<lambda>g. \<lparr>pcp_g = g\<rparr>) (NewPCPGauge lib (F64 0) name desc w)"

definition pcp_Gauge_With :: "'g pcp_Gauge \<Rightarrow> string list \<Rightarrow> 'g pcp_Gauge" where
  "pcp_Gauge_With g labelValues = g"

definition pcp_Gauge_Set :: "('w, 'cl, 'c, 'g, 'h, 'u) speed \<Rightarrow> 'g pcp_Gauge \<Rightarrow> float64 \<Rightarrow> 'w \<Rightarrow> 'w" where
  "pcp_Gauge_Set lib g value = sg_Set lib (pcp_g g) value"

definition pcp_Gauge_Add :: "('w, 'cl, 'c, 'g, 'h, 'u) speed \<Rightarrow> 'g pcp_Gauge \<Rightarrow> float64 \<Rightarrow> 'w \<Rightarrow> 'w" where
  "pcp_Gauge_Add lib g delta = sg_Inc lib (pcp_g g) delta"

record 'h pcp_Histogram =
  pcp_h :: 'h

definition pcp_NewHistogram :: "('w, 'cl, 'c, 'g, 'h, 'u) speed \<Rightarrow> 'cl Reporter \<Rightarrow> string \<Rightarrow> int \<Rightarrow> int \<Rightarrow> 'u \<Rightarrow> string list \<Rightarrow> 'w
    \<Rightarrow> 'w \<times> (string + 'h pcp_Histogram) outcome" where
  "pcp_NewHistogram lib r name low high unit desc w =
     speed_made (MustRegister_h lib (rep_c r)) (\<lambda>h. \<lparr>pcp_h = h\<rparr>) (NewPCPHistogram lib name low high 5 unit desc w)"

definition pcp_Histogram_With :: "'h pcp_Histogram \<Rightarrow> string list \<Rightarrow> 'h pcp_Histogram" where
  "pcp_Histogram_With h labelValues = h"

definition pcp_Histogram_Observe :: "('w, 'cl, 'c, 'g, 'h, 'u) speed \<Rightarrow> (float64 \<Rightarrow> int) \<Rightarrow> 'h pcp_Histogram \<Rightarrow> float64 \<Rightarrow> 'w
    \<Rightarrow> 'w \<times> unit outcome" where
  "pcp_Histogram_Observe lib impl h value = sh_MustRecord lib (pcp_h h) (f64_to_int64 impl value)"

definition pcp_Mean :: "('w, 'cl, 'c, 'g, 'h, 'u) speed \<Rightarrow> 'h pcp_Histogram \<Rightarrow> 'w \<Rightarrow> float64" where
  "pcp_Mean lib h = sh_Mean lib (pcp_h h)"

definition pcp_Percentile :: "('w, 'cl, 'c, 'g, 'h, 'u) speed \<Rightarrow> 'h pcp_Histogram \<Rightarrow> float64 \<Rightarrow> 'w \<Rightarrow> int" where
  "pcp_Percentile lib h p = sh_Percentile lib (pcp_h h) p"

subsection \<open>Properties\<close>

text \<open>What the code relies on: a counter of the library adds what is not negative, as long as the sum is an int64.\<close>

definition inc_law :: "('w, 'cl, 'c, 'g, 'h, 'u) speed \<Rightarrow> ('c \<Rightarrow> 'w \<Rightarrow> int) \<Rightarrow> bool" where
  "inc_law lib reading \<longleftrightarrow> (\<forall>c n w. 0 \<le> n \<and> reading c w + n < 2 ^ 63 \<longrightarrow> reading c (sc_Inc lib c n w) = reading c w + n)"

lemma f64_to_int64_floor:
  assumes "f64_finite x" and "0 \<le> f64_val x" and "f64_val x < 2 ^ 63"
  shows "f64_to_int64 impl x = \<lfloor>f64_val x\<rfloor>"
  using assms by (simp add: f64_to_int64_def rat_trunc_def floor_less_iff)

text \<open>A counter grows by the sum of the integer parts of its increments: what is behind the point is lost each time, so that
  increments below one are never counted.\<close>

theorem pcp_counter_truncates:
  assumes "inc_law lib reading" and "\<forall>d \<in> set ds. f64_finite d \<and> 0 \<le> f64_val d \<and> f64_val d < 2 ^ 63"
    and "reading (pcp_c c) w + (\<Sum>d \<leftarrow> ds. \<lfloor>f64_val d\<rfloor>) < 2 ^ 63"
  shows "reading (pcp_c c) (fold (pcp_Counter_Add lib impl c) ds w) = reading (pcp_c c) w + (\<Sum>d \<leftarrow> ds. \<lfloor>f64_val d\<rfloor>)"
  using assms(2,3)
proof (induction ds arbitrary: w)
  case (Cons d ds)
  have t: "f64_to_int64 impl d = \<lfloor>f64_val d\<rfloor>" using Cons.prems(1) by (simp add: f64_to_int64_floor)
  have "0 \<le> (\<Sum>d \<leftarrow> ds. \<lfloor>f64_val d\<rfloor>)" using Cons.prems(1) by (intro sum_list_nonneg) auto
  then have "reading (pcp_c c) (pcp_Counter_Add lib impl c d w) = reading (pcp_c c) w + \<lfloor>f64_val d\<rfloor>"
    using assms(1) Cons.prems by (simp add: inc_law_def pcp_Counter_Add_def t)
  with Cons show ?case by simp
qed simp

definition mem_speed :: "(int, unit, unit, unit, unit, unit) speed" where
  "mem_speed = \<lparr>NewPCPClient = \<lambda>a w. (w, Inr ()), MustStart = \<lambda>c w. (w, Ret ()), MustStop = \<lambda>c w. (w, Ret ()),
     NewPCPCounter = \<lambda>v n d w. (w, Inr ()), NewPCPGauge = \<lambda>v n d w. (w, Inr ()), NewPCPHistogram = \<lambda>n l h s u d w. (w, Inr ()),
     MustRegister_c = \<lambda>c m w. (w, Ret ()), MustRegister_g = \<lambda>c m w. (w, Ret ()), MustRegister_h = \<lambda>c m w. (w, Ret ()),
     sc_Inc = \<lambda>c n w. w + n, sg_Set = \<lambda>g v w. w, sg_Inc = \<lambda>g v w. w, sh_MustRecord = \<lambda>h n w. (w, Ret ()),
     sh_Mean = \<lambda>h w. F64 0, sh_Percentile = \<lambda>h p w. 0\<rparr>"

theorem pcp_counter_truncates_witness:
  "fold (pcp_Counter_Add mem_speed (\<lambda>_. 0) \<lparr>pcp_c = ()\<rparr>) [F64 (1 / 2), F64 (5 / 2), F64 (1 / 2)] 0 = 2"
proof -
  have "inc_law mem_speed (\<lambda>c w. w)" by (simp add: inc_law_def mem_speed_def)
  from pcp_counter_truncates [OF this, where ds = "[F64 (1 / 2), F64 (5 / 2), F64 (1 / 2)]" and c = "\<lparr>pcp_c = ()\<rparr>" and w = 0 and impl = "\<lambda>_. 0"] show ?thesis by (simp add: f64_finite_def floor_divide_of_int_eq [of 1 2, simplified] floor_divide_of_int_eq [of 5 2, simplified])
qed

end
