(* ===== verification/Provider.thy ===== *)
theory Provider
  imports Metric_Interfaces Statsd Dogstatsd Influx Graphite Prometheus Expvar
begin

text \<open>
  Package metrics/provider: one interface for the constructors of the backends. A value of the interface is a record
  of its methods on a world; the metrics that it makes are values of the interfaces of Metric_Interfaces. The
  operations of a backend are collected in a record \<open>backend\<close> on the state of its object, and \<open>provider_of\<close> makes the
  provider of it, on a world of the object and whatever else there is, which the function \<open>stop\<close> acts on.

  The locale \<open>metric_backend\<close> is what a client of a provider relies on: every call of a metric it was given returns,
  whatever calls and flushes come between. It is interpreted for statsd, dogstatsd and influx. The metrics of
  prometheus and expvar do not keep it, and theorems show how they panic; in graphite a call of a histogram ends as that of
  the library does.
\<close>

record 'w Provider =
  pr_NewCounter :: "string \<Rightarrow> 'w \<Rightarrow> 'w \<times> 'w metrics_Counter outcome"
  pr_NewGauge :: "string \<Rightarrow> 'w \<Rightarrow> 'w \<times> 'w metrics_Gauge outcome"
  pr_NewHistogram :: "string \<Rightarrow> int \<Rightarrow> 'w \<Rightarrow> 'w \<times> 'w metrics_Histogram outcome"
  pr_Stop :: "'w \<Rightarrow> 'w \<times> unit outcome"

subsection \<open>Metrics of a backend\<close>

record ('s, 'c, 'g, 'h) backend =
  b_NewCounter :: "string \<Rightarrow> 's \<Rightarrow> 's \<times> 'c outcome"
  b_Counter_With :: "'c \<Rightarrow> string list \<Rightarrow> 's \<Rightarrow> 's \<times> 'c outcome"
  b_Counter_Add :: "'c \<Rightarrow> float64 \<Rightarrow> 's \<Rightarrow> 's \<times> unit outcome"
  b_NewGauge :: "string \<Rightarrow> 's \<Rightarrow> 's \<times> 'g outcome"
  b_Gauge_With :: "'g \<Rightarrow> string list \<Rightarrow> 's \<Rightarrow> 's \<times> 'g outcome"
  b_Gauge_Set :: "'g \<Rightarrow> float64 \<Rightarrow> 's \<Rightarrow> 's \<times> unit outcome"
  b_Gauge_Add :: "'g \<Rightarrow> float64 \<Rightarrow> 's \<Rightarrow> 's \<times> unit outcome"
  b_NewHistogram :: "string \<Rightarrow> int \<Rightarrow> 's \<Rightarrow> 's \<times> 'h outcome"
  b_Histogram_With :: "'h \<Rightarrow> string list \<Rightarrow> 's \<Rightarrow> 's \<times> 'h outcome"
  b_Histogram_Observe :: "'h \<Rightarrow> float64 \<Rightarrow> 's \<Rightarrow> 's \<times> unit outcome"

definition on_object :: "('s \<Rightarrow> 's \<times> 'a) \<Rightarrow> 's \<times> 'v \<Rightarrow> ('s \<times> 'v) \<times> 'a" where
  "on_object f w = (case w of (s, v) \<Rightarrow> (case f s of (s1, r) \<Rightarrow> ((s1, v), r)))"

primcorec counter_of :: "('s, 'c, 'g, 'h) backend \<Rightarrow> 'c \<Rightarrow> ('s \<times> 'v) metrics_Counter" where
  "mc_With (counter_of B c) = (\<lambda>ls w. map_prod id (map_outcome (counter_of B)) (on_object (b_Counter_With B c ls) w))"
| "mc_Add (counter_of B c) = (\<lambda>delta. on_object (b_Counter_Add B c delta))"

primcorec gauge_of :: "('s, 'c, 'g, 'h) backend \<Rightarrow> 'g \<Rightarrow> ('s \<times> 'v) metrics_Gauge" where
  "mg_With (gauge_of B g) = (\<lambda>ls w. map_prod id (map_outcome (gauge_of B)) (on_object (b_Gauge_With B g ls) w))"
| "mg_Set (gauge_of B g) = (\<lambda>v. on_object (b_Gauge_Set B g v))"
| "mg_Add (gauge_of B g) = (\<lambda>delta. on_object (b_Gauge_Add B g delta))"

primcorec histogram_of :: "('s, 'c, 'g, 'h) backend \<Rightarrow> 'h \<Rightarrow> ('s \<times> 'v) metrics_Histogram" where
  "mh_With (histogram_of B h) = (\<lambda>ls w. map_prod id (map_outcome (histogram_of B)) (on_object (b_Histogram_With B h ls) w))"
| "mh_Observe (histogram_of B h) = (\<lambda>v. on_object (b_Histogram_Observe B h v))"

definition provider_of :: "('s, 'c, 'g, 'h) backend \<Rightarrow> ('v \<Rightarrow> 'v) \<Rightarrow> ('s \<times> 'v) Provider" where
  "provider_of B stop =
     \<lparr>pr_NewCounter = \<lambda>name w. returning (counter_of B) (on_object (b_NewCounter B name) w),
      pr_NewGauge = \<lambda>name w. returning (gauge_of B) (on_object (b_NewGauge B name) w),
      pr_NewHistogram = \<lambda>name buckets w. returning (histogram_of B) (on_object (b_NewHistogram B name buckets) w),
      pr_Stop = \<lambda>(s, v). ((s, stop v), Ret ())\<rparr>"

subsection \<open>The providers\<close>

text \<open>
  The outcome of an operation is that of the code it runs: what observes in a space passes on the panic of the space, a
  gauge of dogstatsd that is nil panics, and an observation of a gohistogram, which belongs to a library, ends as \<open>add\<close> says.
  Operations whose code cannot panic end with \<open>Ret\<close>.
\<close>

definition statsdProvider :: "(Statsd, handle, handle, handle) backend" where
  "statsdProvider =
     \<lparr>b_NewCounter = \<lambda>name s. (case Statsd_NewCounter s name (F64 1) of (s1, c) \<Rightarrow> (s1, Ret c)),
      b_Counter_With = \<lambda>c ls s. (s, Ret (Statsd_Counter_With c ls)),
      b_Counter_Add = \<lambda>c delta s. (Statsd_Counter_Add c delta s, snd (Space_Observe (s_counters s) c [] delta)),
      b_NewGauge = \<lambda>name s. (s, Ret (Statsd_NewGauge s name)),
      b_Gauge_With = \<lambda>g ls s. (s, Ret (Statsd_Gauge_With g ls)),
      b_Gauge_Set = \<lambda>g v s. (Statsd_Gauge_Set g v s, snd (Space_Observe (s_gauges s) g [] v)),
      b_Gauge_Add = \<lambda>g delta s. (Statsd_Gauge_Add g delta s, snd (Space_Add (s_gauges s) g [] delta)),
      b_NewHistogram = \<lambda>name _ s. (case Statsd_NewTiming s name (F64 1) of (s1, t) \<Rightarrow> (s1, Ret t)),
      b_Histogram_With = \<lambda>t ls s. (s, Ret (Statsd_Timing_With t ls)),
      b_Histogram_Observe = \<lambda>t v s. (Statsd_Timing_Observe t v s, snd (Space_Observe (s_timings s) t [] v))\<rparr>"

definition NewStatsdProvider :: "('v \<Rightarrow> 'v) \<Rightarrow> (Statsd \<times> 'v) Provider" where
  "NewStatsdProvider stop = provider_of statsdProvider stop"

text \<open>The random number of a sample is \<open>rnd\<close>; at the rate 1 it does not matter.\<close>

definition dogstatsdProvider :: "rat \<Rightarrow> (Dogstatsd, dd_handle, nat option, dd_handle) backend" where
  "dogstatsdProvider rnd =
     \<lparr>b_NewCounter = \<lambda>name d. (case Dogstatsd_NewCounter d name (F64 1) of (d1, c) \<Rightarrow> (d1, Ret c)),
      b_Counter_With = \<lambda>c ls d. (d, Ret (dd_With c ls)),
      b_Counter_Add = \<lambda>c delta d. (Dogstatsd_Counter_Add rnd c delta d,
        sampleObservations_outcome (dh_rate c) rnd (d_counters d) (dh_name c) (dh_lvs c) delta),
      b_NewGauge = \<lambda>name d. (case Dogstatsd_NewGauge d name of (d1, g) \<Rightarrow> (d1, Ret g)),
      b_Gauge_With = \<lambda>g ls d. (case g of None \<Rightarrow> (d, Panic ''nil pointer dereference'')
        | Some a \<Rightarrow> (case Dogstatsd_Gauge_With d a ls of (d1, r) \<Rightarrow> (d1, map_outcome Some r))),
      b_Gauge_Set = \<lambda>g v d. (case g of None \<Rightarrow> (d, Panic ''nil pointer dereference'') | Some a \<Rightarrow> (Dogstatsd_Gauge_Set a v d, Ret ())),
      b_Gauge_Add = \<lambda>g delta d. (case g of None \<Rightarrow> (d, Panic ''nil pointer dereference'') | Some a \<Rightarrow> (Dogstatsd_Gauge_Add a delta d, Ret ())),
      b_NewHistogram = \<lambda>name _ d. (case Dogstatsd_NewHistogram d name (F64 1) of (d1, h) \<Rightarrow> (d1, Ret h)),
      b_Histogram_With = \<lambda>h ls d. (d, Ret (dd_With h ls)),
      b_Histogram_Observe = \<lambda>h v d. (Dogstatsd_Histogram_Observe rnd h v d,
        sampleObservations_outcome (dh_rate h) rnd (d_histograms d) (dh_name h) (dh_lvs h) v)\<rparr>"

definition NewDogstatsdProvider :: "rat \<Rightarrow> ('v \<Rightarrow> 'v) \<Rightarrow> (Dogstatsd \<times> 'v) Provider" where
  "NewDogstatsdProvider rnd stop = provider_of (dogstatsdProvider rnd) stop"

definition influxProvider :: "('c Influx, influx_metric, influx_metric, influx_metric) backend" where
  "influxProvider =
     \<lparr>b_NewCounter = \<lambda>name x. (x, Ret (Influx_NewCounter name)),
      b_Counter_With = \<lambda>c ls x. (x, Ret (Influx_Counter_With c ls)),
      b_Counter_Add = \<lambda>c delta x. Influx_Counter_Add c delta x,
      b_NewGauge = \<lambda>name x. (x, Ret (Influx_NewGauge name)),
      b_Gauge_With = \<lambda>g ls x. (x, Ret (Influx_Gauge_With g ls)),
      b_Gauge_Set = \<lambda>g v x. Influx_Gauge_Set g v x,
      b_Gauge_Add = \<lambda>g delta x. Influx_Gauge_Add g delta x,
      b_NewHistogram = \<lambda>name buckets x. (x, Ret (Influx_NewHistogram name)),
      b_Histogram_With = \<lambda>h ls x. (x, Ret (Influx_Histogram_With h ls)),
      b_Histogram_Observe = \<lambda>h v x. Influx_Histogram_Observe h v x\<rparr>"

definition NewInfluxProvider :: "('v \<Rightarrow> 'v) \<Rightarrow> ('c Influx \<times> 'v) Provider" where
  "NewInfluxProvider stop = provider_of influxProvider stop"

text \<open>What a panic of \<open>add\<close> leaves in the library's object is not modelled.\<close>

definition graphiteProvider :: "(int \<Rightarrow> 'h) \<Rightarrow> ('h \<Rightarrow> float64 \<Rightarrow> 'h outcome) \<Rightarrow> ('h Graphite, nat, nat, nat) backend" where
  "graphiteProvider mk_hist add =
     \<lparr>b_NewCounter = \<lambda>name g. (case Graphite_NewCounter g name of (g1, c) \<Rightarrow> (g1, Ret c)),
      b_Counter_With = \<lambda>c ls g. (g, Ret (Graphite_Counter_With c ls)),
      b_Counter_Add = \<lambda>c delta g. (Graphite_Counter_Add c delta g, Ret ()),
      b_NewGauge = \<lambda>name g. (case Graphite_NewGauge g name of (g1, ga) \<Rightarrow> (g1, Ret ga)),
      b_Gauge_With = \<lambda>ga ls g. (g, Ret (Graphite_Gauge_With ga ls)),
      b_Gauge_Set = \<lambda>ga v g. (Graphite_Gauge_Set ga v g, Ret ()),
      b_Gauge_Add = \<lambda>ga delta g. (Graphite_Gauge_Add ga delta g, Ret ()),
      b_NewHistogram = \<lambda>name buckets g. (case Graphite_NewHistogram mk_hist g name buckets of (g1, h) \<Rightarrow> (g1, Ret h)),
      b_Histogram_With = \<lambda>h ls g. (g, Ret (Graphite_Histogram_With h ls)),
      b_Histogram_Observe = \<lambda>h v g. (case add (gr_safe g ! h_h (gr_hheap g ! h)) v of
          Panic p \<Rightarrow> (g, Panic p)
        | Ret x \<Rightarrow> (Graphite_Histogram_Observe (\<lambda>_ _. x) h v g, Ret ()))\<rparr>"

definition NewGraphiteProvider :: "(int \<Rightarrow> 'h) \<Rightarrow> ('h \<Rightarrow> float64 \<Rightarrow> 'h outcome) \<Rightarrow> ('v \<Rightarrow> 'v) \<Rightarrow> ('h Graphite \<times> 'v) Provider" where
  "NewGraphiteProvider mk_hist add stop = provider_of (graphiteProvider mk_hist add) stop"

definition NewDiscardProvider :: "'w Provider" where
  "NewDiscardProvider =
     \<lparr>pr_NewCounter = \<lambda>name w. (w, Ret discard_counter), pr_NewGauge = \<lambda>name w. (w, Ret discard_gauge),
      pr_NewHistogram = \<lambda>name buckets w. (w, Ret discard_histogram), pr_Stop = \<lambda>w. (w, Ret ())\<rparr>"

text \<open>The options of a metric of the prometheus library, of which the provider sets four.\<close>

record prom_Opts =
  po_Namespace :: string
  po_Subsystem :: string
  po_Name :: string
  po_Help :: string

record prometheusProvider =
  pp_namespace :: string
  pp_subsystem :: string

definition prom_opts :: "prometheusProvider \<Rightarrow> string \<Rightarrow> prom_Opts" where
  "prom_opts p name = \<lparr>po_Namespace = pp_namespace p, po_Subsystem = pp_subsystem p, po_Name = name, po_Help = name\<rparr>"

definition prometheus_backend :: "('s, prom_Opts, 'v, 'm) prom_vecs \<Rightarrow> ('s, prom_Opts, 'v, 'm) prom_vecs \<Rightarrow> ('s, prom_Opts, 'v, 'm) prom_vecs
    \<Rightarrow> prometheusProvider \<Rightarrow> ('s, 'v prom_Counter, 'v prom_Gauge, 'v prom_Summary) backend" where
  "prometheus_backend counters gauges summaries p =
     \<lparr>b_NewCounter = \<lambda>name. prom_NewCounterFrom counters (prom_opts p name) [],
      b_Counter_With = \<lambda>c ls s. (s, Ret (prom_Counter_With c ls)),
      b_Counter_Add = prom_Counter_Add counters,
      b_NewGauge = \<lambda>name. prom_NewGaugeFrom gauges (prom_opts p name) [],
      b_Gauge_With = \<lambda>g ls s. (s, Ret (prom_Gauge_With g ls)),
      b_Gauge_Set = prom_Gauge_Set gauges,
      b_Gauge_Add = prom_Gauge_Add gauges,
      b_NewHistogram = \<lambda>name _. prom_NewSummaryFrom summaries (prom_opts p name) [],
      b_Histogram_With = \<lambda>h ls s. (s, Ret (prom_Summary_With h ls)),
      b_Histogram_Observe = prom_Summary_Observe summaries\<rparr>"

definition NewPrometheusProvider :: "('s, prom_Opts, 'v, 'm) prom_vecs \<Rightarrow> ('s, prom_Opts, 'v, 'm) prom_vecs
    \<Rightarrow> ('s, prom_Opts, 'v, 'm) prom_vecs \<Rightarrow> string \<Rightarrow> string \<Rightarrow> ('s \<times> unit) Provider" where
  "NewPrometheusProvider counters gauges summaries namespace subsystem =
     provider_of (prometheus_backend counters gauges summaries \<lparr>pp_namespace = namespace, pp_subsystem = subsystem\<rparr>) id"

definition expvarProvider :: "(int \<Rightarrow> 'h) \<Rightarrow> ('h \<Rightarrow> float64 \<Rightarrow> 'h outcome) \<Rightarrow> ('h \<Rightarrow> float64 \<Rightarrow> float64)
    \<Rightarrow> ('h expvar_world, expvar_Counter, expvar_Gauge, expvar_Histogram) backend" where
  "expvarProvider mk_hist add quantile =
     \<lparr>b_NewCounter = \<lambda>name (hs, vars). (case expvar_NewCounter name vars of (vars1, c) \<Rightarrow> ((hs, vars1), c)),
      b_Counter_With = \<lambda>c ls s. (s, Ret (expvar_Counter_With c ls)),
      b_Counter_Add = \<lambda>c delta (hs, vars). ((hs, expvar_Counter_Add c delta vars), Ret ()),
      b_NewGauge = \<lambda>name (hs, vars). (case expvar_NewGauge name vars of (vars1, g) \<Rightarrow> ((hs, vars1), g)),
      b_Gauge_With = \<lambda>g ls s. (s, Ret (expvar_Gauge_With g ls)),
      b_Gauge_Set = \<lambda>g v (hs, vars). ((hs, expvar_Gauge_Set g v vars), Ret ()),
      b_Gauge_Add = \<lambda>g delta (hs, vars). ((hs, expvar_Gauge_Add g delta vars), Ret ()),
      b_NewHistogram = \<lambda>name. expvar_NewHistogram mk_hist name,
      b_Histogram_With = \<lambda>h ls s. (s, Ret (expvar_Histogram_With h ls)),
      b_Histogram_Observe = \<lambda>h v (hs, vars). (case add (hs ! h_h (eh_h h)) v of
          Panic p \<Rightarrow> ((hs, vars), Panic p)
        | Ret x \<Rightarrow> (expvar_Histogram_Observe (\<lambda>_ _. x) quantile h v (hs, vars), Ret ()))\<rparr>"

definition NewExpvarProvider :: "(int \<Rightarrow> 'h) \<Rightarrow> ('h \<Rightarrow> float64 \<Rightarrow> 'h outcome) \<Rightarrow> ('h \<Rightarrow> float64 \<Rightarrow> float64) \<Rightarrow> ('h expvar_world \<times> unit) Provider" where
  "NewExpvarProvider mk_hist add quantile = provider_of (expvarProvider mk_hist add quantile) id"

subsection \<open>What a client does\<close>

text \<open>
  A client makes metrics, calls them and stops the provider, in any order, while the backend flushes: \<open>flush\<close> is the
  relation of the world before and after one. \<open>provider_run P flush w0 w ms\<close>: from \<open>w0\<close> a run leads to \<open>w\<close>, where the client
  holds the metrics \<open>ms\<close>. It may hand to \<open>With\<close> any list of label values.
\<close>

datatype 'w any_metric = AnyCounter "'w metrics_Counter" | AnyGauge "'w metrics_Gauge" | AnyHistogram "'w metrics_Histogram"

inductive provider_run :: "'w Provider \<Rightarrow> ('w \<Rightarrow> 'w \<Rightarrow> bool) \<Rightarrow> 'w \<Rightarrow> 'w \<Rightarrow> 'w any_metric list \<Rightarrow> bool"
  for P :: "'w Provider" and flush :: "'w \<Rightarrow> 'w \<Rightarrow> bool" and w0 :: 'w where
  begins: "provider_run P flush w0 w0 []"
| new_counter: "provider_run P flush w0 w ms \<Longrightarrow> pr_NewCounter P name w = (w', Ret c) \<Longrightarrow> provider_run P flush w0 w' (AnyCounter c # ms)"
| new_gauge: "provider_run P flush w0 w ms \<Longrightarrow> pr_NewGauge P name w = (w', Ret g) \<Longrightarrow> provider_run P flush w0 w' (AnyGauge g # ms)"
| new_histogram: "provider_run P flush w0 w ms \<Longrightarrow> pr_NewHistogram P name buckets w = (w', Ret h) \<Longrightarrow>
    provider_run P flush w0 w' (AnyHistogram h # ms)"
| counter_with: "provider_run P flush w0 w ms \<Longrightarrow> AnyCounter c \<in> set ms \<Longrightarrow> mc_With c ls w = (w', Ret c') \<Longrightarrow>
    provider_run P flush w0 w' (AnyCounter c' # ms)"
| gauge_with: "provider_run P flush w0 w ms \<Longrightarrow> AnyGauge g \<in> set ms \<Longrightarrow> mg_With g ls w = (w', Ret g') \<Longrightarrow>
    provider_run P flush w0 w' (AnyGauge g' # ms)"
| histogram_with: "provider_run P flush w0 w ms \<Longrightarrow> AnyHistogram h \<in> set ms \<Longrightarrow> mh_With h ls w = (w', Ret h') \<Longrightarrow>
    provider_run P flush w0 w' (AnyHistogram h' # ms)"
| counter_add: "provider_run P flush w0 w ms \<Longrightarrow> AnyCounter c \<in> set ms \<Longrightarrow> mc_Add c v w = (w', Ret ()) \<Longrightarrow> provider_run P flush w0 w' ms"
| gauge_set: "provider_run P flush w0 w ms \<Longrightarrow> AnyGauge g \<in> set ms \<Longrightarrow> mg_Set g v w = (w', Ret ()) \<Longrightarrow> provider_run P flush w0 w' ms"
| gauge_add: "provider_run P flush w0 w ms \<Longrightarrow> AnyGauge g \<in> set ms \<Longrightarrow> mg_Add g v w = (w', Ret ()) \<Longrightarrow> provider_run P flush w0 w' ms"
| observe: "provider_run P flush w0 w ms \<Longrightarrow> AnyHistogram h \<in> set ms \<Longrightarrow> mh_Observe h v w = (w', Ret ()) \<Longrightarrow> provider_run P flush w0 w' ms"
| flushes: "provider_run P flush w0 w ms \<Longrightarrow> flush w w' \<Longrightarrow> provider_run P flush w0 w' ms"
| stops: "provider_run P flush w0 w ms \<Longrightarrow> pr_Stop P w = (w', Ret ()) \<Longrightarrow> provider_run P flush w0 w' ms"

definition returned :: "'w \<times> 'a outcome \<Rightarrow> bool" where
  "returned r \<longleftrightarrow> \<not> panicked (snd r)"

text \<open>No call of a metric panics, whatever its arguments.\<close>

fun calls_return :: "'w \<Rightarrow> 'w any_metric \<Rightarrow> bool" where
  "calls_return w (AnyCounter c) \<longleftrightarrow> (\<forall>ls. returned (mc_With c ls w)) \<and> (\<forall>v. returned (mc_Add c v w))"
| "calls_return w (AnyGauge g) \<longleftrightarrow> (\<forall>ls. returned (mg_With g ls w)) \<and> (\<forall>v. returned (mg_Set g v w) \<and> returned (mg_Add g v w))"
| "calls_return w (AnyHistogram h) \<longleftrightarrow> (\<forall>ls. returned (mh_With h ls w)) \<and> (\<forall>v. returned (mh_Observe h v w))"

text \<open>In every run every metric can be made, and no call of one that was made panics.\<close>

definition never_panics :: "'w Provider \<Rightarrow> ('w \<Rightarrow> 'w \<Rightarrow> bool) \<Rightarrow> 'w \<Rightarrow> bool" where
  "never_panics P flush w0 \<longleftrightarrow>
     (\<forall>w ms. provider_run P flush w0 w ms \<longrightarrow>
        (\<forall>name. returned (pr_NewCounter P name w) \<and> returned (pr_NewGauge P name w))
        \<and> (\<forall>name buckets. returned (pr_NewHistogram P name buckets w))
        \<and> returned (pr_Stop P w) \<and> list_all (calls_return w) ms)"

subsection \<open>The contract of a backend\<close>

text \<open>
  A backend has an invariant \<open>inv\<close> of its state and knows in each state which handles are good. Every operation on a good
  handle returns, and every operation and every flush keeps the invariant and the handles.
\<close>

record ('s, 'c, 'g, 'h) contract =
  k_inv :: "'s \<Rightarrow> bool"
  k_counter :: "'s \<Rightarrow> 'c \<Rightarrow> bool"
  k_gauge :: "'s \<Rightarrow> 'g \<Rightarrow> bool"
  k_histogram :: "'s \<Rightarrow> 'h \<Rightarrow> bool"

definition keeps :: "('s, 'c, 'g, 'h) contract \<Rightarrow> 's \<Rightarrow> 's \<Rightarrow> bool" where
  "keeps K s s' \<longleftrightarrow> k_inv K s' \<and> (\<forall>c. k_counter K s c \<longrightarrow> k_counter K s' c) \<and> (\<forall>g. k_gauge K s g \<longrightarrow> k_gauge K s' g)
     \<and> (\<forall>h. k_histogram K s h \<longrightarrow> k_histogram K s' h)"

definition gives :: "('s, 'c, 'g, 'h) contract \<Rightarrow> ('s \<Rightarrow> 'a \<Rightarrow> bool) \<Rightarrow> 's \<Rightarrow> 's \<times> 'a outcome \<Rightarrow> bool" where
  "gives K good s r \<longleftrightarrow> (\<exists>s' a. r = (s', Ret a) \<and> keeps K s s' \<and> good s' a)"

locale metric_backend =
  fixes B :: "('s, 'c, 'g, 'h) backend" and K :: "('s, 'c, 'g, 'h) contract" and flush :: "'s \<Rightarrow> 's \<Rightarrow> bool"
  assumes makes: "k_inv K s \<Longrightarrow> gives K (k_counter K) s (b_NewCounter B name s)
      \<and> gives K (k_gauge K) s (b_NewGauge B name s) \<and> gives K (k_histogram K) s (b_NewHistogram B name buckets s)"
    and counters: "k_inv K s \<Longrightarrow> k_counter K s c \<Longrightarrow>
      gives K (k_counter K) s (b_Counter_With B c ls s) \<and> gives K (\<lambda>_ _. True) s (b_Counter_Add B c v s)"
    and gauges: "k_inv K s \<Longrightarrow> k_gauge K s g \<Longrightarrow> gives K (k_gauge K) s (b_Gauge_With B g ls s)
      \<and> gives K (\<lambda>_ _. True) s (b_Gauge_Set B g v s) \<and> gives K (\<lambda>_ _. True) s (b_Gauge_Add B g v s)"
    and histograms: "k_inv K s \<Longrightarrow> k_histogram K s h \<Longrightarrow>
      gives K (k_histogram K) s (b_Histogram_With B h ls s) \<and> gives K (\<lambda>_ _. True) s (b_Histogram_Observe B h v s)"
    and flush_keeps: "k_inv K s \<Longrightarrow> flush s s' \<Longrightarrow> keeps K s s'"
begin

text \<open>A metric that the client holds is one of the backend with a good handle.\<close>

fun held :: "'s \<Rightarrow> ('s \<times> 'v) any_metric \<Rightarrow> bool" where
  "held s (AnyCounter m) \<longleftrightarrow> (\<exists>c. m = counter_of B c \<and> k_counter K s c)"
| "held s (AnyGauge m) \<longleftrightarrow> (\<exists>g. m = gauge_of B g \<and> k_gauge K s g)"
| "held s (AnyHistogram m) \<longleftrightarrow> (\<exists>h. m = histogram_of B h \<and> k_histogram K s h)"

lemma held_keeps: "keeps K s s' \<Longrightarrow> held s m \<Longrightarrow> held s' m"
  by (cases m) (auto simp: keeps_def)

text \<open>The same as \<open>gives\<close> for a call on a world.\<close>

definition ok_call :: "('s \<Rightarrow> 'a \<Rightarrow> bool) \<Rightarrow> 's \<times> 'v \<Rightarrow> ('s \<times> 'v) \<times> 'a outcome \<Rightarrow> bool" where
  "ok_call good w r \<longleftrightarrow> (\<exists>w' a. r = (w', Ret a) \<and> keeps K (fst w) (fst w') \<and> good (fst w') a)"

lemma ok_call_with:
  assumes "gives K good (fst w) (f (fst w))" and "\<And>s' a. good s' a \<Longrightarrow> good' s' (F a)"
  shows "ok_call good' w (map_prod id (map_outcome F) (on_object f w))"
  using assms by (cases w) (auto simp: gives_def ok_call_def on_object_def)

lemma ok_call_on: "gives K good (fst w) (f (fst w)) \<Longrightarrow> ok_call good w (on_object f w)"
  by (cases w) (auto simp: gives_def ok_call_def on_object_def)

lemma ok_call_returned: "ok_call good w r \<Longrightarrow> returned r"
  by (auto simp: ok_call_def returned_def)

text \<open>What every call leaves to the rest of the run.\<close>

lemma after_call:
  assumes "ok_call good w r" and "r = (w', Ret a)" and "list_all (held (fst w)) ms"
  shows "k_inv K (fst w') \<and> list_all (held (fst w')) ms \<and> good (fst w') a"
  using assms by (auto simp: ok_call_def keeps_def list_all_iff intro: held_keeps [unfolded keeps_def])

lemma held_counter:
  assumes "k_inv K (fst w)" and "held (fst w) (AnyCounter m)"
  shows "ok_call (\<lambda>s c. held s (AnyCounter c)) w (mc_With m ls w)" and "ok_call (\<lambda>_ _. True) w (mc_Add m x w)"
proof -
  from assms(2) obtain c where c: "m = counter_of B c" "k_counter K (fst w) c" by auto
  from counters [OF assms(1) c(2)] show "ok_call (\<lambda>s c. held s (AnyCounter c)) w (mc_With m ls w)"
    and "ok_call (\<lambda>_ _. True) w (mc_Add m x w)" by (auto simp: c(1) intro!: ok_call_with ok_call_on)
qed

lemma held_gauge:
  assumes "k_inv K (fst w)" and "held (fst w) (AnyGauge m)"
  shows "ok_call (\<lambda>s g. held s (AnyGauge g)) w (mg_With m ls w)" and "ok_call (\<lambda>_ _. True) w (mg_Set m x w)"
    and "ok_call (\<lambda>_ _. True) w (mg_Add m x w)"
proof -
  from assms(2) obtain g where g: "m = gauge_of B g" "k_gauge K (fst w) g" by auto
  from gauges [OF assms(1) g(2)] show "ok_call (\<lambda>s g. held s (AnyGauge g)) w (mg_With m ls w)"
    and "ok_call (\<lambda>_ _. True) w (mg_Set m x w)" and "ok_call (\<lambda>_ _. True) w (mg_Add m x w)"
    by (auto simp: g(1) intro!: ok_call_with ok_call_on)
qed

lemma held_histogram:
  assumes "k_inv K (fst w)" and "held (fst w) (AnyHistogram m)"
  shows "ok_call (\<lambda>s h. held s (AnyHistogram h)) w (mh_With m ls w)" and "ok_call (\<lambda>_ _. True) w (mh_Observe m x w)"
proof -
  from assms(2) obtain h where h: "m = histogram_of B h" "k_histogram K (fst w) h" by auto
  from histograms [OF assms(1) h(2)] show "ok_call (\<lambda>s h. held s (AnyHistogram h)) w (mh_With m ls w)"
    and "ok_call (\<lambda>_ _. True) w (mh_Observe m x w)" by (auto simp: h(1) intro!: ok_call_with ok_call_on)
qed

lemma provider_makes:
  assumes "k_inv K (fst w)"
  shows "ok_call (\<lambda>s c. held s (AnyCounter c)) w (pr_NewCounter (provider_of B stop) name w)"
    and "ok_call (\<lambda>s g. held s (AnyGauge g)) w (pr_NewGauge (provider_of B stop) name w)"
    and "ok_call (\<lambda>s h. held s (AnyHistogram h)) w (pr_NewHistogram (provider_of B stop) name buckets w)"
  using makes [OF assms, of name buckets] by (auto simp: provider_of_def returning_def intro!: ok_call_with)

lemma run_held:
  assumes "provider_run (provider_of B stop) (\<lambda>w w'. flush (fst w) (fst w')) w0 w ms" and "k_inv K (fst w0)"
  shows "k_inv K (fst w) \<and> list_all (held (fst w)) ms"
  using assms
proof (induction rule: provider_run.induct)
  case (new_counter w ms name w' c)
  then show ?case using after_call [where ms = ms, OF provider_makes(1) new_counter(2)] by simp
next
  case (new_gauge w ms name w' g)
  then show ?case using after_call [where ms = ms, OF provider_makes(2) new_gauge(2)] by simp
next
  case (new_histogram w ms name buckets w' h)
  then show ?case using after_call [where ms = ms, OF provider_makes(3) new_histogram(2)] by simp
next
  case (counter_with w ms c ls w' c')
  then show ?case using after_call [where ms = ms, OF held_counter(1) counter_with(3)] by (auto simp: list_all_iff)
next
  case (gauge_with w ms g ls w' g')
  then show ?case using after_call [where ms = ms, OF held_gauge(1) gauge_with(3)] by (auto simp: list_all_iff)
next
  case (histogram_with w ms h ls w' h')
  then show ?case using after_call [where ms = ms, OF held_histogram(1) histogram_with(3)] by (auto simp: list_all_iff)
next
  case (counter_add w ms c v w')
  then show ?case using after_call [where ms = ms, OF held_counter(2) counter_add(3)] by (auto simp: list_all_iff)
next
  case (gauge_set w ms g v w')
  then show ?case using after_call [where ms = ms, OF held_gauge(2) gauge_set(3)] by (auto simp: list_all_iff)
next
  case (gauge_add w ms g v w')
  then show ?case using after_call [where ms = ms, OF held_gauge(3) gauge_add(3)] by (auto simp: list_all_iff)
next
  case (observe w ms h v w')
  then show ?case using after_call [where ms = ms, OF held_histogram(2) observe(3)] by (auto simp: list_all_iff)
next
  case (flushes w ms w')
  then have k: "keeps K (fst w) (fst w')" using flush_keeps by blast
  with flushes show ?case using held_keeps [OF k] by (auto simp: keeps_def list_all_iff)
next
  case (stops w ms w')
  then show ?case by (auto simp: provider_of_def split: prod.splits)
qed simp

lemma held_calls_return: "k_inv K (fst w) \<Longrightarrow> held (fst w) m \<Longrightarrow> calls_return w m"
  by (cases m) (blast intro: ok_call_returned held_counter held_gauge held_histogram calls_return.simps [THEN iffD2])+

lemma provider_never_panics:
  assumes "k_inv K (fst w0)"
  shows "never_panics (provider_of B stop) (\<lambda>w w'. flush (fst w) (fst w')) w0"
  unfolding never_panics_def
proof (intro allI impI conjI)
  fix w ms name buckets
  assume "provider_run (provider_of B stop) (\<lambda>w w'. flush (fst w) (fst w')) w0 w ms"
  from run_held [OF this assms] have k: "k_inv K (fst w)" "list_all (held (fst w)) ms" by auto
  then show "returned (pr_NewCounter (provider_of B stop) name w)" "returned (pr_NewGauge (provider_of B stop) name w)"
    "returned (pr_NewHistogram (provider_of B stop) name buckets w)"
    by (blast intro: ok_call_returned provider_makes)+
  from k show "list_all (calls_return w) ms" by (auto simp: list_all_iff intro: held_calls_return)
  show "returned (pr_Stop (provider_of B stop) w)" by (simp add: provider_of_def returned_def split: prod.splits)
qed

end

subsection \<open>The backends that keep it\<close>

definition statsd_flush :: "Statsd \<Rightarrow> Statsd \<Rightarrow> bool" where
  "statsd_flush s s' \<longleftrightarrow> (\<exists>nit it wr (w :: nat \<times> string list) st. Statsd_WriteTo nit it wr s w = (s', st))"

definition dogstatsd_flush :: "Dogstatsd \<Rightarrow> Dogstatsd \<Rightarrow> bool" where
  "dogstatsd_flush d d' \<longleftrightarrow> (\<exists>nit it wr (w :: nat \<times> string list) st. Dogstatsd_WriteTo nit it wr d w = (d', st))"

definition influx_flush :: "'h quantiles \<Rightarrow> ('c, 'p, 'b, 'w) influxdb \<Rightarrow> 'c Influx \<Rightarrow> 'c Influx \<Rightarrow> bool" where
  "influx_flush q db x x' \<longleftrightarrow> (\<exists>nit it now w r. Influx_WriteTo q db nit it now x w = (x', r))"

text \<open>A handle of statsd is a name; one of dogstatsd has a tree of its name, and labels in pairs, like those of influx.\<close>

definition statsd_contract :: "(Statsd, handle, handle, handle) contract" where
  "statsd_contract = \<lparr>k_inv = \<lambda>s. True, k_counter = \<lambda>s c. True, k_gauge = \<lambda>s g. True, k_histogram = \<lambda>s h. True\<rparr>"

definition dogstatsd_contract :: "(Dogstatsd, dd_handle, nat option, dd_handle) contract" where
  "dogstatsd_contract = \<lparr>k_inv = dd_inv, k_counter = \<lambda>d c. even (length (dh_lvs c)),
     k_gauge = \<lambda>d g. (case g of None \<Rightarrow> False | Some a \<Rightarrow> gauge_handle d a), k_histogram = \<lambda>d h. even (length (dh_lvs h))\<rparr>"

definition influx_contract :: "('c Influx, influx_metric, influx_metric, influx_metric) contract" where
  "influx_contract = \<lparr>k_inv = \<lambda>x. True, k_counter = \<lambda>x. influx_made, k_gauge = \<lambda>x. influx_made, k_histogram = \<lambda>x. influx_made\<rparr>"

interpretation statsd_backend: metric_backend statsdProvider statsd_contract statsd_flush
  by unfold_locales (auto simp: statsdProvider_def statsd_contract_def gives_def keeps_def Space_outcomes split: prod.splits)

interpretation influx_backend: metric_backend influxProvider influx_contract "influx_flush q db" for q db
proof (unfold_locales, goal_cases)
  case (1 x name buckets)
  then show ?case by (auto simp: influxProvider_def influx_contract_def gives_def keeps_def intro: influx_made.intros)
next
  case (2 x c ls v)
  then have m: "influx_made c" by (simp add: influx_contract_def)
  from influx_ops_ret(1) [OF m, of v x] m show ?case
    by (cases "Influx_Counter_Add c v x")
      (auto simp: influxProvider_def influx_contract_def gives_def keeps_def intro: influx_made.intros)
next
  case (3 x g ls v)
  then have m: "influx_made g" by (simp add: influx_contract_def)
  from influx_ops_ret(2,3) [OF m, of v x] m show ?case
    by (cases "Influx_Gauge_Set g v x"; cases "Influx_Gauge_Add g v x")
      (auto simp: influxProvider_def influx_contract_def gives_def keeps_def intro: influx_made.intros)
next
  case (4 x h ls v)
  then have m: "influx_made h" by (simp add: influx_contract_def)
  from influx_ops_ret(4) [OF m, of v x] m show ?case
    by (cases "Influx_Histogram_Observe h v x")
      (auto simp: influxProvider_def influx_contract_def gives_def keeps_def intro: influx_made.intros)
qed (simp add: influx_contract_def keeps_def)

text \<open>Gauges of dogstatsd stay good as long as the trees stay and no gauge changes its name or labels.\<close>

lemma gauge_handle_keeps:
  assumes "gauge_handle d a" and "d_gauges d' = d_gauges d" and "same_gauges (d_heap d) (d_heap d')"
  shows "gauge_handle d' a"
  using assms by (simp add: gauge_handle_def same_gauges_def)

lemma Tagged_WriteTo_same_gauges:
  assumes "Tagged_WriteTo F nit it wr d w = (d', st)"
  shows "d_gauges d' = d_gauges d \<and> same_gauges (d_heap d) (d_heap d')"
proof -
  let ?st1 = "Space_Walk nit it (\<lambda>name ls vs st. write_line wr (counter_line F d name ls vs) st)
      (d_counters d) (writing_start w)"
  obtain h st2 where g: "walk_gauges it (\<lambda>name ls v st. write_line wr (gauge_line F d name ls v) st) (d_gauges d)
      (nit (map fst (d_gauges d))) (d_heap d, ?st1) = (h, st2)" by (rule prod.exhaust)
  have "same_gauges (d_heap d) h"
    using walk_gauges_keeps [where h = "d_heap d" and hs = "(d_heap d, ?st1)"] g
    by (simp add: same_gauges_def) (metis fst_conv)
  moreover have "d_gauges d' = d_gauges d \<and> (d_heap d' = d_heap d \<or> d_heap d' = h)"
    using assms g by (auto simp: Tagged_WriteTo_def Space_Reset_def Let_def split: if_splits)
  ultimately show ?thesis by (auto simp: same_gauges_def)
qed

lemma keeps_dogstatsd:
  assumes "dd_inv d'" and "\<And>a. gauge_handle d a \<Longrightarrow> gauge_handle d' a"
  shows "keeps dogstatsd_contract d d'"
  using assms by (auto simp: keeps_def dogstatsd_contract_def split: option.splits)

lemma keeps_gauge_write:
  assumes "dd_inv d" and "dd_step d (d\<lparr>d_heap := (d_heap d)[a := g]\<rparr>)"
    and "met_Name (g_g g) = met_Name (g_g (d_heap d ! a))" and "met_lvs (g_g g) = met_lvs (g_g (d_heap d ! a))"
  shows "keeps dogstatsd_contract d (d\<lparr>d_heap := (d_heap d)[a := g]\<rparr>)"
proof (rule keeps_dogstatsd [OF dd_step_inv [OF assms(2,1)]])
  fix b
  assume "gauge_handle d b"
  then show "gauge_handle (d\<lparr>d_heap := (d_heap d)[a := g]\<rparr>) b"
    using nth_update_keeps [of "\<lambda>g. met_Name (g_g g)" g "d_heap d" a b] nth_update_keeps [of "\<lambda>g. met_lvs (g_g g)" g "d_heap d" a b]
      assms(3,4) by (simp add: gauge_handle_def)
qed

lemma dogstatsd_makes:
  assumes "dd_inv d"
  shows "gives dogstatsd_contract (k_counter dogstatsd_contract) d (b_NewCounter (dogstatsdProvider rnd) name d)"
    and "gives dogstatsd_contract (k_gauge dogstatsd_contract) d (b_NewGauge (dogstatsdProvider rnd) name d)"
    and "gives dogstatsd_contract (k_histogram dogstatsd_contract) d (b_NewHistogram (dogstatsdProvider rnd) name buckets d)"
proof -
  show "gives dogstatsd_contract (k_counter dogstatsd_contract) d (b_NewCounter (dogstatsdProvider rnd) name d)"
    "gives dogstatsd_contract (k_histogram dogstatsd_contract) d (b_NewHistogram (dogstatsdProvider rnd) name buckets d)"
    using assms by (auto simp: gives_def dogstatsdProvider_def Dogstatsd_NewCounter_def Dogstatsd_NewHistogram_def
        dogstatsd_contract_def keeps_def dd_inv_def gauge_handle_def split: option.splits)
  obtain d' p where n: "Dogstatsd_NewGauge d name = (d', p)" by (rule prod.exhaust)
  from Dogstatsd_NewGauge_inv [OF assms n] obtain a where a: "dd_inv d'" "p = Some a" by blast
  have "gauge_handle d b \<Longrightarrow> gauge_handle d' b" for b
    using n by (cases "map_of (d_gauges d) name")
      (fastforce simp: Dogstatsd_NewGauge_def gauge_handle_def update_conv' nth_append)+
  with a have "keeps dogstatsd_contract d d'" by (blast intro: keeps_dogstatsd)
  with Dogstatsd_NewGauge_handle [OF assms n [unfolded a(2)]]
  show "gives dogstatsd_contract (k_gauge dogstatsd_contract) d (b_NewGauge (dogstatsdProvider rnd) name d)"
    by (simp add: gives_def dogstatsdProvider_def n a(2)) (simp add: dogstatsd_contract_def)
qed

lemma dogstatsd_gauges:
  assumes "dd_inv d" and "k_gauge dogstatsd_contract d g"
  shows "gives dogstatsd_contract (k_gauge dogstatsd_contract) d (b_Gauge_With (dogstatsdProvider rnd) g ls d)"
    and "gives dogstatsd_contract (\<lambda>_ _. True) d (b_Gauge_Set (dogstatsdProvider rnd) g v d)"
    and "gives dogstatsd_contract (\<lambda>_ _. True) d (b_Gauge_Add (dogstatsdProvider rnd) g v d)"
proof -
  from assms(2) obtain a where g: "g = Some a" and a: "gauge_handle d a"
    by (auto simp: dogstatsd_contract_def split: option.splits)
  obtain d' r where w: "Dogstatsd_Gauge_With d a ls = (d', r)" by (rule prod.exhaust)
  from Dogstatsd_Gauge_With_props [OF assms(1) a w] obtain b where b: "r = Ret b" "dd_inv d'" "gauge_handle d' b"
    "\<And>c. gauge_handle d c \<Longrightarrow> gauge_handle d' c" by blast
  have "keeps dogstatsd_contract d d'" by (rule keeps_dogstatsd [OF b(2,4)])
  with b(3) show "gives dogstatsd_contract (k_gauge dogstatsd_contract) d (b_Gauge_With (dogstatsdProvider rnd) g ls d)"
    by (simp add: gives_def dogstatsdProvider_def g w b(1)) (simp add: dogstatsd_contract_def)
  show "gives dogstatsd_contract (\<lambda>_ _. True) d (b_Gauge_Set (dogstatsdProvider rnd) g v d)"
    using keeps_gauge_write [OF assms(1) dd_step.gauge_set [OF a, of v, unfolded Dogstatsd_Gauge_Set_def]]
    by (simp add: gives_def dogstatsdProvider_def g Dogstatsd_Gauge_Set_def touch_def Gauge_Set_def)
  show "gives dogstatsd_contract (\<lambda>_ _. True) d (b_Gauge_Add (dogstatsdProvider rnd) g v d)"
    using keeps_gauge_write [OF assms(1) dd_step.gauge_add [OF a, of v, unfolded Dogstatsd_Gauge_Add_def]]
    by (simp add: gives_def dogstatsdProvider_def g Dogstatsd_Gauge_Add_def touch_def Gauge_Add_def)
qed

interpretation dogstatsd_backend: metric_backend "dogstatsdProvider rnd" dogstatsd_contract dogstatsd_flush for rnd
proof (unfold_locales, goal_cases)
  case (1 d name buckets)
  then show ?case using dogstatsd_makes by (simp add: dogstatsd_contract_def)
next
  case (2 d c ls v)
  then show ?case
    by (auto simp: gives_def dogstatsdProvider_def Dogstatsd_Counter_Add_def dogstatsd_contract_def keeps_def dd_inv_def dd_With_def
        sampleObservations_wf sampleObservations_outcome_def Space_outcomes gauge_handle_def split: option.splits)
next
  case (3 d g ls v)
  then show ?case using dogstatsd_gauges by (simp add: dogstatsd_contract_def)
next
  case (4 d h ls v)
  then show ?case
    by (auto simp: gives_def dogstatsdProvider_def Dogstatsd_Histogram_Observe_def dogstatsd_contract_def keeps_def dd_inv_def dd_With_def
        sampleObservations_wf sampleObservations_outcome_def Space_outcomes gauge_handle_def split: option.splits)
next
  case (5 d d')
  then obtain nit it wr and w :: "nat \<times> string list" and st where f: "Tagged_WriteTo dogstatsd_formats nit it wr d w = (d', st)"
    and i: "dd_inv d" by (auto simp: dogstatsd_flush_def Dogstatsd_WriteTo_def dogstatsd_contract_def)
  from Tagged_WriteTo_inv [OF i f] Tagged_WriteTo_same_gauges [OF f] show ?case
    by (blast intro: keeps_dogstatsd gauge_handle_keeps)
qed

subsection \<open>Properties\<close>

lemma discard_never_panics: "never_panics NewDiscardProvider flush w0"
proof -
  let ?ok = "\<lambda>m. m \<in> {AnyCounter discard_counter, AnyGauge discard_gauge, AnyHistogram discard_histogram}"
  have "list_all ?ok ms" if "provider_run NewDiscardProvider flush w0 w ms" for w ms
    using that
  proof (induction rule: provider_run.induct)
    case (counter_with w ms c ls w' c')
    then have "?ok (AnyCounter c)" unfolding list_all_iff by blast
    with counter_with show ?case by simp
  next
    case (gauge_with w ms g ls w' g')
    then have "?ok (AnyGauge g)" unfolding list_all_iff by blast
    with gauge_with show ?case by simp
  next
    case (histogram_with w ms h ls w' h')
    then have "?ok (AnyHistogram h)" unfolding list_all_iff by blast
    with histogram_with show ?case by simp
  qed (simp_all add: NewDiscardProvider_def)
  then have "calls_return w m" if "provider_run NewDiscardProvider flush w0 w ms" "m \<in> set ms" for w ms m
    using that by (fastforce simp: list_all_iff returned_def)
  then show ?thesis by (auto simp: never_panics_def list_all_iff NewDiscardProvider_def returned_def)
qed

text \<open>C35: A program that gets its metrics from the provider of statsd, dogstatsd, influx or the discarding one may make
  metrics, label them with any list, even an odd one, and call them in any order, while the backend flushes and also after
  it stopped the provider: no call of any of them panics, although a space panics when it is given an odd number of labels.\<close>

theorem provider_calls_return:
  assumes "Dogstatsd_New prefix lvs = Ret d"
  shows "never_panics (NewStatsdProvider stop) (\<lambda>w w'. statsd_flush (fst w) (fst w')) (Statsd_New prefix, v)
    \<and> never_panics (NewDogstatsdProvider rnd stop) (\<lambda>w w'. dogstatsd_flush (fst w) (fst w')) (d, v)
    \<and> never_panics (NewInfluxProvider stop) (\<lambda>w w'. influx_flush q db (fst w) (fst w')) (Influx_New tags conf, v)
    \<and> never_panics NewDiscardProvider (\<lambda>w w'. True) v
    \<and> panicked (snd (Space_Observe sp name [k] x))"
  unfolding NewStatsdProvider_def NewDogstatsdProvider_def NewInfluxProvider_def
  by (intro conjI statsd_backend.provider_never_panics dogstatsd_backend.provider_never_panics
      influx_backend.provider_never_panics discard_never_panics)
    (use Dogstatsd_New_inv [OF assms] in \<open>simp_all add: statsd_contract_def dogstatsd_contract_def influx_contract_def
      Space_outcomes too_few_def\<close>)

theorem provider_calls_return_witness:
  "never_panics (NewDogstatsdProvider (1 / 2) id) (\<lambda>w w'. dogstatsd_flush (fst w) (fst w')) (dd_empty, ())"
proof -
  have "Dogstatsd_New ''p.'' [''env'', ''a''] = Ret dd_empty" by (simp add: Dogstatsd_New_def dd_empty_def RateMap_New_def)
  then show ?thesis by (rule provider_calls_return [THEN conjunct2, THEN conjunct1])
qed

text \<open>The provider of expvar is not like that: a name can be made once, and again it panics.\<close>

theorem expvar_provider_once:
  assumes "pr_NewCounter (NewExpvarProvider mk_hist add quantile) name w = (w', Ret c)"
  shows "pr_NewCounter (NewExpvarProvider mk_hist add quantile) name w' = (w', Panic ''Reuse of exported var name'')
    \<and> pr_NewGauge (NewExpvarProvider mk_hist add quantile) name w' = (w', Panic ''Reuse of exported var name'')"
  using assms
  by (cases w; cases "fst w")
    (auto simp: NewExpvarProvider_def provider_of_def expvarProvider_def on_object_def expvar_NewCounter_def expvar_NewGauge_def
      expvar_NewFloat_def update_conv' split: option.splits)

theorem expvar_provider_once_witness:
  "\<exists>w. pr_NewCounter (NewExpvarProvider (\<lambda>b. b) (\<lambda>h v. Ret h) (\<lambda>h q. q)) ''hits'' w = (w, Panic ''Reuse of exported var name'')"
proof -
  obtain w' c where "pr_NewCounter (NewExpvarProvider (\<lambda>b. b) (\<lambda>h v. Ret h) (\<lambda>h q. q)) ''hits'' (([], []), ()) = (w', Ret c)"
    by (simp add: NewExpvarProvider_def provider_of_def expvarProvider_def on_object_def expvar_NewCounter_def expvar_NewFloat_def)
  from expvar_provider_once [OF this] show ?thesis by blast
qed

text \<open>
  Nor is the provider of prometheus, whose vectors have no label names: its counters can be added to (what is not negative),
  but once a counter was given labels, every call of it panics.
\<close>

theorem prometheus_provider_labels:
  assumes "vec_law counters names val" and "\<And>opts ls. names (NewVec counters opts ls) = set ls"
    and "pr_NewCounter (NewPrometheusProvider counters gauges summaries namespace subsystem) name w = (w1, Ret c)"
    and "f64_le (F64 0) delta"
  shows "returned (mc_Add c delta w2) \<and> (\<exists>c'. mc_With c [k, x] w2 = (w2, Ret c') \<and> \<not> returned (mc_Add c' delta w3))"
proof -
  obtain vec where c: "c = counter_of (prometheus_backend counters gauges summaries \<lparr>pp_namespace = namespace, pp_subsystem = subsystem\<rparr>)
      (prom_NewCounter vec)" and vec: "names vec = {}"
    using assms(2,3) by (cases w) (auto simp: NewPrometheusProvider_def provider_of_def prometheus_backend_def on_object_def
        prom_NewCounterFrom_def register_vec_def Let_def split: prod.splits outcome.splits)
  have p: "Vec_With counters vec [] u = (u', r) \<Longrightarrow> \<exists>m u''. r = Ret m \<and> m_Add counters m delta u' = (u'', Ret ())" for u u' r
    using assms(1) [unfolded vec_law_def, rule_format, of "[]" vec u] vec assms(4) by auto
  have n: "\<exists>q. Vec_With counters vec [(k, x)] u = (u, Panic q)" for u
    using assms(1) [unfolded vec_law_def, rule_format, of "[(k, x)]" vec u] vec by simp
  obtain u1 m u2 where "Vec_With counters vec [] (fst w2) = (u1, Ret m)" "m_Add counters m delta u1 = (u2, Ret ())"
    using p [of "fst w2"] by (metis prod.exhaust)
  then have "returned (mc_Add c delta w2)"
    by (cases w2) (simp add: c prometheus_backend_def on_object_def prom_Counter_Add_def prom_NewCounter_def vec_call_def
        makeLabels_def returned_def)
  moreover have "\<not> returned (mc_Add (counter_of (prometheus_backend counters gauges summaries
        \<lparr>pp_namespace = namespace, pp_subsystem = subsystem\<rparr>) (prom_Counter_With (prom_NewCounter vec) [k, x])) delta w3)"
    using n [of "fst w3"] by (cases w3) (auto simp: prometheus_backend_def on_object_def prom_Counter_Add_def prom_Counter_With_def
        prom_NewCounter_def vec_call_def makeLabels_def lv_With_def pad_labels_def returned_def)
  ultimately show ?thesis by (cases w2) (auto simp: c prometheus_backend_def on_object_def)
qed

theorem prometheus_provider_labels_witness:
  "\<exists>w1 c c'. pr_NewCounter (NewPrometheusProvider mem_vecs mem_vecs mem_vecs ''ns'' ''sub'') ''hits'' (\<lambda>v m. F64 0, ()) = (w1, Ret c)
    \<and> mc_With c [''code'', ''200''] w1 = (w1, Ret c') \<and> \<not> returned (mc_Add c' (F64 1) w1)"
proof -
  obtain w1 c where m: "pr_NewCounter (NewPrometheusProvider mem_vecs mem_vecs mem_vecs ''ns'' ''sub'') ''hits'' (\<lambda>v m. F64 0, ()) = (w1, Ret c)"
    by (simp add: NewPrometheusProvider_def provider_of_def prometheus_backend_def on_object_def prom_NewCounterFrom_def register_vec_def
        mem_vecs_def)
  have le: "f64_le (F64 0) (F64 1)" by code_simp
  have "set (snd (NewVec mem_vecs opts ls)) = set ls" for opts :: prom_Opts and ls by (simp add: mem_vecs_def)
  from prometheus_provider_labels [OF mem_vecs_law this m le] m show ?thesis by blast
qed

end
