(* ===== verification/Registry.thy ===== *)
theory Registry
  imports Etcd3
begin

text \<open>
  Package sd/etcdv3, file instancer.go, and how registrars and instancers meet in a cluster. The cluster is a record of
  functions on its world; what registrars and instancers rely on is that it holds a map from keys to values, \<open>view\<close>.
  A registrar and an instancer have clients of their own, as in two processes. \<open>discovery_step\<close> interleaves whatever
  happens in the cluster with the goroutines of an instancer, its loop and its watch, and with its callers.
\<close>

subsection \<open>The instancer\<close>

text \<open>The answer of the client, at the start and in each pass of the loop, is the function \<open>kv_Get\<close> of that moment.\<close>

type_synonym kv_get = "string \<Rightarrow> go_error + (string \<times> string) list"

definition etcd3_NewInstancer :: "string \<Rightarrow> kv_get \<Rightarrow> (unit \<times> go_error evalue) option" where
  "etcd3_NewInstancer prefix kv_Get =
     (case etcd3_GetEntries kv_Get prefix of
        Inl err \<Rightarrow> Some ((), (None, Some err))
      | Inr instances \<Rightarrow> Some ((), (Some instances, None)))"

definition etcd3_loop :: "string \<Rightarrow> (unit, kv_get, go_error) loop_body" where
  "etcd3_loop prefix _ kv_Get =
     (case etcd3_GetEntries kv_Get prefix of
        Inl err \<Rightarrow> ((), Some (None, Some err))
      | Inr instances \<Rightarrow> ((), Some (Some instances, None)))"

lemma etcd3_loop_event: "etcd3_loop prefix l g = ((), Some (event_of (etcd3_GetEntries g prefix)))"
  by (simp add: etcd3_loop_def split: sum.splits)

lemma loop_pass_etcd3: "loop_pass (etcd3_loop prefix) g i = loop_pass etcd_loop (etcd3_GetEntries g prefix) i"
  by (simp add: loop_pass_def etcd3_loop_def etcd_loop_def)

interpretation etcd3: instancer_loop "etcd3_NewInstancer prefix" "\<lambda>_. True" "etcd3_loop prefix"
  "\<lambda>as l v. as \<noteq> [] \<and> v = sorted_value (event_of (etcd3_GetEntries (last as) prefix))"
  by unfold_locales (auto simp: etcd3_NewInstancer_def etcd3_loop_event split: sum.splits)

subsection \<open>The cluster\<close>

record 'w etcd_cluster =
  cl_Get :: "string \<Rightarrow> 'w \<Rightarrow> go_error + (string \<times> string) list"
  cl_Put :: "string \<Rightarrow> string \<Rightarrow> int \<Rightarrow> 'w \<Rightarrow> 'w \<times> go_error option"
  cl_Delete :: "string \<Rightarrow> 'w \<Rightarrow> 'w \<times> go_error option"
  cl_Grant :: "int \<Rightarrow> 'w \<Rightarrow> 'w \<times> (go_error + int)"
  cl_KeepAlive :: "int \<Rightarrow> 'w \<Rightarrow> 'w \<times> go_error option"

text \<open>
  A call that fails may have been carried out or not. Leases do not change the map while they are granted and kept alive;
  when one expires, the cluster removes keys, a change like any other.
\<close>

definition under :: "string \<Rightarrow> string set" where
  "under p = {k. take (length p) k = p}"

definition cluster_law :: "'w etcd_cluster \<Rightarrow> ('w \<Rightarrow> string \<rightharpoonup> string) \<Rightarrow> bool" where
  "cluster_law L view \<longleftrightarrow>
     (\<forall>p w kvs. cl_Get L p w = Inr kvs \<longrightarrow> distinct (map fst kvs) \<and> map_of kvs = view w |` under p)
   \<and> (\<forall>k v ID w w' err. cl_Put L k v ID w = (w', err) \<longrightarrow>
        view w' = (view w)(k \<mapsto> v) \<or> err \<noteq> None \<and> view w' = view w)
   \<and> (\<forall>k w w' err. cl_Delete L k w = (w', err) \<longrightarrow>
        view w' = (view w)(k := None) \<or> err \<noteq> None \<and> view w' = view w)
   \<and> (\<forall>n w. view (fst (cl_Grant L n w)) = view w) \<and> (\<forall>ID w. view (fst (cl_KeepAlive L ID w)) = view w)"

text \<open>What the calls that a client makes on its handles do to the cluster.\<close>

fun cluster_call :: "'w etcd_cluster \<Rightarrow> e3_event \<Rightarrow> 'w \<Rightarrow> 'w" where
  "cluster_call L (Grant l n) w = fst (cl_Grant L n w)"
| "cluster_call L (PutKey k v ID) w = fst (cl_Put L k v ID w)"
| "cluster_call L (KeepAlive l ID) w = fst (cl_KeepAlive L ID w)"
| "cluster_call L (DeleteKey k) w = fst (cl_Delete L k w)"
| "cluster_call L _ w = w"

definition new_calls :: "etcd3_client \<Rightarrow> etcd3_client \<Rightarrow> e3_event list" where
  "new_calls c c' = drop (length (e3_trace c)) (e3_trace c')"

text \<open>
  \<open>Register\<close> and \<open>Deregister\<close> of a client on the cluster: each answer is that of the world that the calls before it have left.
\<close>

definition lease_seconds :: "(float64 \<Rightarrow> int) \<Rightarrow> 'd etcd_Service \<Rightarrow> int" where
  "lease_seconds impl s =
     f64_to_int64 impl (Duration_Seconds (ttl (case es_TTL s of None \<Rightarrow> NewTTLOption (Second * 3) (Second * 10) | Some t \<Rightarrow> t)))"

definition register_on :: "'w etcd_cluster \<Rightarrow> (float64 \<Rightarrow> int) \<Rightarrow> 'd etcd_Service \<Rightarrow> etcd3_client \<Rightarrow> 'w \<Rightarrow> 'w \<times> etcd3_client \<times> go_error option" where
  "register_on L impl s c w =
     (let (w1, granted) = cl_Grant L (lease_seconds impl s) w;
          ID = (case granted of Inl _ \<Rightarrow> 0 | Inr ID \<Rightarrow> ID);
          (w2, put_err) = cl_Put L (es_Key s) (es_Value s) ID w1;
          (w3, alive_err) = cl_KeepAlive L ID w2;
          (c', err) = etcd3_Register impl granted put_err alive_err s c
      in (fold (cluster_call L) (new_calls c c') w, c', err))"

definition deregister_on :: "'w etcd_cluster \<Rightarrow> 'd etcd_Service \<Rightarrow> etcd3_client \<Rightarrow> 'w \<Rightarrow> 'w \<times> etcd3_client \<times> go_error option" where
  "deregister_on L s c w =
     (let (w1, delete_err) = cl_Delete L (es_Key s) w;
          (c', err) = etcd3_Deregister delete_err s c
      in (fold (cluster_call L) (new_calls c c') w, c', err))"

text \<open>The calls of \<open>Register\<close>: those that reopen the handles change nothing in the cluster.\<close>

definition reopening :: "etcd3_client \<Rightarrow> e3_event list" where
  "reopening c = new_calls c (e3_reopened c)"

lemma reopening_calls: "fold (cluster_call L) (reopening c) w = w"
  by (cases "e3_leaser c"; cases "e3_watcher c")
    (simp_all add: reopening_def new_calls_def e3_reopened_def e3_new_lease_def e3_new_watcher_def etcd3_close_leaser_def
      etcd3_close_watcher_def)

lemma e3_trace_reopened: "e3_trace (e3_reopened c) = e3_trace c @ reopening c"
  by (cases "e3_leaser c"; cases "e3_watcher c")
    (simp_all add: reopening_def new_calls_def e3_reopened_def e3_new_lease_def e3_new_watcher_def etcd3_close_leaser_def
      etcd3_close_watcher_def)

lemma etcd3_Register_calls:
  assumes "es_Key s \<noteq> ''''" and "es_Value s \<noteq> ''''"
  shows "\<exists>l. new_calls c (fst (etcd3_Register impl granted put_err alive_err s c)) = reopening c @ Grant l (lease_seconds impl s)
      # (case granted of Inl _ \<Rightarrow> [] | Inr ID \<Rightarrow> PutKey (es_Key s) (es_Value s) ID # (if put_err \<noteq> None then [] else [KeepAlive l ID]))"
    and "snd (etcd3_Register impl granted put_err alive_err s c)
      = (case granted of Inl err \<Rightarrow> Some err | Inr _ \<Rightarrow> if put_err \<noteq> None then put_err else alive_err)"
proof -
  let ?l = "e3_next (etcd3_close_leaser c)"
  have r: "etcd3_Register impl granted put_err alive_err s c =
      (let c5 = e3_call (Grant ?l (lease_seconds impl s)) (e3_reopened c)
       in case granted of
            Inl err \<Rightarrow> (c5, Some err)
          | Inr ID \<Rightarrow>
              (let c6 = e3_call (PutKey (es_Key s) (es_Value s) ID) (c5\<lparr>e3_leaseID := ID\<rparr>) in
               if put_err \<noteq> None then (c6, put_err) else (e3_call (KeepAlive ?l ID) c6, alive_err)))"
    unfolding etcd3_Register_def e3_reopened_def e3_new_lease_def e3_new_watcher_def Let_def lease_seconds_def
    using assms by simp
  show "\<exists>l. new_calls c (fst (etcd3_Register impl granted put_err alive_err s c)) = reopening c @ Grant l (lease_seconds impl s)
      # (case granted of Inl _ \<Rightarrow> [] | Inr ID \<Rightarrow> PutKey (es_Key s) (es_Value s) ID # (if put_err \<noteq> None then [] else [KeepAlive l ID]))"
    by (rule exI [of _ ?l]) (simp add: r new_calls_def e3_trace_reopened Let_def split: sum.splits)
  show "snd (etcd3_Register impl granted put_err alive_err s c)
      = (case granted of Inl err \<Rightarrow> Some err | Inr _ \<Rightarrow> if put_err \<noteq> None then put_err else alive_err)"
    by (simp add: r Let_def split: sum.splits)
qed

lemma register_on_view:
  assumes "cluster_law L view" and "register_on L impl s c w = (w', c', err)"
  shows "view w' = (view w)(es_Key s \<mapsto> es_Value s) \<and> es_Key s \<noteq> '''' \<and> es_Value s \<noteq> '''' \<or> err \<noteq> None \<and> view w' = view w"
proof -
  obtain w1 granted where g: "cl_Grant L (lease_seconds impl s) w = (w1, granted)" by (rule prod.exhaust)
  define ID where "ID = (case granted of Inl _ \<Rightarrow> 0 | Inr ID \<Rightarrow> ID)"
  obtain w2 put_err where p: "cl_Put L (es_Key s) (es_Value s) ID w1 = (w2, put_err)" by (rule prod.exhaust)
  obtain w3 alive_err where k: "cl_KeepAlive L ID w2 = (w3, alive_err)" by (rule prod.exhaust)
  have "view (fst (cl_Grant L (lease_seconds impl s) w)) = view w" "view (fst (cl_KeepAlive L ID w2)) = view w2"
    using assms(1) by (simp_all add: cluster_law_def)
  moreover have "view w2 = (view w1)(es_Key s \<mapsto> es_Value s) \<or> put_err \<noteq> None \<and> view w2 = view w1"
    using assms(1) p unfolding cluster_law_def by blast
  ultimately have v: "view w1 = view w" "view w3 = view w2"
    "view w2 = (view w)(es_Key s \<mapsto> es_Value s) \<or> put_err \<noteq> None \<and> view w2 = view w" by (simp_all add: g k)
  obtain c2 err2 where r: "etcd3_Register impl granted put_err alive_err s c = (c2, err2)" by (rule prod.exhaust)
  have w': "w' = fold (cluster_call L) (new_calls c c2) w" "err = err2"
    using assms(2) by (auto simp: register_on_def g p k r Let_def ID_def [symmetric])
  show ?thesis
  proof (cases "es_Key s = '''' \<or> es_Value s = ''''")
    case True
    then obtain e where "etcd3_Register impl granted put_err alive_err s c = (c, Some e)"
      by (cases "es_Key s = ''''") (simp_all add: etcd3_Register_def)
    with w' r show ?thesis by (auto simp: new_calls_def)
  next
    case False
    from False etcd3_Register_calls [where s = s and c = c and impl = impl and granted = granted and put_err = put_err and alive_err = alive_err]
    obtain l where l: "new_calls c c2 = reopening c @ Grant l (lease_seconds impl s)
        # (case granted of Inl _ \<Rightarrow> [] | Inr ID \<Rightarrow> PutKey (es_Key s) (es_Value s) ID # (if put_err \<noteq> None then [] else [KeepAlive l ID]))"
      "err2 = (case granted of Inl err \<Rightarrow> Some err | Inr _ \<Rightarrow> if put_err \<noteq> None then put_err else alive_err)" by (auto simp: r)
    show ?thesis
    proof (cases granted)
      case (Inl e)
      then show ?thesis using w' l v(1) by (simp add: reopening_calls g)
    next
      case (Inr ID')
      then have "ID' = ID" by (simp add: ID_def)
      then show ?thesis using Inr w' l v False by (auto simp: reopening_calls g p k)
    qed
  qed
qed

text \<open>The calls of \<open>close\<close> change nothing either.\<close>

definition closing :: "etcd3_client \<Rightarrow> e3_event list" where
  "closing c = map CloseLease (case e3_leaser c of None \<Rightarrow> [] | Some l \<Rightarrow> [l])
     @ map CloseWatcher (case e3_watcher c of None \<Rightarrow> [] | Some l \<Rightarrow> [l])
     @ map CancelWatch (case e3_wcf c of None \<Rightarrow> [] | Some l \<Rightarrow> [l])"

lemma closing_calls: "fold (cluster_call L) (closing c) w = w"
  by (simp add: closing_def split: option.splits)

lemma etcd3_close_trace: "e3_trace (etcd3_close c) = e3_trace c @ closing c"
proof -
  have l: "e3_trace (etcd3_close_leaser c) = e3_trace c @ map CloseLease (case e3_leaser c of None \<Rightarrow> [] | Some l \<Rightarrow> [l])"
    "e3_watcher (etcd3_close_leaser c) = e3_watcher c" "e3_wcf (etcd3_close_leaser c) = e3_wcf c" for c
    by (simp_all add: etcd3_close_leaser_def split: option.splits)
  have w: "e3_trace (etcd3_close_watcher c) = e3_trace c @ map CloseWatcher (case e3_watcher c of None \<Rightarrow> [] | Some l \<Rightarrow> [l])"
    "e3_wcf (etcd3_close_watcher c) = e3_wcf c" for c
    by (simp_all add: etcd3_close_watcher_def split: option.splits)
  show ?thesis
    by (cases "e3_wcf c") (simp_all add: etcd3_close_def closing_def l w)
qed

lemma closing_call [simp]: "closing (e3_call ev c) = closing c"
  by (simp add: closing_def)

lemma deregister_on_view:
  assumes "cluster_law L view" and "deregister_on L s c w = (w', c', err)"
  shows "view w' = (view w)(es_Key s := None) \<or> err \<noteq> None \<and> view w' = view w"
proof -
  obtain w1 delete_err where d: "cl_Delete L (es_Key s) w = (w1, delete_err)" by (rule prod.exhaust)
  have v: "view w1 = (view w)(es_Key s := None) \<or> delete_err \<noteq> None \<and> view w1 = view w"
    using assms(1) d unfolding cluster_law_def by blast
  have n: "fold (cluster_call L) (new_calls c (etcd3_close (e3_call (DeleteKey k) c))) w = fst (cl_Delete L k w)"
      "fold (cluster_call L) (new_calls c (etcd3_close c)) w = w" for c k w
    by (simp_all add: new_calls_def etcd3_close_trace closing_calls)
  show ?thesis
    using assms(2) v by (auto simp: deregister_on_def d etcd3_Deregister_def n split: if_splits)
qed

subsection \<open>An instancer in the cluster\<close>

text \<open>
  The state: the world of the cluster; the events under the prefix that the watch has not reported yet; where \<open>WatchPrefix\<close>
  is; where the loop is, which waits for a signal, asks for the entries or has an answer to publish; and the instancer. Both
  goroutines start with the constructor. An answer is the function \<open>kv_Get\<close> of the moment in which it was given.

  The watch reports the events that happen after its start. Anything may happen to the world; if it is no event, as when
  the cluster cannot be reached for a while, it leaves the keys under the prefix as they are.
\<close>

datatype loop_at = Selecting | Asking | Answered kv_get

record 'w discovery =
  dy_world :: 'w
  dy_changes :: nat
  dy_watch :: watch
  dy_loop :: loop_at
  dy_inst :: "(unit, go_error) instancer"

definition start_discovery :: "'w etcd_cluster \<Rightarrow> string \<Rightarrow> (chan list \<Rightarrow> chan list) \<Rightarrow> 'w \<Rightarrow> 'w discovery" where
  "start_discovery L prefix it w =
     (case etcd3_NewInstancer prefix (\<lambda>p. cl_Get L p w) of
        Some (l, event) \<Rightarrow> \<lparr>dy_world = w, dy_changes = 0, dy_watch = WatchStarting, dy_loop = Selecting,
          dy_inst = new_instancer it l event\<rparr>)"

definition same_keys :: "('w \<Rightarrow> string \<rightharpoonup> string) \<Rightarrow> string \<Rightarrow> 'w \<Rightarrow> 'w \<Rightarrow> bool" where
  "same_keys view prefix w w' \<longleftrightarrow> view w |` under prefix = view w' |` under prefix"

inductive discovery_step :: "'w etcd_cluster \<Rightarrow> ('w \<Rightarrow> string \<rightharpoonup> string) \<Rightarrow> string \<Rightarrow> 'w discovery \<Rightarrow> 'w discovery \<Rightarrow> bool"
  for L view prefix where
  cluster_changes: "discovery_step L view prefix d
    (d\<lparr>dy_world := w, dy_changes := (if dy_watch d = WatchStarting then dy_changes d else dy_changes d + 1)\<rparr>)"
| cluster_drifts: "same_keys view prefix (dy_world d) w \<Longrightarrow> discovery_step L view prefix d (d\<lparr>dy_world := w\<rparr>)"
| watch_starts: "dy_watch d = WatchStarting \<Longrightarrow> discovery_step L view prefix d (d\<lparr>dy_watch := Signalling\<rparr>)"
| watch_reports: "dy_watch d = Watching \<Longrightarrow> dy_changes d = Suc n \<Longrightarrow>
    discovery_step L view prefix d (d\<lparr>dy_changes := n, dy_watch := etcd3_watch_next (Some False)\<rparr>)"
| watch_ends: "dy_watch d = Watching \<Longrightarrow> wr = None \<or> wr = Some True \<Longrightarrow>
    discovery_step L view prefix d (d\<lparr>dy_watch := etcd3_watch_next wr\<rparr>)"
| signals: "dy_watch d = Signalling \<Longrightarrow> dy_loop d = Selecting \<Longrightarrow> in_looping (dy_inst d) \<Longrightarrow>
    discovery_step L view prefix d (d\<lparr>dy_watch := Watching, dy_loop := Asking\<rparr>)"
| asks: "dy_loop d = Asking \<Longrightarrow>
    discovery_step L view prefix d (d\<lparr>dy_loop := Answered (\<lambda>p. cl_Get L p (dy_world d))\<rparr>)"
| publishes: "dy_loop d = Answered kv_Get \<Longrightarrow> loop_pass (etcd3_loop prefix) kv_Get (dy_inst d) = (i, out) \<Longrightarrow>
    discovery_step L view prefix d (d\<lparr>dy_loop := Selecting, dy_inst := i\<rparr>)"
| registers: "Instancer_Register ch (dy_inst d) = (i, out) \<Longrightarrow> discovery_step L view prefix d (d\<lparr>dy_inst := i\<rparr>)"
| deregisters: "discovery_step L view prefix d (d\<lparr>dy_inst := Instancer_Deregister ch (dy_inst d)\<rparr>)"
| stops: "Instancer_Stop (dy_inst d) = (i, Ret ()) \<Longrightarrow> discovery_step L view prefix d (d\<lparr>dy_inst := i\<rparr>)"
| loop_ends: "dy_loop d = Selecting \<Longrightarrow> in_quit (dy_inst d) \<Longrightarrow> in_looping (dy_inst d) \<Longrightarrow>
    discovery_step L view prefix d (d\<lparr>dy_inst := (dy_inst d)\<lparr>in_looping := False\<rparr>\<rparr>)"

definition discovering :: "'w etcd_cluster \<Rightarrow> ('w \<Rightarrow> string \<rightharpoonup> string) \<Rightarrow> string \<Rightarrow> (chan list \<Rightarrow> chan list) \<Rightarrow> 'w discovery \<Rightarrow> bool" where
  "discovering L view prefix it d \<longleftrightarrow> (\<exists>w. (discovery_step L view prefix)\<^sup>*\<^sup>* (start_discovery L prefix it w) d)"

definition quiet :: "'w discovery \<Rightarrow> bool" where
  "quiet d \<longleftrightarrow> dy_watch d = Watching \<and> dy_changes d = 0 \<and> dy_loop d = Selecting"

definition entries_of :: "'w etcd_cluster \<Rightarrow> string \<Rightarrow> 'w \<Rightarrow> go_error + string list" where
  "entries_of L prefix w = etcd3_GetEntries (\<lambda>p. cl_Get L p w) prefix"

text \<open>When no event is outstanding, what the loop has published or is about to is an answer about the present keys.\<close>

fun answer_current :: "'w etcd_cluster \<Rightarrow> ('w \<Rightarrow> string \<rightharpoonup> string) \<Rightarrow> string \<Rightarrow> 'w discovery \<Rightarrow> loop_at \<Rightarrow> bool" where
  "answer_current L view prefix d Selecting \<longleftrightarrow> (\<exists>w. same_keys view prefix w (dy_world d)
     \<and> source_value (in_source (dy_inst d)) = sorted_value (event_of (entries_of L prefix w)))"
| "answer_current L view prefix d Asking \<longleftrightarrow> True"
| "answer_current L view prefix d (Answered kv_Get) \<longleftrightarrow>
     (\<exists>w. same_keys view prefix w (dy_world d) \<and> kv_Get = (\<lambda>p. cl_Get L p w))"

definition discovery_inv :: "'w etcd_cluster \<Rightarrow> ('w \<Rightarrow> string \<rightharpoonup> string) \<Rightarrow> string \<Rightarrow> 'w discovery \<Rightarrow> bool" where
  "discovery_inv L view prefix d \<longleftrightarrow> (\<exists>sent. in_step (dy_inst d) sent)
     \<and> (dy_watch d = Watching \<and> dy_changes d = 0 \<longrightarrow> answer_current L view prefix d (dy_loop d))"

lemma same_keys_simps [simp]: "same_keys view prefix w w"
  "same_keys view prefix a b \<Longrightarrow> same_keys view prefix b c \<Longrightarrow> same_keys view prefix a c"
  by (simp_all add: same_keys_def)

text \<open>A step that keeps the world and the loop and the published value keeps the answer current; so does a drift.\<close>

lemma answer_current_cong:
  assumes "answer_current L view prefix d (dy_loop d)" and "same_keys view prefix (dy_world d) (dy_world d')" and "dy_loop d' = dy_loop d"
    and "source_value (in_source (dy_inst d')) = source_value (in_source (dy_inst d))"
  shows "answer_current L view prefix d' (dy_loop d')"
  using assms by (cases "dy_loop d") (auto intro: same_keys_simps(2))

lemma discovery_inv_instancer:
  assumes "discovery_inv L view prefix d" and "\<exists>sent. in_step i sent"
    and "source_value (in_source i) = source_value (in_source (dy_inst d))"
  shows "discovery_inv L view prefix (d\<lparr>dy_inst := i\<rparr>)"
  using assms answer_current_cong [of L view prefix d "d\<lparr>dy_inst := i\<rparr>"] by (simp add: discovery_inv_def)

lemma Instancer_Deregister_step:
  assumes "in_step i sent"
  shows "in_step (Instancer_Deregister ch i) sent \<and> source_value (in_source (Instancer_Deregister ch i)) = source_value (in_source i)"
proof -
  have "source_inv (in_source i)" using assms by (simp add: in_step_def)
  from source_unlisten_law [OF this, of ch] in_step_op [OF assms, of "Unlisten ch"] show ?thesis
    by (simp add: Instancer_Deregister_def)
qed

lemma in_step_flags [simp]: "in_step (s\<lparr>in_quit := b\<rparr>) sent = in_step s sent" "in_step (s\<lparr>in_looping := b\<rparr>) sent = in_step s sent"
  by (simp_all add: in_step_def)

lemma discovery_step_inv: "discovery_step L view prefix d d' \<Longrightarrow> discovery_inv L view prefix d \<Longrightarrow> discovery_inv L view prefix d'"
proof (induction rule: discovery_step.induct)
  case (cluster_drifts d w)
  with answer_current_cong [of L view prefix d "d\<lparr>dy_world := w\<rparr>"] show ?case by (simp add: discovery_inv_def)
next
  case (publishes d kv_Get i out)
  then obtain sent where "in_step (dy_inst d) sent" by (auto simp: discovery_inv_def)
  note pass = loop_pass_etcd [OF this publishes(2) [unfolded loop_pass_etcd3]]
  with publishes(1,3) show ?case by (fastforce simp: discovery_inv_def entries_of_def)
next
  case (registers ch d i out)
  then obtain sent where "in_step (dy_inst d) sent" by (auto simp: discovery_inv_def)
  from Instancer_Register_step [OF this registers(1)] registers(2) show ?case by (blast intro: discovery_inv_instancer)
next
  case (deregisters d ch)
  then obtain sent where "in_step (dy_inst d) sent" by (auto simp: discovery_inv_def)
  from Instancer_Deregister_step [OF this, of ch] deregisters show ?case by (blast intro: discovery_inv_instancer)
next
  case (stops d i)
  then have "i = (dy_inst d)\<lparr>in_quit := True\<rparr>" by (simp add: Instancer_Stop_def split: if_splits)
  with stops(2) show ?case by (intro discovery_inv_instancer) (auto simp: discovery_inv_def)
next
  case (loop_ends d)
  then show ?case by (intro discovery_inv_instancer) (auto simp: discovery_inv_def)
next
  case (asks d)
  then have "answer_current L view prefix d (Answered (\<lambda>p. cl_Get L p (dy_world d)))"
    by (auto intro: exI [of _ "dy_world d"])
  with asks(2) show ?case by (simp add: discovery_inv_def)
next
  case (watch_reports d n)
  then show ?case by (auto simp: discovery_inv_def etcd3_watch_next_def)
next
  case (watch_ends d wr)
  then show ?case by (auto simp: discovery_inv_def etcd3_watch_next_def)
qed (auto simp: discovery_inv_def)

lemma start_discovery_inv: "iterates it \<Longrightarrow> discovery_inv L view prefix (start_discovery L prefix it w)"
  using in_step_new [of it "()"]
  by (cases "etcd3_GetEntries (\<lambda>p. cl_Get L p w) prefix")
    (auto simp: start_discovery_def discovery_inv_def etcd3_NewInstancer_def)

lemma discovery_steps_inv:
  "(discovery_step L view prefix)\<^sup>*\<^sup>* d d' \<Longrightarrow> discovery_inv L view prefix d \<Longrightarrow> discovery_inv L view prefix d'"
  by (induction rule: rtranclp_induct) (auto intro: discovery_step_inv)

lemma discovering_inv:
  assumes "discovering L view prefix it d" and "iterates it"
  shows "discovery_inv L view prefix d"
proof -
  from assms(1) obtain w where "(discovery_step L view prefix)\<^sup>*\<^sup>* (start_discovery L prefix it w) d" by (auto simp: discovering_def)
  from discovery_steps_inv [OF this start_discovery_inv [OF assms(2)]] show ?thesis .
qed

lemma entries_values:
  assumes "cluster_law L view" and "entries_of L prefix w = Inr vs"
  shows "set vs = ran (view w |` under prefix)"
proof -
  obtain kvs where g: "cl_Get L prefix w = Inr kvs" and vs: "vs = map snd kvs"
    using assms(2) by (auto simp: entries_of_def etcd3_GetEntries_def split: sum.splits)
  with assms(1) have k: "distinct (map fst kvs)" "map_of kvs = view w |` under prefix" unfolding cluster_law_def by blast+
  show ?thesis using ran_distinct [OF k(1)] by (simp add: vs flip: k(2))
qed

lemma quiet_value:
  assumes "cluster_law L view" and "discovering L view prefix it d" and "iterates it" and "quiet d"
  shows "(\<exists>xs. source_value (in_source (dy_inst d)) = (Some xs, None) \<and> set xs = ran (view (dy_world d) |` under prefix) \<and> sorted xs)
    \<or> (\<exists>err w. source_value (in_source (dy_inst d)) = (None, Some err) \<and> entries_of L prefix w = Inl err
        \<and> same_keys view prefix w (dy_world d))"
proof -
  from discovering_inv [OF assms(2,3)] assms(4) obtain w where w: "same_keys view prefix w (dy_world d)"
    "source_value (in_source (dy_inst d)) = sorted_value (event_of (entries_of L prefix w))"
    by (auto simp: discovery_inv_def quiet_def)
  show ?thesis
  proof (cases "entries_of L prefix w")
    case (Inr vs)
    from entries_values [OF assms(1) this] w(1) have "set vs = ran (view (dy_world d) |` under prefix)" by (simp add: same_keys_def)
    with w(2) Inr show ?thesis by simp
  next
    case (Inl err)
    with w show ?thesis by auto
  qed
qed

subsection \<open>Properties\<close>

text \<open>C38: Registrars and an instancer meet in the map of the cluster: \<open>Register\<close> puts the value of a service under its key,
  \<open>Deregister\<close> removes the key, and a call that returns an error may have changed nothing; and however registrars, the cluster and
  the goroutines interleave, once the events have been reported and both the watch and the loop wait, the instancer publishes
  exactly the values of the keys under its prefix, sorted, or, if its last query has failed, the error of that query.\<close>

theorem registered_is_discovered:
  assumes "cluster_law L view" and "discovering L view prefix it d" and "iterates it" and "quiet d"
  shows "((\<exists>xs. source_value (in_source (dy_inst d)) = (Some xs, None) \<and> set xs = ran (view (dy_world d) |` under prefix) \<and> sorted xs)
      \<or> (\<exists>err w. source_value (in_source (dy_inst d)) = (None, Some err) \<and> entries_of L prefix w = Inl err
          \<and> same_keys view prefix w (dy_world d)))
    \<and> (register_on L impl s c w = (w', c', err) \<longrightarrow>
         view w' = (view w)(es_Key s \<mapsto> es_Value s) \<or> err \<noteq> None \<and> view w' = view w)
    \<and> (deregister_on L s c w = (w', c', err) \<longrightarrow> view w' = (view w)(es_Key s := None) \<or> err \<noteq> None \<and> view w' = view w)"
  using quiet_value [OF assms] register_on_view [OF assms(1)] deregister_on_view [OF assms(1)] by blast

text \<open>A cluster in memory, a list of keys and values.\<close>

definition mem_cluster :: "(string \<times> string) list etcd_cluster" where
  "mem_cluster = \<lparr>cl_Get = \<lambda>p w. Inr (AList.restrict (under p) (AList.clearjunk w)), cl_Put = \<lambda>k v ID w. (AList.update k v w, None),
     cl_Delete = \<lambda>k w. (AList.delete k w, None), cl_Grant = \<lambda>n w. (w, Inr 7), cl_KeepAlive = \<lambda>ID w. (w, None)\<rparr>"

lemma mem_cluster_law: "cluster_law mem_cluster map_of"
  by (simp add: cluster_law_def mem_cluster_def update_conv' delete_conv' restr_conv' distinct_restr distinct_clearjunk map_of_clearjunk)

theorem registered_is_discovered_witness:
  "\<exists>d w' c'. register_on mem_cluster (\<lambda>_. 0) \<lparr>es_Key = ''/svc/1'', es_Value = ''a:80'', es_TTL = None, es_DeleteOptions = ()\<rparr> e3_fresh []
      = (w', c', None)
    \<and> discovering mem_cluster map_of ''/svc/'' (\<lambda>xs. xs) d \<and> dy_world d = w'
    \<and> (\<exists>xs. source_value (in_source (dy_inst d)) = (Some xs, None) \<and> set xs = {''a:80''})"
proof -
  let ?s = "\<lparr>es_Key = ''/svc/1'', es_Value = ''a:80'', es_TTL = None, es_DeleteOptions = ()\<rparr> :: unit etcd_Service"
  let ?L = mem_cluster and ?p = "''/svc/''"
  obtain w' c' err where r: "register_on ?L (\<lambda>_. 0) ?s e3_fresh [] = (w', c', err)" by (rule prod_cases3)
  have w: "w' = [(''/svc/1'', ''a:80'')]" "err = None"
    using r by (auto simp: register_on_def mem_cluster_def etcd3_Register_def e3_fresh_def etcd3_close_leaser_def
        etcd3_close_watcher_def new_calls_def Let_def)
  let ?d0 = "start_discovery ?L ?p (\<lambda>xs. xs) w'"
  have d0: "dy_watch ?d0 = WatchStarting" "dy_loop ?d0 = Selecting" "in_looping (dy_inst ?d0)" "dy_world ?d0 = w'" "dy_changes ?d0 = 0"
    by (simp_all add: start_discovery_def etcd3_NewInstancer_def new_instancer_def split: sum.splits)
  let ?get = "\<lambda>p. cl_Get ?L p w'"
  obtain i out where i: "loop_pass (etcd3_loop ?p) ?get (dy_inst ?d0) = (i, out)" by (rule prod.exhaust)
  let ?d1 = "?d0\<lparr>dy_watch := Signalling\<rparr>" and ?step = "discovery_step ?L map_of ?p"
  let ?d2 = "?d1\<lparr>dy_watch := Watching, dy_loop := Asking\<rparr>"
  let ?d3 = "?d2\<lparr>dy_loop := Answered ?get\<rparr>"
  let ?e4 = "?d3\<lparr>dy_loop := Selecting, dy_inst := i\<rparr>"
  have "?step ?d0 ?d1" using d0(1) by (rule watch_starts)
  moreover have "?step ?d1 ?d2" by (rule signals) (simp_all add: d0)
  moreover have "dy_loop ?d2 = Asking" by simp
  from asks [OF this, of ?L map_of ?p] have "?step ?d2 ?d3" by (simp add: d0)
  moreover have "?step ?d3 ?e4" by (rule publishes) (use i in simp_all)
  ultimately have "?step\<^sup>*\<^sup>* ?d0 ?e4" by (meson converse_rtranclp_into_rtranclp r_into_rtranclp)
  then have d: "discovering ?L map_of ?p (\<lambda>xs. xs) ?e4" unfolding discovering_def by blast
  have q: "quiet ?e4" by (simp add: quiet_def d0)
  have "dy_world ?e4 = [(''/svc/1'', ''a:80'')]" using d0(4) w(1) by simp
  then have r1: "ran (map_of (dy_world ?e4) |` under ?p) = {''a:80''}" by (auto simp: under_def ran_def restrict_map_def)
  have e: "entries_of ?L ?p w \<noteq> Inl err" for w err by (simp add: entries_of_def etcd3_GetEntries_def mem_cluster_def)
  note found = conjunct1 [OF registered_is_discovered [OF mem_cluster_law d iterates_id q]]
  have "\<exists>xs. source_value (in_source (dy_inst ?e4)) = (Some xs, None) \<and> set xs = ran (map_of (dy_world ?e4) |` under ?p)"
    using found
  proof
    assume "\<exists>err w. source_value (in_source (dy_inst ?e4)) = (None, Some err) \<and> entries_of ?L ?p w = Inl err
        \<and> same_keys map_of ?p w (dy_world ?e4)"
    with e show ?thesis by (elim exE conjE) (rule notE)
  qed (elim exE conjE, intro exI conjI)
  then have f: "\<exists>xs. source_value (in_source (dy_inst ?e4)) = (Some xs, None) \<and> set xs = {''a:80''}" unfolding r1 .
  have "dy_world ?e4 = w'" using d0(4) by simp
  with d r w(2) f show ?thesis by (intro exI [of _ ?e4] exI [of _ w'] exI [of _ c'] conjI) simp_all
qed

text \<open>\<open>Stop\<close> ends the loop but not the watch: \<open>WatchPrefix\<close> blocks when it next signals, for ever, with its watcher open.\<close>

theorem etcd3_stop_leaks_watch:
  assumes "\<not> in_looping (dy_inst d)" and "dy_watch d = Signalling" and "dy_loop d = Selecting"
    and "(discovery_step L view prefix)\<^sup>*\<^sup>* d d'"
  shows "dy_watch d' = Signalling"
proof -
  from assms(4) have "dy_watch d' = Signalling \<and> \<not> in_looping (dy_inst d') \<and> dy_loop d' = Selecting"
  proof (induction rule: rtranclp_induct)
    case (step d' d'')
    from step(2,3) show ?case
      by (cases rule: discovery_step.cases)
        (auto simp: Instancer_Register_def Instancer_Deregister_def Instancer_Stop_def split: prod.splits if_splits)
  qed (simp add: assms)
  then show ?thesis ..
qed

theorem etcd3_stop_leaks_watch_witness:
  "\<exists>d. discovering mem_cluster map_of ''/svc/'' (\<lambda>xs. xs) d \<and> \<not> in_looping (dy_inst d)
     \<and> (\<forall>d'. (discovery_step mem_cluster map_of ''/svc/'')\<^sup>*\<^sup>* d d' \<longrightarrow> dy_watch d' = Signalling)"
proof -
  let ?d0 = "start_discovery mem_cluster ''/svc/'' (\<lambda>xs. xs) []"
  have d0: "dy_watch ?d0 = WatchStarting" "dy_loop ?d0 = Selecting" "in_looping (dy_inst ?d0)" "\<not> in_quit (dy_inst ?d0)"
    by (simp_all add: start_discovery_def etcd3_NewInstancer_def new_instancer_def split: sum.splits)
  let ?d1 = "?d0\<lparr>dy_watch := Signalling\<rparr>" and ?step = "discovery_step mem_cluster map_of ''/svc/''"
  let ?d2 = "?d1\<lparr>dy_inst := (dy_inst ?d0)\<lparr>in_quit := True\<rparr>\<rparr>"
  let ?d3 = "?d2\<lparr>dy_inst := (dy_inst ?d2)\<lparr>in_looping := False\<rparr>\<rparr>"
  have "?step ?d0 ?d1" by (rule watch_starts) (rule d0)
  moreover have "?step ?d1 ?d2" by (rule stops) (simp add: Instancer_Stop_def d0)
  moreover have "?step ?d2 ?d3" by (rule loop_ends) (simp_all add: d0)
  ultimately have "?step\<^sup>*\<^sup>* ?d0 ?d3" by (meson converse_rtranclp_into_rtranclp r_into_rtranclp)
  then have r: "discovering mem_cluster map_of ''/svc/'' (\<lambda>xs. xs) ?d3" unfolding discovering_def by blast
  have n: "\<not> in_looping (dy_inst ?d3)" "dy_watch ?d3 = Signalling" "dy_loop ?d3 = Selecting" by (simp_all add: d0)
  show ?thesis by (intro exI [of _ ?d3] conjI r n(1) allI impI etcd3_stop_leaks_watch [OF n])
qed

end
