(* ===== verification/Teststat.thy ===== *)
theory Teststat
  imports Provider
begin

text \<open>
  Package metrics/teststat: the tests that the backends of the repository are checked with. They put random values
  through a metric and compare what the metric reports with what it should. The random numbers are arguments: the
  permutation of \<open>rand.Perm(100)\<close>, the number of \<open>rand.Intn\<close>, the samples of \<open>NormFloat64\<close>. The functions of package
  math that are not arithmetic are a record; regular expressions and \<open>ParseFloat\<close> are arguments. A test returns no error or
  one, whose text is not modelled; lines are taken to be shorter than the limit of \<open>bufio.Scanner\<close>, 64 KiB.
\<close>

datatype test_error = GotNone | Differ "float64 list" "float64 list" | Quantiles_differ "nat list"

subsection \<open>Counters\<close>

fun fill_loop :: "'w metrics_Counter \<Rightarrow> int list \<Rightarrow> float64 \<Rightarrow> 'w \<Rightarrow> 'w \<times> float64 outcome" where
  "fill_loop counter [] want w = (w, Ret want)"
| "fill_loop counter (i # a) want w =
     (let f = f64_of_int i in
      case mc_Add counter f w of
        (w1, Panic m) \<Rightarrow> (w1, Panic m)
      | (w1, Ret _) \<Rightarrow> fill_loop counter a (f64_add want f) w1)"

definition FillCounter :: "'w metrics_Counter \<Rightarrow> int list \<Rightarrow> nat \<Rightarrow> 'w \<Rightarrow> 'w \<times> float64 outcome" where
  "FillCounter counter a n w = fill_loop counter (take n a) (F64 0) w"

definition TestCounter :: "'w metrics_Counter \<Rightarrow> ('w \<Rightarrow> 'w \<times> float64 outcome) \<Rightarrow> int list \<Rightarrow> nat \<Rightarrow> 'w \<Rightarrow> 'w \<times> test_error option outcome" where
  "TestCounter counter value a n w =
     (case FillCounter counter a n w of
        (w1, Panic m) \<Rightarrow> (w1, Panic m)
      | (w1, Ret want) \<Rightarrow>
          (case value w1 of
             (w2, Panic m) \<Rightarrow> (w2, Panic m)
           | (w2, Ret got) \<Rightarrow> (w2, Ret (if \<not> f64_eq want got then Some (Differ [want] [got]) else None))))"

subsection \<open>Gauges\<close>

fun set_loop :: "'w metrics_Gauge \<Rightarrow> int list \<Rightarrow> float64 list \<Rightarrow> 'w \<Rightarrow> 'w \<times> float64 list outcome" where
  "set_loop gauge [] want w = (w, Ret want)"
| "set_loop gauge (i # a) want w =
     (let f = f64_of_int i in
      case mg_Set gauge f w of
        (w1, Panic m) \<Rightarrow> (w1, Panic m)
      | (w1, Ret _) \<Rightarrow> set_loop gauge a (want @ [f]) w1)"

fun add_loop :: "'w metrics_Gauge \<Rightarrow> int list \<Rightarrow> float64 list \<Rightarrow> 'w \<Rightarrow> 'w \<times> float64 list outcome" where
  "add_loop gauge [] want w = (w, Ret want)"
| "add_loop gauge (i # a) want w =
     (let f = f64_of_int i in
      case mg_Add gauge f w of
        (w1, Panic m) \<Rightarrow> (w1, Panic m)
      | (w1, Ret _) \<Rightarrow> add_loop gauge a (want @ [f64_add (last want) f]) w1)"

text \<open>\<open>sort.Float64s\<close> puts NaN first; \<open>reflect.DeepEqual\<close> compares with ==.\<close>

definition f64_less :: "float64 \<Rightarrow> float64 \<Rightarrow> bool" where
  "f64_less a b \<longleftrightarrow> f64_lt a b \<or> (a = F64_NaN \<and> b \<noteq> F64_NaN)"

fun f64_insert :: "float64 \<Rightarrow> float64 list \<Rightarrow> float64 list" where
  "f64_insert x [] = [x]"
| "f64_insert x (y # ys) = (if f64_less y x then y # f64_insert x ys else x # y # ys)"

definition Float64s :: "float64 list \<Rightarrow> float64 list" where
  "Float64s xs = foldr f64_insert xs []"

definition gauge_verdict :: "float64 list \<Rightarrow> float64 list \<Rightarrow> test_error option outcome" where
  "gauge_verdict want got =
     (case got of
        [] \<Rightarrow> Ret (Some GotNone)
      | [h] \<Rightarrow>
          if want = [] then Panic ''index out of range''
          else Ret (if \<not> f64_eq h (last want) then Some (Differ want got) else None)
      | _ \<Rightarrow> Ret (if \<not> list_all2 f64_eq (Float64s want) (Float64s got)
                  then Some (Differ (Float64s want) (Float64s got)) else None))"

definition TestGauge :: "'w metrics_Gauge \<Rightarrow> ('w \<Rightarrow> 'w \<times> float64 list outcome) \<Rightarrow> int list \<Rightarrow> nat \<Rightarrow> 'w \<Rightarrow> 'w \<times> test_error option outcome" where
  "TestGauge gauge value a n w =
     (case set_loop gauge (take n a) [] w of
        (w1, Panic m) \<Rightarrow> (w1, Panic m)
      | (w1, Ret want) \<Rightarrow>
          (case add_loop gauge (take n a) want w1 of
             (w2, Panic m) \<Rightarrow> (w2, Panic m)
           | (w2, Ret want) \<Rightarrow>
               (case value w2 of
                  (w3, Panic m) \<Rightarrow> (w3, Panic m)
                | (w3, Ret got) \<Rightarrow> (w3, gauge_verdict want got))))"

subsection \<open>Histograms\<close>

definition Count :: int where "Count = 12345"
definition Mean :: int where "Mean = 500"
definition Stdev :: int where "Stdev = 25"

record math =
  m_Log :: "float64 \<Rightarrow> float64"
  m_Sqrt :: "float64 \<Rightarrow> float64"
  m_Exp :: "float64 \<Rightarrow> float64"
  m_Erf :: "float64 \<Rightarrow> float64"

text \<open>The constants of package math are exact until they are used.\<close>

definition Sqrt2 :: rat where "Sqrt2 = 141421356237309504880168872420969807856967187537694807317667974 / 10 ^ 62"
definition SqrtPi :: rat where "SqrtPi = 177245385090551602729816748334114518279754945612238712821380779 / 10 ^ 62"

definition f64_abs :: "float64 \<Rightarrow> float64" where
  "f64_abs x = (if f64_neg x then f64_minus x else x)"

fun populate_loop :: "'w metrics_Histogram \<Rightarrow> float64 list \<Rightarrow> 'w \<Rightarrow> 'w \<times> unit outcome" where
  "populate_loop h [] w = (w, Ret ())"
| "populate_loop h (r # rs) w =
     (let sample = f64_add (f64_mul r (f64_of_int Stdev)) (f64_of_int Mean);
          sample = (if f64_lt sample (F64 0) then F64 0 else sample)
      in case mh_Observe h sample w of
           (w1, Panic m) \<Rightarrow> (w1, Panic m)
         | (w1, Ret _) \<Rightarrow> populate_loop h rs w1)"

definition PopulateNormalHistogram :: "'w metrics_Histogram \<Rightarrow> (nat \<Rightarrow> float64) \<Rightarrow> 'w \<Rightarrow> 'w \<times> unit outcome" where
  "PopulateNormalHistogram h NormFloat64 w = populate_loop h (map NormFloat64 [0..<nat Count]) w"

text \<open>Horner's scheme, from the coefficient of the highest power down.\<close>

definition poly :: "float64 list \<Rightarrow> float64 \<Rightarrow> float64" where
  "poly cs z = (case cs of [] \<Rightarrow> F64 0 | c # cs \<Rightarrow> foldl (\<lambda>x c. f64_add (f64_mul x z) c) c cs)"

definition erfinv_a :: "float64 list" where
  "erfinv_a = map f64_round [886226899 / 10 ^ 9, - 1645349621 / 10 ^ 9, 914624893 / 10 ^ 9, - 140543331 / 10 ^ 9]"
definition erfinv_b :: "float64 list" where
  "erfinv_b = map f64_round [- 2118377725 / 10 ^ 9, 1442710462 / 10 ^ 9, - 329097515 / 10 ^ 9, 12229801 / 10 ^ 9]"
definition erfinv_c :: "float64 list" where
  "erfinv_c = map f64_round [- 1970840454 / 10 ^ 9, - 1624906493 / 10 ^ 9, 3429567803 / 10 ^ 9, 1641345311 / 10 ^ 9]"
definition erfinv_d :: "float64 list" where
  "erfinv_d = map f64_round [3543889200 / 10 ^ 9, 1637067800 / 10 ^ 9]"

definition erfinv_newton :: "math \<Rightarrow> float64 \<Rightarrow> float64 \<Rightarrow> float64" where
  "erfinv_newton M y x =
     f64_sub x (f64_div (f64_sub (m_Erf M x) y) (f64_mul (f64_round (2 / SqrtPi)) (m_Exp M (f64_mul (f64_minus x) x))))"

definition erfinv_tail :: "float64 \<Rightarrow> float64" where
  "erfinv_tail z =
     f64_div (poly [erfinv_c ! 3, erfinv_c ! 2, erfinv_c ! 1, erfinv_c ! 0] z) (poly [erfinv_d ! 1, erfinv_d ! 0, F64 1] z)"

definition erfinv :: "math \<Rightarrow> float64 \<Rightarrow> float64 outcome" where
  "erfinv M y =
     (if f64_lt y (F64 (- 1)) \<or> f64_lt (F64 1) y then Panic ''invalid input''
      else
        let y0 = f64_round (7 / 10) in
        if f64_eq (f64_abs y) (F64 1) then Ret (f64_mul (f64_minus y) (m_Log M (F64 0)))
        else if f64_lt y (f64_minus y0) then
          (let z = m_Sqrt M (f64_minus (m_Log M (f64_div (f64_add (F64 1) y) (F64 2)))) in Ret (f64_minus (erfinv_tail z)))
        else
          let x = (if f64_lt y y0 then
                     (let z = f64_mul y y in
                      f64_div (f64_mul y (poly [erfinv_a ! 3, erfinv_a ! 2, erfinv_a ! 1, erfinv_a ! 0] z))
                        (poly [erfinv_b ! 3, erfinv_b ! 3, erfinv_b ! 1, erfinv_b ! 0, F64 1] z))
                   else erfinv_tail (m_Sqrt M (f64_minus (m_Log M (f64_div (f64_sub (F64 1) y) (F64 2))))))
          in Ret (erfinv_newton M y (erfinv_newton M y x)))"

definition nvq :: "math \<Rightarrow> int \<Rightarrow> float64 outcome" where
  "nvq M quantile =
     map_outcome (\<lambda>e. f64_add (f64_of_int Mean) (f64_mul (f64_mul (f64_of_int Stdev) (f64_round Sqrt2)) e))
       (erfinv M (f64_sub (f64_mul (F64 2) (f64_div (f64_of_int quantile) (F64 100))) (F64 1)))"

definition normalQuantiles :: "math \<Rightarrow> float64 outcome list" where
  "normalQuantiles M = map (nvq M) [50, 90, 95, 99]"

text \<open>The function \<open>cmp\<close>: false if the relative difference is greater than the tolerance.\<close>

definition cmp :: "float64 \<Rightarrow> float64 \<Rightarrow> float64 \<Rightarrow> bool" where
  "cmp want got tol = (if f64_lt tol (f64_div (f64_abs (f64_sub want got)) want) then False else True)"

fun quantile_errs :: "nat list \<Rightarrow> float64 outcome list \<Rightarrow> float64 list \<Rightarrow> float64 \<Rightarrow> nat list outcome" where
  "quantile_errs (p # ps) (Ret want # ws) (h # hs) tol =
     map_outcome (\<lambda>errs. if \<not> cmp want h tol then p # errs else errs) (quantile_errs ps ws hs tol)"
| "quantile_errs (p # ps) (Panic m # ws) hs tol = Panic m"
| "quantile_errs _ _ _ tol = Ret []"

definition TestHistogram :: "math \<Rightarrow> 'w metrics_Histogram \<Rightarrow> ('w \<Rightarrow> 'w \<times> float64 list outcome) \<Rightarrow> float64 \<Rightarrow> (nat \<Rightarrow> float64) \<Rightarrow> 'w
    \<Rightarrow> 'w \<times> test_error option outcome" where
  "TestHistogram M histogram quantiles tolerance NormFloat64 w =
     (case PopulateNormalHistogram histogram NormFloat64 w of
        (w1, Panic m) \<Rightarrow> (w1, Panic m)
      | (w1, Ret _) \<Rightarrow>
          (case quantiles w1 of
             (w2, Panic m) \<Rightarrow> (w2, Panic m)
           | (w2, Ret hs) \<Rightarrow>
               (w2, map_outcome (\<lambda>errs. if length errs > 0 then Some (Quantiles_differ errs) else None)
                      (quantile_errs [50, 90, 95, 99] (normalQuantiles M) hs tolerance))))"

definition ExpectedObservationsLessThan :: "math \<Rightarrow> (float64 \<Rightarrow> int) \<Rightarrow> int \<Rightarrow> int" where
  "ExpectedObservationsLessThan M impl bucket =
     (let cdf = f64_mul (F64 (1 / 2)) (f64_add (F64 1)
            (m_Erf M (f64_div (f64_sub (f64_of_int bucket) (f64_of_int Mean)) (f64_mul (f64_of_int Stdev) (f64_round Sqrt2)))))
      in f64_to_int64 impl (f64_mul cdf (f64_of_int Count)))"

subsection \<open>Lines\<close>

definition drop_cr :: "string \<Rightarrow> string" where
  "drop_cr l = (if l \<noteq> [] \<and> last l = CHR 0x0D then butlast l else l)"

definition scan_lines :: "string \<Rightarrow> string list" where
  "scan_lines s = (let ls = strings_Split s (CHR 0x0A) in map drop_cr (if last ls = [] then butlast ls else ls))"

text \<open>\<open>submatch\<close> is \<open>FindStringSubmatch\<close> of the expression, an empty list if nothing matches.\<close>

fun stats_loop :: "(string \<Rightarrow> string list) \<Rightarrow> (string \<Rightarrow> string + float64) \<Rightarrow> string list \<Rightarrow> float64 \<times> float64 \<times> float64 list
    \<Rightarrow> (float64 \<times> float64 \<times> float64 list) outcome" where
  "stats_loop submatch ParseFloat [] st = Ret st"
| "stats_loop submatch ParseFloat (l # ls) (s, final, observed) =
     (if length (submatch l) < 2 then Panic ''index out of range''
      else case ParseFloat (submatch l ! 1) of
             Inl err \<Rightarrow> Panic err
           | Inr f \<Rightarrow> stats_loop submatch ParseFloat ls (f64_add s f, f, observed @ [f]))"

definition test_stats :: "(string \<Rightarrow> string list) \<Rightarrow> (string \<Rightarrow> string + float64) \<Rightarrow> ('w \<Rightarrow> 'w \<times> string) \<Rightarrow> 'w
    \<Rightarrow> 'w \<times> (float64 \<times> float64 \<times> float64 list) outcome" where
  "test_stats submatch ParseFloat WriteTo w =
     (case WriteTo w of (w1, buf) \<Rightarrow> (w1, stats_loop submatch ParseFloat (scan_lines buf) (F64 0, F64 0, [])))"

definition SumLines :: "(string \<Rightarrow> string list) \<Rightarrow> (string \<Rightarrow> string + float64) \<Rightarrow> ('w \<Rightarrow> 'w \<times> string) \<Rightarrow> 'w \<Rightarrow> 'w \<times> float64 outcome" where
  "SumLines submatch ParseFloat WriteTo w = map_prod id (map_outcome fst) (test_stats submatch ParseFloat WriteTo w)"

definition LastLine :: "(string \<Rightarrow> string list) \<Rightarrow> (string \<Rightarrow> string + float64) \<Rightarrow> ('w \<Rightarrow> 'w \<times> string) \<Rightarrow> 'w \<Rightarrow> 'w \<times> float64 list outcome" where
  "LastLine submatch ParseFloat WriteTo w =
     map_prod id (map_outcome (\<lambda>(_, final, _). [final])) (test_stats submatch ParseFloat WriteTo w)"

text \<open>The histogram of \<open>Quantiles\<close> observes the values in order; nothing else has its buckets.\<close>

definition teststat_Quantiles :: "'h quantiles \<Rightarrow> (string \<Rightarrow> string list) \<Rightarrow> (string \<Rightarrow> string + float64) \<Rightarrow> ('w \<Rightarrow> 'w \<times> string)
    \<Rightarrow> int \<Rightarrow> 'w \<Rightarrow> 'w \<times> float64 list outcome" where
  "teststat_Quantiles q submatch ParseFloat WriteTo buckets w =
     map_prod id (map_outcome (\<lambda>(_, _, observed).
         (let (hs, h) = NewHistogram (new_gohistogram q) ''quantile-test'' buckets [];
              hs1 = fold (Histogram_Observe (gohistogram_Add q) h) observed hs
          in map (\<lambda>p. Histogram_Quantile (gohistogram_Quantile q) hs1 h (f64_round p)) [50 / 100, 90 / 100, 95 / 100, 99 / 100])))
       (test_stats submatch ParseFloat WriteTo w)"

subsection \<open>Metrics that pass\<close>

text \<open>
  What a metric has to do to pass: its value is the sum of what was added, or what was set last plus what was added
  since. The contract is on the handles of a backend, of which \<open>good_counter\<close> and \<open>good_gauge\<close> say in a state that they exist.
\<close>

locale accumulating =
  fixes B :: "('s, 'c, 'g, 'h) backend"
    and good_counter :: "'s \<Rightarrow> 'c \<Rightarrow> bool" and counter_value :: "'s \<Rightarrow> 'c \<Rightarrow> float64"
    and good_gauge :: "'s \<Rightarrow> 'g \<Rightarrow> bool" and gauge_value :: "'s \<Rightarrow> 'g \<Rightarrow> float64"
  assumes counter_adds: "good_counter s c \<Longrightarrow>
      \<exists>s'. b_Counter_Add B c d s = (s', Ret ()) \<and> good_counter s' c \<and> counter_value s' c = f64_add (counter_value s c) d"
    and gauge_sets: "good_gauge s g \<Longrightarrow>
      \<exists>s'. b_Gauge_Set B g x s = (s', Ret ()) \<and> good_gauge s' g \<and> gauge_value s' g = x"
    and gauge_adds: "good_gauge s g \<Longrightarrow>
      \<exists>s'. b_Gauge_Add B g d s = (s', Ret ()) \<and> good_gauge s' g \<and> gauge_value s' g = f64_add (gauge_value s g) d"
begin

lemma fills:
  assumes "good_counter s c" and "counter_value s c = F64 (of_int k)" and "0 \<le> k" and "list_all (\<lambda>i. 0 \<le> i \<and> i < 100) xs"
    and "k + 100 * int (length xs) < 2 ^ 53"
  shows "\<exists>s'. fill_loop (counter_of B c) xs (F64 (of_int k)) (s, v) = ((s', v), Ret (F64 (of_int (k + sum_list xs))))
     \<and> good_counter s' c \<and> counter_value s' c = F64 (of_int (k + sum_list xs))"
  using assms
proof (induction xs arbitrary: k s)
  case (Cons i xs)
  have i: "f64_of_int i = F64 (of_int i)" using Cons.prems by (intro f64_of_int_exact) auto
  have k: "f64_add (F64 (of_int k)) (F64 (of_int i)) = F64 (of_int (k + i))" using Cons.prems by (intro f64_add_int) auto
  from counter_adds [OF Cons.prems(1), of "F64 (of_int i)"] obtain s1 where s1: "b_Counter_Add B c (F64 (of_int i)) s = (s1, Ret ())"
    "good_counter s1 c" "counter_value s1 c = F64 (of_int (k + i))" using k Cons.prems(2) by auto
  have "\<exists>s'. fill_loop (counter_of B c) xs (F64 (of_int (k + i))) (s1, v) = ((s', v), Ret (F64 (of_int (k + i + sum_list xs))))
     \<and> good_counter s' c \<and> counter_value s' c = F64 (of_int (k + i + sum_list xs))"
    using Cons.prems by (intro Cons.IH s1) auto
  then show ?case by (simp add: i k [simplified] s1(1) on_object_def add.assoc)
qed auto

text \<open>Whatever is reported, the test finds out whether it is the sum.\<close>

lemma counter_tested:
  assumes "good_counter s c" and "counter_value s c = F64 0" and "list_all (\<lambda>i. 0 \<le> i \<and> i < 100) a" and "n < 100"
    and "\<forall>s'. good_counter s' c \<and> counter_value s' c = F64 (of_int (sum_list (take n a))) \<longrightarrow> value (s', v) = ((s', v), Ret got)"
  shows "\<exists>w'. TestCounter (counter_of B c) value a n (s, v)
     = (w', Ret (if f64_eq (F64 (of_int (sum_list (take n a)))) got then None else Some (Differ [F64 (of_int (sum_list (take n a)))] [got])))"
proof -
  have "int (length (take n a)) < 100" using assms(4) by simp
  then have b: "(0 :: int) + 100 * int (length (take n a)) < 2 ^ 53" by simp
  have "list_all (\<lambda>i. 0 \<le> i \<and> i < 100) (take n a)" using assms(3) by (auto simp: list_all_iff dest: in_set_takeD)
  with fills [OF assms(1), of 0 "take n a" v] b assms(2) obtain s'
    where "fill_loop (counter_of B c) (take n a) (F64 0) (s, v) = ((s', v), Ret (F64 (of_int (sum_list (take n a)))))"
      and "good_counter s' c" and "counter_value s' c = F64 (of_int (sum_list (take n a)))" by auto
  with assms(5) show ?thesis by (auto simp: TestCounter_def FillCounter_def)
qed

lemma sets:
  "good_gauge s g \<Longrightarrow> list_all (\<lambda>i. 0 \<le> i \<and> i < 100) xs \<Longrightarrow>
   \<exists>s'. set_loop (gauge_of B g) xs want (s, v) = ((s', v), Ret (want @ map f64_of_int xs)) \<and> good_gauge s' g
     \<and> (xs \<noteq> [] \<longrightarrow> gauge_value s' g = F64 (of_int (last xs)))"
proof (induction xs arbitrary: s want)
  case (Cons i xs)
  have i: "f64_of_int i = F64 (of_int i)" using Cons.prems by (intro f64_of_int_exact) auto
  from gauge_sets [OF Cons.prems(1)] obtain s1 where s1: "b_Gauge_Set B g (F64 (of_int i)) s = (s1, Ret ())"
    "good_gauge s1 g" "gauge_value s1 g = F64 (of_int i)" by metis
  from Cons.IH [OF s1(2), of "want @ [F64 (of_int i)]"] Cons.prems obtain s'
    where s': "set_loop (gauge_of B g) xs (want @ [F64 (of_int i)]) (s1, v) = ((s', v), Ret (want @ F64 (of_int i) # map f64_of_int xs))"
      "good_gauge s' g" "xs \<noteq> [] \<longrightarrow> gauge_value s' g = F64 (of_int (last xs))" by auto
  show ?case
  proof (cases "xs = []")
    case True
    with s' s1 show ?thesis by (auto simp: i on_object_def)
  qed (use s' s1 in \<open>auto simp: i on_object_def\<close>)
qed simp

lemma adds:
  assumes "good_gauge s g" and "gauge_value s g = F64 (of_int k)" and "want \<noteq> []" and "last want = F64 (of_int k)" and "0 \<le> k"
    and "list_all (\<lambda>i. 0 \<le> i \<and> i < 100) xs" and "k + 100 * int (length xs) < 2 ^ 53"
  shows "\<exists>s' more. add_loop (gauge_of B g) xs want (s, v) = ((s', v), Ret (want @ more)) \<and> good_gauge s' g
     \<and> gauge_value s' g = F64 (of_int (k + sum_list xs)) \<and> last (want @ more) = F64 (of_int (k + sum_list xs))"
  using assms
proof (induction xs arbitrary: k s want)
  case (Cons i xs)
  have i: "f64_of_int i = F64 (of_int i)" using Cons.prems by (intro f64_of_int_exact) auto
  have k: "f64_add (F64 (of_int k)) (F64 (of_int i)) = F64 (of_int (k + i))" using Cons.prems by (intro f64_add_int) auto
  from gauge_adds [OF Cons.prems(1), of "F64 (of_int i)"] obtain s1 where s1: "b_Gauge_Add B g (F64 (of_int i)) s = (s1, Ret ())"
    "good_gauge s1 g" "gauge_value s1 g = F64 (of_int (k + i))" using k Cons.prems(2) by auto
  have "\<exists>s' more. add_loop (gauge_of B g) xs (want @ [F64 (of_int (k + i))]) (s1, v)
        = ((s', v), Ret ((want @ [F64 (of_int (k + i))]) @ more)) \<and> good_gauge s' g
     \<and> gauge_value s' g = F64 (of_int (k + i + sum_list xs)) \<and> last ((want @ [F64 (of_int (k + i))]) @ more) = F64 (of_int (k + i + sum_list xs))"
    using Cons.prems by (intro Cons.IH s1) auto
  then show ?case using Cons.prems by (auto simp: i k [simplified] s1(1) on_object_def add.assoc)
qed (auto intro: exI [of _ "[]"])

lemma gauge_tested:
  assumes "good_gauge s g" and "a \<noteq> []" and "list_all (\<lambda>i. 0 \<le> i \<and> i < 100) a" and "0 < n" and "n < 100"
    and "\<forall>s'. value (s', v) = ((s', v), Ret [gauge_value s' g])"
  shows "\<exists>w'. TestGauge (gauge_of B g) value a n (s, v) = (w', Ret None)"
proof -
  let ?a = "take n a"
  have a: "?a \<noteq> []" "int (length ?a) < 100" using assms by auto
  have l: "list_all (\<lambda>i. 0 \<le> i \<and> i < 100) ?a" using assms(3) by (auto simp: list_all_iff dest: in_set_takeD)
  have last_a: "0 \<le> last ?a" "last ?a < 100" using l a(1) by (auto simp: list_all_iff)
  from sets [OF assms(1) l, of "[]" v] obtain s1 where s1: "set_loop (gauge_of B g) ?a [] (s, v) = ((s1, v), Ret (map f64_of_int ?a))"
    "good_gauge s1 g" "gauge_value s1 g = F64 (of_int (last ?a))" using a(1) by auto
  have lw: "last (map f64_of_int ?a) = F64 (of_int (last ?a))" using last_a a(1) f64_of_int_exact [of "last ?a"] by (simp add: last_map)
  have "last ?a + 100 * int (length ?a) < 2 ^ 53" using last_a(2) a(2) by simp
  from adds [OF s1(2,3) _ lw last_a(1) l this] a(1) obtain s2 more
    where s2: "add_loop (gauge_of B g) ?a (map f64_of_int ?a) (s1, v) = ((s2, v), Ret (map f64_of_int ?a @ more))"
      and v: "gauge_value s2 g = F64 (of_int (last ?a + sum_list ?a))" "last (map f64_of_int ?a @ more) = F64 (of_int (last ?a + sum_list ?a))"
    by (metis map_is_Nil_conv)
  have "gauge_verdict (map f64_of_int ?a @ more) [gauge_value s2 g] = Ret None"
    using a(1) by (simp only: v) (simp add: gauge_verdict_def v(2) f64_eq_def f64_lt_def)
  then show ?thesis by (simp add: TestGauge_def s1(1) s2 assms(6))
qed

end

interpretation graphite_exact: accumulating "graphiteProvider mk_hist add"
    "\<lambda>s c. c < length (gr_cheap s)" "\<lambda>s c. Counter_Value (gr_cheap s ! c)"
    "\<lambda>s g. g < length (gr_gheap s)" "\<lambda>s g. Gauge_Value (gr_gheap s ! g)" for mk_hist add
  by unfold_locales (auto simp: graphiteProvider_def Graphite_Counter_Add_def Graphite_Gauge_Set_def Graphite_Gauge_Add_def
      Counter_Add_def Counter_Value_def Gauge_Set_def Gauge_Add_def Gauge_Value_def)

interpretation expvar_exact: accumulating "expvarProvider mk_hist add quantile"
    "\<lambda>_ _. True" "\<lambda>s c. Float_Value (ec_f c) (snd s)" "\<lambda>_ _. True" "\<lambda>s g. Float_Value (eg_f g) (snd s)" for mk_hist add quantile
  by unfold_locales (auto simp: expvarProvider_def expvar_Counter_Add_def expvar_Gauge_Set_def expvar_Gauge_Add_def
      Float_Add_def Float_Set_def Float_Value_def update_conv')

subsection \<open>Properties\<close>

text \<open>TestCounter\<close>

theorem graphite_counter_tested:
  assumes "b_NewCounter (graphiteProvider mk_hist add) name s = (s1, Ret c)"
    and "mset a = mset_set {0..99}" and "n < 100"
    and "\<forall>s'. value (s', v) = ((s', v), Ret (report (Counter_Value (gr_cheap s' ! c))))"
  shows "\<exists>w'. TestCounter (counter_of (graphiteProvider mk_hist add) c) value a n (s1, v)
     = (w', Ret (let want = F64 (of_int (sum_list (take n a)))
                 in if f64_eq want (report want) then None else Some (Differ [want] [report want])))"
proof -
  have "set a = {0..99}" using arg_cong [OF assms(2), of set_mset] by simp
  then have a: "list_all (\<lambda>i. 0 \<le> i \<and> i < 100) a" by (auto simp: list_all_iff)
  have c: "c < length (gr_cheap s1)" "Counter_Value (gr_cheap s1 ! c) = F64 0"
    using assms(1) by (auto simp: graphiteProvider_def Graphite_NewCounter_def NewCounter_def Counter_Value_def Let_def)
  show ?thesis unfolding Let_def using assms(4) by (intro graphite_exact.counter_tested [OF c a assms(3)]) auto
qed

text \<open>TestGauge\<close>

theorem expvar_gauge_tested:
  assumes "expvar_NewGauge name vars = (vars1, Ret g)" and "mset a = mset_set {0..99}" and "n < 100"
    and "\<forall>s'. value (s', v) = ((s', v), Ret [Float_Value (eg_f g) (snd s')])"
  shows "\<exists>w'. TestGauge (gauge_of (expvarProvider mk_hist add quantile) g) value a n ((hs, vars1), v)
     = (w', if n = 0 then Panic ''index out of range'' else Ret None)"
proof -
  have "set a = {0..99}" using arg_cong [OF assms(2), of set_mset] by simp
  then have a: "list_all (\<lambda>i. 0 \<le> i \<and> i < 100) a" and e: "a \<noteq> []" by (auto simp: list_all_iff)
  show ?thesis
  proof (cases "n = 0")
    case True
    then show ?thesis using assms(4) by (simp add: TestGauge_def gauge_verdict_def)
  next
    case False
    have "\<exists>w'. TestGauge (gauge_of (expvarProvider mk_hist add quantile) g) value a n ((hs, vars1), v) = (w', Ret None)"
      by (rule expvar_exact.gauge_tested [OF TrueI e a _ assms(3)]) (use False assms(4) in auto)
    with False show ?thesis by simp
  qed
qed


text \<open>The test of a fresh counter passes, and one that reports another sum is found out.\<close>

lemma mset_upto: "mset [0..99 :: int] = mset_set {0..99}"
  using mset_set_set [of "[0..99 :: int]"] by simp

theorem graphite_counter_tested_witness:
  "(\<exists>w'. TestCounter (counter_of (graphiteProvider (\<lambda>_. ()) (\<lambda>h _. Ret h)) 0)
        (\<lambda>w. (w, Ret (f64_add (F64 0) (Counter_Value (gr_cheap (fst w) ! 0))))) [0..99] 3
        (fst (Graphite_NewCounter (Graphite_New ''p.'') ''c''), ()) = (w', Ret None))
    \<and> (\<exists>w'. TestCounter (counter_of (graphiteProvider (\<lambda>_. ()) (\<lambda>h _. Ret h)) 0) (\<lambda>w. (w, Ret (F64 2))) [0..99] 3
        (fst (Graphite_NewCounter (Graphite_New ''p.'') ''c''), ()) = (w', Ret (Some (Differ [F64 3] [F64 2]))))"
proof -
  let ?s = "fst (Graphite_NewCounter (Graphite_New ''p.'' :: unit Graphite) ''c'')"
  have c: "b_NewCounter (graphiteProvider (\<lambda>_. ()) (\<lambda>h _. Ret h)) ''c'' (Graphite_New ''p.'') = (?s, Ret 0)"
    by (simp add: graphiteProvider_def Graphite_NewCounter_def Graphite_New_def Let_def)
  have s: "sum_list (take 3 [0..99 :: int]) = 3" by (simp add: upto.simps [of 0] upto.simps [of 1] upto.simps [of 2] eval_nat_numeral)
  have z: "f64_add (F64 0) (F64 3) = F64 3" using f64_add_int [of 0 3] by simp
  have A: "\<exists>w'. TestCounter (counter_of (graphiteProvider (\<lambda>_. ()) (\<lambda>h _. Ret h)) 0)
        (\<lambda>w. (w, Ret (f64_add (F64 0) (Counter_Value (gr_cheap (fst w) ! 0))))) [0..99] 3 (?s, ()) = (w', Ret None)"
    using graphite_counter_tested [OF c mset_upto, of 3
        "\<lambda>w. (w, Ret (f64_add (F64 0) (Counter_Value (gr_cheap (fst w) ! 0))))" "()" "f64_add (F64 0)"]
    by (simp add: s z f64_eq_def f64_lt_def)
  have B: "\<exists>w'. TestCounter (counter_of (graphiteProvider (\<lambda>_. ()) (\<lambda>h _. Ret h)) 0) (\<lambda>w. (w, Ret (F64 2))) [0..99] 3 (?s, ())
      = (w', Ret (Some (Differ [F64 3] [F64 2])))"
    using graphite_counter_tested [OF c mset_upto, of 3 "\<lambda>w. (w, Ret (F64 2))" "()" "\<lambda>_. F64 2"]
    by (simp add: s f64_eq_def f64_lt_def)
  from A B show ?thesis by (rule conjI)
qed

theorem expvar_gauge_tested_witness:
  "\<exists>w'. TestGauge (gauge_of (expvarProvider (\<lambda>_. ()) (\<lambda>h _. Ret h) (\<lambda>_ _. F64 0)) \<lparr>eg_f = ''g''\<rparr>)
        (\<lambda>w. (w, Ret [Float_Value ''g'' (snd (fst w))])) [0..99] 0 (([], [(''g'', F64 0)]), ()) = (w', Panic ''index out of range'')"
  using expvar_gauge_tested [OF _ mset_upto, of "''g''" "[]" "[(''g'', F64 0)]" "\<lparr>eg_f = ''g''\<rparr>" 0
      "\<lambda>w. (w, Ret [Float_Value ''g'' (snd (fst w))])" "()"]
  by (simp add: expvar_NewGauge_def expvar_NewFloat_def)

end
