(* ===== verification/Spec2Isabelle.thy ===== *)
theory Spec2Isabelle
  imports Prelude Go_Strings Float64 Instance_Cache Endpoint_Cache Balancer Retry
    Conn_Manager Label_Values Label_Tree Space Line_Writer Statsd Generic_Metrics Dogstatsd
    Endpoint Rate_Limits Http Basic_Auth Jwt_Auth Http_Server Http_Client Jsonrpc Grpc
    Instancers Dns_Srv Consul Zookeeper Etcd Etcd3 Eureka Fasthttp Influx Metric_Interfaces
    Cloudwatch Graphite Zipkin Grpc_Service Discovery Prometheus Expvar Pcp Provider Registry Teststat
begin

text \<open>
  Yoroi, a toolkit for microservices in Go (a fork of Go kit). A service is a set of endpoints, functions from
  a request to a response or an error. Transports (HTTP, JSON-RPC, gRPC, fasthttp) serve endpoints and
  make endpoints of remote services; middlewares (authentication, rate limits, circuit breakers) wrap
  them; service discovery keeps the endpoints of a remote service up to date with a registry, and the
  load balancers choose among them; metrics are collected in memory and flushed to a backend, over a
  connection that a manager keeps alive. This development models each of these parts in a theory of its own and
  proves what makes it correct; where the code does not do what it is documented to do, a theorem shows
  the behaviour that it has.

  Service discovery, from the registry to the call.
    \<^item> Instance_Cache (sd/internal/instance/cache.go, sd/instancer.go): \<open>Cache_Update\<close>, \<open>Cache_Register\<close> and so on
      work on the cached event and the registry of channels; slices live in a store, since the code shares
      their arrays. Shown: every observer was last sent the current state; a receiver cannot change the cache.
    \<^item> Instancers, Dns_Srv, Consul, Zookeeper, Etcd, Etcd3, Eureka (sd/dnssrv, consul, zk, etcd, etcdv3, eureka): the
      instancer that all backends have (a cache, a goroutine that feeds it, \<open>Stop\<close>) is a record with a step
      relation, \<open>instancer_run\<close>, and the locale \<open>instancer_loop\<close> is the contract between the loop of a backend
      and the cache. Each backend has its loop, its client and its registrar. Shown: what the cache holds
      after any run (the last lookup, the last answer of the agent that was not dropped, the last answer of etcd), leases and sessions
      of registrars, paths of nodes, bounds of the TTL; and deadlocks, lost watches and stale registrations.
    \<^item> Endpoint_Cache (sd/endpoint_cache.go, endpointer.go, factory.go): \<open>endpointCache_Update\<close> makes and closes
      endpoints; its effects are a trace. Locales \<open>event_source\<close>, \<open>cache_source\<close> and \<open>endpointer\<close> state what it needs
      of a source of events and what a client of it gets. Shown: no closer leaks or is closed twice for updates
      without duplicates, the expiry of a cache in an error state, and that endpointers follow their instancer.
    \<^item> Balancer and Retry (sd/lb): round robin on a 64-bit counter that wraps around, random choice, and the
      retrying endpoint, whose loop is a \<open>partial_function\<close>: it returns exactly if some attempt ends it.
    \<^item> Registry (sd/etcdv3/instancer.go) puts registrars and an instancer of etcd v3 around one cluster, known by its map of keys: what was
      registered under the prefix is what the instancer publishes once the watch and the loop both wait, unless its last query failed.
      The watch, the channel to the loop, the query and the update of the cache are separate steps.
    \<^item> Discovery puts the chain together, DNS lookups, instancer, endpointer, round robin, retry and gRPC clients of the
      addresses: if one instance of the last lookup always answers, a call returns for every limit and deadline: a response of an
      instance of that lookup, the error of the deadline, or, if the limit is below the number of instances, a \<open>RetryError\<close>.

  Endpoints and transports.
    \<^item> Endpoint (endpoint): an endpoint takes context values, a request and a world and returns the world and a reply,
      a value or an error or a panic; \<open>Chain\<close> composes middlewares. The locale \<open>guard\<close> is the contract of a middleware that
      checks a request before it passes it on. Rate_Limits (ratelimit, circuitbreaker), Basic_Auth (auth/basic) and
      Jwt_Auth (auth/jwt) are such middlewares; a theorem shows a chain of three as one case distinction.
    \<^item> Http (headers and request contexts), Http_Server and Http_Client (transport, transport/http, transport/http/proto), Jsonrpc,
      Grpc and Fasthttp: servers and clients as records of the functions that their options set, and their
      handlers stage by stage, errors, finalizers and deferred calls included. Shown: the client of a server behaves as the
      endpoint behind it (gRPC, and HTTP with JSON for successes and panics; an HTTP client makes of an error what its decoder
      makes of the error's body), the order of the stages, the codes of errors, the exact release of bodies and contexts.
    \<^item> Zipkin (tracing/zipkin): the hooks that trace a request, installed in those servers and clients; the library is a
      record of functions on the world. Shown: each request has one span, started, tagged, finished and flushed whatever
      happens to it, with the code and size of the response if the encoder sends them once through its writer; a span continues that of the client; a client that cannot make its request ends its caller's span.
    \<^item> Grpc_Service (transport/grpc/_grpc_test, example): two services over the gRPC transport. Shown: an id that a caller puts into
      its context goes through the metadata of the call and the trailer of the response and comes back, over a wire
      that behaves as package grpc documents it.

  Metrics.
    \<^item> Label_Values, Label_Tree, Space (metrics/internal/lv, ratemap): label values with Go's sharing \<open>append\<close>, the tree of
      nodes, and the space of time series, which refines a map from names and labels to lists of values.
    \<^item> Generic_Metrics (metrics/generic), where loads and swaps of goroutines interleave and calls are shown to take effect
      in the order of their swaps; Metric_Interfaces (metrics, multi, convert, discard,
      timers): interfaces as codatatypes, so that equations between metrics hold for all sequences of calls.
    \<^item> Line_Writer, Statsd, Dogstatsd (with influxstatsd), Graphite, Influx, Cloudwatch: the backends. Each flush is shown to write one
      entry for each series, with its values, up to the first error, and what is left after it. The requests of Cloudwatch are
      goroutines behind a semaphore.
    \<^item> Prometheus, Pcp and Expvar (metrics/prometheus, pcp, expvar): metrics of libraries and of the standard library, and Provider
      (metrics/provider), the constructors of all backends behind one interface. The locale \<open>metric_backend\<close> is the contract of a
      backend with the program that uses its metrics: no call panics, whatever came before. Shown: the
      providers of statsd, dogstatsd, influx and discard keep it, and how the metrics of prometheus and expvar panic. A histogram of
      graphite or expvar ends a call as the library's does, which is a parameter.
    \<^item> Teststat (metrics/teststat): the tests of the backends, over random numbers that are arguments. The locale \<open>accumulating\<close> is
      what a metric has to do to pass. Shown: counters of graphite and gauges of expvar do; a test of a gauge may panic.
    \<^item> Conn_Manager (util/conn): the manager of a connection as a step relation over its channels, with the exponential backoff. Shown, for
      all states from the start on: no connection leaks and the manager always recovers; one race, of an error put before the
      result of the first dial is received, which brings a closed connection back, is named as the exception.

  Prelude, Go_Strings and Float64 are the common ground: maps as association lists with an explicit order of iteration,
  outcomes of calls that may panic, decimal printing, and IEEE doubles as rationals with correct rounding.

  Conventions. A struct is a record, a method \<open>T.M\<close> a definition \<open>T_M\<close> (with a prefix where packages share names). The order in which
  a Go map is ranged over is an argument, of which only \<open>iterates\<close> is assumed. Errors are values; a panic is an
  outcome. Integers keep their width where it matters: counters and indices are words, durations wrap as int64 (\<open>wrap_int64\<close>).
  Code outside the repository (clients of registries, grpc, net/http, tokens, hash functions, quantiles) is a parameter,
  a function or a record of functions on a world; what a theorem needs of it is a named hypothesis, with an instance in its witness.
  Concurrency is a step relation whose steps are the critical sections of the code; all interleavings are then its runs.

  Bounds and fuel. No definition has fuel: loops of goroutines are relations or functions of the list of their ticks
  or events, so that a theorem holds for every number of them; recursion over slices, trees and batches
  terminates structurally or by a measure. Sums of doubles are exact below 2^53, which is a hypothesis where it is used.

  Not modelled: logging; generated code, main functions and the listeners of tests (fasthttptest); goroutine scheduling below
  the level of critical sections. PROJECT.json lists every part with its status.
\<close>

end
